(* ===== verification/Wespe_Prelude.thy ===== *)
theory Wespe_Prelude
  imports Main "HOL-Library.Word" "HOL-Library.Monad_Syntax" "HOL-Library.List_Lexorder"
begin

unbundle bit_operations_syntax

text \<open>
  Shared vocabulary of the Wespe development.

  \<^item> Machine integers keep their C width: \<open>uint8_t\<close>, \<open>uint32_t\<close> and \<open>uint64_t\<close> are \<open>8/32/64 word\<close>,
    \<open>int32_t\<close> is a \<open>32 word\<close> read with \<open>sint\<close>. A \<open>size_t\<close> that counts bytes or array slots is a
    \<open>nat\<close>; every place where its value could leave the range of the C type carries a bound.
  \<^item> A C computation with undefined behaviour is an \<open>option\<close>: \<open>None\<close> stands for an access outside
    the object it is made on (or a loop that never ends), \<open>Some r\<close> for a run that ends with \<open>r\<close>.
    A theorem \<open>\<exists>r. f x = Some r\<close> is memory safety and termination of \<open>f\<close>.
  \<^item> A fallible C function returns \<open>status + value\<close> inside that option. \<open>chk\<close> is the idiom
    \<open>st = f(...); if (st != BER_OK) return st;\<close>.
\<close>

named_theorems safe_intros \<open>a routine has a defined result\<close>
named_theorems enc_emits \<open>an encoder writes the bytes its grammar names\<close>

type_synonym u8 = "8 word"
type_synonym u32 = "32 word"
type_synonym u64 = "64 word"
type_synonym i32 = "32 word"
type_synonym oid = "u32 list"

lemma unat_u8_bound: "unat (b :: u8) < 256"
  using unsigned_less [of b, where ?'a = nat] by simp

lemma unat_u32_bound: "unat (w :: u32) < 4294967296"
  using unsigned_less [of w, where ?'a = nat] by simp

section \<open>The status-checking bind\<close>

definition chk :: "('e + 'a) option \<Rightarrow> ('a \<Rightarrow> ('e + 'b) option) \<Rightarrow> ('e + 'b) option" where
  "chk m k = (case m of None \<Rightarrow> None | Some (Inl e) \<Rightarrow> Some (Inl e) | Some (Inr x) \<Rightarrow> k x)"

lemma chk_simps [simp]:
  "chk None k = None"
  "chk (Some (Inl e)) k = Some (Inl e)"
  "chk (Some (Inr x)) k = k x"
  by (simp_all add: chk_def)

lemma chk_cong [fundef_cong]:
  "m = m' \<Longrightarrow> (\<And>x. m' = Some (Inr x) \<Longrightarrow> k x = k' x) \<Longrightarrow> chk m k = chk m' k'"
  by (auto simp: chk_def split: option.splits sum.splits)

lemma chk_Inr_iff:
  "chk m k = Some (Inr y) \<longleftrightarrow> (\<exists>x. m = Some (Inr x) \<and> k x = Some (Inr y))"
  by (auto simp: chk_def split: option.splits sum.splits)

section \<open>Memory: a datagram and offsets into it\<close>

text \<open>
  A \<open>const uint8_t *\<close> into a received datagram is an offset into the byte list \<open>mem\<close> that holds the
  datagram. A read outside \<open>mem\<close> is \<open>None\<close>.
\<close>

definition rd :: "u8 list \<Rightarrow> nat \<Rightarrow> u8 option" where
  "rd mem i = (if i < length mem then Some (mem ! i) else None)"

text \<open>The read side of \<open>memcpy(dst, p, n)\<close>.\<close>

definition rd_bytes :: "u8 list \<Rightarrow> nat \<Rightarrow> nat \<Rightarrow> u8 list option" where
  "rd_bytes mem p n = (if p + n \<le> length mem then Some (take n (drop p mem)) else None)"

lemma rd_safe [safe_intros]: "i < length mem \<Longrightarrow> \<exists>x. rd mem i = Some x"
  by (simp add: rd_def)

lemma rd_bytes_safe [safe_intros]: "p + n \<le> length mem \<Longrightarrow> \<exists>r. rd_bytes mem p n = Some r"
  by (simp add: rd_bytes_def)

lemma rd_bytes_length: "rd_bytes mem p n = Some bs \<Longrightarrow> length bs = n"
  by (auto simp: rd_bytes_def split: if_splits)

text \<open>\<open>holds_at mem p bs\<close>: the bytes \<open>bs\<close> stand in \<open>mem\<close> from offset \<open>p\<close> on.\<close>

definition holds_at :: "u8 list \<Rightarrow> nat \<Rightarrow> u8 list \<Rightarrow> bool" where
  "holds_at mem p bs \<longleftrightarrow> p + length bs \<le> length mem \<and> take (length bs) (drop p mem) = bs"

lemma holds_at_Nil: "holds_at mem p [] \<longleftrightarrow> p \<le> length mem"
  by (simp add: holds_at_def)

lemma holds_at_append:
  "holds_at mem p (xs @ ys) \<longleftrightarrow> holds_at mem p xs \<and> holds_at mem (p + length xs) ys"
  by (auto simp: holds_at_def take_add add.commute add.left_commute)

lemma holds_at_Cons: "holds_at mem p (x # xs) \<longleftrightarrow> rd mem p = Some x \<and> holds_at mem (Suc p) xs"
proof -
  have "holds_at mem p [x] \<longleftrightarrow> rd mem p = Some x"
    by (auto simp: holds_at_def rd_def take_Suc_conv_app_nth Cons_nth_drop_Suc [symmetric])
  with holds_at_append [of mem p "[x]" xs] show ?thesis by simp
qed

lemma holds_at_bound: "holds_at mem p bs \<Longrightarrow> p + length bs \<le> length mem"
  by (simp add: holds_at_def)

lemma holds_at_rd_bytes: "holds_at mem p bs \<Longrightarrow> rd_bytes mem p (length bs) = Some bs"
  by (simp add: holds_at_def rd_bytes_def)

lemma holds_at_whole: "holds_at bs 0 bs"
  by (simp add: holds_at_def)

lemma holds_at_middle: "length pre = p \<Longrightarrow> holds_at (pre @ bs @ post) p bs"
  by (simp add: holds_at_def)

section \<open>Big-endian folds\<close>

text \<open>One turn of the loop body \<open>value = (value << 8) | byte\<close>.\<close>

definition be_step :: "'w::len word \<Rightarrow> u8 \<Rightarrow> 'w word" where
  "be_step v b = push_bit 8 v OR ucast b"

text \<open>
  The loop \<open>for (i = 0; i < n; i++) value = (value << 8) | p[i];\<close>, which the decoder has four
  times: for a length, an INTEGER, a 32-bit and a 64-bit unsigned value.
\<close>

fun be_loop :: "u8 list \<Rightarrow> nat \<Rightarrow> nat \<Rightarrow> 'w::len word \<Rightarrow> 'w word option" where
  "be_loop mem p 0 v = Some v"
| "be_loop mem p (Suc n) v = do { b \<leftarrow> rd mem p; be_loop mem (Suc p) n (be_step v b) }"

lemma be_loop_safe [safe_intros]: "p + n \<le> length mem \<Longrightarrow> \<exists>r. be_loop mem p n v = Some r"
  by (induction n arbitrary: p v) (auto simp: rd_def)

lemma be_loop_holds_at:
  "holds_at mem p bs \<Longrightarrow> be_loop mem p (length bs) v = Some (foldl be_step v bs)"
  by (induction bs arbitrary: p v) (auto simp: holds_at_Cons)

lemma be_step_arith: "be_step v b = v * 256 + (ucast b :: 'w::len word)" if "8 \<le> LENGTH('w)"
proof -
  have "push_bit 8 v AND (ucast b :: 'w word) = 0"
    by (rule bit_word_eqI) (use that in \<open>auto simp: bit_simps dest: bit_imp_le_length\<close>)
  then have "push_bit 8 v OR (ucast b :: 'w word) = push_bit 8 v + ucast b"
    by (simp add: disjunctive_add_eq_or)
  then show ?thesis by (simp add: be_step_def push_bit_eq_mult)
qed

text \<open>The low \<open>n\<close> octets of a word, most significant first.\<close>

fun be_octets :: "nat \<Rightarrow> 'w::len word \<Rightarrow> u8 list" where
  "be_octets 0 w = []"
| "be_octets (Suc n) w = ucast (drop_bit (8 * n) w) # be_octets n w"

lemma length_be_octets [simp]: "length (be_octets n w) = n"
  by (induction n) simp_all

lemma foldl_be_octets:
  "foldl be_step v (be_octets n w) = push_bit (8 * n) v OR take_bit (8 * n) (w :: 'w::len word)"
proof (induction n arbitrary: v)
  case 0
  then show ?case by simp
next
  case (Suc n)
  have "foldl be_step v (be_octets (Suc n) w)
      = push_bit (8 * n) (be_step v (ucast (drop_bit (8 * n) w))) OR take_bit (8 * n) w"
    by (simp add: Suc.IH)
  also have "\<dots> = push_bit (8 * Suc n) v OR take_bit (8 * Suc n) w"
  proof (rule bit_word_eqI)
    fix i assume "i < LENGTH('w)"
    consider "i < 8 * n" | "8 * n \<le> i" "i < 8 * n + 8" | "8 * n + 8 \<le> i" by linarith
    then show "bit (push_bit (8 * n) (be_step v (ucast (drop_bit (8 * n) w))) OR take_bit (8 * n) w) i
        \<longleftrightarrow> bit (push_bit (8 * Suc n) v OR take_bit (8 * Suc n) w) i"
      using \<open>i < LENGTH('w)\<close>
      by cases (auto simp: be_step_def bit_simps add.commute dest: bit_imp_le_length)
  qed
  finally show ?case .
qed

lemma foldl_be_octets_full:
  "LENGTH('w) \<le> 8 * n \<Longrightarrow> foldl be_step v (be_octets n w) = (w :: 'w::len word)"
  by (simp add: foldl_be_octets push_bit_eq_mult exp_eq_zero_iff [THEN iffD2] take_bit_word_eq_self)

end
