(* ===== verification/Ber_Types.thy ===== *)
theory Ber_Types
  imports Wespe_Prelude
begin

text \<open>
  \<open>components/ber/include/ber_types.h\<close>: the tag octets, the status codes and the two structural
  limits (nesting depth, OID length) that every other component is written against. Tags are
  abbreviations, so that the simplifier sees the octets themselves.
\<close>

section \<open>Status codes\<close>

datatype ber_status =
    BER_OK
  | BER_ERR_TRUNCATED
  | BER_ERR_BAD_TAG
  | BER_ERR_BAD_LENGTH
  | BER_ERR_OVERFLOW
  | BER_ERR_DEPTH
  | BER_ERR_BAD_ARGS

section \<open>Defined results\<close>

text \<open>
  \<open>returns m P\<close>: the computation \<open>m\<close> has a defined result; if it is a value, \<open>P\<close> holds of it,
  and otherwise it is an error status.
  The rules below walk through a C routine branch by branch.
\<close>

definition returns :: "(ber_status + 'a) option \<Rightarrow> ('a \<Rightarrow> bool) \<Rightarrow> bool" where
  "returns m P \<longleftrightarrow>
     (\<exists>r. m = Some r \<and> (case r of Inl e \<Rightarrow> e \<noteq> BER_OK | Inr x \<Rightarrow> P x))"

lemma returns_Inl [simp]: "returns (Some (Inl e)) P \<longleftrightarrow> e \<noteq> BER_OK"
  by (simp add: returns_def)

lemma returns_InlI [safe_intros]: "e \<noteq> BER_OK \<Longrightarrow> returns (Some (Inl e)) P"
  by simp

lemma returns_Inr [simp]: "returns (Some (Inr x)) P \<longleftrightarrow> P x"
  by (simp add: returns_def)

lemma returns_InrI [safe_intros]: "P x \<Longrightarrow> returns (Some (Inr x)) P"
  by simp

lemma returns_if [safe_intros]:
  "(c \<Longrightarrow> returns m P) \<Longrightarrow> (\<not> c \<Longrightarrow> returns k P) \<Longrightarrow> returns (if c then m else k) P"
  by simp

lemma returns_cases:
  assumes "returns m P"
  obtains e where "m = Some (Inl e)" "e \<noteq> BER_OK" | x where "m = Some (Inr x)" "P x"
proof -
  obtain r where "m = Some r" "case r of Inl e \<Rightarrow> e \<noteq> BER_OK | Inr x \<Rightarrow> P x"
    using assms unfolding returns_def by blast
  then show thesis by (cases r) (auto intro: that)
qed

lemma returns_chk:
  "returns m P \<Longrightarrow> (\<And>x. m = Some (Inr x) \<Longrightarrow> P x \<Longrightarrow> returns (k x) Q) \<Longrightarrow> returns (chk m k) Q"
  by (erule returns_cases) auto

lemma returns_bind:
  "\<exists>x. m = Some x \<Longrightarrow> (\<And>x. m = Some x \<Longrightarrow> returns (k x) Q) \<Longrightarrow> returns (Option.bind m k) Q"
  by auto

lemma returns_mono: "returns m P \<Longrightarrow> (\<And>x. P x \<Longrightarrow> Q x) \<Longrightarrow> returns m Q"
  by (auto simp: returns_def split: sum.splits)

lemma returnsD: "returns m P \<Longrightarrow> m = Some (Inr x) \<Longrightarrow> P x"
  by (simp add: returns_def)

lemma returns_defined: "returns m P \<Longrightarrow> m \<noteq> None"
  by (auto simp: returns_def)

section \<open>Tags\<close>

abbreviation BER_TAG_INTEGER :: u8 where "BER_TAG_INTEGER \<equiv> 0x02"
abbreviation BER_TAG_OCTET_STRING :: u8 where "BER_TAG_OCTET_STRING \<equiv> 0x04"
abbreviation BER_TAG_NULL :: u8 where "BER_TAG_NULL \<equiv> 0x05"
abbreviation BER_TAG_OID :: u8 where "BER_TAG_OID \<equiv> 0x06"
abbreviation BER_TAG_SEQUENCE :: u8 where "BER_TAG_SEQUENCE \<equiv> 0x30"

abbreviation SNMP_TAG_IPADDRESS :: u8 where "SNMP_TAG_IPADDRESS \<equiv> 0x40"
abbreviation SNMP_TAG_COUNTER32 :: u8 where "SNMP_TAG_COUNTER32 \<equiv> 0x41"
abbreviation SNMP_TAG_GAUGE32 :: u8 where "SNMP_TAG_GAUGE32 \<equiv> 0x42"
abbreviation SNMP_TAG_TIMETICKS :: u8 where "SNMP_TAG_TIMETICKS \<equiv> 0x43"
abbreviation SNMP_TAG_OPAQUE :: u8 where "SNMP_TAG_OPAQUE \<equiv> 0x44"
abbreviation SNMP_TAG_COUNTER64 :: u8 where "SNMP_TAG_COUNTER64 \<equiv> 0x46"

abbreviation SNMP_TAG_NO_SUCH_OBJECT :: u8 where "SNMP_TAG_NO_SUCH_OBJECT \<equiv> 0x80"
abbreviation SNMP_TAG_NO_SUCH_INSTANCE :: u8 where "SNMP_TAG_NO_SUCH_INSTANCE \<equiv> 0x81"
abbreviation SNMP_TAG_END_OF_MIB_VIEW :: u8 where "SNMP_TAG_END_OF_MIB_VIEW \<equiv> 0x82"

abbreviation SNMP_PDU_GET_REQUEST :: u8 where "SNMP_PDU_GET_REQUEST \<equiv> 0xA0"
abbreviation SNMP_PDU_GET_NEXT_REQUEST :: u8 where "SNMP_PDU_GET_NEXT_REQUEST \<equiv> 0xA1"
abbreviation SNMP_PDU_GET_RESPONSE :: u8 where "SNMP_PDU_GET_RESPONSE \<equiv> 0xA2"
abbreviation SNMP_PDU_SET_REQUEST :: u8 where "SNMP_PDU_SET_REQUEST \<equiv> 0xA3"
abbreviation SNMP_PDU_TRAP_V1 :: u8 where "SNMP_PDU_TRAP_V1 \<equiv> 0xA4"
abbreviation SNMP_PDU_GET_BULK_REQUEST :: u8 where "SNMP_PDU_GET_BULK_REQUEST \<equiv> 0xA5"
abbreviation SNMP_PDU_INFORM_REQUEST :: u8 where "SNMP_PDU_INFORM_REQUEST \<equiv> 0xA6"
abbreviation SNMP_PDU_TRAP_V2 :: u8 where "SNMP_PDU_TRAP_V2 \<equiv> 0xA7"

section \<open>Limits\<close>

abbreviation BER_MAX_NEST_DEPTH :: nat where "BER_MAX_NEST_DEPTH \<equiv> 6"
abbreviation BER_MAX_OID_LEN :: nat where "BER_MAX_OID_LEN \<equiv> 20"

section \<open>Decoded elements\<close>

text \<open>
  \<open>ber_tlv_t\<close>: the two pointers into the datagram are offsets.
\<close>

record ber_tlv =
  tlv_tag :: u8
  tlv_value :: nat
  tlv_length :: nat
  tlv_next :: nat

text \<open>What a successful decode of an element inside \<open>[p, e)\<close> promises of its pointers.\<close>

definition tlv_within :: "nat \<Rightarrow> nat \<Rightarrow> ber_tlv \<Rightarrow> bool" where
  "tlv_within p e t \<longleftrightarrow>
     p + 2 \<le> tlv_value t \<and> tlv_next t = tlv_value t + tlv_length t \<and> tlv_next t \<le> e"

lemma tlv_within_window: "tlv_within p e t \<Longrightarrow> tlv_value t + tlv_length t \<le> e"
  by (simp add: tlv_within_def)

lemma tlv_within_progress: "tlv_within p e t \<Longrightarrow> p < tlv_next t \<and> tlv_next t \<le> e"
  by (auto simp: tlv_within_def)

end
