(* ===== verification/Ber_Decode.thy ===== *)
theory Ber_Decode
  imports Ber_Types
begin

unbundle bit_operations_syntax

text \<open>
  \<open>components/ber/ber_decode.c\<close>. Every routine reads a datagram \<open>mem\<close> through offsets and returns
  \<open>None\<close> when it would read outside \<open>mem\<close>, \<open>Some (Inl st)\<close> when the C returns the status \<open>st\<close>, and
  \<open>Some (Inr v)\<close> when it returns \<open>BER_OK\<close> with the out-parameter set to \<open>v\<close>. The NULL guards have
  no counterpart: an offset and a result value cannot be NULL.
\<close>

section \<open>Lengths and elements\<close>

definition decode_length :: "u8 list \<Rightarrow> nat \<Rightarrow> nat \<Rightarrow> (ber_status + nat \<times> nat) option" where
  "decode_length mem buf len =
     (if len < 1 then Some (Inl BER_ERR_TRUNCATED)
      else do {
        first \<leftarrow> rd mem buf;
        if first AND 0x80 = 0 then Some (Inr (unat first, 1))
        else let nbytes = first AND 0x7F in
          if nbytes = 0 then Some (Inl BER_ERR_BAD_LENGTH)
          else if 4 < nbytes then Some (Inl BER_ERR_OVERFLOW)
          else if len < 1 + unat nbytes then Some (Inl BER_ERR_TRUNCATED)
          else do {
            value \<leftarrow> be_loop mem (buf + 1) (unat nbytes) (0 :: u32);
            Some (Inr (unat value, 1 + unat nbytes))
          }
      })"

definition ber_decode_tlv :: "u8 list \<Rightarrow> nat \<Rightarrow> nat \<Rightarrow> nat \<Rightarrow> (ber_status + ber_tlv) option" where
  "ber_decode_tlv mem buf len depth =
     (if BER_MAX_NEST_DEPTH < depth then Some (Inl BER_ERR_DEPTH)
      else if len < 2 then Some (Inl BER_ERR_TRUNCATED)
      else do {
        tag \<leftarrow> rd mem buf;
        chk (decode_length mem (buf + 1) (len - 1)) (\<lambda>(content_len, len_header).
          let total_header = 1 + len_header in
          if len - total_header < content_len then Some (Inl BER_ERR_TRUNCATED)
          else Some (Inr \<lparr>tlv_tag = tag, tlv_value = buf + total_header,
                          tlv_length = content_len,
                          tlv_next = buf + total_header + content_len\<rparr>))
      })"

definition ber_expect_tag ::
  "u8 list \<Rightarrow> nat \<Rightarrow> nat \<Rightarrow> nat \<Rightarrow> u8 \<Rightarrow> (ber_status + ber_tlv) option" where
  "ber_expect_tag mem buf len depth expect_tag =
     chk (ber_decode_tlv mem buf len depth) (\<lambda>out.
       if tlv_tag out \<noteq> expect_tag then Some (Inl BER_ERR_BAD_TAG) else Some (Inr out))"

section \<open>Values\<close>

definition ber_decode_integer :: "u8 list \<Rightarrow> ber_tlv \<Rightarrow> (ber_status + i32) option" where
  "ber_decode_integer mem tlv =
     (if tlv_tag tlv \<noteq> BER_TAG_INTEGER then Some (Inl BER_ERR_BAD_TAG)
      else if tlv_length tlv = 0 \<or> 4 < tlv_length tlv then Some (Inl BER_ERR_OVERFLOW)
      else do {
        b0 \<leftarrow> rd mem (tlv_value tlv);
        value \<leftarrow> be_loop mem (tlv_value tlv) (tlv_length tlv)
                   (if b0 AND 0x80 \<noteq> 0 then - 1 else 0);
        Some (Inr value)
      })"

definition ber_decode_unsigned :: "u8 list \<Rightarrow> ber_tlv \<Rightarrow> (ber_status + u32) option" where
  "ber_decode_unsigned mem tlv =
     (if tlv_tag tlv \<noteq> SNMP_TAG_COUNTER32 \<and> tlv_tag tlv \<noteq> SNMP_TAG_GAUGE32 \<and>
         tlv_tag tlv \<noteq> SNMP_TAG_TIMETICKS then Some (Inl BER_ERR_BAD_TAG)
      else if tlv_length tlv = 0 \<or> 5 < tlv_length tlv then Some (Inl BER_ERR_OVERFLOW)
      else do {
        value \<leftarrow> be_loop mem (tlv_value tlv) (tlv_length tlv) 0;
        Some (Inr value)
      })"

definition ber_decode_unsigned64 :: "u8 list \<Rightarrow> ber_tlv \<Rightarrow> (ber_status + u64) option" where
  "ber_decode_unsigned64 mem tlv =
     (if tlv_tag tlv \<noteq> SNMP_TAG_COUNTER64 then Some (Inl BER_ERR_BAD_TAG)
      else if tlv_length tlv = 0 \<or> 9 < tlv_length tlv then Some (Inl BER_ERR_OVERFLOW)
      else do {
        value \<leftarrow> be_loop mem (tlv_value tlv) (tlv_length tlv) 0;
        Some (Inr value)
      })"

definition ber_decode_octet_string ::
  "u8 list \<Rightarrow> ber_tlv \<Rightarrow> nat \<Rightarrow> (ber_status + u8 list) option" where
  "ber_decode_octet_string mem tlv out_cap =
     (if tlv_tag tlv \<noteq> BER_TAG_OCTET_STRING then Some (Inl BER_ERR_BAD_TAG)
      else if out_cap < tlv_length tlv then Some (Inl BER_ERR_OVERFLOW)
      else do {
        bytes \<leftarrow> rd_bytes mem (tlv_value tlv) (tlv_length tlv);
        Some (Inr bytes)
      })"

definition ber_decode_null :: "ber_tlv \<Rightarrow> (ber_status + unit) option" where
  "ber_decode_null tlv =
     (if tlv_tag tlv \<noteq> BER_TAG_NULL then Some (Inl BER_ERR_BAD_TAG)
      else if tlv_length tlv \<noteq> 0 then Some (Inl BER_ERR_BAD_LENGTH)
      else Some (Inr ()))"

text \<open>
  \<open>ber_decode_oid\<close>: the inner loop reads one arc and returns it with the offset behind it, the
  outer loop appends arcs to \<open>out\<close> (its length is the C variable \<open>n\<close>).
\<close>

function oid_arc_loop :: "u8 list \<Rightarrow> nat \<Rightarrow> nat \<Rightarrow> u32 \<Rightarrow> (ber_status + u32 \<times> nat) option" where
  "oid_arc_loop mem p e arc =
     (if p < e then do {
        b \<leftarrow> rd mem p;
        if drop_bit 7 0xFFFFFFFF < arc then Some (Inl BER_ERR_OVERFLOW)
        else let arc' = push_bit 7 arc OR ucast (b AND 0x7F) in
          if b AND 0x80 = 0 then Some (Inr (arc', p + 1))
          else oid_arc_loop mem (p + 1) e arc'
      }
      else Some (Inl BER_ERR_TRUNCATED))"
  by pat_completeness auto
termination
  by (relation "measure (\<lambda>(mem, p, e, arc). e - p)") auto

declare oid_arc_loop.simps [simp del]

lemma oid_arc_loop_progress:
  "oid_arc_loop mem p e arc = Some (Inr (a, q)) \<Longrightarrow> p < q \<and> q \<le> e"
proof (induction mem p e arc rule: oid_arc_loop.induct)
  case (1 mem p e arc)
  then show ?case
    by (subst (asm) (2) oid_arc_loop.simps)
      (fastforce simp: Let_def rd_def split: if_splits)
qed

function oid_loop ::
  "u8 list \<Rightarrow> nat \<Rightarrow> nat \<Rightarrow> oid \<Rightarrow> nat \<Rightarrow> (ber_status + oid) option" where
  "oid_loop mem p e out out_cap =
     (if p < e then
        chk (oid_arc_loop mem p e 0) (\<lambda>(arc, q).
          if out_cap \<le> length out then Some (Inl BER_ERR_OVERFLOW)
          else oid_loop mem q e (out @ [arc]) out_cap)
      else Some (Inr out))"
  by pat_completeness auto
termination
  by (relation "measure (\<lambda>(mem, p, e, out, out_cap). e - p)")
    (auto dest!: oid_arc_loop_progress)

declare oid_loop.simps [simp del]

definition ber_decode_oid :: "u8 list \<Rightarrow> ber_tlv \<Rightarrow> nat \<Rightarrow> (ber_status + oid) option" where
  "ber_decode_oid mem tlv out_cap =
     (if tlv_tag tlv \<noteq> BER_TAG_OID then Some (Inl BER_ERR_BAD_TAG)
      else if tlv_length tlv = 0 then Some (Inl BER_ERR_BAD_LENGTH)
      else if out_cap < 2 then Some (Inl BER_ERR_OVERFLOW)
      else do {
        first \<leftarrow> rd mem (tlv_value tlv);
        oid_loop mem (tlv_value tlv + 1) (tlv_value tlv + tlv_length tlv)
          [ucast (first div 40), ucast (first mod 40)] out_cap
      })"

section \<open>Memory safety\<close>

text \<open>
  Every decoder, given a window \<open>[p, p + len)\<close> inside the datagram, reads only inside the datagram,
  and the pointers of the elements it returns stay inside that window.
\<close>

lemma decode_length_safe:
  assumes "buf + len \<le> length mem"
  shows "returns (decode_length mem buf len) (\<lambda>(n, h). 1 \<le> h \<and> h \<le> len \<and> n < 2 ^ 32)"
proof -
  have b: "unat (first :: u8) < 2 ^ 32" for first
    using unat_u8_bound [of first] by simp
  show ?thesis
    unfolding decode_length_def Let_def using assms b
    by (intro returns_if returns_bind safe_intros) (auto simp: not_less intro: unat_u32_bound)
qed

lemma ber_decode_tlv_safe:
  assumes "buf + len \<le> length mem"
  shows "returns (ber_decode_tlv mem buf len depth) (tlv_within buf (buf + len))"
proof -
  have dl: "returns (decode_length mem (buf + 1) (len - 1))
      (\<lambda>(n, h). 1 \<le> h \<and> h \<le> len - 1 \<and> n < 2 ^ 32)" if "2 \<le> len"
    using assms that by (intro decode_length_safe) simp
  show ?thesis
    unfolding ber_decode_tlv_def Let_def using assms
    by (intro returns_if returns_bind safe_intros returns_chk [OF dl])
      (auto simp: tlv_within_def not_less)
qed

lemma ber_expect_tag_safe:
  assumes "buf + len \<le> length mem"
  shows "returns (ber_expect_tag mem buf len depth tag)
    (\<lambda>t. tlv_within buf (buf + len) t \<and> tlv_tag t = tag)"
  unfolding ber_expect_tag_def
  by (rule returns_chk [OF ber_decode_tlv_safe [OF assms]]) (auto intro: safe_intros)

lemma ber_decode_integer_safe:
  "tlv_value t + tlv_length t \<le> length mem \<Longrightarrow> returns (ber_decode_integer mem t) (\<lambda>_. True)"
  unfolding ber_decode_integer_def
  by (intro returns_if returns_bind safe_intros) auto

lemma ber_decode_unsigned_safe:
  "tlv_value t + tlv_length t \<le> length mem \<Longrightarrow> returns (ber_decode_unsigned mem t) (\<lambda>_. True)"
  unfolding ber_decode_unsigned_def
  by (intro returns_if returns_bind safe_intros) auto

lemma ber_decode_unsigned64_safe:
  "tlv_value t + tlv_length t \<le> length mem \<Longrightarrow> returns (ber_decode_unsigned64 mem t) (\<lambda>_. True)"
  unfolding ber_decode_unsigned64_def
  by (intro returns_if returns_bind safe_intros) auto

lemma ber_decode_octet_string_safe:
  "tlv_value t + tlv_length t \<le> length mem \<Longrightarrow>
   returns (ber_decode_octet_string mem t cap) (\<lambda>bs. length bs \<le> cap)"
  unfolding ber_decode_octet_string_def
  by (intro returns_if returns_bind safe_intros) (auto dest: rd_bytes_length)

lemma ber_decode_null_safe: "returns (ber_decode_null t) (\<lambda>_. True)"
  by (simp add: ber_decode_null_def)

lemma oid_arc_loop_safe:
  "e \<le> length mem \<Longrightarrow> returns (oid_arc_loop mem p e arc) (\<lambda>(a, q). p < q \<and> q \<le> e)"
proof (induction mem p e arc rule: oid_arc_loop.induct)
  case (1 mem p e arc)
  show ?case
  proof (cases "p < e")
    case True
    then obtain b where b: "rd mem p = Some b" using "1.prems" by (auto simp: rd_def)
    have "returns (oid_arc_loop mem (p + 1) e (push_bit 7 arc OR ucast (b AND 0x7F)))
        (\<lambda>(a, q). p < q \<and> q \<le> e)"
      if "\<not> drop_bit 7 0xFFFFFFFF < arc" "b AND 0x80 \<noteq> 0"
      by (rule returns_mono [OF "1.IH" [OF True b that(1) refl that(2) "1.prems"]]) auto
    with True b show ?thesis by (subst oid_arc_loop.simps) (auto simp: Let_def)
  next
    case False
    then show ?thesis by (subst oid_arc_loop.simps) simp
  qed
qed

lemma oid_loop_safe:
  assumes "e \<le> length mem" and "length out \<le> cap"
  shows "returns (oid_loop mem p e out cap) (\<lambda>arcs. length out \<le> length arcs \<and> length arcs \<le> cap)"
  using assms
proof (induction mem p e out cap rule: oid_loop.induct)
  case (1 mem p e out cap)
  show ?case
  proof (cases "p < e")
    case True
    show ?thesis
      unfolding oid_loop.simps [of mem p e out cap] using True "1.prems"
      by (auto intro!: returns_chk [OF oid_arc_loop_safe] safe_intros
          returns_mono [OF "1.IH"] split: prod.splits)
  next
    case False
    with "1.prems" show ?thesis by (subst oid_loop.simps) simp
  qed
qed

lemma ber_decode_oid_safe:
  assumes "tlv_value t + tlv_length t \<le> length mem"
  shows "returns (ber_decode_oid mem t cap) (\<lambda>arcs. 2 \<le> length arcs \<and> length arcs \<le> cap)"
  unfolding ber_decode_oid_def using assms
  by (intro returns_if returns_bind safe_intros)
    (auto intro!: returns_mono [OF oid_loop_safe])

end
