(* ===== verification/Ber_Encode.thy ===== *)
theory Ber_Encode
  imports Ber_Types
begin

unbundle bit_operations_syntax

text \<open>
  \<open>components/ber/ber_encode.c\<close>. The encoder builds a message from right to left in a caller-owned
  buffer: its state is the buffer and the cursor. A routine returns the C status and the state it
  leaves behind, and \<open>None\<close> when the C would write outside the buffer or one of its own small
  stack arrays. The parameter \<open>cap\<close>, which every C routine casts to \<open>(void)\<close>, is left out.

  The calculus that the encoders are verified with is in \<open>Ber_Emits\<close>.
\<close>

section \<open>The encoder state\<close>

record enc =
  ebuf :: "u8 list"
  ecursor :: nat

type_synonym enc_op = "enc \<Rightarrow> (ber_status \<times> enc) option"

text \<open>\<open>st = m(...); if (st != BER_OK) return st; return k(...);\<close>\<close>

definition andthen :: "enc_op \<Rightarrow> enc_op \<Rightarrow> enc_op" where
  "andthen m k s = do { (st, s') \<leftarrow> m s; if st = BER_OK then k s' else Some (st, s') }"

definition ret_status :: "ber_status \<Rightarrow> enc_op" where
  "ret_status st s = Some (st, s)"

section \<open>Prepending bytes and headers\<close>

definition prepend_byte :: "u8 \<Rightarrow> enc_op" where
  "prepend_byte b s =
     (if ecursor s < 1 then Some (BER_ERR_OVERFLOW, s)
      else let c = ecursor s - 1 in
        if c < length (ebuf s) then Some (BER_OK, s\<lparr>ebuf := (ebuf s)[c := b], ecursor := c\<rparr>)
        else None)"

text \<open>
  \<open>data\<close> is the C pointer (\<open>None\<close> for NULL) with the bytes readable behind it. \<open>memcpy\<close> of \<open>len\<close>
  bytes is defined when both objects are large enough.
\<close>

definition ber_encode_prepend_bytes :: "u8 list option \<Rightarrow> nat \<Rightarrow> enc_op" where
  "ber_encode_prepend_bytes data len s =
     (if data = None \<and> 0 < len then Some (BER_ERR_BAD_ARGS, s)
      else if ecursor s < len then Some (BER_ERR_OVERFLOW, s)
      else let c = ecursor s - len in
        if len = 0 then Some (BER_OK, s\<lparr>ecursor := c\<rparr>)
        else if len \<le> length (the data) \<and> c + len \<le> length (ebuf s) then
          Some (BER_OK, s\<lparr>ebuf := take c (ebuf s) @ take len (the data) @ drop (c + len) (ebuf s),
                          ecursor := c\<rparr>)
        else None)"

text \<open>\<open>for (i = 0; i < n; i++) prepend_byte(bytes[i])\<close>: the last byte ends up leftmost.\<close>

fun prepend_each :: "u8 list \<Rightarrow> enc_op" where
  "prepend_each [] = ret_status BER_OK"
| "prepend_each (b # bs) = andthen (prepend_byte b) (prepend_each bs)"

text \<open>The loop that fills \<open>len_bytes\<close>, least significant octet first.\<close>

fun len_octets :: "nat \<Rightarrow> u8 list" where
  "len_octets tmp = (if tmp = 0 then [] else word_of_nat (tmp mod 256) # len_octets (tmp div 256))"

declare len_octets.simps [simp del]

definition ber_encode_prepend_tlv_header :: "u8 \<Rightarrow> nat \<Rightarrow> enc_op" where
  "ber_encode_prepend_tlv_header tag content_len =
     (if content_len \<le> 0x7F then
        andthen (prepend_byte (word_of_nat content_len)) (prepend_byte tag)
      else let len_bytes = len_octets content_len; n = length len_bytes in
        if 4 < n then (\<lambda>s. None)
        else andthen (prepend_each len_bytes)
              (andthen (prepend_byte (0x80 OR word_of_nat n)) (prepend_byte tag)))"

definition ber_encode_container_header :: "u8 \<Rightarrow> nat \<Rightarrow> enc_op" where
  "ber_encode_container_header tag content_len = ber_encode_prepend_tlv_header tag content_len"

section \<open>Values\<close>

text \<open>The loop that strips redundant leading octets of a two's complement value.\<close>

function int_start :: "u8 list \<Rightarrow> nat \<Rightarrow> nat" where
  "int_start raw start =
     (if start < 3 then
        let b = raw ! start; next_b = raw ! (start + 1) in
          if b = 0 \<and> next_b AND 0x80 = 0 then int_start raw (start + 1)
          else if b = 0xFF \<and> next_b AND 0x80 \<noteq> 0 then int_start raw (start + 1)
          else start
      else start)"
  by pat_completeness auto
termination
  by (relation "measure (\<lambda>(raw, start). 3 - start)") auto

declare int_start.simps [simp del]

definition ber_encode_integer :: "i32 \<Rightarrow> enc_op" where
  "ber_encode_integer value =
     (let raw = [ucast (drop_bit 24 value), ucast (drop_bit 16 value),
                 ucast (drop_bit 8 value), ucast value] :: u8 list;
          start = int_start raw 0;
          content_len = 4 - start
      in andthen (ber_encode_prepend_bytes (Some (drop start raw)) content_len)
           (ber_encode_prepend_tlv_header BER_TAG_INTEGER content_len))"

text \<open>
  The strip loop of the two unsigned encoders (\<open>stop\<close> is 4 for 32 bits, 8 for 64), which starts
  behind the pad octet \<open>raw[0]\<close>, and the step that takes the pad back.
\<close>

function uns_start :: "u8 list \<Rightarrow> nat \<Rightarrow> nat \<Rightarrow> nat" where
  "uns_start raw stop start =
     (if start < stop \<and> raw ! start = 0 \<and> raw ! (start + 1) AND 0x80 = 0
      then uns_start raw stop (start + 1) else start)"
  by pat_completeness auto
termination
  by (relation "measure (\<lambda>(raw, stop, start). stop - start)") auto

declare uns_start.simps [simp del]

definition uns_pad :: "u8 list \<Rightarrow> nat \<Rightarrow> nat" where
  "uns_pad raw start = (if raw ! start AND 0x80 \<noteq> 0 then start - 1 else start)"

definition ber_encode_unsigned_tagged :: "u8 \<Rightarrow> u32 \<Rightarrow> enc_op" where
  "ber_encode_unsigned_tagged tag value =
     (let raw = [0, ucast (drop_bit 24 value), ucast (drop_bit 16 value),
                 ucast (drop_bit 8 value), ucast value] :: u8 list;
          start = uns_pad raw (uns_start raw 4 1);
          content_len = 5 - start
      in andthen (ber_encode_prepend_bytes (Some (drop start raw)) content_len)
           (ber_encode_prepend_tlv_header tag content_len))"

definition ber_encode_unsigned64_tagged :: "u8 \<Rightarrow> u64 \<Rightarrow> enc_op" where
  "ber_encode_unsigned64_tagged tag value =
     (let raw = 0 # map (\<lambda>i. ucast (drop_bit (8 * (7 - i)) value)) [0..<8] :: u8 list;
          start = uns_pad raw (uns_start raw 8 1);
          content_len = 9 - start
      in andthen (ber_encode_prepend_bytes (Some (drop start raw)) content_len)
           (ber_encode_prepend_tlv_header tag content_len))"

definition ber_encode_octet_string :: "u8 list option \<Rightarrow> nat \<Rightarrow> enc_op" where
  "ber_encode_octet_string data len =
     andthen (ber_encode_prepend_bytes data len)
       (ber_encode_prepend_tlv_header BER_TAG_OCTET_STRING len)"

definition ber_encode_null :: "enc_op" where
  "ber_encode_null = ber_encode_prepend_tlv_header BER_TAG_NULL 0"

definition ber_encode_null_tagged :: "u8 \<Rightarrow> enc_op" where
  "ber_encode_null_tagged tag = ber_encode_prepend_tlv_header tag 0"

section \<open>Object identifiers\<close>

text \<open>The groups of seven bits of one arc, least significant first: the array \<open>tmp\<close>.\<close>

function arc_groups_more :: "u32 \<Rightarrow> u8 list" where
  "arc_groups_more arc =
     (if 0 < arc then (ucast (arc AND 0x7F) OR 0x80) # arc_groups_more (drop_bit 7 arc) else [])"
  by pat_completeness auto
termination
proof (relation "measure unat", simp_all)
  fix arc :: u32
  assume "0 < arc"
  then have "0 < unat arc" by (simp add: word_less_nat_alt)
  then show "unat (drop_bit 7 arc) < unat arc"
    by (simp add: drop_bit_eq_div unat_div)
qed

declare arc_groups_more.simps [simp del]

definition arc_groups :: "u32 \<Rightarrow> u8 list" where
  "arc_groups arc = ucast (arc AND 0x7F) # arc_groups_more (drop_bit 7 arc)"

text \<open>\<open>for (i = oid_len; i-- > 2;)\<close>: arcs from the last one down to \<open>oid[2]\<close>.\<close>

fun oid_arcs_down :: "oid \<Rightarrow> nat \<Rightarrow> enc_op" where
  "oid_arcs_down oid 0 = ret_status BER_OK"
| "oid_arcs_down oid (Suc i) =
     (if 2 < Suc i then
        let tmp = arc_groups (oid ! i) in
        if 5 < length tmp then (\<lambda>s. None)
        else andthen (prepend_each tmp) (oid_arcs_down oid i)
      else ret_status BER_OK)"

definition ber_encode_oid :: "oid \<Rightarrow> enc_op" where
  "ber_encode_oid oid =
     (if length oid < 2 then ret_status BER_ERR_BAD_LENGTH
      else if 2 < oid ! 0 \<or> (oid ! 0 < 2 \<and> 40 \<le> oid ! 1) then ret_status BER_ERR_OVERFLOW
      else (\<lambda>s.
        let start_cursor = ecursor s in
        andthen (oid_arcs_down oid (length oid))
          (andthen (prepend_byte (ucast (oid ! 0 * 40 + oid ! 1)))
            (\<lambda>s'. ber_encode_prepend_tlv_header BER_TAG_OID (start_cursor - ecursor s') s')) s))"

end
