(* ===== verification/Ber_Emits.thy ===== *)
theory Ber_Emits
  imports Ber_Encode
begin

unbundle bit_operations_syntax

text \<open>
  The abstract grammar of the encoder and the calculus that refines the backward-building routines
  of \<open>Ber_Encode\<close> to it. A grammar is an \<open>u8 list option\<close>: the octets of an element, or \<open>None\<close> for
  a value that has no encoding. \<open>emits m sp\<close> is the contract of a routine \<open>m\<close> with grammar \<open>sp\<close>.
\<close>

section \<open>The contract of an encoder\<close>

text \<open>
  The cursor stands inside the buffer, and the buffer is addressable by a 32-bit \<open>size_t\<close>, as on the
  ESP32 target (the array \<open>len_bytes[4]\<close> relies on it).
\<close>

definition enc_ok :: "enc \<Rightarrow> bool" where
  "enc_ok s \<longleftrightarrow> ecursor s \<le> length (ebuf s) \<and> length (ebuf s) < 2 ^ 32"

text \<open>The frame: only the bytes between the new and the old cursor may change.\<close>

definition enc_frame :: "enc \<Rightarrow> enc \<Rightarrow> bool" where
  "enc_frame s s' \<longleftrightarrow>
     length (ebuf s') = length (ebuf s) \<and> ecursor s' \<le> ecursor s \<and>
     take (ecursor s') (ebuf s') = take (ecursor s') (ebuf s) \<and>
     drop (ecursor s) (ebuf s') = drop (ecursor s) (ebuf s)"

definition put :: "u8 list \<Rightarrow> enc \<Rightarrow> enc" where
  "put bs s = s\<lparr>ebuf := take (ecursor s - length bs) (ebuf s) @ bs @ drop (ecursor s) (ebuf s),
                ecursor := ecursor s - length bs\<rparr>"

definition emits :: "enc_op \<Rightarrow> u8 list option \<Rightarrow> bool" where
  "emits m sp \<longleftrightarrow> (\<forall>s. enc_ok s \<longrightarrow>
     (\<exists>st s'. m s = Some (st, s') \<and> enc_frame s s' \<and>
       (case sp of
          None \<Rightarrow> st \<noteq> BER_OK
        | Some bs \<Rightarrow> if length bs \<le> ecursor s then st = BER_OK \<and> s' = put bs s
                      else st \<noteq> BER_OK)))"

lemma enc_frame_refl [simp]: "enc_frame s s"
  by (simp add: enc_frame_def)

lemma enc_frame_trans:
  assumes "enc_frame s t" and "enc_frame t u"
  shows "enc_frame s u"
proof -
  from assms have le: "ecursor u \<le> ecursor t" "ecursor t \<le> ecursor s"
    and lo: "take (ecursor t) (ebuf t) = take (ecursor t) (ebuf s)"
      "take (ecursor u) (ebuf u) = take (ecursor u) (ebuf t)"
    and hi: "drop (ecursor s) (ebuf t) = drop (ecursor s) (ebuf s)"
      "drop (ecursor t) (ebuf u) = drop (ecursor t) (ebuf t)"
    by (simp_all add: enc_frame_def)
  have "take (ecursor u) (ebuf u) = take (ecursor u) (take (ecursor t) (ebuf t))"
    using le by (simp add: lo(2) min_absorb1)
  also have "\<dots> = take (ecursor u) (ebuf s)"
    using le by (simp only: lo(1)) (simp add: min_absorb1)
  finally have 1: "take (ecursor u) (ebuf u) = take (ecursor u) (ebuf s)" .
  have "drop (ecursor s) (ebuf u) = drop (ecursor s - ecursor t) (drop (ecursor t) (ebuf u))"
    using le by simp
  also have "\<dots> = drop (ecursor s) (ebuf s)"
    using le by (simp only: hi(2)) (simp add: hi(1))
  finally show ?thesis using assms 1 by (simp add: enc_frame_def)
qed

lemma enc_frame_ok: "enc_frame s s' \<Longrightarrow> enc_ok s \<Longrightarrow> enc_ok s'"
  by (simp add: enc_frame_def enc_ok_def)

lemma ecursor_put [simp]: "ecursor (put bs s) = ecursor s - length bs"
  by (simp add: put_def)

lemma put_frame: "enc_ok s \<Longrightarrow> length bs \<le> ecursor s \<Longrightarrow> enc_frame s (put bs s)"
  by (auto simp: enc_frame_def put_def enc_ok_def)

lemma put_put:
  assumes "enc_ok s" and "length a + length b \<le> ecursor s"
  shows "put b (put a s) = put (b @ a) s"
proof -
  let ?P = "take (ecursor s - length a - length b) (ebuf s)"
  let ?Q = "take (length b) (drop (ecursor s - length a - length b) (ebuf s))"
  from assms have len: "length ?P = ecursor s - length a - length b" "length ?Q = length b"
    by (auto simp: enc_ok_def)
  have "take (ecursor s - length a) (ebuf s) = ?P @ ?Q"
    using assms take_add [of "ecursor s - length a - length b" "length b" "ebuf s"] by simp
  then have "ebuf (put a s) = ?P @ ?Q @ a @ drop (ecursor s) (ebuf s)"
    by (simp add: put_def)
  with len assms show ?thesis by (simp add: put_def diff_diff_left add.commute [of "length b"])
qed

lemma put_Nil: "enc_ok s \<Longrightarrow> put [] s = s"
  by (simp add: put_def)

lemma put_holds_at:
  assumes "enc_ok s" and "length bs \<le> ecursor s"
  shows "holds_at (ebuf (put bs s)) (ecursor (put bs s)) bs"
  using assms by (auto simp: put_def enc_ok_def intro!: holds_at_middle)

lemma emitsI:
  assumes "\<And>s. enc_ok s \<Longrightarrow> \<exists>st s'. m s = Some (st, s') \<and> enc_frame s s' \<and>
       (case sp of
          None \<Rightarrow> st \<noteq> BER_OK
        | Some bs \<Rightarrow> if length bs \<le> ecursor s then st = BER_OK \<and> s' = put bs s
                      else st \<noteq> BER_OK)"
  shows "emits m sp"
  using assms by (simp add: emits_def)

lemma emitsE:
  assumes "emits m sp" and "enc_ok s"
  obtains st s' where "m s = Some (st, s')" "enc_frame s s'" "enc_ok s'"
    "st = BER_OK \<longrightarrow> (\<exists>bs. sp = Some bs \<and> length bs \<le> ecursor s \<and> s' = put bs s)"
    "st \<noteq> BER_OK \<longrightarrow> (\<forall>bs. sp = Some bs \<longrightarrow> ecursor s < length bs)"
proof -
  obtain st s' where *: "m s = Some (st, s')" "enc_frame s s'"
      "case sp of None \<Rightarrow> st \<noteq> BER_OK
        | Some bs \<Rightarrow> if length bs \<le> ecursor s then st = BER_OK \<and> s' = put bs s else st \<noteq> BER_OK"
    using assms unfolding emits_def by blast
  show thesis
    by (rule that [OF *(1,2) enc_frame_ok [OF *(2) assms(2)]])
      (use *(3) in \<open>auto split: option.splits if_splits\<close>)
qed

lemma emits_put:
  "emits m (Some bs) \<Longrightarrow> enc_ok s \<Longrightarrow> length bs \<le> ecursor s \<Longrightarrow> m s = Some (BER_OK, put bs s)"
  by (erule (1) emitsE) fastforce

section \<open>Sequencing\<close>

text \<open>The grammar of \<open>andthen m k\<close>: what \<open>k\<close> writes comes to stand in front of what \<open>m\<close> wrote.\<close>

definition in_front :: "u8 list option \<Rightarrow> u8 list option \<Rightarrow> u8 list option" where
  "in_front sp2 sp1 =
     (case sp2 of None \<Rightarrow> None
      | Some b \<Rightarrow> (case sp1 of None \<Rightarrow> None | Some a \<Rightarrow> Some (b @ a)))"

lemma in_front_Some [simp]: "in_front (Some b) (Some a) = Some (b @ a)"
  by (simp add: in_front_def)

lemma in_front_None [simp]: "in_front None sp = None" "in_front sp None = None"
  by (auto simp: in_front_def split: option.splits)

lemma andthen_assoc: "andthen m (andthen k l) = andthen (andthen m k) l"
  by (rule ext) (auto simp: andthen_def split: Option.bind_split)

lemma andthen_simps [simp]:
  "andthen m k s = (case m s of None \<Rightarrow> None
     | Some (st, s') \<Rightarrow> if st = BER_OK then k s' else Some (st, s'))"
  by (auto simp: andthen_def split: option.splits)

declare andthen_simps [simp del]

lemma emits_andthen:
  assumes m: "emits m a" and k: "emits k b"
  shows "emits (andthen m k) (in_front b a)"
proof (rule emitsI)
  fix s assume ok: "enc_ok s"
  from m ok obtain st s1 where 1: "m s = Some (st, s1)" "enc_frame s s1" "enc_ok s1"
      "st = BER_OK \<longrightarrow> (\<exists>bs. a = Some bs \<and> length bs \<le> ecursor s \<and> s1 = put bs s)"
      "st \<noteq> BER_OK \<longrightarrow> (\<forall>bs. a = Some bs \<longrightarrow> ecursor s < length bs)"
    by (rule emitsE)
  show "\<exists>st s'. andthen m k s = Some (st, s') \<and> enc_frame s s' \<and>
       (case in_front b a of None \<Rightarrow> st \<noteq> BER_OK
        | Some bs \<Rightarrow> if length bs \<le> ecursor s then st = BER_OK \<and> s' = put bs s else st \<noteq> BER_OK)"
  proof (cases "st = BER_OK")
    case False
    with 1 show ?thesis
      by (auto simp: andthen_simps in_front_def split: option.splits)
  next
    case True
    with 1(4) obtain x where x: "a = Some x" "length x \<le> ecursor s" "s1 = put x s" by blast
    from k 1(3) obtain st2 s2 where 2: "k s1 = Some (st2, s2)" "enc_frame s1 s2"
        "st2 = BER_OK \<longrightarrow> (\<exists>bs. b = Some bs \<and> length bs \<le> ecursor s1 \<and> s2 = put bs s1)"
        "st2 \<noteq> BER_OK \<longrightarrow> (\<forall>bs. b = Some bs \<longrightarrow> ecursor s1 < length bs)"
      by (rule emitsE)
    have eq: "andthen m k s = Some (st2, s2)" using True 1(1) 2(1) by (simp add: andthen_simps)
    have fr: "enc_frame s s2" using 1(2) 2(2) by (rule enc_frame_trans)
    show ?thesis
    proof (cases "st2 = BER_OK")
      case True
      with 2(3) obtain y where y: "b = Some y" "length y \<le> ecursor s1" "s2 = put y s1" by blast
      with x ok have "s2 = put (y @ x) s" "length (y @ x) \<le> ecursor s"
        by (auto intro!: put_put)
      with True x y eq fr show ?thesis by simp
    next
      case False
      with 2(4) x have "\<forall>bs. in_front b a = Some bs \<longrightarrow> ecursor s < length bs"
        by (auto simp: in_front_def split: option.splits)
      with False eq fr show ?thesis by (auto split: option.splits)
    qed
  qed
qed

lemma emits_ret_OK [enc_emits]: "emits (ret_status BER_OK) (Some [])"
  by (rule emitsI) (simp add: ret_status_def put_Nil)

lemma emits_ret_error: "st \<noteq> BER_OK \<Longrightarrow> emits (ret_status st) None"
  by (rule emitsI) (simp add: ret_status_def)

section \<open>Bytes and headers\<close>

lemma list_update_take_drop: "i < length xs \<Longrightarrow> xs[i := x] = take i xs @ x # drop (Suc i) xs"
  by (simp add: upd_conv_take_nth_drop)

lemma emits_prepend_byte [enc_emits]: "emits (prepend_byte b) (Some [b])"
proof (rule emitsI)
  fix s assume ok: "enc_ok s"
  show "\<exists>st s'. prepend_byte b s = Some (st, s') \<and> enc_frame s s' \<and>
       (case Some [b] of None \<Rightarrow> st \<noteq> BER_OK
        | Some bs \<Rightarrow> if length bs \<le> ecursor s then st = BER_OK \<and> s' = put bs s else st \<noteq> BER_OK)"
  proof (cases "ecursor s < 1")
    case True
    then show ?thesis by (simp add: prepend_byte_def)
  next
    case False
    with ok have lt: "ecursor s - 1 < length (ebuf s)" and c: "Suc (ecursor s - 1) = ecursor s"
      by (auto simp: enc_ok_def)
    then have "prepend_byte b s = Some (BER_OK, put [b] s)"
      using False by (simp add: prepend_byte_def put_def list_update_take_drop Let_def)
    with False ok show ?thesis by (simp add: put_frame)
  qed
qed

lemma emits_prepend_bytes:
  assumes "length bs = n"
  shows "emits (ber_encode_prepend_bytes (Some bs) n) (Some bs)"
proof (rule emitsI)
  fix s assume ok: "enc_ok s"
  have "ber_encode_prepend_bytes (Some bs) n s = Some (BER_OK, put bs s)" if "n \<le> ecursor s"
  proof (cases "n = 0")
    case True
    with assms ok show ?thesis
      by (simp add: ber_encode_prepend_bytes_def put_def)
  next
    case False
    with assms that ok show ?thesis
      by (auto simp: ber_encode_prepend_bytes_def put_def enc_ok_def Let_def)
  qed
  moreover have "ber_encode_prepend_bytes (Some bs) n s = Some (BER_ERR_OVERFLOW, s)"
    if "\<not> n \<le> ecursor s"
    using that by (simp add: ber_encode_prepend_bytes_def)
  ultimately show "\<exists>st s'. ber_encode_prepend_bytes (Some bs) n s = Some (st, s') \<and> enc_frame s s' \<and>
       (case Some bs of None \<Rightarrow> st \<noteq> BER_OK
        | Some bs \<Rightarrow> if length bs \<le> ecursor s then st = BER_OK \<and> s' = put bs s else st \<noteq> BER_OK)"
    using assms ok by (cases "n \<le> ecursor s") (auto simp: put_frame)
qed

lemma emits_prepend_NULL:
  "0 < n \<Longrightarrow> emits (ber_encode_prepend_bytes None n) None"
  by (rule emitsI) (simp add: ber_encode_prepend_bytes_def)

lemma emits_prepend_each [enc_emits]: "emits (prepend_each bs) (Some (rev bs))"
proof (induction bs)
  case Nil
  then show ?case by (simp add: emits_ret_OK)
next
  case (Cons b bs)
  have "emits (andthen (prepend_byte b) (prepend_each bs)) (in_front (Some (rev bs)) (Some [b]))"
    by (rule emits_andthen [OF emits_prepend_byte Cons])
  then show ?case by simp
qed

text \<open>The grammar of a length and of a whole element.\<close>

definition ber_len :: "nat \<Rightarrow> u8 list" where
  "ber_len n =
     (if n \<le> 127 then [word_of_nat n]
      else word_of_nat (128 + length (len_octets n)) # rev (len_octets n))"

definition ber_tlv_bytes :: "u8 \<Rightarrow> u8 list \<Rightarrow> u8 list" where
  "ber_tlv_bytes tag content = tag # ber_len (length content) @ content"

lemma length_len_octets: "n < 256 ^ k \<Longrightarrow> length (len_octets n) \<le> k"
proof (induction k arbitrary: n)
  case 0
  then show ?case by (simp add: len_octets.simps)
next
  case (Suc k)
  have "n div 256 < 256 ^ k" using Suc.prems by (simp add: less_mult_imp_div_less mult.commute)
  then have "length (len_octets (n div 256)) \<le> k" by (rule Suc.IH)
  then show ?case by (subst len_octets.simps) simp
qed

lemma len_octets_le_4: "n < 2 ^ 32 \<Longrightarrow> length (len_octets n) \<le> 4"
  by (rule length_len_octets) simp

lemma len_octets_nonempty: "0 < n \<Longrightarrow> 0 < length (len_octets n)"
  by (subst len_octets.simps) simp

lemma or_0x80_small: "k \<le> 4 \<Longrightarrow> (0x80 OR word_of_nat k :: u8) = word_of_nat (128 + k)"
proof -
  assume "k \<le> 4"
  then consider "k = 0" | "k = 1" | "k = 2" | "k = 3" | "k = 4" by linarith
  then show ?thesis by cases simp_all
qed

lemma emits_header:
  assumes "n < 2 ^ 32"
  shows "emits (ber_encode_prepend_tlv_header tag n) (Some (tag # ber_len n))"
proof (cases "n \<le> 127")
  case True
  have "emits (andthen (prepend_byte (word_of_nat n)) (prepend_byte tag))
      (in_front (Some [tag]) (Some [word_of_nat n]))"
    by (intro emits_andthen enc_emits)
  with True show ?thesis by (simp add: ber_encode_prepend_tlv_header_def ber_len_def)
next
  case False
  have le: "length (len_octets n) \<le> 4" using assms by (rule len_octets_le_4)
  have "emits (andthen (prepend_each (len_octets n))
      (andthen (prepend_byte (0x80 OR word_of_nat (length (len_octets n)))) (prepend_byte tag)))
      (in_front (in_front (Some [tag]) (Some [0x80 OR word_of_nat (length (len_octets n))]))
        (Some (rev (len_octets n))))"
    by (intro emits_andthen enc_emits)
  with False le show ?thesis
    by (simp add: ber_encode_prepend_tlv_header_def ber_len_def Let_def or_0x80_small)
qed

text \<open>
  The idiom of every constructed element: remember the cursor, write the content, then prepend a
  header with the distance the cursor has moved.
\<close>

lemma emits_container:
  assumes m: "emits m sp"
  shows "emits (\<lambda>s. andthen m (\<lambda>s'. ber_encode_prepend_tlv_header tag (ecursor s - ecursor s') s') s)
    (map_option (ber_tlv_bytes tag) sp)"
proof (rule emitsI)
  fix s assume ok: "enc_ok s"
  let ?k = "\<lambda>s'. ber_encode_prepend_tlv_header tag (ecursor s - ecursor s') s'"
  show "\<exists>st s'. andthen m ?k s = Some (st, s') \<and> enc_frame s s' \<and>
       (case map_option (ber_tlv_bytes tag) sp of None \<Rightarrow> st \<noteq> BER_OK
        | Some bs \<Rightarrow> if length bs \<le> ecursor s then st = BER_OK \<and> s' = put bs s else st \<noteq> BER_OK)"
  proof (cases "\<exists>bs. sp = Some bs \<and> length bs \<le> ecursor s")
    case True
    then obtain bs where bs: "sp = Some bs" "length bs \<le> ecursor s" by blast
    have "emits (andthen m (ber_encode_prepend_tlv_header tag (length bs)))
        (in_front (Some (tag # ber_len (length bs))) sp)"
      using bs ok by (intro emits_andthen [OF m] emits_header) (simp add: enc_ok_def)
    then have *: "emits (andthen m (ber_encode_prepend_tlv_header tag (length bs)))
        (Some (ber_tlv_bytes tag bs))"
      by (simp add: bs ber_tlv_bytes_def)
    have "andthen m ?k s = andthen m (ber_encode_prepend_tlv_header tag (length bs)) s"
      using emits_put [of m bs s] m bs ok by (simp add: andthen_simps)
    with * ok show ?thesis unfolding emits_def using bs by simp
  next
    case False
    from m ok obtain st s' where 1: "m s = Some (st, s')" "enc_frame s s'"
        "st = BER_OK \<longrightarrow> (\<exists>bs. sp = Some bs \<and> length bs \<le> ecursor s \<and> s' = put bs s)"
      by (rule emitsE)
    with False have "st \<noteq> BER_OK" by blast
    with 1 False show ?thesis
      by (auto simp: andthen_simps ber_tlv_bytes_def split: option.splits)
  qed
qed

text \<open>A primitive element whose content was written from an array of known length.\<close>

lemma emits_primitive:
  assumes "length bs = n"
  shows "emits (andthen (ber_encode_prepend_bytes (Some bs) n) (ber_encode_prepend_tlv_header tag n))
    (Some (ber_tlv_bytes tag bs))"
proof -
  let ?m = "ber_encode_prepend_bytes (Some bs) n"
  have eq: "andthen ?m (ber_encode_prepend_tlv_header tag n) s
      = andthen ?m (\<lambda>s'. ber_encode_prepend_tlv_header tag (ecursor s - ecursor s') s') s"
    if "enc_ok s" for s
  proof (cases "n \<le> ecursor s")
    case True
    with that assms emits_put [OF emits_prepend_bytes [OF assms], of s] show ?thesis
      by (simp add: andthen_simps)
  next
    case False
    then show ?thesis by (simp add: andthen_simps ber_encode_prepend_bytes_def)
  qed
  from emits_container [OF emits_prepend_bytes [OF assms], of tag] show ?thesis
    by (simp add: emits_def eq)
qed

end
