(* ===== verification/Ber_Roundtrip.thy ===== *)
theory Ber_Roundtrip
  imports Ber_Decode Ber_Emits
begin

unbundle bit_operations_syntax

text \<open>
  The encoder against the decoder. The locale \<open>ber_codec\<close> is the interface the codec layer relies
  on: an encoder that emits one element, a decoder that reads its content back. Each of the value
  types of \<open>ber_codec.h\<close> is an interpretation of it, and the round trip through a buffer is proved
  once, inside the locale.
\<close>

section \<open>Reading back a header\<close>

definition tlv_at :: "u8 \<Rightarrow> nat \<Rightarrow> u8 list \<Rightarrow> ber_tlv" where
  "tlv_at tag p content =
     \<lparr>tlv_tag = tag, tlv_value = p + 1 + length (ber_len (length content)),
      tlv_length = length content, tlv_next = p + length (ber_tlv_bytes tag content)\<rparr>"

lemma tlv_at_simps [simp]:
  "tlv_tag (tlv_at tag p c) = tag"
  "tlv_length (tlv_at tag p c) = length c"
  "tlv_next (tlv_at tag p c) = p + length (ber_tlv_bytes tag c)"
  by (simp_all add: tlv_at_def)

lemma tlv_at_value_next: "tlv_value (tlv_at tag p c) + length c = p + length (ber_tlv_bytes tag c)"
  by (simp add: tlv_at_def ber_tlv_bytes_def)

lemma foldl_len_octets: "foldl be_step 0 (rev (len_octets n)) = (word_of_nat n :: u32)"
proof (induction n rule: len_octets.induct)
  case (1 n)
  show ?case
  proof (cases "n = 0")
    case True
    then show ?thesis by (simp add: len_octets.simps)
  next
    case False
    have b: "(ucast (word_of_nat (n mod 256) :: u8) :: u32) = word_of_nat (n mod 256)"
      by (simp add: unsigned_of_nat take_bit_eq_mod)
    have "foldl be_step 0 (rev (len_octets n))
        = be_step (word_of_nat (n div 256) :: u32) (word_of_nat (n mod 256))"
      using False "1.IH" by (subst len_octets.simps) simp
    also have "\<dots> = word_of_nat (n div 256 * 256 + n mod 256)"
      by (simp only: of_nat_add of_nat_mult) (simp add: be_step_arith b)
    finally show ?thesis by simp
  qed
qed

lemma long_form_octet:
  assumes "0 < k" and "k \<le> 4"
  shows "(word_of_nat (128 + k) :: u8) AND 0x80 \<noteq> 0 \<and>
    (word_of_nat (128 + k) :: u8) AND 0x7F = word_of_nat k \<and>
    unat (word_of_nat k :: u8) = k \<and> (word_of_nat k :: u8) \<noteq> 0 \<and> \<not> 4 < (word_of_nat k :: u8)"
proof -
  from assms consider "k = 1" | "k = 2" | "k = 3" | "k = 4" by linarith
  then show ?thesis by cases simp_all
qed

lemma decode_length_ber_len:
  assumes h: "holds_at mem p (ber_len n)" and n: "n < 2 ^ 32" and len: "length (ber_len n) \<le> len"
  shows "decode_length mem p len = Some (Inr (n, length (ber_len n)))"
proof (cases "n \<le> 127")
  case True
  have "(word_of_nat n :: u8) AND 0x80 = 0"
  proof (rule bit_word_eqI)
    fix i assume "i < LENGTH(8)"
    have "\<not> bit n 7" using True by (simp add: bit_iff_odd)
    then show "bit ((word_of_nat n :: u8) AND 0x80) i = bit (0 :: u8) i"
      using bit_exp_iff [of 7 i, where ?'a = u8] by (auto simp: bit_simps)
  qed
  moreover have "unat (word_of_nat n :: u8) = n"
    using True by (simp add: unat_of_nat)
  ultimately show ?thesis
    using True h len by (simp add: decode_length_def ber_len_def holds_at_Cons)
next
  case False
  let ?k = "length (len_octets n)"
  have k: "0 < ?k" "?k \<le> 4"
    using False n len_octets_nonempty [of n] by (auto simp: len_octets_le_4)
  then have first: "(word_of_nat (128 + ?k) :: u8) AND 0x80 \<noteq> 0"
      "(word_of_nat (128 + ?k) :: u8) AND 0x7F = word_of_nat ?k"
      "unat (word_of_nat ?k :: u8) = ?k"
      "(word_of_nat ?k :: u8) \<noteq> 0" "\<not> 4 < (word_of_nat ?k :: u8)"
    using long_form_octet [of ?k] by simp_all
  have "be_loop mem (Suc p) (length (rev (len_octets n))) 0
      = Some (foldl be_step 0 (rev (len_octets n)) :: u32)"
    using False h by (intro be_loop_holds_at) (simp add: ber_len_def holds_at_Cons)
  then have "be_loop mem (Suc p) ?k 0 = Some (word_of_nat n :: u32)"
    by (simp add: foldl_len_octets)
  moreover have "unat (word_of_nat n :: u32) = n"
    using n by (simp add: unat_of_nat)
  ultimately show ?thesis
    using False h len first by (simp add: decode_length_def ber_len_def holds_at_Cons)
qed

lemma ber_decode_tlv_bytes:
  assumes h: "holds_at mem p (ber_tlv_bytes tag c)" and c: "length c < 2 ^ 32"
    and len: "length (ber_tlv_bytes tag c) \<le> len" and d: "depth \<le> BER_MAX_NEST_DEPTH"
  shows "ber_decode_tlv mem p len depth = Some (Inr (tlv_at tag p c))"
proof -
  have "1 \<le> length (ber_len (length c))" by (simp add: ber_len_def)
  moreover have "decode_length mem (p + 1) (len - 1)
      = Some (Inr (length c, length (ber_len (length c))))"
    using h c len
    by (intro decode_length_ber_len) (auto simp: ber_tlv_bytes_def holds_at_Cons holds_at_append)
  ultimately show ?thesis
    using h len d
    by (simp add: ber_decode_tlv_def tlv_at_def ber_tlv_bytes_def holds_at_Cons)
qed

lemma ber_expect_tag_bytes:
  assumes "holds_at mem p (ber_tlv_bytes tag c)" and "length c < 2 ^ 32"
    and "length (ber_tlv_bytes tag c) \<le> len" and "depth \<le> BER_MAX_NEST_DEPTH"
  shows "ber_expect_tag mem p len depth tag = Some (Inr (tlv_at tag p c))"
  using ber_decode_tlv_bytes [OF assms] by (simp add: ber_expect_tag_def)

lemma holds_at_content:
  "holds_at mem p (ber_tlv_bytes tag c) \<Longrightarrow> holds_at mem (tlv_value (tlv_at tag p c)) c"
  by (simp add: ber_tlv_bytes_def tlv_at_def holds_at_Cons holds_at_append)

section \<open>The codec interface\<close>

locale ber_codec =
  fixes enc :: "'a \<Rightarrow> enc_op"
    and dec :: "u8 list \<Rightarrow> ber_tlv \<Rightarrow> (ber_status + 'a) option"
    and tag :: u8
    and content :: "'a \<Rightarrow> u8 list"
    and encodable :: "'a \<Rightarrow> bool"
  assumes enc_emits_content:
      "encodable x \<Longrightarrow> emits (enc x) (Some (ber_tlv_bytes tag (content x)))"
    and dec_content:
      "encodable x \<Longrightarrow> tlv_tag t = tag \<Longrightarrow> tlv_length t = length (content x) \<Longrightarrow>
       holds_at mem (tlv_value t) (content x) \<Longrightarrow> dec mem t = Some (Inr x)"
    and content_bound: "encodable x \<Longrightarrow> length (content x) < 2 ^ 32"
begin

lemma dec_tlv_at:
  assumes "encodable x" and "holds_at mem p (ber_tlv_bytes tag (content x))"
  shows "dec mem (tlv_at tag p (content x)) = Some (Inr x)"
  using assms by (intro dec_content holds_at_content) simp_all

lemma roundtrip:
  assumes x: "encodable x" and ok: "enc_ok s"
    and fits: "length (ber_tlv_bytes tag (content x)) \<le> ecursor s"
    and d: "depth \<le> BER_MAX_NEST_DEPTH"
  shows "\<exists>s' t. enc x s = Some (BER_OK, s') \<and> enc_frame s s' \<and>
     ber_expect_tag (ebuf s') (ecursor s') (ecursor s - ecursor s') depth tag = Some (Inr t) \<and>
     tlv_next t = ecursor s \<and> dec (ebuf s') t = Some (Inr x)"
proof -
  let ?bs = "ber_tlv_bytes tag (content x)"
  let ?s' = "put ?bs s"
  have e: "enc x s = Some (BER_OK, ?s')"
    by (rule emits_put [OF enc_emits_content [OF x] ok fits])
  have h: "holds_at (ebuf ?s') (ecursor ?s') ?bs"
    by (rule put_holds_at [OF ok fits])
  have "ber_expect_tag (ebuf ?s') (ecursor ?s') (ecursor s - ecursor ?s') depth tag
      = Some (Inr (tlv_at tag (ecursor ?s') (content x)))"
    by (rule ber_expect_tag_bytes [OF h content_bound [OF x] _ d]) (use fits in simp)
  with e h x ok fits show ?thesis
    by (intro exI conjI) (assumption | simp add: put_frame dec_tlv_at)+
qed

lemma full:
  assumes "encodable x" and "enc_ok s"
    and "ecursor s < length (ber_tlv_bytes tag (content x))"
  shows "\<exists>st s'. enc x s = Some (st, s') \<and> st \<noteq> BER_OK \<and> enc_frame s s'"
  by (rule emitsE [OF enc_emits_content [OF assms(1)] assms(2)]) (use assms(3) in fastforce)

end

end
