(* ===== verification/Ber_Values.thy ===== *)
theory Ber_Values
  imports Ber_Roundtrip
begin

unbundle bit_operations_syntax

text \<open>
  The value types of the BER layer as interpretations of \<open>ber_codec\<close>: INTEGER, the three 32-bit
  unsigned application types and Counter64; and what each content looks like (minimal, non-negative
  when read as an INTEGER). The other types are in \<open>Ber_Oid\<close>.
\<close>

section \<open>INTEGER\<close>

definition int_content :: "i32 \<Rightarrow> u8 list" where
  "int_content v = drop (int_start (be_octets 4 v) 0) (be_octets 4 v)"

lemma be_octets_4:
  "be_octets 4 v = [ucast (drop_bit 24 v), ucast (drop_bit 16 v), ucast (drop_bit 8 v), ucast v]"
  by (simp add: numeral_eq_Suc)

definition sign_fill :: "u8 \<Rightarrow> i32" where
  "sign_fill b = (if b AND 0x80 \<noteq> 0 then - 1 else 0)"

lemma be_step_zero: "be_step (0 :: 'w::len word) 0 = 0"
  by (simp add: be_step_def)

lemma be_step_minus_one: "be_step (- 1 :: i32) 0xFF = - 1"
  by (simp add: be_step_arith)

lemma int_start_bounds: "start \<le> 3 \<Longrightarrow> start \<le> int_start raw start \<and> int_start raw start \<le> 3"
proof (induction raw start rule: int_start.induct)
  case (1 raw start)
  then show ?case by (subst (1 2) int_start.simps) (auto simp: Let_def)
qed

lemma int_start_value:
  assumes "length raw = 4" and "start \<le> 3"
  shows "foldl be_step (sign_fill (raw ! int_start raw start)) (drop (int_start raw start) raw)
    = foldl be_step (sign_fill (raw ! start)) (drop start raw)"
  using assms
proof (induction raw start rule: int_start.induct)
  case (1 raw start)
  let ?b = "raw ! start" and ?n = "raw ! (start + 1)"
  have d: "drop start raw = ?b # drop (start + 1) raw" if "start < 3"
    using "1.prems" that by (simp add: Cons_nth_drop_Suc)
  have step: "be_step (sign_fill ?b) ?b = sign_fill ?n"
    if "?b = 0 \<and> ?n AND 0x80 = 0 \<or> ?b = 0xFF \<and> ?n AND 0x80 \<noteq> 0"
    using that by (auto simp: sign_fill_def be_step_zero be_step_minus_one)
  show ?case
  proof (cases "start < 3 \<and> (?b = 0 \<and> ?n AND 0x80 = 0 \<or> ?b = 0xFF \<and> ?n AND 0x80 \<noteq> 0)")
    case True
    then have eq: "int_start raw start = int_start raw (start + 1)"
      by (subst int_start.simps) (auto simp: Let_def)
    from True consider
        "start < 3" "?b = 0 \<and> ?n AND 0x80 = 0"
      | "start < 3" "\<not> (?b = 0 \<and> ?n AND 0x80 = 0)" "?b = 0xFF \<and> ?n AND 0x80 \<noteq> 0"
      by blast
    then have "foldl be_step (sign_fill (raw ! int_start raw (start + 1)))
        (drop (int_start raw (start + 1)) raw)
      = foldl be_step (sign_fill ?n) (drop (start + 1) raw)"
    proof cases
      case 1
      with "1.prems" show ?thesis by (intro "1.IH"(1)) auto
    next
      case 2
      with "1.prems" show ?thesis by (intro "1.IH"(2)) auto
    qed
    with True show ?thesis by (simp add: eq d step)
  next
    case False
    then have "int_start raw start = start"
      by (subst int_start.simps) (auto simp: Let_def)
    then show ?thesis by simp
  qed
qed

lemma int_content_value:
  "foldl be_step (sign_fill (int_content v ! 0)) (int_content v) = v"
proof -
  let ?raw = "be_octets 4 v"
  have le: "int_start ?raw 0 \<le> 3" using int_start_bounds [of 0 ?raw] by simp
  have "foldl be_step (sign_fill (?raw ! int_start ?raw 0)) (drop (int_start ?raw 0) ?raw)
      = foldl be_step (sign_fill (?raw ! 0)) ?raw"
    using int_start_value [of ?raw 0] by simp
  also have "\<dots> = v" by (simp add: foldl_be_octets_full)
  finally show ?thesis using le by (simp add: int_content_def)
qed

lemma length_int_content: "1 \<le> length (int_content v)" "length (int_content v) \<le> 4"
  using int_start_bounds [of 0 "be_octets 4 v"] by (simp_all add: int_content_def)

lemma emits_integer [enc_emits]:
  "emits (ber_encode_integer v) (Some (ber_tlv_bytes BER_TAG_INTEGER (int_content v)))"
proof -
  have "length (int_content v) = 4 - int_start (be_octets 4 v) 0"
    by (simp add: int_content_def)
  from emits_primitive [OF this] show ?thesis
    by (simp add: ber_encode_integer_def int_content_def be_octets_4 Let_def)
qed

lemma decode_integer_content:
  assumes "tlv_tag t = BER_TAG_INTEGER" and "tlv_length t = length (int_content v)"
    and h: "holds_at mem (tlv_value t) (int_content v)"
  shows "ber_decode_integer mem t = Some (Inr v)"
proof -
  obtain b bs where c: "int_content v = b # bs"
    using length_int_content(1) [of v] by (cases "int_content v") auto
  have "be_loop mem (tlv_value t) (length (int_content v)) (sign_fill b) = Some v"
    using be_loop_holds_at [OF h, of "sign_fill b"] int_content_value [of v] by (simp add: c)
  moreover have "rd mem (tlv_value t) = Some b" using h by (simp add: c holds_at_Cons)
  ultimately show ?thesis
    using assms(1,2) length_int_content [of v]
    by (auto simp: ber_decode_integer_def sign_fill_def not_less)
qed

interpretation integer: ber_codec ber_encode_integer ber_decode_integer BER_TAG_INTEGER
  int_content "\<lambda>_. True"
proof unfold_locales
  show "length (int_content x) < 2 ^ 32" for x
    using length_int_content(2) [of x] by simp
qed (auto intro: decode_integer_content emits_integer)

section \<open>Unsigned values\<close>

definition uns_content :: "nat \<Rightarrow> 'w::len word \<Rightarrow> u8 list" where
  "uns_content n v =
     (let raw = 0 # be_octets n v in drop (uns_pad raw (uns_start raw n 1)) raw)"

lemma uns_start_bounds: "start \<le> stop \<Longrightarrow> start \<le> uns_start raw stop start \<and> uns_start raw stop start \<le> stop"
proof (induction raw stop start rule: uns_start.induct)
  case (1 raw stop start)
  then show ?case by (subst (1 2) uns_start.simps) auto
qed

lemma uns_start_zeros:
  "\<forall>i < start. raw ! i = 0 \<Longrightarrow> \<forall>i < uns_start raw stop start. raw ! i = 0"
proof (induction raw stop start rule: uns_start.induct)
  case (1 raw stop start)
  show ?case
  proof (cases "start < stop \<and> raw ! start = 0 \<and> raw ! (start + 1) AND 0x80 = 0")
    case True
    then have "\<forall>i < start + 1. raw ! i = 0" using "1.prems" by (simp add: less_Suc_eq)
    from "1.IH" [OF True this] True show ?thesis by (subst uns_start.simps) simp
  next
    case False
    with "1.prems" show ?thesis by (subst uns_start.simps) auto
  qed
qed

lemma foldl_be_step_zeros:
  "k \<le> length raw \<Longrightarrow> \<forall>i < k. raw ! i = 0 \<Longrightarrow>
   foldl be_step (0 :: 'w::len word) (drop k raw) = foldl be_step 0 raw"
proof (induction k arbitrary: raw)
  case 0
  then show ?case by simp
next
  case (Suc k)
  then obtain b bs where raw: "raw = b # bs" by (cases raw) auto
  with Suc.prems have "b = 0" "k \<le> length bs" "\<forall>i < k. bs ! i = 0"
    by (auto simp: All_less_Suc2)
  with Suc.IH [of bs] raw show ?case by (simp add: be_step_zero)
qed

lemma uns_pad_start_le: "1 \<le> n \<Longrightarrow> uns_pad raw (uns_start raw n 1) \<le> n"
  using uns_start_bounds [of 1 n raw] by (auto simp: uns_pad_def)

lemma uns_pad_le: "uns_pad raw k \<le> k"
  by (simp add: uns_pad_def)

lemma uns_pad_start_zeros:
  assumes "raw ! 0 = 0"
  shows "\<forall>i < uns_pad raw (uns_start raw n 1). raw ! i = 0"
proof -
  have "\<forall>i < (1::nat). raw ! i = 0" using assms by simp
  then have "\<forall>i < uns_start raw n 1. raw ! i = 0" by (rule uns_start_zeros)
  then show ?thesis using uns_pad_le [of raw "uns_start raw n 1"] by (blast intro: less_le_trans)
qed

lemma uns_content_value:
  assumes "LENGTH('w) \<le> 8 * n" and "1 \<le> n"
  shows "foldl be_step 0 (uns_content n v) = (v :: 'w::len word)"
proof -
  let ?raw = "0 # be_octets n v"
  have "foldl be_step 0 (uns_content n v) = foldl be_step (0 :: 'w word) ?raw"
    unfolding uns_content_def Let_def
  proof (rule foldl_be_step_zeros)
    show "uns_pad ?raw (uns_start ?raw n 1) \<le> length ?raw"
      using uns_pad_start_le [OF assms(2), of ?raw] by simp
    show "\<forall>i < uns_pad ?raw (uns_start ?raw n 1). ?raw ! i = 0"
      by (rule uns_pad_start_zeros) simp
  qed
  also have "\<dots> = foldl be_step 0 (be_octets n v)"
    by (simp only: foldl_Cons be_step_zero)
  also have "\<dots> = v" by (rule foldl_be_octets_full [OF assms(1)])
  finally show ?thesis .
qed

lemma length_uns_content:
  assumes "1 \<le> n"
  shows "1 \<le> length (uns_content n v)" and "length (uns_content n v) \<le> Suc n"
  using uns_pad_start_le [OF assms, of "0 # be_octets n v"]
  by (auto simp: uns_content_def Let_def Suc_diff_le)

text \<open>
  The pad rule: the first content octet never has its sign bit set, so a reader that takes the
  content for a two's complement INTEGER sees a non-negative number.
\<close>

lemma uns_content_nonneg:
  assumes "1 \<le> n"
  shows "uns_content n v ! 0 AND 0x80 = 0"
proof -
  let ?raw = "0 # be_octets n v"
  let ?s = "uns_start ?raw n 1"
  have s: "1 \<le> ?s" "?s \<le> n" using uns_start_bounds [of 1 n ?raw] assms by auto
  have "uns_content n v ! 0 = ?raw ! uns_pad ?raw ?s"
    using uns_pad_start_le [OF assms, of ?raw] by (simp add: uns_content_def Let_def)
  also have "\<dots> AND 0x80 = 0"
  proof (cases "?raw ! ?s AND 0x80 \<noteq> 0")
    case True
    with uns_start_zeros [of 1 ?raw n] s show ?thesis by (simp add: uns_pad_def)
  next
    case False
    then show ?thesis by (simp add: uns_pad_def)
  qed
  finally show ?thesis .
qed

lemma emits_unsigned [enc_emits]:
  "emits (ber_encode_unsigned_tagged tag v) (Some (ber_tlv_bytes tag (uns_content 4 v)))"
proof -
  let ?raw = "0 # be_octets 4 v"
  have "length (uns_content 4 v) = 5 - uns_pad ?raw (uns_start ?raw 4 1)"
    by (simp add: uns_content_def Let_def)
  from emits_primitive [OF this] show ?thesis
    by (simp add: ber_encode_unsigned_tagged_def uns_content_def be_octets_4 Let_def)
qed

lemma be_octets_8: "map (\<lambda>i. ucast (drop_bit (8 * (7 - i)) v)) [0..<8] = be_octets 8 v"
  by (simp add: numeral_eq_Suc upt_rec)

lemma emits_unsigned64 [enc_emits]:
  "emits (ber_encode_unsigned64_tagged tag v) (Some (ber_tlv_bytes tag (uns_content 8 v)))"
proof -
  let ?raw = "0 # be_octets 8 v"
  have "length (uns_content 8 v) = 9 - uns_pad ?raw (uns_start ?raw 8 1)"
    by (simp add: uns_content_def Let_def)
  from emits_primitive [OF this] show ?thesis
    unfolding ber_encode_unsigned64_tagged_def be_octets_8
    by (simp add: uns_content_def Let_def)
qed

lemma decode_unsigned_content:
  assumes "tlv_tag t \<in> {SNMP_TAG_COUNTER32, SNMP_TAG_GAUGE32, SNMP_TAG_TIMETICKS}"
    and "tlv_length t = length (uns_content 4 v)" and h: "holds_at mem (tlv_value t) (uns_content 4 v)"
  shows "ber_decode_unsigned mem t = Some (Inr v)"
proof -
  have "length (uns_content 4 v) \<noteq> 0" "length (uns_content 4 v) \<le> 5"
    using length_uns_content [of 4 v] by auto
  moreover have "be_loop mem (tlv_value t) (length (uns_content 4 v)) 0 = Some v"
    using be_loop_holds_at [OF h, of "0 :: u32"] uns_content_value [of 4 v] by simp
  ultimately show ?thesis using assms(1,2) by (auto simp: ber_decode_unsigned_def)
qed

lemma decode_unsigned64_content:
  assumes "tlv_tag t = SNMP_TAG_COUNTER64"
    and "tlv_length t = length (uns_content 8 v)" and h: "holds_at mem (tlv_value t) (uns_content 8 v)"
  shows "ber_decode_unsigned64 mem t = Some (Inr v)"
proof -
  have "length (uns_content 8 v) \<noteq> 0" "length (uns_content 8 v) \<le> 9"
    using length_uns_content [of 8 v] by auto
  moreover have "be_loop mem (tlv_value t) (length (uns_content 8 v)) 0 = Some v"
    using be_loop_holds_at [OF h, of "0 :: u64"] uns_content_value [of 8 v] by simp
  ultimately show ?thesis using assms(1,2) by (auto simp: ber_decode_unsigned64_def)
qed

lemma uns_content_bound: "1 \<le> n \<Longrightarrow> n \<le> 8 \<Longrightarrow> length (uns_content n v) < 2 ^ 32"
  using length_uns_content(2) [of n v] by simp

interpretation counter32: ber_codec "ber_encode_unsigned_tagged SNMP_TAG_COUNTER32"
  ber_decode_unsigned SNMP_TAG_COUNTER32 "uns_content 4" "\<lambda>_. True"
  by unfold_locales (simp_all add: emits_unsigned decode_unsigned_content uns_content_bound [simplified])

interpretation gauge32: ber_codec "ber_encode_unsigned_tagged SNMP_TAG_GAUGE32"
  ber_decode_unsigned SNMP_TAG_GAUGE32 "uns_content 4" "\<lambda>_. True"
  by unfold_locales (simp_all add: emits_unsigned decode_unsigned_content uns_content_bound [simplified])

interpretation timeticks: ber_codec "ber_encode_unsigned_tagged SNMP_TAG_TIMETICKS"
  ber_decode_unsigned SNMP_TAG_TIMETICKS "uns_content 4" "\<lambda>_. True"
  by unfold_locales (simp_all add: emits_unsigned decode_unsigned_content uns_content_bound [simplified])

interpretation counter64: ber_codec "ber_encode_unsigned64_tagged SNMP_TAG_COUNTER64"
  ber_decode_unsigned64 SNMP_TAG_COUNTER64 "uns_content 8" "\<lambda>_. True"
  by unfold_locales (simp_all add: emits_unsigned64 decode_unsigned64_content uns_content_bound [simplified])

end
