(* ===== verification/Ber_Oid.thy ===== *)
theory Ber_Oid
  imports Ber_Values
begin

unbundle bit_operations_syntax

text \<open>
  OCTET STRING, NULL and OBJECT IDENTIFIER as interpretations of \<open>ber_codec\<close>, and the base-128
  arithmetic of an OID's arcs.
\<close>

section \<open>OCTET STRING and NULL\<close>

lemma emits_octet_string [enc_emits]:
  "length bs = n \<Longrightarrow>
   emits (ber_encode_octet_string (Some bs) n) (Some (ber_tlv_bytes BER_TAG_OCTET_STRING bs))"
  unfolding ber_encode_octet_string_def by (rule emits_primitive)

lemma emits_empty_tlv [enc_emits]: "emits (ber_encode_prepend_tlv_header tag 0) (Some (ber_tlv_bytes tag []))"
  using emits_header [of 0 tag] by (simp add: ber_tlv_bytes_def)

lemma decode_octet_string_content:
  assumes "tlv_tag t = BER_TAG_OCTET_STRING" and "tlv_length t = length bs" and "length bs \<le> cap"
    and "holds_at mem (tlv_value t) bs"
  shows "ber_decode_octet_string mem t cap = Some (Inr bs)"
  using assms holds_at_rd_bytes [OF assms(4)] by (simp add: ber_decode_octet_string_def)

interpretation octets: ber_codec "\<lambda>bs. ber_encode_octet_string (Some bs) (length bs)"
  "\<lambda>mem t. ber_decode_octet_string mem t 128" BER_TAG_OCTET_STRING "\<lambda>bs. bs" "\<lambda>bs. length bs \<le> 128"
  by unfold_locales (auto intro: emits_octet_string decode_octet_string_content)

interpretation null: ber_codec "\<lambda>_ :: unit. ber_encode_null" "\<lambda>mem. ber_decode_null" BER_TAG_NULL
  "\<lambda>_. []" "\<lambda>_. True"
  by unfold_locales (auto simp: ber_encode_null_def ber_decode_null_def intro: emits_empty_tlv)

section \<open>Arcs in base 128\<close>

definition arc_octets :: "u32 \<Rightarrow> u8 list" where
  "arc_octets arc = rev (arc_groups arc)"

lemma length_arc_groups_more: "unat a < 128 ^ k \<Longrightarrow> length (arc_groups_more a) \<le> k"
proof (induction k arbitrary: a)
  case 0
  then have "a = 0" by (simp add: unat_eq_zero)
  then show ?case by (simp add: arc_groups_more.simps)
next
  case (Suc k)
  have "unat (drop_bit 7 a) < 128 ^ k"
    using Suc.prems by (simp add: drop_bit_eq_div unat_div less_mult_imp_div_less mult.commute)
  then have "length (arc_groups_more (drop_bit 7 a)) \<le> k" by (rule Suc.IH)
  then show ?case by (subst arc_groups_more.simps) simp
qed

text \<open>The array \<open>tmp[5]\<close> is large enough for every 32-bit arc.\<close>

lemma length_arc_groups: "length (arc_groups arc) \<le> 5"
proof -
  have "unat (drop_bit 7 arc) < 128 ^ 4"
    using unat_u32_bound [of arc] by (simp add: drop_bit_eq_div unat_div)
  then have "length (arc_groups_more (drop_bit 7 arc)) \<le> 4" by (rule length_arc_groups_more)
  then show ?thesis by (simp add: arc_groups_def)
qed

lemma bit_0x80: "bit (0x80 :: int) n \<longleftrightarrow> n = 7"
  using bit_exp_iff [of 7 n, where ?'a = int] by auto

lemma bit_0x7F: "bit (0x7F :: int) n \<longleftrightarrow> n < 7"
proof -
  have "bit (mask 7 :: int) n \<longleftrightarrow> n < 7" unfolding bit_mask_iff by auto
  then show ?thesis by (simp add: mask_eq_exp_minus_1)
qed

lemma group_bits:
  fixes a :: u32
  shows "((ucast (a AND 0x7F) OR 0x80 :: u8)) AND 0x7F = ucast (a AND 0x7F)"
    and "((ucast (a AND 0x7F) OR 0x80 :: u8)) AND 0x80 \<noteq> 0"
    and "(ucast (a AND 0x7F) :: u8) AND 0x7F = ucast (a AND 0x7F)"
    and "(ucast (a AND 0x7F) :: u8) AND 0x80 = 0"
proof -
  show "((ucast (a AND 0x7F) OR 0x80 :: u8)) AND 0x7F = ucast (a AND 0x7F)"
    by (rule bit_word_eqI) (auto simp: bit_simps bit_0x80 bit_0x7F)
  have "bit ((ucast (a AND 0x7F) OR 0x80 :: u8) AND 0x80) 7"
    by (simp add: bit_simps bit_0x80)
  then show "((ucast (a AND 0x7F) OR 0x80 :: u8)) AND 0x80 \<noteq> 0" by (metis bit_0_eq bot_apply bot_bool_def)
  show "(ucast (a AND 0x7F) :: u8) AND 0x7F = ucast (a AND 0x7F)"
    by (rule bit_word_eqI) (auto simp: bit_simps bit_0x7F)
  show "(ucast (a AND 0x7F) :: u8) AND 0x80 = 0"
    by (rule bit_word_eqI) (auto simp: bit_simps bit_0x80 bit_0x7F)
qed

lemma arc_recombine: "push_bit 7 (drop_bit 7 a) OR ucast (ucast (a AND 0x7F) :: u8) = (a :: u32)"
proof (rule bit_word_eqI)
  fix n assume "n < LENGTH(32)"
  then show "bit (push_bit 7 (drop_bit 7 a) OR ucast (ucast (a AND 0x7F) :: u8)) n = bit a n"
    by (cases "n < 7") (auto simp: bit_simps bit_0x7F)
qed

lemma arc_no_overflow: "\<not> 0x1FFFFFF < drop_bit 7 (a :: u32)"
proof -
  have "unat (drop_bit 7 a) \<le> unat (0x1FFFFFF :: u32)"
    using unat_u32_bound [of a] by (simp add: drop_bit_eq_div unat_div)
  then show ?thesis by (simp add: word_less_nat_alt)
qed

lemma oid_arc_loop_more:
  assumes "holds_at mem p (rev (arc_groups_more a) @ rest)" and "p + length (arc_groups_more a) \<le> e"
  shows "oid_arc_loop mem p e 0 = oid_arc_loop mem (p + length (arc_groups_more a)) e a"
  using assms
proof (induction a arbitrary: rest rule: arc_groups_more.induct)
  case (1 a)
  show ?case
  proof (cases "0 < a")
    case False
    then have "a = 0" by (simp add: word_gt_0)
    then show ?thesis by (simp add: arc_groups_more.simps)
  next
    case True
    let ?g = "ucast (a AND 0x7F) OR 0x80 :: u8"
    let ?k = "length (arc_groups_more (drop_bit 7 a))"
    have eq: "arc_groups_more a = ?g # arc_groups_more (drop_bit 7 a)"
      using True by (subst arc_groups_more.simps) simp
    have "oid_arc_loop mem p e 0 = oid_arc_loop mem (p + ?k) e (drop_bit 7 a)"
      using 1(2,3) by (intro 1(1) [OF True, of "?g # rest"]) (simp_all add: eq)
    also have "rd mem (p + ?k) = Some ?g"
      using 1(2) by (simp add: eq holds_at_append holds_at_Cons)
    then have "oid_arc_loop mem (p + ?k) e (drop_bit 7 a) = oid_arc_loop mem (p + ?k + 1) e a"
      using 1(3) eq by (subst oid_arc_loop.simps)
        (simp add: Let_def group_bits arc_recombine arc_no_overflow)
    finally show ?thesis by (simp add: eq)
  qed
qed

lemma oid_arc_loop_octets:
  assumes h: "holds_at mem p (arc_octets arc)" and e: "p + length (arc_octets arc) \<le> e"
  shows "oid_arc_loop mem p e 0 = Some (Inr (arc, p + length (arc_octets arc)))"
proof -
  let ?k = "length (arc_groups_more (drop_bit 7 arc))"
  have eq: "arc_octets arc = rev (arc_groups_more (drop_bit 7 arc)) @ [ucast (arc AND 0x7F)]"
    by (simp add: arc_octets_def arc_groups_def)
  have "oid_arc_loop mem p e 0 = oid_arc_loop mem (p + ?k) e (drop_bit 7 arc)"
    using h e by (intro oid_arc_loop_more [where rest = "[ucast (arc AND 0x7F)]"]) (simp_all add: eq)
  also have "rd mem (p + ?k) = Some (ucast (arc AND 0x7F))"
    using h by (simp add: eq holds_at_append holds_at_Cons)
  then have "oid_arc_loop mem (p + ?k) e (drop_bit 7 arc) = Some (Inr (arc, p + ?k + 1))"
    using e eq by (subst oid_arc_loop.simps)
      (simp add: Let_def group_bits arc_recombine arc_no_overflow)
  finally show ?thesis by (simp add: eq)
qed

lemma oid_loop_octets:
  assumes "holds_at mem p (concat (map arc_octets arcs))"
    and "e = p + length (concat (map arc_octets arcs))" and "length out + length arcs \<le> cap"
  shows "oid_loop mem p e out cap = Some (Inr (out @ arcs))"
  using assms
proof (induction arcs arbitrary: p out)
  case Nil
  then show ?case by (simp add: oid_loop.simps)
next
  case (Cons a arcs)
  have "0 < length (arc_octets a)" by (simp add: arc_octets_def arc_groups_def)
  moreover have "oid_arc_loop mem p e 0 = Some (Inr (a, p + length (arc_octets a)))"
    using Cons.prems by (intro oid_arc_loop_octets) (auto simp: holds_at_append)
  moreover have "oid_loop mem (p + length (arc_octets a)) e (out @ [a]) cap = Some (Inr ((out @ [a]) @ arcs))"
    using Cons.prems by (intro Cons.IH) (auto simp: holds_at_append)
  ultimately show ?case
    using Cons.prems by (subst oid_loop.simps) auto
qed

section \<open>OBJECT IDENTIFIER\<close>

text \<open>
  The identifiers whose first two arcs the single combined octet of this codec represents, and
  which fit the fixed array of \<open>BER_MAX_OID_LEN\<close> arcs.
\<close>

definition oid_ok :: "oid \<Rightarrow> bool" where
  "oid_ok oid \<longleftrightarrow> 2 \<le> length oid \<and> length oid \<le> BER_MAX_OID_LEN \<and> oid ! 0 \<le> 2 \<and> oid ! 1 < 40"

definition oid_content :: "oid \<Rightarrow> u8 list" where
  "oid_content oid = ucast (oid ! 0 * 40 + oid ! 1) # concat (map arc_octets (drop 2 oid))"

definition oid_bytes :: "oid \<Rightarrow> u8 list option" where
  "oid_bytes oid =
     (if length oid < 2 \<or> 2 < oid ! 0 \<or> (oid ! 0 < 2 \<and> 40 \<le> oid ! 1) then None
      else Some (ber_tlv_bytes BER_TAG_OID (oid_content oid)))"

lemma oid_bytes_ok: "oid_ok oid \<Longrightarrow> oid_bytes oid = Some (ber_tlv_bytes BER_TAG_OID (oid_content oid))"
  by (auto simp: oid_ok_def oid_bytes_def)

lemma emits_oid_arcs_down:
  "n \<le> length oid \<Longrightarrow>
   emits (oid_arcs_down oid n) (Some (concat (map arc_octets (drop 2 (take n oid)))))"
proof (induction n)
  case 0
  then show ?case by (simp add: emits_ret_OK)
next
  case (Suc i)
  show ?case
  proof (cases "2 < Suc i")
    case False
    with Suc.prems have "drop 2 (take (Suc i) oid) = []" by simp
    with False show ?thesis by (simp add: emits_ret_OK)
  next
    case True
    have split: "drop 2 (take (Suc i) oid) = drop 2 (take i oid) @ [oid ! i]"
      using True Suc.prems by (simp add: take_Suc_conv_app_nth)
    have "emits (andthen (prepend_each (arc_groups (oid ! i))) (oid_arcs_down oid i))
        (in_front (Some (concat (map arc_octets (drop 2 (take i oid)))))
          (Some (rev (arc_groups (oid ! i)))))"
      using Suc by (intro emits_andthen emits_prepend_each) simp
    with True length_arc_groups [of "oid ! i"] show ?thesis
      by (simp add: split not_less) (simp add: arc_octets_def)
  qed
qed

lemma emits_oid [enc_emits]: "emits (ber_encode_oid oid) (oid_bytes oid)"
proof (cases "length oid < 2 \<or> 2 < oid ! 0 \<or> (oid ! 0 < 2 \<and> 40 \<le> oid ! 1)")
  case True
  then have "oid_bytes oid = None" by (simp add: oid_bytes_def)
  with True show ?thesis by (auto simp: ber_encode_oid_def intro!: emits_ret_error)
next
  case False
  let ?b = "ucast (oid ! 0 * 40 + oid ! 1) :: u8"
  have "emits (andthen (oid_arcs_down oid (length oid)) (prepend_byte ?b))
      (in_front (Some [?b]) (Some (concat (map arc_octets (drop 2 (take (length oid) oid))))))"
    by (intro emits_andthen emits_oid_arcs_down enc_emits) simp
  from emits_container [OF this, of BER_TAG_OID] False show ?thesis
    unfolding ber_encode_oid_def oid_bytes_def oid_content_def
    by (simp add: andthen_assoc if_not_P)
qed

lemma combined_octet:
  assumes "a \<le> 2" and "b < (40 :: u32)"
  shows "ucast ((ucast (a * 40 + b) :: u8) div 40) = a" and "ucast ((ucast (a * 40 + b) :: u8) mod 40) = b"
proof -
  define m n where "m = unat a" and "n = unat b"
  then have mn: "a = word_of_nat m" "b = word_of_nat n" "m \<le> 2" "n < 40"
    using assms by (simp_all add: word_le_nat_alt word_less_nat_alt)
  have "a * 40 + b = word_of_nat (m * 40 + n)" using mn by simp
  moreover have "unat (word_of_nat (m * 40 + n) :: u32) = m * 40 + n"
    using mn(3,4) by (simp add: unsigned_of_nat take_bit_eq_mod del: of_nat_add of_nat_mult)
  ultimately have sum: "unat (a * 40 + b) = m * 40 + n" by simp
  have lt: "m * 40 + n < 256" using mn(3,4) by linarith
  define c where "c = (ucast (a * 40 + b) :: u8)"
  have u: "unat c = m * 40 + n"
    using sum lt by (simp add: c_def unsigned_ucast_eq take_bit_eq_mod)
  have small: "(m * 40 + n) div 40 = m" "(m * 40 + n) mod 40 = n" using mn(4) by simp_all
  have wide: "unat (ucast x :: u32) = unat x" for x :: u8
    using unat_u8_bound [of x] by (simp add: unsigned_ucast_eq take_bit_eq_mod)
  have "unat (ucast (c div 40) :: u32) = unat a" "unat (ucast (c mod 40) :: u32) = unat b"
    by (simp_all only: wide unat_div unat_mod u) (simp_all add: small mn(4) m_def [symmetric] n_def [symmetric])
  then have "ucast (c div 40) = a" "ucast (c mod 40) = b"
    by (simp_all only: word_unat_eq_iff)
  then show "ucast ((ucast (a * 40 + b) :: u8) div 40) = a"
    "ucast ((ucast (a * 40 + b) :: u8) mod 40) = b"
    by (simp_all only: c_def)
qed

lemma two_arcs: "2 \<le> length oid \<Longrightarrow> oid = oid ! 0 # oid ! 1 # drop 2 oid"
  by (cases oid; cases "tl oid") auto

lemma decode_oid_content:
  assumes oid: "oid_ok oid" and t: "tlv_tag t = BER_TAG_OID" "tlv_length t = length (oid_content oid)"
    and h: "holds_at mem (tlv_value t) (oid_content oid)"
  shows "ber_decode_oid mem t BER_MAX_OID_LEN = Some (Inr oid)"
proof -
  let ?b = "ucast (oid ! 0 * 40 + oid ! 1) :: u8"
  have b: "[ucast (?b div 40), ucast (?b mod 40)] = [oid ! 0, oid ! 1]"
    using oid by (simp add: oid_ok_def combined_octet)
  have "oid_loop mem (tlv_value t + 1) (tlv_value t + tlv_length t) [oid ! 0, oid ! 1] BER_MAX_OID_LEN
      = Some (Inr ([oid ! 0, oid ! 1] @ drop 2 oid))"
    using oid t h by (intro oid_loop_octets) (auto simp: oid_content_def holds_at_Cons oid_ok_def)
  also have "[oid ! 0, oid ! 1] @ drop 2 oid = oid"
    using oid two_arcs [of oid] by (simp add: oid_ok_def)
  finally show ?thesis
    using t h b by (simp add: ber_decode_oid_def oid_content_def holds_at_Cons)
qed

lemma length_arc_octets: "length (arc_octets arc) \<le> 5"
  using length_arc_groups by (simp add: arc_octets_def)

lemma length_oid_content: "length (oid_content oid) \<le> 1 + 5 * (length oid - 2)"
proof -
  have "length (concat (map arc_octets arcs)) \<le> 5 * length arcs" for arcs
    by (induction arcs) (use length_arc_octets in \<open>auto intro: add_mono\<close>)
  from this [of "drop 2 oid"] show ?thesis by (simp add: oid_content_def)
qed

interpretation oids: ber_codec ber_encode_oid "\<lambda>mem t. ber_decode_oid mem t BER_MAX_OID_LEN"
  BER_TAG_OID oid_content oid_ok
proof unfold_locales
  show "length (oid_content x) < 2 ^ 32" if "oid_ok x" for x
  proof -
    have "length (oid_content x) \<le> 91"
      using that length_oid_content [of x] by (auto simp: oid_ok_def)
    then show ?thesis by simp
  qed
next
  show "emits (ber_encode_oid x) (Some (ber_tlv_bytes BER_TAG_OID (oid_content x)))" if "oid_ok x" for x
    using emits_oid [of x] that by (simp add: oid_bytes_ok)
qed (rule decode_oid_content)

end
