(* ===== verification/Ber_Correct.thy ===== *)
theory Ber_Correct
  imports Ber_Oid
begin

unbundle bit_operations_syntax

text \<open>
  What the BER component promises: decoders that stay inside the datagram, encoders that write
  exactly their grammar and nothing else, round trips through a buffer, canonical contents, and the
  inputs on which the code departs from its own comments.
\<close>

section \<open>Decoding is memory safe\<close>

text \<open>
  C33. Given any window \<open>[p, p + len)\<close> of a datagram, \<open>ber_decode_tlv\<close> ends without a read outside the
  datagram, and an element it accepts has its value and its end inside the window, strictly behind
  \<open>p\<close>: no length field, however encoded, takes the decoder out of the bytes that were received.
\<close>

theorem ber_decode_tlv_stays_inside:
  assumes "p + len \<le> length mem"
  shows "\<exists>r. ber_decode_tlv mem p len depth = Some r \<and>
    (case r of Inl st \<Rightarrow> st \<noteq> BER_OK
     | Inr t \<Rightarrow> p < tlv_value t \<and> tlv_value t + tlv_length t = tlv_next t \<and>
         p < tlv_next t \<and> tlv_next t \<le> p + len)"
proof -
  have "returns (ber_decode_tlv mem p len depth) (tlv_within p (p + len))"
    using assms by (rule ber_decode_tlv_safe)
  then show ?thesis
    by (auto simp: returns_def tlv_within_def split: sum.splits)
qed

theorem ber_decode_tlv_stays_inside_witness:
  "\<exists>r. ber_decode_tlv [0x02, 0x01, 0x2A] 0 3 0 = Some r \<and>
    (case r of Inl st \<Rightarrow> st \<noteq> BER_OK
     | Inr t \<Rightarrow> 0 < tlv_value t \<and> tlv_value t + tlv_length t = tlv_next t \<and>
         0 < tlv_next t \<and> tlv_next t \<le> 0 + 3)"
  by (rule ber_decode_tlv_stays_inside) simp

text \<open>
  C34. Whatever element a decode of a received datagram produced, reading its content as any of the
  value types is defined: no routine reads outside the datagram, an octet string never exceeds the
  capacity it was given, and an OID has at least two arcs and at most the capacity of its array.
\<close>

theorem ber_value_decoders_safe:
  assumes "p + len \<le> length mem"
    and "ber_decode_tlv mem p len depth = Some (Inr t)"
  shows "ber_decode_integer mem t \<noteq> None \<and> ber_decode_unsigned mem t \<noteq> None \<and>
    ber_decode_unsigned64 mem t \<noteq> None \<and> ber_decode_null t \<noteq> None \<and>
    returns (ber_decode_octet_string mem t cap) (\<lambda>bs. length bs \<le> cap) \<and>
    returns (ber_decode_oid mem t cap) (\<lambda>arcs. 2 \<le> length arcs \<and> length arcs \<le> cap)"
proof -
  have "tlv_within p (p + len) t"
    using ber_decode_tlv_safe [OF assms(1)] assms(2) by (rule returnsD)
  then have "tlv_value t + tlv_length t \<le> length mem"
    using assms(1) tlv_within_window by fastforce
  then show ?thesis
    using returns_defined [OF ber_decode_null_safe]
    by (intro conjI ber_decode_octet_string_safe ber_decode_oid_safe
        returns_defined [OF ber_decode_integer_safe] returns_defined [OF ber_decode_unsigned_safe]
        returns_defined [OF ber_decode_unsigned64_safe])
qed

theorem ber_value_decoders_safe_witness:
  "\<exists>t. ber_decode_tlv [0x06, 0x03, 0x2B, 0x06, 0x01] 0 5 0 = Some (Inr t) \<and>
    returns (ber_decode_oid [0x06, 0x03, 0x2B, 0x06, 0x01] t 20)
      (\<lambda>arcs. 2 \<le> length arcs \<and> length arcs \<le> 20)"
proof -
  let ?t = "\<lparr>tlv_tag = 6, tlv_value = 2, tlv_length = 3, tlv_next = 5\<rparr>"
  have t: "ber_decode_tlv [0x06, 0x03, 0x2B, 0x06, 0x01] 0 5 0 = Some (Inr ?t)"
    by code_simp
  with ber_value_decoders_safe [OF _ t, of 20] show ?thesis by auto
qed

section \<open>Encoding refines a grammar\<close>

text \<open>
  C35. \<open>ber_encode_oid\<close> is correct against its grammar in every encoder state: an OID with fewer than
  two arcs or an unencodable first pair is refused; any other OID is written, as exactly the octets
  of its element, directly in front of the old cursor, when they fit, and refused when they do not.
  In every case no byte outside the gap between the new and the old cursor changes, and the array
  of five groups per arc is never overrun.
\<close>

theorem ber_encode_oid_refines:
  assumes ok: "ecursor s \<le> length (ebuf s)" "length (ebuf s) < 2 ^ 32"
  shows "\<exists>st s'. ber_encode_oid oid s = Some (st, s') \<and>
    length (ebuf s') = length (ebuf s) \<and> ecursor s' \<le> ecursor s \<and>
    take (ecursor s') (ebuf s') = take (ecursor s') (ebuf s) \<and>
    drop (ecursor s) (ebuf s') = drop (ecursor s) (ebuf s) \<and>
    (st = BER_OK \<longleftrightarrow>
       2 \<le> length oid \<and> oid ! 0 \<le> 2 \<and> (oid ! 0 = 2 \<or> oid ! 1 < 40) \<and>
       length (ber_tlv_bytes BER_TAG_OID (oid_content oid)) \<le> ecursor s) \<and>
    (st = BER_OK \<longrightarrow>
       ecursor s = ecursor s' + length (ber_tlv_bytes BER_TAG_OID (oid_content oid)) \<and>
       holds_at (ebuf s') (ecursor s') (ber_tlv_bytes BER_TAG_OID (oid_content oid)))"
proof -
  have enc: "enc_ok s" using ok by (simp add: enc_ok_def)
  have two: "oid ! 0 < 2 \<longleftrightarrow> oid ! 0 \<noteq> 2" if "oid ! 0 \<le> 2"
    using that by auto
  obtain st s' where r: "ber_encode_oid oid s = Some (st, s')" "enc_frame s s'"
    "st = BER_OK \<longrightarrow> (\<exists>bs. oid_bytes oid = Some bs \<and> length bs \<le> ecursor s \<and> s' = put bs s)"
    "st \<noteq> BER_OK \<longrightarrow> (\<forall>bs. oid_bytes oid = Some bs \<longrightarrow> ecursor s < length bs)"
    by (rule emitsE [OF emits_oid enc])
  from r show ?thesis
    by (intro exI [of _ st] exI [of _ s'])
      (auto simp: enc_frame_def oid_bytes_def put_holds_at [OF enc, unfolded ecursor_put] not_less not_le two split: if_splits)
qed

theorem ber_encode_oid_refines_witness:
  "\<exists>s'. ber_encode_oid [1, 3, 6, 1] \<lparr>ebuf = replicate 8 0, ecursor = 8\<rparr> = Some (BER_OK, s') \<and>
    ecursor s' = 3 \<and> holds_at (ebuf s') 3 [0x06, 0x03, 0x2B, 0x06, 0x01]"
proof -
  have bs: "ber_tlv_bytes BER_TAG_OID (oid_content [1, 3, 6, 1]) = [0x06, 0x03, 0x2B, 0x06, 0x01]"
    by code_simp
  show ?thesis
    using ber_encode_oid_refines [of "\<lparr>ebuf = replicate 8 0, ecursor = 8\<rparr>" "[1, 3, 6, 1]"]
    unfolding bs by auto
qed

section \<open>Round trips\<close>

text \<open>
  C36. The numeric types survive a round trip: an INTEGER, a Counter32/Gauge32/TimeTicks and a
  Counter64, written in front of the cursor of a buffer with eleven free bytes, are found there as
  one element of their tag that ends at the old cursor, and decode to the value written, for all
  \<open>2 ^ 32\<close> and \<open>2 ^ 64\<close> values.
\<close>

theorem ber_numeric_roundtrip:
  assumes ok: "enc_ok s" and room: "11 \<le> ecursor s" and depth: "depth \<le> BER_MAX_NEST_DEPTH"
    and tag: "tag \<in> {SNMP_TAG_COUNTER32, SNMP_TAG_GAUGE32, SNMP_TAG_TIMETICKS}"
  shows "(\<exists>s' t. ber_encode_integer i s = Some (BER_OK, s') \<and>
      ber_expect_tag (ebuf s') (ecursor s') (ecursor s - ecursor s') depth BER_TAG_INTEGER = Some (Inr t) \<and>
      tlv_next t = ecursor s \<and> ber_decode_integer (ebuf s') t = Some (Inr i)) \<and>
    (\<exists>s' t. ber_encode_unsigned_tagged tag u s = Some (BER_OK, s') \<and>
      ber_expect_tag (ebuf s') (ecursor s') (ecursor s - ecursor s') depth tag = Some (Inr t) \<and>
      tlv_next t = ecursor s \<and> ber_decode_unsigned (ebuf s') t = Some (Inr u)) \<and>
    (\<exists>s' t. ber_encode_unsigned64_tagged SNMP_TAG_COUNTER64 w s = Some (BER_OK, s') \<and>
      ber_expect_tag (ebuf s') (ecursor s') (ecursor s - ecursor s') depth SNMP_TAG_COUNTER64 = Some (Inr t) \<and>
      tlv_next t = ecursor s \<and> ber_decode_unsigned64 (ebuf s') t = Some (Inr w))"
proof (intro conjI)
  have len: "length (ber_tlv_bytes tg c) \<le> 11" if "length c \<le> 9" for tg c
    using that by (simp add: ber_tlv_bytes_def ber_len_def)
  have "length (ber_tlv_bytes BER_TAG_INTEGER (int_content i)) \<le> ecursor s"
    using length_int_content(2) [of i] room by (intro le_trans [OF len]) simp_all
  from integer.roundtrip [OF TrueI ok this depth]
  show "\<exists>s' t. ber_encode_integer i s = Some (BER_OK, s') \<and>
      ber_expect_tag (ebuf s') (ecursor s') (ecursor s - ecursor s') depth BER_TAG_INTEGER = Some (Inr t) \<and>
      tlv_next t = ecursor s \<and> ber_decode_integer (ebuf s') t = Some (Inr i)" by blast
  have fits: "length (ber_tlv_bytes tg (uns_content 4 u)) \<le> ecursor s" for tg
    using length_uns_content(2) [of 4 u] room by (intro le_trans [OF len]) simp_all
  show "\<exists>s' t. ber_encode_unsigned_tagged tag u s = Some (BER_OK, s') \<and>
      ber_expect_tag (ebuf s') (ecursor s') (ecursor s - ecursor s') depth tag = Some (Inr t) \<and>
      tlv_next t = ecursor s \<and> ber_decode_unsigned (ebuf s') t = Some (Inr u)"
    using tag counter32.roundtrip [OF TrueI ok fits depth] gauge32.roundtrip [OF TrueI ok fits depth]
      timeticks.roundtrip [OF TrueI ok fits depth]
    by blast
  have "length (ber_tlv_bytes SNMP_TAG_COUNTER64 (uns_content 8 w)) \<le> ecursor s"
    using length_uns_content(2) [of 8 w] room by (intro le_trans [OF len]) simp_all
  from counter64.roundtrip [OF TrueI ok this depth]
  show "\<exists>s' t. ber_encode_unsigned64_tagged SNMP_TAG_COUNTER64 w s = Some (BER_OK, s') \<and>
      ber_expect_tag (ebuf s') (ecursor s') (ecursor s - ecursor s') depth SNMP_TAG_COUNTER64 = Some (Inr t) \<and>
      tlv_next t = ecursor s \<and> ber_decode_unsigned64 (ebuf s') t = Some (Inr w)" by blast
qed

theorem ber_numeric_roundtrip_witness:
  "\<exists>s' t. ber_encode_integer (- 300) \<lparr>ebuf = replicate 16 0, ecursor = 16\<rparr> = Some (BER_OK, s') \<and>
    tlv_next t = 16 \<and> ber_decode_integer (ebuf s') t = Some (Inr (- 300))"
  using ber_numeric_roundtrip [of "\<lparr>ebuf = replicate 16 0, ecursor = 16\<rparr>" 0 SNMP_TAG_GAUGE32 "- 300" 7 7]
  by (auto simp: enc_ok_def)

text \<open>
  C37. An OBJECT IDENTIFIER of 2 to 20 arcs whose first arc is at most 2 and whose second is below 40
  survives a round trip: with room for its element the encoder succeeds, and decoding the element
  into an array of \<open>BER_MAX_OID_LEN\<close> arcs gives the same arcs, each of them any 32-bit number.
\<close>

theorem ber_oid_roundtrip:
  assumes "enc_ok s" and "depth \<le> BER_MAX_NEST_DEPTH"
    and "2 \<le> length oid" "length oid \<le> BER_MAX_OID_LEN" "oid ! 0 \<le> 2" "oid ! 1 < 40"
    and "6 + 5 * length oid \<le> ecursor s"
  shows "\<exists>s' t. ber_encode_oid oid s = Some (BER_OK, s') \<and> enc_frame s s' \<and>
      ber_expect_tag (ebuf s') (ecursor s') (ecursor s - ecursor s') depth BER_TAG_OID = Some (Inr t) \<and>
      tlv_next t = ecursor s \<and> ber_decode_oid (ebuf s') t BER_MAX_OID_LEN = Some (Inr oid)"
proof (rule oids.roundtrip)
  show "oid_ok oid" using assms by (simp add: oid_ok_def)
  have c: "length (oid_content oid) \<le> 1 + 5 * (length oid - 2)" by (rule length_oid_content)
  then have "length (oid_content oid) < 2 ^ 32" using assms(4) by simp
  then have "length (ber_len (length (oid_content oid))) \<le> 5"
    using len_octets_le_4 by (simp add: ber_len_def)
  with c show "length (ber_tlv_bytes BER_TAG_OID (oid_content oid)) \<le> ecursor s"
    using assms(3,7) by (simp add: ber_tlv_bytes_def)
qed (use assms in simp_all)

theorem ber_oid_roundtrip_witness:
  "\<exists>s' t. ber_encode_oid [1, 3, 6, 1, 4, 1, 99999] \<lparr>ebuf = replicate 64 0, ecursor = 64\<rparr>
      = Some (BER_OK, s') \<and>
    tlv_next t = 64 \<and> ber_decode_oid (ebuf s') t BER_MAX_OID_LEN = Some (Inr [1, 3, 6, 1, 4, 1, 99999])"
  using ber_oid_roundtrip [of "\<lparr>ebuf = replicate 64 0, ecursor = 64\<rparr>" 0 "[1, 3, 6, 1, 4, 1, 99999]"]
  by (auto simp: enc_ok_def)

section \<open>Canonical contents\<close>

lemma int_start_stop:
  "start \<le> 3 \<Longrightarrow> r = int_start raw start \<Longrightarrow> r < 3 \<Longrightarrow>
   \<not> (raw ! r = 0 \<and> raw ! Suc r AND 0x80 = 0) \<and> \<not> (raw ! r = 0xFF \<and> raw ! Suc r AND 0x80 \<noteq> 0)"
proof (induction raw start rule: int_start.induct)
  case (1 raw start)
  from "1.prems"(2) show ?case
    by (subst (asm) int_start.simps) (use 1 in \<open>auto simp: Let_def split: if_splits\<close>)
qed

lemma uns_start_stop:
  "r = uns_start raw stop start \<Longrightarrow> r < stop \<Longrightarrow> \<not> (raw ! r = 0 \<and> raw ! Suc r AND 0x80 = 0)"
proof (induction raw stop start rule: uns_start.induct)
  case (1 raw stop start)
  from "1.prems"(1) show ?case
    by (subst (asm) uns_start.simps) (use 1 in \<open>auto split: if_splits\<close>)
qed

lemma uns_content_minimal:
  assumes "1 \<le> n" and two: "2 \<le> length (uns_content n v)"
  shows "\<not> (uns_content n v ! 0 = 0 \<and> uns_content n v ! 1 AND 0x80 = 0)"
proof -
  let ?raw = "0 # be_octets n v"
  let ?s = "uns_start ?raw n 1"
  let ?k = "uns_pad ?raw ?s"
  have s: "1 \<le> ?s" "?s \<le> n" using uns_start_bounds [of 1 n ?raw] assms by auto
  have c: "uns_content n v = drop ?k ?raw" by (simp add: uns_content_def Let_def)
  with two s have k: "?k < n" by simp
  then have nth: "uns_content n v ! 0 = ?raw ! ?k" "uns_content n v ! 1 = ?raw ! Suc ?k"
    by (simp_all add: c)
  show ?thesis
  proof (cases "?raw ! ?s AND 0x80 = 0")
    case True
    then have "?k = ?s" by (simp add: uns_pad_def)
    with uns_start_stop [of ?s ?raw n 1] k nth show ?thesis by auto
  next
    case False
    then have "Suc ?k = ?s" using s by (simp add: uns_pad_def)
    then have "uns_content n v ! 1 = ?raw ! ?s" using nth(2) by (simp only:)
    with False show ?thesis by simp
  qed
qed

text \<open>
  The encoder is canonical. What it writes for an INTEGER is an element of 1 to 4 content octets
  whose first nine bits are neither all zero nor all one (X.690 8.3.2); what it writes for an
  unsigned value of either width is an element of at most one octet more than the value has, whose
  first nine bits are not all zero and whose sign bit is clear, so a reader that takes it for a
  two's complement number never sees a negative one.
\<close>

lemma ber_encoders_canonical:
  "(\<exists>c. emits (ber_encode_integer i) (Some (ber_tlv_bytes BER_TAG_INTEGER c)) \<and>
      1 \<le> length c \<and> length c \<le> 4 \<and>
      \<not> (2 \<le> length c \<and> c ! 0 = 0 \<and> c ! 1 AND 0x80 = 0) \<and>
      \<not> (2 \<le> length c \<and> c ! 0 = 0xFF \<and> c ! 1 AND 0x80 \<noteq> 0)) \<and>
    (\<exists>c. emits (ber_encode_unsigned_tagged tag u) (Some (ber_tlv_bytes tag c)) \<and>
      1 \<le> length c \<and> length c \<le> 5 \<and> c ! 0 AND 0x80 = 0 \<and>
      \<not> (2 \<le> length c \<and> c ! 0 = 0 \<and> c ! 1 AND 0x80 = 0)) \<and>
    (\<exists>c. emits (ber_encode_unsigned64_tagged tag w) (Some (ber_tlv_bytes tag c)) \<and>
      1 \<le> length c \<and> length c \<le> 9 \<and> c ! 0 AND 0x80 = 0 \<and>
      \<not> (2 \<le> length c \<and> c ! 0 = 0 \<and> c ! 1 AND 0x80 = 0))"
proof (intro conjI)
  have len: "\<not> (2 \<le> length (int_content i) \<and> int_content i ! 0 = 0 \<and> int_content i ! 1 AND 0x80 = 0) \<and>
      \<not> (2 \<le> length (int_content i) \<and> int_content i ! 0 = 0xFF \<and> int_content i ! 1 AND 0x80 \<noteq> 0)"
    using int_start_stop [of 0 _ "be_octets 4 i", OF _ refl] by (auto simp: int_content_def)
  then show "\<exists>c. emits (ber_encode_integer i) (Some (ber_tlv_bytes BER_TAG_INTEGER c)) \<and>
      1 \<le> length c \<and> length c \<le> 4 \<and>
      \<not> (2 \<le> length c \<and> c ! 0 = 0 \<and> c ! 1 AND 0x80 = 0) \<and>
      \<not> (2 \<le> length c \<and> c ! 0 = 0xFF \<and> c ! 1 AND 0x80 \<noteq> 0)"
    using emits_integer length_int_content by blast
  show "\<exists>c. emits (ber_encode_unsigned_tagged tag u) (Some (ber_tlv_bytes tag c)) \<and>
      1 \<le> length c \<and> length c \<le> 5 \<and> c ! 0 AND 0x80 = 0 \<and>
      \<not> (2 \<le> length c \<and> c ! 0 = 0 \<and> c ! 1 AND 0x80 = 0)"
    using emits_unsigned length_uns_content [of 4 u] uns_content_nonneg [of 4 u]
      uns_content_minimal [of 4 u] by (intro exI [of _ "uns_content 4 u"]) auto
  show "\<exists>c. emits (ber_encode_unsigned64_tagged tag w) (Some (ber_tlv_bytes tag c)) \<and>
      1 \<le> length c \<and> length c \<le> 9 \<and> c ! 0 AND 0x80 = 0 \<and>
      \<not> (2 \<le> length c \<and> c ! 0 = 0 \<and> c ! 1 AND 0x80 = 0)"
    using emits_unsigned64 length_uns_content [of 8 w] uns_content_nonneg [of 8 w]
      uns_content_minimal [of 8 w] by (intro exI [of _ "uns_content 8 w"]) auto
qed

section \<open>Where the code departs from its comments\<close>

lemma oid_arcs_down_tail:
  "n \<le> length x \<Longrightarrow> length x = length y \<Longrightarrow> drop 2 x = drop 2 y \<Longrightarrow> oid_arcs_down x n = oid_arcs_down y n"
proof (induction n)
  case 0
  then show ?case by simp
next
  case (Suc i)
  have "x ! i = y ! i" if "2 \<le> i"
  proof -
    have "z ! i = drop 2 z ! (i - 2)" if "length z = length x" for z :: oid
    proof -
      have "2 + (i - 2) = i" using \<open>2 \<le> i\<close> by simp
      with that Suc.prems(1) show ?thesis by (subst nth_drop) simp_all
    qed
    from this [of x] this [of y] show ?thesis
      using Suc.prems(2,3) by simp
  qed
  with Suc show ?case by (simp add: Let_def)
qed

lemma oid_loop_prefix:
  "oid_loop mem p e out cap = Some (Inr arcs') \<Longrightarrow> take (length out) arcs' = out"
proof (induction mem p e out cap rule: oid_loop.induct)
  case (1 mem p e out cap)
  show ?case
  proof (cases "p < e")
    case True
    with "1.prems" obtain arc q where q: "oid_arc_loop mem p e 0 = Some (Inr (arc, q))"
        "\<not> cap \<le> length out" "oid_loop mem q e (out @ [arc]) cap = Some (Inr arcs')"
      by (subst (asm) oid_loop.simps) (auto simp: chk_Inr_iff split: if_splits)
    from "1.IH" [OF True q(1) refl q(2,3)]
    have "take (length (out @ [arc])) arcs' = out @ [arc]" .
    then have "take (length out) (take (length (out @ [arc])) arcs') = out" by simp
    then show ?thesis by (simp add: min_def)
  next
    case False
    with "1.prems" show ?thesis by (subst (asm) oid_loop.simps) auto
  qed
qed

text \<open>
  C38. An OID element whose first octet is 120 or more decodes to a first arc of 3 or more, which no
  OBJECT IDENTIFIER has, and which \<open>ber_encode_oid\<close> then refuses: the agent cannot echo such a name.
  (\<open>2.40\<close> to \<open>2.175\<close> are the names concerned. The comment in \<open>ber_decode_oid\<close> says the first arc is
  always 0 to 2.)
\<close>

theorem ber_decode_oid_first_arc_above_2:
  assumes "rd mem (tlv_value t) = Some b" and "120 \<le> b"
    and "ber_decode_oid mem t cap = Some (Inr oid)"
  shows "2 < oid ! 0 \<and> ber_encode_oid oid s = Some (BER_ERR_OVERFLOW, s)"
proof -
  from assms have l: "oid_loop mem (tlv_value t + 1) (tlv_value t + tlv_length t)
      [ucast (b div 40), ucast (b mod 40)] cap = Some (Inr oid)"
    by (auto simp: ber_decode_oid_def split: if_splits)
  then have "take 2 oid = [ucast (b div 40), ucast (b mod 40)]"
    using oid_loop_prefix [OF l] by (simp add: numeral_2_eq_2)
  then have oid: "2 \<le> length oid" "oid ! 0 = ucast (b div 40)"
    by (cases oid; cases "tl oid"; auto)+
  have "unat (ucast (b div 40) :: u32) = unat b div 40"
    using unat_u8_bound [of "b div 40"] by (simp add: unsigned_ucast_eq take_bit_eq_mod unat_div)
  moreover have "120 \<le> unat b" using assms(2) by (simp add: word_le_nat_alt)
  ultimately have "2 < oid ! 0"
    by (simp add: oid word_less_nat_alt)
  with oid show ?thesis
    by (simp add: ber_encode_oid_def ret_status_def)
qed

theorem ber_decode_oid_first_arc_above_2_witness:
  "\<exists>oid. ber_decode_oid [0x06, 0x02, 0x7F, 0x01] \<lparr>tlv_tag = 6, tlv_value = 2, tlv_length = 2, tlv_next = 4\<rparr>
      20 = Some (Inr oid) \<and> 2 < oid ! 0 \<and>
    ber_encode_oid oid \<lparr>ebuf = [0, 0], ecursor = 2\<rparr> = Some (BER_ERR_OVERFLOW, \<lparr>ebuf = [0, 0], ecursor = 2\<rparr>)"
proof -
  let ?t = "\<lparr>tlv_tag = 6, tlv_value = 2, tlv_length = 2, tlv_next = 4\<rparr>"
  have d: "ber_decode_oid [0x06, 0x02, 0x7F, 0x01] ?t 20 = Some (Inr [3, 7, 1])"
    by code_simp
  show ?thesis
    using ber_decode_oid_first_arc_above_2 [OF _ _ d, where b = "0x7F" and s = "\<lparr>ebuf = [0, 0], ecursor = 2\<rparr>"] d by (simp add: rd_def)
qed

lemma ucast_add_256: "(ucast (x + 256 :: u32) :: u8) = ucast x"
  by (simp add: word_unat_eq_iff unsigned_ucast_eq take_bit_eq_mod unat_word_ariths mod_mod_cancel)

text \<open>
  C39. \<open>ber_encode_oid\<close> is not injective: in every buffer it gives \<open>2.a\<close> and \<open>2.(a + 256)\<close>, followed by
  the same arcs, one and the same encoding, because the combined octet is truncated to eight bits.
  (The comment there says arcs the single octet cannot represent are rejected.)
\<close>

theorem ber_encode_oid_second_arc_truncated:
  "ber_encode_oid (2 # a # arcs) s = ber_encode_oid (2 # (a + 256) # arcs) s"
proof -
  have "oid_arcs_down (2 # a # arcs) (length (2 # a # arcs))
      = oid_arcs_down (2 # (a + 256) # arcs) (length (2 # (a + 256) # arcs))"
    using oid_arcs_down_tail [of "length (2 # a # arcs)" "2 # a # arcs" "2 # (a + 256) # arcs"] by simp
  moreover have "(ucast (2 * 40 + a) :: u8) = ucast (2 * 40 + (a + 256))"
    using ucast_add_256 [of "2 * 40 + a"] by (simp add: add.assoc)
  ultimately show ?thesis
    by (simp add: ber_encode_oid_def del: oid_arcs_down.simps)
qed

lemma word_2_pow: "x * 4294967296 = (0 :: u32)" "y * 18446744073709551616 = (0 :: u64)"
proof -
  have "(4294967296 :: u32) = 0" "(18446744073709551616 :: u64) = 0" by simp_all
  then show "x * 4294967296 = (0 :: u32)" "y * 18446744073709551616 = (0 :: u64)" by (simp_all only: mult_zero_right)
qed

lemma be_loop_value:
  "holds_at mem p bs \<Longrightarrow> length bs = n \<Longrightarrow> be_loop mem p n v = Some (foldl be_step v bs)"
  using be_loop_holds_at by blast

text \<open>
  C40. \<open>ber_decode_unsigned\<close> accepts five content octets whatever the first one is, and returns the
  value of the other four; \<open>ber_decode_unsigned64\<close> does the same with nine. So \<open>01 00 00 00 00\<close> is
  taken for a Counter32 of 0. (The comment there says a fifth octet is the pad 0x00 and anything
  larger is an overflow.)
\<close>

theorem ber_decode_unsigned_ignores_fifth_octet:
  "(tlv_tag t \<in> {SNMP_TAG_COUNTER32, SNMP_TAG_GAUGE32, SNMP_TAG_TIMETICKS} \<and> tlv_length t = 5 \<and>
     holds_at mem (tlv_value t) [b, b3, b2, b1, b0] \<longrightarrow>
     ber_decode_unsigned mem t =
       Some (Inr (ucast b3 * 2 ^ 24 + ucast b2 * 2 ^ 16 + ucast b1 * 2 ^ 8 + ucast b0))) \<and>
   (tlv_tag t = SNMP_TAG_COUNTER64 \<and> tlv_length t = 9 \<and>
     holds_at mem (tlv_value t) [b, b7, b6, b5, b4, b3, b2, b1, b0] \<longrightarrow>
     ber_decode_unsigned64 mem t =
       Some (Inr (ucast b7 * 2 ^ 56 + ucast b6 * 2 ^ 48 + ucast b5 * 2 ^ 40 + ucast b4 * 2 ^ 32 +
         ucast b3 * 2 ^ 24 + ucast b2 * 2 ^ 16 + ucast b1 * 2 ^ 8 + ucast b0)))"
proof (intro conjI impI; elim conjE)
  assume h: "holds_at mem (tlv_value t) [b, b3, b2, b1, b0]" and t: "tlv_length t = 5"
    "tlv_tag t \<in> {SNMP_TAG_COUNTER32, SNMP_TAG_GAUGE32, SNMP_TAG_TIMETICKS}"
  show "ber_decode_unsigned mem t =
       Some (Inr (ucast b3 * 2 ^ 24 + ucast b2 * 2 ^ 16 + ucast b1 * 2 ^ 8 + ucast b0))"
    using t be_loop_value [OF h, where n = 5 and v = "0 :: u32"]
    by (auto simp: ber_decode_unsigned_def be_step_arith algebra_simps word_2_pow)
next
  assume h: "holds_at mem (tlv_value t) [b, b7, b6, b5, b4, b3, b2, b1, b0]" and t: "tlv_length t = 9"
    "tlv_tag t = SNMP_TAG_COUNTER64"
  show "ber_decode_unsigned64 mem t =
       Some (Inr (ucast b7 * 2 ^ 56 + ucast b6 * 2 ^ 48 + ucast b5 * 2 ^ 40 + ucast b4 * 2 ^ 32 +
         ucast b3 * 2 ^ 24 + ucast b2 * 2 ^ 16 + ucast b1 * 2 ^ 8 + ucast b0))"
    using t be_loop_value [OF h, where n = 9 and v = "0 :: u64"]
    by (auto simp: ber_decode_unsigned64_def be_step_arith algebra_simps word_2_pow)
qed

theorem ber_decode_unsigned_ignores_fifth_octet_witness:
  "ber_decode_unsigned [0x41, 0x05, 0x01, 0, 0, 0, 0]
    \<lparr>tlv_tag = 0x41, tlv_value = 2, tlv_length = 5, tlv_next = 7\<rparr> = Some (Inr 0)"
  using ber_decode_unsigned_ignores_fifth_octet
    [of "\<lparr>tlv_tag = 0x41, tlv_value = 2, tlv_length = 5, tlv_next = 7\<rparr>" "[0x41, 0x05, 0x01, 0, 0, 0, 0]" 1 0 0 0 0]
  by (simp add: holds_at_def)

end
