(* ===== verification/Mib_Types.thy ===== *)
theory Mib_Types
  imports Ber_Types
begin

text \<open>
  \<open>components/mib/include/{mib_types,mib_object,mib_table,mib_tree}.h\<close>: varbinds, objects, tables and
  resolved instances. The callbacks of an object or a table act on the state \<open>'s\<close> of the device (the
  static variables of the MIB modules and what is behind the hardware abstraction), so the records
  are parameterised by it; a callback with a \<open>NULL\<close> value is an \<open>option\<close>.
\<close>

section \<open>Results and values\<close>

datatype mib_result =
    MIB_OK
  | MIB_NO_SUCH_OBJECT
  | MIB_NO_SUCH_INSTANCE
  | MIB_END_OF_VIEW
  | MIB_WRONG_TYPE
  | MIB_WRONG_VALUE
  | MIB_NOT_WRITABLE
  | MIB_GEN_ERR

abbreviation SNMP_MAX_OCTETS_LEN :: nat where "SNMP_MAX_OCTETS_LEN \<equiv> 128"

text \<open>
  The union of \<open>snmp_varbind_t\<close>, as the member that was written last; \<open>UZero\<close> is the union after
  \<open>memset(vb, 0, sizeof(*vb))\<close>, whose every member reads as zero or empty. An array member is the
  list of its live elements, the \<open>_len\<close> field beside it is the length of that list.
\<close>

datatype vunion =
    UZero
  | UInt i32
  | UCounter64 u64
  | UOctets "u8 list"
  | UOid oid

record snmp_varbind =
  vb_oid :: oid
  vb_tag :: u8
  vb_value :: vunion

text \<open>Reading a member; \<open>None\<close> when another member is the live one.\<close>

fun read_int :: "vunion \<Rightarrow> i32 option" where
  "read_int (UInt v) = Some v"
| "read_int UZero = Some 0"
| "read_int _ = None"

fun read_counter64 :: "vunion \<Rightarrow> u64 option" where
  "read_counter64 (UCounter64 v) = Some v"
| "read_counter64 UZero = Some 0"
| "read_counter64 _ = None"

fun read_octets :: "vunion \<Rightarrow> u8 list option" where
  "read_octets (UOctets bs) = Some bs"
| "read_octets UZero = Some []"
| "read_octets _ = None"

fun read_oid :: "vunion \<Rightarrow> oid option" where
  "read_oid (UOid x) = Some x"
| "read_oid UZero = Some []"
| "read_oid _ = None"

text \<open>\<open>memset(&vb, 0, sizeof(vb))\<close>\<close>

definition vb_zero :: snmp_varbind where
  "vb_zero = \<lparr>vb_oid = [], vb_tag = 0, vb_value = UZero\<rparr>"

section \<open>Objects and tables\<close>

datatype mib_access = MIB_ACCESS_RO | MIB_ACCESS_RW

text \<open>
  A getter receives the varbind and returns its result together with the varbind it leaves behind;
  a setter only reads the varbind. \<open>None\<close> is undefined behaviour inside the callback.
\<close>

type_synonym 's mib_get_fn = "snmp_varbind \<Rightarrow> 's \<Rightarrow> ((mib_result \<times> snmp_varbind) \<times> 's) option"
type_synonym 's mib_set_fn = "snmp_varbind \<Rightarrow> 's \<Rightarrow> (mib_result \<times> 's) option"

record 's mib_object =
  mo_oid :: oid
  mo_value_tag :: u8
  mo_access :: mib_access
  mo_getter :: "'s mib_get_fn"
  mo_setter :: "'s mib_set_fn option"

record mib_column =
  col_number :: u32
  col_value_tag :: u8
  col_access :: mib_access

text \<open>
  The row callbacks: \<open>Inr i\<close> is \<open>MIB_OK\<close> with \<open>*out_index = i\<close>, \<open>Inl r\<close> any other result, with
  \<open>*out_index\<close> untouched.
\<close>

type_synonym 's row_first = "'s \<Rightarrow> (mib_result + u32) \<times> 's"
type_synonym 's row_next = "u32 \<Rightarrow> 's \<Rightarrow> (mib_result + u32) \<times> 's"

record 's mib_table =
  mt_entry_oid :: oid
  mt_columns :: "mib_column list"
  mt_first_index :: "'s row_first"
  mt_next_index :: "'s row_next"
  mt_get_cell :: "u32 \<Rightarrow> u32 \<Rightarrow> 's mib_get_fn"
  mt_set_cell :: "(u32 \<Rightarrow> u32 \<Rightarrow> 's mib_set_fn) option"

section \<open>Resolved instances\<close>

datatype 's resolved_kind =
    MIB_RESOLVED_SCALAR "'s mib_object"
  | MIB_RESOLVED_CELL "'s mib_table" u32 u32

record 's mib_resolved =
  rs_oid :: oid
  rs_value_tag :: u8
  rs_access :: mib_access
  rs_kind :: "'s resolved_kind"

section \<open>Well-formed varbinds\<close>

text \<open>
  The discipline behind the union: the live member is the one that \<open>value_tag\<close> selects, and array
  members respect their capacity.
\<close>

definition value_ok :: "u8 \<Rightarrow> vunion \<Rightarrow> bool" where
  "value_ok tag v \<longleftrightarrow>
     (if tag \<in> {BER_TAG_INTEGER, SNMP_TAG_COUNTER32, SNMP_TAG_GAUGE32, SNMP_TAG_TIMETICKS}
        then \<exists>i. v = UInt i
      else if tag = SNMP_TAG_COUNTER64 then \<exists>c. v = UCounter64 c
      else if tag \<in> {BER_TAG_OCTET_STRING, SNMP_TAG_IPADDRESS, SNMP_TAG_OPAQUE}
        then \<exists>bs. v = UOctets bs \<and> length bs \<le> SNMP_MAX_OCTETS_LEN
      else if tag = BER_TAG_OID then \<exists>x. v = UOid x \<and> length x \<le> BER_MAX_OID_LEN
      else True)"

definition vb_ok :: "snmp_varbind \<Rightarrow> bool" where
  "vb_ok vb \<longleftrightarrow> length (vb_oid vb) \<le> BER_MAX_OID_LEN \<and> value_ok (vb_tag vb) (vb_value vb)"

lemma vb_ok_zero [simp]: "vb_ok vb_zero"
  by (simp add: vb_ok_def vb_zero_def value_ok_def)

end
