(* ===== verification/Mib_Registry.thy ===== *)
theory Mib_Registry
  imports Mib_Types
begin

text \<open>
  \<open>components/mib/mib_registry.c\<close>: the registration tables, OID comparison, the two binary searches
  over the scalar modules, the row scans over the conceptual tables, and the unified resolve
  interface that the PDU handlers call. A pointer to a registered object or table is the object or
  table itself. A resolve returns \<open>Inr r\<close> for \<open>MIB_OK\<close> with \<open>*out = r\<close>, \<open>Inl\<close> of the result otherwise,
  and \<open>None\<close> when a fixed array of \<open>BER_MAX_OID_LEN\<close> arcs would be overrun or a scan never ends.
\<close>

section \<open>Registration\<close>

abbreviation MIB_MAX_MODULES :: nat where "MIB_MAX_MODULES \<equiv> 4"
abbreviation MIB_MAX_TABLES :: nat where "MIB_MAX_TABLES \<equiv> 4"

record 's registry =
  s_modules :: "'s mib_object list list"
  s_tables :: "'s mib_table list"

fun mib_oid_compare :: "oid \<Rightarrow> oid \<Rightarrow> int" where
  "mib_oid_compare (a # as) (b # bs) =
     (if a < b then - 1 else if b < a then 1 else mib_oid_compare as bs)"
| "mib_oid_compare [] (b # bs) = - 1"
| "mib_oid_compare (a # as) [] = 1"
| "mib_oid_compare [] [] = 0"

definition mib_registry_register_module ::
  "'s mib_object list \<Rightarrow> 's registry \<Rightarrow> int \<times> 's registry" where
  "mib_registry_register_module objects reg =
     (if MIB_MAX_MODULES \<le> length (s_modules reg) then (- 1, reg)
      else (0, reg\<lparr>s_modules := s_modules reg @ [objects]\<rparr>))"

definition mib_registry_register_table :: "'s mib_table \<Rightarrow> 's registry \<Rightarrow> int \<times> 's registry" where
  "mib_registry_register_table table reg =
     (if MIB_MAX_TABLES \<le> length (s_tables reg) then (- 1, reg)
      else (0, reg\<lparr>s_tables := s_tables reg @ [table]\<rparr>))"

definition mib_registry_reset :: "'s registry \<Rightarrow> 's registry" where
  "mib_registry_reset reg = reg\<lparr>s_modules := [], s_tables := []\<rparr>"

definition mib_registry_count :: "'s registry \<Rightarrow> nat" where
  "mib_registry_count reg = foldl (\<lambda>total objs. total + length objs) 0 (s_modules reg)"

section \<open>Scalar lookup\<close>

function find_loop :: "'s mib_object list \<Rightarrow> oid \<Rightarrow> nat \<Rightarrow> nat \<Rightarrow> 's mib_object option" where
  "find_loop objs oid lo hi =
     (if lo < hi then
        let mid = lo + (hi - lo) div 2; c = mib_oid_compare (mo_oid (objs ! mid)) oid in
        if c = 0 then Some (objs ! mid)
        else if c < 0 then find_loop objs oid (mid + 1) hi
        else find_loop objs oid lo mid
      else None)"
  by pat_completeness auto
termination
  by (relation "measure (\<lambda>(objs, oid, lo, hi). hi - lo)") auto

declare find_loop.simps [simp del]

fun find_modules :: "'s mib_object list list \<Rightarrow> oid \<Rightarrow> 's mib_object option" where
  "find_modules [] oid = None"
| "find_modules (objs # ms) oid =
     (case find_loop objs oid 0 (length objs) of
        Some obj \<Rightarrow> Some obj
      | None \<Rightarrow> find_modules ms oid)"

definition mib_registry_find :: "'s registry \<Rightarrow> oid \<Rightarrow> 's mib_object option" where
  "mib_registry_find reg oid = find_modules (s_modules reg) oid"

function upper_loop :: "'s mib_object list \<Rightarrow> oid \<Rightarrow> nat \<Rightarrow> nat \<Rightarrow> nat" where
  "upper_loop objs oid lo hi =
     (if lo < hi then
        let mid = lo + (hi - lo) div 2; c = mib_oid_compare (mo_oid (objs ! mid)) oid in
        if 0 < c then upper_loop objs oid lo mid
        else upper_loop objs oid (mid + 1) hi
      else lo)"
  by pat_completeness auto
termination
  by (relation "measure (\<lambda>(objs, oid, lo, hi). hi - lo)") auto

declare upper_loop.simps [simp del]

fun find_next_modules ::
  "'s mib_object list list \<Rightarrow> oid \<Rightarrow> 's mib_object option \<Rightarrow> 's mib_object option" where
  "find_next_modules [] oid best = best"
| "find_next_modules (objs # ms) oid best =
     (let lo = upper_loop objs oid 0 (length objs) in
      find_next_modules ms oid
        (if lo < length objs then
           let cand = objs ! lo in
           case best of
             None \<Rightarrow> Some cand
           | Some b \<Rightarrow> if mib_oid_compare (mo_oid cand) (mo_oid b) < 0 then Some cand else best
         else best))"

definition mib_registry_find_next :: "'s registry \<Rightarrow> oid \<Rightarrow> 's mib_object option" where
  "mib_registry_find_next reg oid = find_next_modules (s_modules reg) oid None"

section \<open>Tables\<close>

definition populate_scalar :: "'s mib_object \<Rightarrow> 's mib_resolved option" where
  "populate_scalar obj =
     (if BER_MAX_OID_LEN < length (mo_oid obj) then None
      else Some \<lparr>rs_oid = mo_oid obj, rs_value_tag = mo_value_tag obj, rs_access = mo_access obj,
                 rs_kind = MIB_RESOLVED_SCALAR obj\<rparr>)"

definition populate_cell :: "'s mib_table \<Rightarrow> mib_column \<Rightarrow> u32 \<Rightarrow> 's mib_resolved option" where
  "populate_cell t col index =
     (if BER_MAX_OID_LEN < length (mt_entry_oid t) + 2 then None
      else Some \<lparr>rs_oid = mt_entry_oid t @ [col_number col, index], rs_value_tag = col_value_tag col,
                 rs_access = col_access col, rs_kind = MIB_RESOLVED_CELL t (col_number col) index\<rparr>)"

text \<open>The row loop of \<open>table_find_exact\<close>: does row \<open>idx\<close> exist?\<close>

partial_function (option) row_exists_loop ::
  "'s mib_table \<Rightarrow> u32 \<Rightarrow> mib_result + u32 \<Rightarrow> 's \<Rightarrow> (bool \<times> 's) option" where
  [code]: "row_exists_loop t idx r s =
     (case r of
        Inl _ \<Rightarrow> Some (False, s)
      | Inr cur \<Rightarrow>
          if cur = idx then Some (True, s)
          else if idx < cur then Some (False, s)
          else case mt_next_index t cur s of (r', s') \<Rightarrow> row_exists_loop t idx r' s')"

definition table_find_exact ::
  "'s mib_table \<Rightarrow> oid \<Rightarrow> 's \<Rightarrow> ((mib_result + 's mib_resolved) \<times> 's) option" where
  "table_find_exact t oid s =
     (let n = length (mt_entry_oid t) in
      if length oid \<noteq> n + 2 then Some (Inl MIB_NO_SUCH_OBJECT, s)
      else if mib_oid_compare (take n oid) (mt_entry_oid t) \<noteq> 0 then Some (Inl MIB_NO_SUCH_OBJECT, s)
      else let col_num = oid ! n; idx = oid ! (n + 1) in
        case List.find (\<lambda>c. col_number c = col_num) (mt_columns t) of
          None \<Rightarrow> Some (Inl MIB_NO_SUCH_OBJECT, s)
        | Some col \<Rightarrow> do {
            let (r, s1) = mt_first_index t s;
            (exists_row, s2) \<leftarrow> row_exists_loop t idx r s1;
            if \<not> exists_row then Some (Inl MIB_NO_SUCH_INSTANCE, s2)
            else do { out \<leftarrow> populate_cell t col idx; Some (Inr out, s2) }
          })"

text \<open>The row loop of \<open>table_find_next\<close> in one column.\<close>

partial_function (option) next_row_loop ::
  "'s mib_table \<Rightarrow> mib_column \<Rightarrow> oid \<Rightarrow> mib_result + u32 \<Rightarrow> 's \<Rightarrow> ('s mib_resolved option \<times> 's) option" where
  [code]: "next_row_loop t col oid r s =
     (case r of
        Inl _ \<Rightarrow> Some (None, s)
      | Inr idx \<Rightarrow>
          if BER_MAX_OID_LEN < length (mt_entry_oid t) + 2 then None
          else if 0 < mib_oid_compare (mt_entry_oid t @ [col_number col, idx]) oid
            then Option.bind (populate_cell t col idx) (\<lambda>out. Some (Some out, s))
          else case mt_next_index t idx s of (r', s') \<Rightarrow> next_row_loop t col oid r' s')"

fun next_column_loop ::
  "'s mib_table \<Rightarrow> mib_column list \<Rightarrow> oid \<Rightarrow> 's \<Rightarrow> ((mib_result + 's mib_resolved) \<times> 's) option" where
  "next_column_loop t [] oid s = Some (Inl MIB_END_OF_VIEW, s)"
| "next_column_loop t (col # cols) oid s = do {
     let (r, s1) = mt_first_index t s;
     (found, s2) \<leftarrow> next_row_loop t col oid r s1;
     case found of
       Some out \<Rightarrow> Some (Inr out, s2)
     | None \<Rightarrow> next_column_loop t cols oid s2
   }"

definition table_find_next ::
  "'s mib_table \<Rightarrow> oid \<Rightarrow> 's \<Rightarrow> ((mib_result + 's mib_resolved) \<times> 's) option" where
  "table_find_next t oid s = next_column_loop t (mt_columns t) oid s"

section \<open>The unified resolve interface\<close>

fun resolve_tables ::
  "'s mib_table list \<Rightarrow> oid \<Rightarrow> 's \<Rightarrow> ((mib_result + 's mib_resolved) \<times> 's) option" where
  "resolve_tables [] oid s = Some (Inl MIB_NO_SUCH_OBJECT, s)"
| "resolve_tables (t # ts) oid s = do {
     (r, s1) \<leftarrow> table_find_exact t oid s;
     case r of
       Inr out \<Rightarrow> Some (Inr out, s1)
     | Inl e \<Rightarrow> if e = MIB_NO_SUCH_INSTANCE then Some (Inl e, s1) else resolve_tables ts oid s1
   }"

definition mib_registry_resolve ::
  "'s registry \<Rightarrow> oid \<Rightarrow> 's \<Rightarrow> ((mib_result + 's mib_resolved) \<times> 's) option" where
  "mib_registry_resolve reg oid s =
     (case mib_registry_find reg oid of
        Some scalar \<Rightarrow> do { out \<leftarrow> populate_scalar scalar; Some (Inr out, s) }
      | None \<Rightarrow> resolve_tables (s_tables reg) oid s)"

fun resolve_next_tables ::
  "'s mib_table list \<Rightarrow> oid \<Rightarrow> 's mib_resolved option \<Rightarrow> 's \<Rightarrow> ('s mib_resolved option \<times> 's) option" where
  "resolve_next_tables [] oid best s = Some (best, s)"
| "resolve_next_tables (t # ts) oid best s = do {
     (r, s1) \<leftarrow> table_find_next t oid s;
     resolve_next_tables ts oid
       (case r of
          Inl _ \<Rightarrow> best
        | Inr cand \<Rightarrow>
            (case best of
               None \<Rightarrow> Some cand
             | Some b \<Rightarrow> if mib_oid_compare (rs_oid cand) (rs_oid b) < 0 then Some cand else best)) s1
   }"

definition mib_registry_resolve_next ::
  "'s registry \<Rightarrow> oid \<Rightarrow> 's \<Rightarrow> ((mib_result + 's mib_resolved) \<times> 's) option" where
  "mib_registry_resolve_next reg oid s = do {
     best0 \<leftarrow> (case mib_registry_find_next reg oid of
        None \<Rightarrow> Some None
      | Some scalar \<Rightarrow> do { b \<leftarrow> populate_scalar scalar; Some (Some b) });
     (best, s1) \<leftarrow> resolve_next_tables (s_tables reg) oid best0 s;
     case best of
       None \<Rightarrow> Some (Inl MIB_END_OF_VIEW, s1)
     | Some out \<Rightarrow> Some (Inr out, s1)
   }"

definition mib_resolved_get :: "'s mib_resolved \<Rightarrow> 's mib_get_fn" where
  "mib_resolved_get r vb s =
     (case rs_kind r of
        MIB_RESOLVED_SCALAR obj \<Rightarrow> mo_getter obj vb s
      | MIB_RESOLVED_CELL t column index \<Rightarrow> mt_get_cell t column index vb s)"

definition mib_resolved_set :: "'s mib_resolved \<Rightarrow> 's mib_set_fn" where
  "mib_resolved_set r vb s =
     (case rs_kind r of
        MIB_RESOLVED_SCALAR obj \<Rightarrow>
          (case mo_setter obj of None \<Rightarrow> Some (MIB_NOT_WRITABLE, s) | Some setter \<Rightarrow> setter vb s)
      | MIB_RESOLVED_CELL t column index \<Rightarrow>
          (case mt_set_cell t of None \<Rightarrow> Some (MIB_NOT_WRITABLE, s)
           | Some set_cell \<Rightarrow> set_cell column index vb s))"

end
