(* ===== verification/Mib_Registry_Correct.thy ===== *)
theory Mib_Registry_Correct
  imports Mib_Registry
begin

text \<open>
  The registry against its specification. The order of OIDs is the lexicographic order of lists; the
  two binary searches over a module are a search and a least upper element, and so over all modules;
  successors in a set of names, and how they combine over a union of sets.
\<close>

section \<open>The order of OIDs\<close>

lemma mib_oid_compare_less [simp]: "mib_oid_compare a b < 0 \<longleftrightarrow> a < b"
  by (induction a b rule: mib_oid_compare.induct) auto

lemma mib_oid_compare_greater [simp]: "0 < mib_oid_compare a b \<longleftrightarrow> b < a"
  by (induction a b rule: mib_oid_compare.induct) auto

lemma mib_oid_compare_equal [simp]: "mib_oid_compare a b = 0 \<longleftrightarrow> a = b"
  by (induction a b rule: mib_oid_compare.induct) auto

lemma oid_append_less [simp]: "(xs @ ys < xs @ zs) \<longleftrightarrow> (ys < (zs :: oid))"
  by (induction xs) simp_all

text \<open>\<open>is_next oid S r\<close>: \<open>r\<close> is the least element of \<open>S\<close> above \<open>oid\<close>, or there is none.\<close>

definition is_next :: "oid \<Rightarrow> oid set \<Rightarrow> oid option \<Rightarrow> bool" where
  "is_next oid S r \<longleftrightarrow>
     (case r of
        None \<Rightarrow> \<forall>x \<in> S. \<not> oid < x
      | Some b \<Rightarrow> b \<in> S \<and> oid < b \<and> (\<forall>x \<in> S. oid < x \<longrightarrow> b \<le> x))"

lemma is_next_empty [simp]: "is_next oid {} r \<longleftrightarrow> r = None"
  by (auto simp: is_next_def split: option.splits)

lemma is_next_union:
  assumes "is_next oid S r" and "is_next oid T q"
  shows "is_next oid (S \<union> T)
    (case q of None \<Rightarrow> r | Some c \<Rightarrow> (case r of None \<Rightarrow> q | Some b \<Rightarrow> if c < b then q else r))"
  using assms by (fastforce simp: is_next_def split: option.splits)

lemma is_next_find:
  assumes "sorted_wrt (<) (map f xs)"
  shows "is_next oid (f ` set xs) (map_option f (List.find (\<lambda>x. oid < f x) xs))"
  using assms
proof (induction xs)
  case Nil
  then show ?case by simp
next
  case (Cons x xs)
  show ?case
  proof (cases "oid < f x")
    case True
    with Cons.prems show ?thesis by (auto simp: is_next_def intro: less_imp_le)
  next
    case False
    with Cons show ?thesis by (auto simp: is_next_def split: option.splits)
  qed
qed

section \<open>Binary search\<close>

definition module_sorted :: "'s mib_object list \<Rightarrow> bool" where
  "module_sorted objs \<longleftrightarrow> sorted_wrt (<) (map mo_oid objs)"

lemma module_sorted_nth:
  "module_sorted objs \<Longrightarrow> i < j \<Longrightarrow> j < length objs \<Longrightarrow> mo_oid (objs ! i) < mo_oid (objs ! j)"
  by (simp add: module_sorted_def sorted_wrt_iff_nth_less)

lemma find_loop_Some:
  "find_loop objs oid lo hi = Some obj \<Longrightarrow> hi \<le> length objs \<Longrightarrow> obj \<in> set objs \<and> mo_oid obj = oid"
proof (induction objs oid lo hi rule: find_loop.induct)
  case (1 objs oid lo hi)
  from "1.prems" show ?case
    by (subst (asm) find_loop.simps) (use 1(1,2) in \<open>auto simp: Let_def split: if_splits\<close>)
qed

lemma find_loop_None:
  assumes "module_sorted objs"
  shows "find_loop objs oid lo hi = None \<Longrightarrow> hi \<le> length objs \<Longrightarrow> lo \<le> i \<Longrightarrow> i < hi \<Longrightarrow>
    mo_oid (objs ! i) \<noteq> oid"
  using assms
proof (induction objs oid lo hi rule: find_loop.induct)
  case (1 objs oid lo hi)
  let ?mid = "lo + (hi - lo) div 2"
  have lt: "lo < hi" using "1.prems" by simp
  have mid: "?mid < length objs" using lt "1.prems" by linarith
  consider "mo_oid (objs ! ?mid) = oid" | "mo_oid (objs ! ?mid) < oid" | "oid < mo_oid (objs ! ?mid)"
    by fastforce
  then show ?case
  proof cases
    case 1
    with "1.prems"(1) lt show ?thesis by (subst (asm) find_loop.simps) (simp add: Let_def)
  next
    case 2
    with "1.prems"(1) lt have "find_loop objs oid (?mid + 1) hi = None"
      by (subst (asm) find_loop.simps) (simp add: Let_def less_imp_neq)
    with 2 lt "1.prems" "1.IH"(1) [OF lt refl refl] have "?mid < i \<Longrightarrow> mo_oid (objs ! i) \<noteq> oid"
      by auto
    moreover have "mo_oid (objs ! i) \<le> mo_oid (objs ! ?mid)" if "i \<le> ?mid"
      using module_sorted_nth [OF "1.prems"(5), of i ?mid] that mid by (cases "i = ?mid") auto
    ultimately show ?thesis using 2 by fastforce
  next
    case 3
    with "1.prems"(1) lt have "find_loop objs oid lo ?mid = None"
      by (subst (asm) find_loop.simps) (simp add: Let_def less_imp_neq [THEN not_sym] less_not_sym)
    with 3 lt "1.prems" "1.IH"(2) [OF lt refl refl] have "i < ?mid \<Longrightarrow> mo_oid (objs ! i) \<noteq> oid"
      by auto
    moreover have "mo_oid (objs ! ?mid) \<le> mo_oid (objs ! i)" if "?mid \<le> i"
      using module_sorted_nth [OF "1.prems"(5), of ?mid i] that "1.prems" by (cases "i = ?mid") auto
    ultimately show ?thesis using 3 by fastforce
  qed
qed

lemma upper_loop_bounds: "lo \<le> hi \<Longrightarrow> lo \<le> upper_loop objs oid lo hi \<and> upper_loop objs oid lo hi \<le> hi"
proof (induction objs oid lo hi rule: upper_loop.induct)
  case (1 objs oid lo hi)
  let ?mid = "lo + (hi - lo) div 2"
  show ?case
  proof (cases "lo < hi")
    case True
    then have "lo \<le> ?mid" "?mid + 1 \<le> hi" by linarith+
    with "1.IH" [OF True refl refl] show ?thesis
      by (subst (1 2) upper_loop.simps) (auto simp: Let_def True)
  next
    case False
    with "1.prems" show ?thesis by (subst (1 2) upper_loop.simps) simp
  qed
qed

text \<open>What one comparison in the middle says about the two halves.\<close>

lemma sorted_halves:
  assumes "module_sorted objs" and "mid < length objs"
  shows "oid < mo_oid (objs ! mid) \<Longrightarrow> mid \<le> i \<Longrightarrow> i < length objs \<Longrightarrow> oid < mo_oid (objs ! i)"
    and "\<not> oid < mo_oid (objs ! mid) \<Longrightarrow> i \<le> mid \<Longrightarrow> \<not> oid < mo_oid (objs ! i)"
proof -
  have le: "mo_oid (objs ! j) \<le> mo_oid (objs ! k)" if "j \<le> k" "k < length objs" for j k
    using module_sorted_nth [OF assms(1), of j k] that by (cases "j = k") auto
  show "oid < mo_oid (objs ! mid) \<Longrightarrow> mid \<le> i \<Longrightarrow> i < length objs \<Longrightarrow> oid < mo_oid (objs ! i)"
    using le [of mid i] by (meson less_le_trans)
  show "\<not> oid < mo_oid (objs ! mid) \<Longrightarrow> i \<le> mid \<Longrightarrow> \<not> oid < mo_oid (objs ! i)"
    using le [of i mid] assms(2) by (meson less_le_trans)
qed

lemma upper_loop_split:
  assumes "module_sorted objs" and "lo \<le> hi" and "hi \<le> length objs"
  shows "(\<forall>i. lo \<le> i \<and> i < upper_loop objs oid lo hi \<longrightarrow> \<not> oid < mo_oid (objs ! i)) \<and>
    (\<forall>i. upper_loop objs oid lo hi \<le> i \<and> i < hi \<longrightarrow> oid < mo_oid (objs ! i))"
  using assms
proof (induction objs oid lo hi rule: upper_loop.induct)
  case (1 objs oid lo hi)
  let ?mid = "lo + (hi - lo) div 2"
  show ?case
  proof (cases "lo < hi")
    case False
    with "1.prems" show ?thesis by (subst (1 2) upper_loop.simps) auto
  next
    case lt: True
    have mid: "lo \<le> ?mid" "?mid < hi" "?mid < length objs" using lt "1.prems" by linarith+
    note halves = sorted_halves [OF "1.prems"(1) mid(3), of oid]
    show ?thesis
    proof (cases "oid < mo_oid (objs ! ?mid)")
      case True
      have eq: "upper_loop objs oid lo hi = upper_loop objs oid lo ?mid"
        using True lt by (subst upper_loop.simps) (simp add: Let_def)
      have ih: "(\<forall>i. lo \<le> i \<and> i < upper_loop objs oid lo ?mid \<longrightarrow> \<not> oid < mo_oid (objs ! i)) \<and>
          (\<forall>i. upper_loop objs oid lo ?mid \<le> i \<and> i < ?mid \<longrightarrow> oid < mo_oid (objs ! i))"
        using True "1.prems" mid by (intro "1.IH"(1) [OF lt refl refl]) simp_all
      have "oid < mo_oid (objs ! i)" if "upper_loop objs oid lo ?mid \<le> i" "i < hi" for i
        using ih halves(1) [OF True, of i] that "1.prems"(3) by (cases "i < ?mid") simp_all
      with ih show ?thesis unfolding eq by blast
    next
      case False
      have eq: "upper_loop objs oid lo hi = upper_loop objs oid (?mid + 1) hi"
        using False lt by (subst upper_loop.simps) (simp add: Let_def)
      let ?u = "upper_loop objs oid (?mid + 1) hi"
      have ih: "(\<forall>i. ?mid + 1 \<le> i \<and> i < ?u \<longrightarrow> \<not> oid < mo_oid (objs ! i)) \<and>
          (\<forall>i. ?u \<le> i \<and> i < hi \<longrightarrow> oid < mo_oid (objs ! i))"
        using False "1.prems" mid by (intro "1.IH"(2) [OF lt refl refl]) simp_all
      have "\<not> oid < mo_oid (objs ! i)" if "i < ?u" for i
        using ih halves(2) [OF False, of i] that by (metis Suc_eq_plus1 not_less_eq_eq)
      with ih show ?thesis unfolding eq by blast
    qed
  qed
qed

lemma upper_loop_is_find:
  assumes "module_sorted objs"
  shows "(let lo = upper_loop objs oid 0 (length objs) in
      if lo < length objs then Some (objs ! lo) else None) = List.find (\<lambda>x. oid < mo_oid x) objs"
proof -
  let ?lo = "upper_loop objs oid 0 (length objs)"
  from upper_loop_split [OF assms, of 0 "length objs" oid]
  have "\<forall>i < ?lo. \<not> oid < mo_oid (objs ! i)" "\<forall>i < length objs. ?lo \<le> i \<longrightarrow> oid < mo_oid (objs ! i)"
    by auto
  moreover have "?lo \<le> length objs" using upper_loop_bounds [of 0 "length objs" objs oid] by simp
  ultimately have "List.find (\<lambda>x. oid < mo_oid x) objs = (if ?lo < length objs then Some (objs ! ?lo) else None)"
    by (auto simp: find_Some_iff find_None_iff in_set_conv_nth)
  then show ?thesis by (simp add: Let_def)
qed

lemma find_member: "List.find P xs = Some x \<Longrightarrow> x \<in> set xs \<and> P x"
  by (induction xs) (auto split: if_splits)

lemma find_append: "List.find P (xs @ ys) = (case List.find P xs of None \<Rightarrow> List.find P ys | Some x \<Rightarrow> Some x)"
  by (induction xs) simp_all

lemma find_loop_is_find:
  assumes "module_sorted objs"
  shows "find_loop objs oid 0 (length objs) = List.find (\<lambda>x. mo_oid x = oid) objs"
proof (cases "find_loop objs oid 0 (length objs)")
  case None
  from find_loop_None [OF assms None] have "\<forall>x \<in> set objs. mo_oid x \<noteq> oid"
    by (metis in_set_conv_nth le0 order_refl)
  then have "List.find (\<lambda>x. mo_oid x = oid) objs = None" by (simp add: find_None_iff)
  with None show ?thesis by simp
next
  case (Some obj)
  then have obj: "obj \<in> set objs" "mo_oid obj = oid" using find_loop_Some by blast+
  then obtain i where i: "i < length objs" "objs ! i = obj" by (auto simp: in_set_conv_nth)
  have "mo_oid (objs ! j) \<noteq> oid" if "j < i" for j
    using module_sorted_nth [OF assms that i(1)] obj i by auto
  with i obj have "List.find (\<lambda>x. mo_oid x = oid) objs = Some obj"
    by (auto simp: find_Some_iff)
  with Some show ?thesis by simp
qed

lemma mib_registry_find_is_find:
  assumes "\<forall>m \<in> set (s_modules reg). module_sorted m"
  shows "mib_registry_find reg oid = List.find (\<lambda>x. mo_oid x = oid) (concat (s_modules reg))"
proof -
  have "find_modules ms oid = List.find (\<lambda>x. mo_oid x = oid) (concat ms)"
    if "\<forall>m \<in> set ms. module_sorted m" for ms :: "'a mib_object list list"
    using that by (induction ms) (simp_all add: find_loop_is_find find_append split: option.splits)
  with assms show ?thesis by (simp add: mib_registry_find_def)
qed

lemma find_next_modules_is_next:
  assumes "\<forall>m \<in> set ms. module_sorted m" and "is_next oid S (map_option mo_oid best)"
  shows "is_next oid (S \<union> mo_oid ` set (concat ms)) (map_option mo_oid (find_next_modules ms oid best))"
  using assms
proof (induction ms arbitrary: S best)
  case Nil
  then show ?case by simp
next
  case (Cons objs ms)
  let ?cand = "List.find (\<lambda>x. oid < mo_oid x) objs"
  let ?best = "case ?cand of None \<Rightarrow> best
    | Some c \<Rightarrow> (case best of None \<Rightarrow> ?cand | Some b \<Rightarrow> if mo_oid c < mo_oid b then ?cand else best)"
  have step: "find_next_modules (objs # ms) oid best = find_next_modules ms oid ?best"
    using upper_loop_is_find [of objs oid, symmetric] Cons.prems(1)
    by (cases best) (simp_all add: Let_def split: option.split)
  have "is_next oid (mo_oid ` set objs) (map_option mo_oid ?cand)"
    using Cons.prems(1) by (intro is_next_find) (simp add: module_sorted_def)
  from is_next_union [OF Cons.prems(2) this]
  have "is_next oid (S \<union> mo_oid ` set objs) (map_option mo_oid ?best)"
    by (auto split: option.splits if_splits)
  with Cons.IH [of "S \<union> mo_oid ` set objs" ?best] Cons.prems(1) step show ?case
    by (simp add: Un_assoc image_Un)
qed

lemma find_next_modules_member:
  "find_next_modules ms oid best = Some x \<Longrightarrow> best = Some x \<or> x \<in> set (concat ms)"
proof (induction ms arbitrary: best)
  case (Cons objs ms)
  from Cons.IH [OF Cons.prems [unfolded find_next_modules.simps Let_def]] show ?case
    by (auto split: if_splits option.splits)
qed simp

text \<open>What \<open>find_next\<close> returns is above \<open>oid\<close> even if a module is not sorted.\<close>

lemma upper_loop_above:
  "lo \<le> hi \<Longrightarrow> (hi < n \<Longrightarrow> oid < mo_oid (objs ! hi)) \<Longrightarrow> upper_loop objs oid lo hi < n \<Longrightarrow>
   oid < mo_oid (objs ! upper_loop objs oid lo hi)"
proof (induction objs oid lo hi rule: upper_loop.induct)
  case (1 objs oid lo hi)
  let ?mid = "lo + (hi - lo) div 2"
  show ?case
  proof (cases "lo < hi")
    case False
    with "1.prems" show ?thesis by (subst upper_loop.simps, subst (asm) upper_loop.simps) simp
  next
    case lt: True
    then have mid: "lo \<le> ?mid" "?mid + 1 \<le> hi" by linarith+
    show ?thesis
    proof (cases "oid < mo_oid (objs ! ?mid)")
      case True
      then have eq: "upper_loop objs oid lo hi = upper_loop objs oid lo ?mid"
        using lt by (subst upper_loop.simps) (simp add: Let_def)
      show ?thesis unfolding eq
        using True "1.prems"(3) mid by (intro "1.IH"(1) [OF lt refl refl]) (simp_all add: eq)
    next
      case False
      then have eq: "upper_loop objs oid lo hi = upper_loop objs oid (?mid + 1) hi"
        using lt by (subst upper_loop.simps) (simp add: Let_def)
      show ?thesis unfolding eq
        using False "1.prems" mid by (intro "1.IH"(2) [OF lt refl refl]) (simp_all add: eq)
    qed
  qed
qed

lemma find_next_modules_above:
  "find_next_modules ms oid best = Some x \<Longrightarrow> (\<And>b. best = Some b \<Longrightarrow> oid < mo_oid b) \<Longrightarrow> oid < mo_oid x"
proof (induction ms arbitrary: best)
  case Nil
  then show ?case by simp
next
  case (Cons objs ms)
  let ?lo = "upper_loop objs oid 0 (length objs)"
  have "oid < mo_oid (objs ! ?lo)" if "?lo < length objs"
    using that by (intro upper_loop_above [where n = "length objs"]) simp_all
  then show ?case
    by (intro Cons.IH [OF Cons.prems(1) [unfolded find_next_modules.simps Let_def]])
      (use Cons.prems(2) in \<open>auto split: if_splits option.splits\<close>)
qed

lemma mib_registry_find_next_is_next:
  assumes "\<forall>m \<in> set (s_modules reg). module_sorted m"
  shows "is_next oid (mo_oid ` set (concat (s_modules reg))) (map_option mo_oid (mib_registry_find_next reg oid))"
  using find_next_modules_is_next [OF assms, of oid "{}" None]
  by (simp add: mib_registry_find_next_def)

end
