(* ===== verification/Mib_Tables.thy ===== *)
theory Mib_Tables
  imports Mib_Registry_Correct
begin

text \<open>
  The two contracts a conceptual table can offer to the registry. \<open>mib_table_walk\<close> is what
  \<open>mib_table.h\<close> demands of every table, also of one whose rows appear and disappear between two
  calls: a step always goes to a larger index. \<open>mib_table_rows\<close> adds that the rows of a state are
  a fixed ascending list and that looking at them does not change the state. The scans of
  \<open>mib_registry.c\<close> are verified once under each contract. Between them stands \<open>mib_table_ids\<close>, for
  rows that come and go within a fixed set of indices.
\<close>

definition cell_oid :: "'s mib_table \<Rightarrow> u32 \<Rightarrow> u32 \<Rightarrow> oid" where
  "cell_oid t c i = mt_entry_oid t @ [c, i]"

definition cell_at :: "'s mib_table \<Rightarrow> mib_column \<Rightarrow> u32 \<Rightarrow> 's mib_resolved" where
  "cell_at t col i =
     \<lparr>rs_oid = cell_oid t (col_number col) i, rs_value_tag = col_value_tag col,
      rs_access = col_access col, rs_kind = MIB_RESOLVED_CELL t (col_number col) i\<rparr>"

lemma cell_at_oid [simp]: "rs_oid (cell_at t col i) = cell_oid t (col_number col) i"
  by (simp add: cell_at_def)

lemma cell_oid_less: "cell_oid t c i < cell_oid t d j \<longleftrightarrow> c < d \<or> c = d \<and> i < j"
  by (simp add: cell_oid_def)

lemma cell_oid_eq [simp]: "cell_oid t c i = cell_oid t d j \<longleftrightarrow> c = d \<and> i = j"
  by (simp add: cell_oid_def)

lemma length_cell_oid [simp]: "length (cell_oid t c i) = length (mt_entry_oid t) + 2"
  by (simp add: cell_oid_def)

lemma populate_cell_fits:
  "length (mt_entry_oid t) + 2 \<le> BER_MAX_OID_LEN \<Longrightarrow> populate_cell t col i = Some (cell_at t col i)"
  by (simp add: populate_cell_def cell_at_def cell_oid_def)

lemma cell_shape:
  assumes "length oid = length (mt_entry_oid t) + 2"
    and "take (length (mt_entry_oid t)) oid = mt_entry_oid t"
  shows "oid = cell_oid t (oid ! length (mt_entry_oid t)) (oid ! Suc (length (mt_entry_oid t)))"
proof -
  let ?n = "length (mt_entry_oid t)"
  have "drop ?n oid = [oid ! ?n, oid ! Suc ?n]"
    using assms(1) by (simp add: Cons_nth_drop_Suc [symmetric])
  then show ?thesis using append_take_drop_id [of ?n oid] assms(2) by (simp add: cell_oid_def)
qed

lemma cell_oid_parts [simp]:
  "cell_oid t c i ! length (mt_entry_oid t) = c"
  "cell_oid t c i ! Suc (length (mt_entry_oid t)) = i"
  "take (length (mt_entry_oid t)) (cell_oid t c i) = mt_entry_oid t"
  by (simp_all add: cell_oid_def nth_append)

section \<open>Tables whose rows may change during a walk\<close>

locale mib_table_walk =
  fixes t :: "'s mib_table" and I :: "'s \<Rightarrow> bool"
  assumes entry_fits: "length (mt_entry_oid t) + 2 \<le> BER_MAX_OID_LEN"
    and first_keeps: "I s \<Longrightarrow> I (snd (mt_first_index t s))"
    and next_keeps: "I s \<Longrightarrow> I (snd (mt_next_index t cur s))"
    and next_ascends: "I s \<Longrightarrow> fst (mt_next_index t cur s) = Inr i \<Longrightarrow> cur < i"
begin

lemma row_exists_total:
  "I s \<Longrightarrow> \<exists>b s'. row_exists_loop t idx r s = Some (b, s') \<and> I s'"
proof (induction "case r of Inl _ \<Rightarrow> 0 | Inr cur \<Rightarrow> 2 ^ 32 - unat cur" arbitrary: r s rule: less_induct)
  case less
  show ?case
  proof (cases r)
    case (Inl e)
    with less.prems show ?thesis by (subst row_exists_loop.simps) auto
  next
    case (Inr cur)
    obtain r' s' where n: "mt_next_index t cur s = (r', s')" by fastforce
    have I': "I s'" using next_keeps [OF less.prems, of cur] n by simp
    have "(case r' of Inl _ \<Rightarrow> 0 | Inr c \<Rightarrow> 2 ^ 32 - unat c) < 2 ^ 32 - unat cur"
      using next_ascends [OF less.prems, of cur] n unat_u32_bound
      by (cases r') (auto simp: word_less_nat_alt intro!: diff_less_mono2)
    then have "\<exists>b s''. row_exists_loop t idx r' s' = Some (b, s'') \<and> I s''"
      using Inr I' by (intro less.hyps) simp_all
    with Inr n less.prems show ?thesis by (subst row_exists_loop.simps) auto
  qed
qed

lemma next_row_total:
  "I s \<Longrightarrow> \<exists>f s'. next_row_loop t col oid r s = Some (f, s') \<and> I s' \<and>
     (\<forall>out. f = Some out \<longrightarrow> (\<exists>i. out = cell_at t col i) \<and> oid < rs_oid out)"
proof (induction "case r of Inl _ \<Rightarrow> 0 | Inr cur \<Rightarrow> 2 ^ 32 - unat cur" arbitrary: r s rule: less_induct)
  case less
  show ?case
  proof (cases r)
    case (Inl e)
    with less.prems show ?thesis by (subst next_row_loop.simps) simp
  next
    case (Inr cur)
    obtain r' s' where n: "mt_next_index t cur s = (r', s')" by fastforce
    have I': "I s'" using next_keeps [OF less.prems, of cur] n by simp
    have "(case r' of Inl _ \<Rightarrow> 0 | Inr c \<Rightarrow> 2 ^ 32 - unat c) < 2 ^ 32 - unat cur"
      using next_ascends [OF less.prems, of cur] n unat_u32_bound
      by (cases r') (auto simp: word_less_nat_alt intro!: diff_less_mono2)
    then have "\<exists>f s''. next_row_loop t col oid r' s' = Some (f, s'') \<and> I s'' \<and>
        (\<forall>out. f = Some out \<longrightarrow> (\<exists>i. out = cell_at t col i) \<and> oid < rs_oid out)"
      using Inr I' by (intro less.hyps) simp_all
    with Inr n less.prems entry_fits populate_cell_fits [OF entry_fits] show ?thesis
      by (subst next_row_loop.simps) (auto simp: cell_oid_def)
  qed
qed

lemma find_exact_total:
  assumes "I s"
  shows "\<exists>r s'. table_find_exact t oid s = Some (r, s') \<and> I s' \<and>
     (case r of
        Inl e \<Rightarrow> e = MIB_NO_SUCH_OBJECT \<or> e = MIB_NO_SUCH_INSTANCE
      | Inr out \<Rightarrow> rs_oid out = oid \<and> (\<exists>col \<in> set (mt_columns t). \<exists>i. out = cell_at t col i))"
proof -
  let ?n = "length (mt_entry_oid t)"
  let ?col = "List.find (\<lambda>c. col_number c = oid ! ?n) (mt_columns t)"
  consider "length oid \<noteq> ?n + 2 \<or> take ?n oid \<noteq> mt_entry_oid t \<or> ?col = None"
    | col where "length oid = ?n + 2" "take ?n oid = mt_entry_oid t" "?col = Some col"
    by fastforce
  then show ?thesis
  proof cases
    case 1
    with assms show ?thesis by (auto simp: table_find_exact_def Let_def)
  next
    case 2
    from 2(3) have col: "col \<in> set (mt_columns t)" "col_number col = oid ! ?n"
      by (auto simp: find_Some_iff)
    have shape: "oid = cell_oid t (col_number col) (oid ! Suc ?n)"
      using cell_shape [OF 2(1,2)] col by simp
    obtain r s1 where f: "mt_first_index t s = (r, s1)" by fastforce
    then have "I s1" using first_keeps [OF assms] by simp
    from row_exists_total [OF this] obtain b s2
      where "row_exists_loop t (oid ! Suc ?n) r s1 = Some (b, s2)" "I s2" by blast
    with 2 f col shape populate_cell_fits [OF entry_fits] show ?thesis
      by (cases b) (auto simp: table_find_exact_def Let_def)
  qed
qed

lemma find_next_total:
  assumes "I s"
  shows "\<exists>r s'. table_find_next t oid s = Some (r, s') \<and> I s' \<and>
     (case r of
        Inl e \<Rightarrow> e = MIB_END_OF_VIEW
      | Inr out \<Rightarrow> oid < rs_oid out \<and> (\<exists>col \<in> set (mt_columns t). \<exists>i. out = cell_at t col i))"
proof -
  have "\<exists>r s'. next_column_loop t cols oid s = Some (r, s') \<and> I s' \<and>
     (case r of
        Inl e \<Rightarrow> e = MIB_END_OF_VIEW
      | Inr out \<Rightarrow> oid < rs_oid out \<and> (\<exists>col \<in> set cols. \<exists>i. out = cell_at t col i))" for cols
    using assms
  proof (induction cols arbitrary: s)
    case Nil
    then show ?case by simp
  next
    case (Cons col cols)
    obtain r s1 where f: "mt_first_index t s = (r, s1)" by fastforce
    then have "I s1" using first_keeps [OF Cons.prems] by simp
    from next_row_total [OF this, of col oid r] obtain g s2
      where g: "next_row_loop t col oid r s1 = Some (g, s2)" "I s2"
        "\<forall>out. g = Some out \<longrightarrow> (\<exists>i. out = cell_at t col i) \<and> oid < rs_oid out" by blast
    with f Cons.IH [OF g(2)] show ?case
      by (cases g) (fastforce split: sum.splits)+
  qed
  then show ?thesis by (simp add: table_find_next_def)
qed

end

text \<open>
  A table whose rows, whenever they are there, have their index in a fixed set: then so has whatever a
  scan hands out.
\<close>

locale mib_table_ids = mib_table_walk t I for t :: "'s mib_table" and I :: "'s \<Rightarrow> bool" +
  fixes ids :: "u32 set"
  assumes first_id: "I s \<Longrightarrow> fst (mt_first_index t s) = Inr i \<Longrightarrow> i \<in> ids"
    and next_id: "I s \<Longrightarrow> fst (mt_next_index t cur s) = Inr i \<Longrightarrow> i \<in> ids"
begin

lemma next_row_ids:
  assumes "next_row_loop t col oid r s = Some (f, s')" and "I s" and "\<And>cur. r = Inr cur \<Longrightarrow> cur \<in> ids"
    and "f = Some out"
  shows "\<exists>i \<in> ids. out = cell_at t col i"
proof -
  let ?P = "\<lambda>t' col oid r s x. t' = t \<longrightarrow> I s \<longrightarrow> (\<forall>cur. r = Inr cur \<longrightarrow> cur \<in> ids) \<longrightarrow>
    (\<forall>out. fst x = Some out \<longrightarrow> (\<exists>i \<in> ids. out = cell_at t col i))"
  have "?P t col oid r s (f, s')"
  proof (rule next_row_loop.raw_induct [where P = ?P, OF _ assms(1)], goal_cases)
    case (1 loop t' col oid r s x)
    show ?case
    proof (intro impI allI)
      fix out assume "t' = t" "I s" and r: "\<forall>cur. r = Inr cur \<longrightarrow> cur \<in> ids" and out: "fst x = Some out"
      obtain cur where cur: "r = Inr cur" using 1(2) out by (cases r) auto
      obtain r' s1 where n: "mt_next_index t cur s = (r', s1)" by fastforce
      have s1: "I s1" "\<forall>c. r' = Inr c \<longrightarrow> c \<in> ids"
        using next_keeps [OF \<open>I s\<close>, of cur] next_id [OF \<open>I s\<close>, of cur] n by simp_all
      show "\<exists>i \<in> ids. out = cell_at t col i"
      proof (cases "0 < mib_oid_compare (mt_entry_oid t @ [col_number col, cur]) oid")
        case True
        with 1(2) cur r out \<open>t' = t\<close> entry_fits show ?thesis by (auto simp: populate_cell_fits)
      next
        case False
        with 1(2) cur n \<open>t' = t\<close> entry_fits have "loop t col oid r' s1 = Some x" by simp
        from 1(1) [OF this] s1 out show ?thesis by blast
      qed
    qed
  qed
  with assms(2-4) show ?thesis by simp
qed

lemma find_next_ids:
  assumes "I s" and "table_find_next t oid s = Some (Inr out, s')"
  shows "\<exists>col \<in> set (mt_columns t). \<exists>i \<in> ids. out = cell_at t col i"
proof -
  have "\<exists>col \<in> set cols. \<exists>i \<in> ids. out = cell_at t col i" if "next_column_loop t cols oid s = Some (Inr out, s')" for cols
    using assms(1) that
  proof (induction cols arbitrary: s)
    case (Cons col cols)
    obtain r s1 where f: "mt_first_index t s = (r, s1)" by fastforce
    with Cons.prems(1) have s1: "I s1" and r: "\<And>cur. r = Inr cur \<Longrightarrow> cur \<in> ids"
      using first_keeps [of s] first_id [of s] by simp_all
    from next_row_total [OF s1, of col oid r] obtain g s2
      where g: "next_row_loop t col oid r s1 = Some (g, s2)" "I s2" by blast
    show ?case
    proof (cases g)
      case None
      with f g Cons show ?thesis by auto
    next
      case (Some found)
      with next_row_ids [OF g(1) s1 r Some] f g Cons.prems(2) show ?thesis by auto
    qed
  qed simp
  then show ?thesis using assms(2) by (simp add: table_find_next_def)
qed

end

lemma mib_table_walk_ids: "mib_table_walk t I \<Longrightarrow> mib_table_ids t I UNIV"
  by (simp add: mib_table_ids_def mib_table_ids_axioms_def)

section \<open>Tables whose rows are a list of the state\<close>

definition row_ptr :: "u32 list \<Rightarrow> mib_result + u32" where
  "row_ptr is = (case is of [] \<Rightarrow> Inl MIB_END_OF_VIEW | i # _ \<Rightarrow> Inr i)"

lemma row_ptr_simps [simp]: "row_ptr [] = Inl MIB_END_OF_VIEW" "row_ptr (i # is) = Inr i"
  by (simp_all add: row_ptr_def)

definition table_cells :: "'s mib_table \<Rightarrow> u32 list \<Rightarrow> oid set" where
  "table_cells t is =
     {cell_oid t (col_number col) i | col i. col \<in> set (mt_columns t) \<and> i \<in> set is}"

lemma finite_table_cells [simp]: "finite (table_cells t is)"
proof -
  have "table_cells t is = (\<lambda>(c, i). cell_oid t (col_number c) i) ` (set (mt_columns t) \<times> set is)"
    by (auto simp: table_cells_def)
  then show ?thesis by simp
qed

lemma card_table_cells: "card (table_cells t is) \<le> length (mt_columns t) * length is"
proof -
  have "table_cells t is = (\<lambda>(c, i). cell_oid t (col_number c) i) ` set (List.product (mt_columns t) is)"
    by (force simp: table_cells_def)
  also have "card \<dots> \<le> card (set (List.product (mt_columns t) is))" by (rule card_image_le) simp
  also have "\<dots> \<le> length (List.product (mt_columns t) is)" by (rule card_length)
  finally show ?thesis by simp
qed

locale mib_table_rows = mib_table_walk t I for t :: "'s mib_table" and I :: "'s \<Rightarrow> bool" +
  fixes rows :: "'s \<Rightarrow> u32 list"
  assumes columns_sorted: "sorted_wrt (<) (map col_number (mt_columns t))"
    and rows_sorted: "I s \<Longrightarrow> sorted_wrt (<) (rows s)"
    and first_row: "I s \<Longrightarrow> mt_first_index t s = (row_ptr (rows s), s)"
    and next_row: "I s \<Longrightarrow> cur \<in> set (rows s) \<Longrightarrow>
      mt_next_index t cur s = (row_ptr (filter (\<lambda>i. cur < i) (rows s)), s)"
begin

lemma next_at:
  assumes "I s" and "rows s = xs @ c # ys"
  shows "mt_next_index t c s = (row_ptr ys, s)"
proof -
  have "filter (\<lambda>i. c < i) (rows s) = ys"
    using rows_sorted [OF assms(1)] unfolding assms(2)
    by (auto simp: sorted_wrt_append filter_empty_conv filter_id_conv dest: less_not_sym)
  with next_row [OF assms(1)] assms(2) show ?thesis by simp
qed

lemma row_exists_is_member:
  assumes "I s" and "rows s = xs @ ys"
  shows "row_exists_loop t idx (row_ptr ys) s = Some (idx \<in> set ys, s)"
  using assms(2)
proof (induction ys arbitrary: xs)
  case Nil
  then show ?case by (subst row_exists_loop.simps) simp
next
  case (Cons c ys)
  have above: "\<forall>i \<in> set ys. c < i"
    using rows_sorted [OF assms(1)] Cons.prems by (simp add: sorted_wrt_append)
  have "row_exists_loop t idx (row_ptr ys) s = Some (idx \<in> set ys, s)"
    using Cons.prems by (intro Cons.IH [of "xs @ [c]"]) simp
  with next_at [OF assms(1) Cons.prems] above show ?case
    by (subst row_exists_loop.simps) (auto dest: less_not_sym)
qed

lemma next_row_is_find:
  assumes "I s" and "rows s = xs @ ys"
  shows "next_row_loop t col oid (row_ptr ys) s =
    Some (map_option (cell_at t col) (List.find (\<lambda>i. oid < cell_oid t (col_number col) i) ys), s)"
  using assms(2)
proof (induction ys arbitrary: xs)
  case Nil
  then show ?case by (subst next_row_loop.simps) simp
next
  case (Cons c ys)
  have "next_row_loop t col oid (row_ptr ys) s =
      Some (map_option (cell_at t col) (List.find (\<lambda>i. oid < cell_oid t (col_number col) i) ys), s)"
    using Cons.prems by (intro Cons.IH [of "xs @ [c]"]) simp
  with next_at [OF assms(1) Cons.prems] entry_fits populate_cell_fits [OF entry_fits] show ?case
    by (subst next_row_loop.simps) (simp add: cell_oid_def)
qed

lemma find_exact_rows:
  assumes I: "I s"
  shows "table_find_exact t oid s =
    (if \<exists>col \<in> set (mt_columns t). \<exists>i. oid = cell_oid t (col_number col) i
     then if oid \<in> table_cells t (rows s)
       then Some (Inr (cell_at t (the (List.find (\<lambda>c. col_number c = oid ! length (mt_entry_oid t))
              (mt_columns t))) (oid ! Suc (length (mt_entry_oid t)))), s)
       else Some (Inl MIB_NO_SUCH_INSTANCE, s)
     else Some (Inl MIB_NO_SUCH_OBJECT, s))"
proof -
  let ?n = "length (mt_entry_oid t)"
  let ?find = "List.find (\<lambda>c. col_number c = oid ! ?n) (mt_columns t)"
  show ?thesis
  proof (cases "\<exists>col \<in> set (mt_columns t). \<exists>i. oid = cell_oid t (col_number col) i")
    case True
    then obtain col0 i where c0: "col0 \<in> set (mt_columns t)" "oid = cell_oid t (col_number col0) i" by blast
    then obtain col where col: "?find = Some col" by (cases ?find) (auto simp: find_None_iff)
    then have "col \<in> set (mt_columns t)" "col_number col = col_number col0"
      using c0 by (auto simp: find_Some_iff)
    with c0 have mem: "oid \<in> table_cells t (rows s) \<longleftrightarrow> i \<in> set (rows s)"
      by (auto simp: table_cells_def)
    from row_exists_is_member [OF I, of "[]" "rows s" i] col c0 mem True
      populate_cell_fits [OF entry_fits]
    show ?thesis
      by (auto simp: table_find_exact_def Let_def first_row [OF I])
  next
    case False
    then have "length oid \<noteq> ?n + 2 \<or> take ?n oid \<noteq> mt_entry_oid t \<or> ?find = None"
      using cell_shape [of oid t] find_member [of "\<lambda>c. col_number c = oid ! ?n" "mt_columns t"]
      by (metis not_None_eq)
    with False show ?thesis by (auto simp: table_find_exact_def Let_def)
  qed
qed

lemma columns_find:
  assumes I: "I s"
  shows "next_column_loop t cols oid s =
    Some (case List.find (\<lambda>(c, i). oid < cell_oid t (col_number c) i)
                 (List.product cols (rows s)) of
            None \<Rightarrow> Inl MIB_END_OF_VIEW
          | Some (c, i) \<Rightarrow> Inr (cell_at t c i), s)"
proof (induction cols)
  case Nil
  then show ?case by simp
next
  case (Cons col cols)
  have row: "List.find (\<lambda>(c, i). oid < cell_oid t (col_number c) i) (map (Pair col) is) =
      map_option (Pair col) (List.find (\<lambda>i. oid < cell_oid t (col_number col) i) is)" for "is"
    by (induction "is") simp_all
  from next_row_is_find [OF I, of "[]" "rows s" col oid] Cons show ?case
    by (auto simp: first_row [OF I] find_append row split: option.splits)
qed

lemma product_sorted:
  assumes "sorted_wrt (<) (map col_number cols)" and "sorted_wrt (<) is"
  shows "sorted_wrt (<) (map (\<lambda>(c, i). cell_oid t (col_number c) i) (List.product cols is))"
  using assms
  by (induction cols) (auto simp: sorted_wrt_append sorted_wrt_map cell_oid_less o_def)

lemma find_next_rows:
  assumes I: "I s"
  shows "\<exists>r. table_find_next t oid s = Some (r, s) \<and>
     is_next oid (table_cells t (rows s)) (case r of Inl _ \<Rightarrow> None | Inr out \<Rightarrow> Some (rs_oid out)) \<and>
     (case r of
        Inl e \<Rightarrow> e = MIB_END_OF_VIEW
      | Inr out \<Rightarrow> \<exists>col \<in> set (mt_columns t). \<exists>i \<in> set (rows s). out = cell_at t col i)"
proof -
  let ?f = "\<lambda>(c, i). cell_oid t (col_number c) i"
  let ?xs = "List.product (mt_columns t) (rows s)"
  let ?r = "List.find (\<lambda>x. oid < ?f x) ?xs"
  have P: "(\<lambda>(c, i). oid < cell_oid t (col_number c) i) = (\<lambda>x. oid < ?f x)" by auto
  have "is_next oid (?f ` set ?xs) (map_option ?f ?r)"
    by (intro is_next_find product_sorted columns_sorted rows_sorted I)
  also have "?f ` set ?xs = table_cells t (rows s)" by (force simp: table_cells_def)
  finally have n: "is_next oid (table_cells t (rows s)) (map_option ?f ?r)" .
  show ?thesis
  proof (cases ?r)
    case None
    with n columns_find [OF I, of "mt_columns t" oid] show ?thesis
      by (simp add: table_find_next_def P)
  next
    case (Some x)
    then have "x \<in> set ?xs" by (auto dest: find_member)
    with Some n columns_find [OF I, of "mt_columns t" oid] show ?thesis
      by (cases x) (auto simp: table_find_next_def P)
  qed
qed

end

end
