(* ===== verification/Mib_Resolve.thy ===== *)
theory Mib_Resolve
  imports Mib_Tables
begin

text \<open>
  The unified resolve interface over a whole registry: total and monotone for tables whose rows may
  change at any moment, and exactly the lookup and the successor in the set of registered instances
  for tables with settled rows.
\<close>

section \<open>Registries\<close>

definition scalar_at :: "'s mib_object \<Rightarrow> 's mib_resolved" where
  "scalar_at obj =
     \<lparr>rs_oid = mo_oid obj, rs_value_tag = mo_value_tag obj, rs_access = mo_access obj,
      rs_kind = MIB_RESOLVED_SCALAR obj\<rparr>"

lemma scalar_at_oid [simp]: "rs_oid (scalar_at obj) = mo_oid obj"
  by (simp add: scalar_at_def)

lemma populate_scalar_fits: "length (mo_oid obj) \<le> BER_MAX_OID_LEN \<Longrightarrow> populate_scalar obj = Some (scalar_at obj)"
  by (simp add: populate_scalar_def scalar_at_def)

abbreviation scalars :: "'s registry \<Rightarrow> 's mib_object set" where
  "scalars reg \<equiv> set (concat (s_modules reg))"

text \<open>Every object name fits the fixed arrays, every table keeps the walk contract.\<close>

definition registry_walks :: "('s \<Rightarrow> bool) \<Rightarrow> 's registry \<Rightarrow> bool" where
  "registry_walks I reg \<longleftrightarrow>
     (\<forall>obj \<in> scalars reg. length (mo_oid obj) \<le> BER_MAX_OID_LEN) \<and>
     (\<forall>t \<in> set (s_tables reg). mib_table_walk t I)"

text \<open>In addition the modules are sorted, no two tables share an entry, and \<open>rows t\<close> are the rows of table \<open>t\<close>.\<close>

definition registry_rows ::
  "('s \<Rightarrow> bool) \<Rightarrow> ('s mib_table \<Rightarrow> 's \<Rightarrow> u32 list) \<Rightarrow> 's registry \<Rightarrow> bool" where
  "registry_rows I rows reg \<longleftrightarrow>
     (\<forall>obj \<in> scalars reg. length (mo_oid obj) \<le> BER_MAX_OID_LEN) \<and>
     (\<forall>m \<in> set (s_modules reg). module_sorted m) \<and>
     distinct (map mt_entry_oid (s_tables reg)) \<and>
     (\<forall>t \<in> set (s_tables reg). mib_table_rows t I (rows t))"

text \<open>The instances that exist in a state: the names a walk of the whole view visits.\<close>

definition mib_view :: "('s mib_table \<Rightarrow> 's \<Rightarrow> u32 list) \<Rightarrow> 's registry \<Rightarrow> 's \<Rightarrow> oid set" where
  "mib_view rows reg s = mo_oid ` scalars reg \<union> (\<Union>t \<in> set (s_tables reg). table_cells t (rows t s))"

text \<open>The shape of what a resolve hands out.\<close>

definition resolved_from :: "'s registry \<Rightarrow> 's mib_resolved \<Rightarrow> bool" where
  "resolved_from reg out \<longleftrightarrow>
     (\<exists>obj \<in> scalars reg. out = scalar_at obj) \<or>
     (\<exists>t \<in> set (s_tables reg). \<exists>col \<in> set (mt_columns t). \<exists>i. out = cell_at t col i)"

text \<open>The same, with the indices of the rows known to lie in the set \<open>ids t\<close>.\<close>

definition resolved_in :: "('s mib_table \<Rightarrow> u32 set) \<Rightarrow> 's registry \<Rightarrow> 's mib_resolved \<Rightarrow> bool" where
  "resolved_in ids reg out \<longleftrightarrow>
     (\<exists>obj \<in> scalars reg. out = scalar_at obj) \<or>
     (\<exists>t \<in> set (s_tables reg). \<exists>col \<in> set (mt_columns t). \<exists>i \<in> ids t. out = cell_at t col i)"

lemma resolved_in_from: "resolved_in ids reg out \<Longrightarrow> resolved_from reg out"
  unfolding resolved_in_def resolved_from_def by blast

definition registry_ids :: "('s \<Rightarrow> bool) \<Rightarrow> ('s mib_table \<Rightarrow> u32 set) \<Rightarrow> 's registry \<Rightarrow> bool" where
  "registry_ids I ids reg \<longleftrightarrow>
     (\<forall>obj \<in> scalars reg. length (mo_oid obj) \<le> BER_MAX_OID_LEN) \<and>
     (\<forall>t \<in> set (s_tables reg). mib_table_ids t I (ids t))"

lemma registry_walks_ids: "registry_walks I reg \<Longrightarrow> registry_ids I (\<lambda>_. UNIV) reg"
  by (simp add: registry_walks_def registry_ids_def mib_table_walk_ids)

lemma resolved_in_scalar: "obj \<in> scalars reg \<Longrightarrow> resolved_in ids reg (scalar_at obj)"
  unfolding resolved_in_def by blast

lemma resolved_in_cell:
  "t \<in> set (s_tables reg) \<Longrightarrow> col \<in> set (mt_columns t) \<Longrightarrow> i \<in> ids t \<Longrightarrow> resolved_in ids reg (cell_at t col i)"
  unfolding resolved_in_def by blast

lemma resolved_from_scalar: "obj \<in> scalars reg \<Longrightarrow> resolved_from reg (scalar_at obj)"
  by (auto simp: resolved_from_def)

lemma resolved_from_cell:
  "t \<in> set (s_tables reg) \<Longrightarrow> col \<in> set (mt_columns t) \<Longrightarrow> resolved_from reg (cell_at t col i)"
  unfolding resolved_from_def by blast

lemma registry_rows_walks: "registry_rows I rows reg \<Longrightarrow> registry_walks I reg"
  by (auto simp: registry_rows_def registry_walks_def mib_table_rows_def)

lemma resolved_from_length:
  "registry_walks I reg \<Longrightarrow> resolved_from reg out \<Longrightarrow> length (rs_oid out) \<le> BER_MAX_OID_LEN"
  unfolding registry_walks_def resolved_from_def
  using mib_table_walk.entry_fits by fastforce

section \<open>Resolving under the walk contract\<close>

lemma find_modules_member:
  "find_modules ms oid = Some obj \<Longrightarrow> obj \<in> set (concat ms) \<and> mo_oid obj = oid"
proof (induction ms)
  case (Cons objs ms)
  then show ?case
    using find_loop_Some [of objs oid 0 "length objs" obj] by (auto split: option.splits)
qed simp

lemma resolve_tables_total:
  assumes "\<forall>t \<in> set ts. mib_table_walk t I" and "I s"
  shows "\<exists>r s'. resolve_tables ts oid s = Some (r, s') \<and> I s' \<and>
     (case r of
        Inl e \<Rightarrow> e = MIB_NO_SUCH_OBJECT \<or> e = MIB_NO_SUCH_INSTANCE
      | Inr out \<Rightarrow> rs_oid out = oid \<and>
          (\<exists>t \<in> set ts. \<exists>col \<in> set (mt_columns t). \<exists>i. out = cell_at t col i))"
  using assms
proof (induction ts arbitrary: s)
  case Nil
  then show ?case by simp
next
  case (Cons t ts)
  then have walk: "mib_table_walk t I" by simp
  obtain r s' where r: "table_find_exact t oid s = Some (r, s')" "I s'"
     "case r of Inl e \<Rightarrow> e = MIB_NO_SUCH_OBJECT \<or> e = MIB_NO_SUCH_INSTANCE
      | Inr out \<Rightarrow> rs_oid out = oid \<and> (\<exists>col \<in> set (mt_columns t). \<exists>i. out = cell_at t col i)"
    using mib_table_walk.find_exact_total [OF walk Cons.prems(2)] by blast
  obtain q s2 where "resolve_tables ts oid s' = Some (q, s2)" "I s2"
     "case q of Inl e \<Rightarrow> e = MIB_NO_SUCH_OBJECT \<or> e = MIB_NO_SUCH_INSTANCE
      | Inr out \<Rightarrow> rs_oid out = oid \<and> (\<exists>t \<in> set ts. \<exists>col \<in> set (mt_columns t). \<exists>i. out = cell_at t col i)"
    using Cons.IH [OF _ r(2)] Cons.prems by auto
  with r show ?case
    by (cases r; cases q) auto
qed

lemma resolve_total:
  assumes "registry_walks I reg" and "I s"
  shows "\<exists>r s'. mib_registry_resolve reg oid s = Some (r, s') \<and> I s' \<and>
     (case r of
        Inl e \<Rightarrow> e = MIB_NO_SUCH_OBJECT \<or> e = MIB_NO_SUCH_INSTANCE
      | Inr out \<Rightarrow> rs_oid out = oid \<and> resolved_from reg out)"
proof (cases "mib_registry_find reg oid")
  case None
  obtain r s' where "resolve_tables (s_tables reg) oid s = Some (r, s')" "I s'"
     "case r of Inl e \<Rightarrow> e = MIB_NO_SUCH_OBJECT \<or> e = MIB_NO_SUCH_INSTANCE
      | Inr out \<Rightarrow> rs_oid out = oid \<and>
          (\<exists>t \<in> set (s_tables reg). \<exists>col \<in> set (mt_columns t). \<exists>i. out = cell_at t col i)"
    using resolve_tables_total [of "s_tables reg" I s oid] assms by (auto simp: registry_walks_def)
  with None show ?thesis
    by (auto simp: mib_registry_resolve_def resolved_from_def split: sum.splits)
next
  case (Some obj)
  then have obj: "obj \<in> scalars reg" "mo_oid obj = oid"
    using find_modules_member unfolding mib_registry_find_def by fast+
  then have "length (mo_oid obj) \<le> BER_MAX_OID_LEN" using assms(1) by (auto simp: registry_walks_def)
  with Some obj assms(2) show ?thesis
    by (auto simp: mib_registry_resolve_def populate_scalar_fits resolved_from_def)
qed

lemma resolve_next_tables_total:
  assumes "\<forall>t \<in> set ts. mib_table_ids t I (ids t)" and "I s"
    and "\<forall>b. best = Some b \<longrightarrow> P b \<and> oid < rs_oid b"
    and "\<And>t col i. t \<in> set ts \<Longrightarrow> col \<in> set (mt_columns t) \<Longrightarrow> i \<in> ids t \<Longrightarrow> P (cell_at t col i)"
  shows "\<exists>r s'. resolve_next_tables ts oid best s = Some (r, s') \<and> I s' \<and>
     (\<forall>b. r = Some b \<longrightarrow> P b \<and> oid < rs_oid b)"
  using assms
proof (induction ts arbitrary: s best)
  case Nil
  then show ?case by simp
next
  case (Cons t ts)
  then have tab: "mib_table_ids t I (ids t)" by simp
  then have walk: "mib_table_walk t I" by (simp add: mib_table_ids_def)
  obtain r s' where r: "table_find_next t oid s = Some (r, s')" "I s'"
     "case r of Inl e \<Rightarrow> e = MIB_END_OF_VIEW
      | Inr out \<Rightarrow> oid < rs_oid out \<and> (\<exists>col \<in> set (mt_columns t). \<exists>i. out = cell_at t col i)"
    using mib_table_walk.find_next_total [OF walk Cons.prems(2)] by blast
  then have "\<forall>out. r = Inr out \<longrightarrow> P out \<and> oid < rs_oid out"
    using mib_table_ids.find_next_ids [OF tab Cons.prems(2)] Cons.prems(4) by fastforce
  let ?best = "case r of Inl _ \<Rightarrow> best
    | Inr cand \<Rightarrow> (case best of None \<Rightarrow> Some cand
        | Some b \<Rightarrow> if mib_oid_compare (rs_oid cand) (rs_oid b) < 0 then Some cand else best)"
  have "\<exists>q s2. resolve_next_tables ts oid ?best s' = Some (q, s2) \<and> I s2 \<and>
      (\<forall>b. q = Some b \<longrightarrow> P b \<and> oid < rs_oid b)"
  proof (rule Cons.IH)
    show "\<forall>b. ?best = Some b \<longrightarrow> P b \<and> oid < rs_oid b"
      using \<open>\<forall>out. r = Inr out \<longrightarrow> _\<close> Cons.prems(3) by (auto split: sum.splits option.splits)
  qed (use Cons.prems r in auto)
  with r(1) show ?case by simp
qed

lemma resolve_next_ids:
  assumes "registry_ids I ids reg" and "I s"
  shows "\<exists>r s'. mib_registry_resolve_next reg oid s = Some (r, s') \<and> I s' \<and>
     (case r of
        Inl e \<Rightarrow> e = MIB_END_OF_VIEW
      | Inr out \<Rightarrow> oid < rs_oid out \<and> resolved_in ids reg out)"
proof -
  let ?f = "find_next_modules (s_modules reg) oid None"
  have scalar: "obj \<in> scalars reg \<and> oid < mo_oid obj \<and> populate_scalar obj = Some (scalar_at obj)"
    if "?f = Some obj" for obj
  proof -
    from find_next_modules_member [OF that] have mem: "obj \<in> scalars reg" by simp
    with assms(1) have "populate_scalar obj = Some (scalar_at obj)"
      by (auto simp: registry_ids_def intro!: populate_scalar_fits)
    with mem find_next_modules_above [OF that] show ?thesis by simp
  qed
  define best0 where "best0 = map_option scalar_at ?f"
  have best0: "(case ?f of None \<Rightarrow> Some None
      | Some scalar \<Rightarrow> do { b \<leftarrow> populate_scalar scalar; Some (Some b) }) = Some best0"
    using scalar by (auto simp: best0_def split: option.splits)
  have "\<exists>r s'. resolve_next_tables (s_tables reg) oid best0 s = Some (r, s') \<and> I s' \<and>
     (\<forall>b. r = Some b \<longrightarrow> resolved_in ids reg b \<and> oid < rs_oid b)"
    using assms scalar
    by (intro resolve_next_tables_total)
      (auto simp: registry_ids_def best0_def intro: resolved_in_cell resolved_in_scalar)
  with best0 show ?thesis
    by (auto simp: mib_registry_resolve_next_def mib_registry_find_next_def split: option.splits)
qed

lemma resolve_next_total:
  assumes "registry_walks I reg" and "I s"
  shows "\<exists>r s'. mib_registry_resolve_next reg oid s = Some (r, s') \<and> I s' \<and>
     (case r of
        Inl e \<Rightarrow> e = MIB_END_OF_VIEW
      | Inr out \<Rightarrow> oid < rs_oid out \<and> resolved_from reg out)"
  using resolve_next_ids [OF registry_walks_ids [OF assms(1)] assms(2), of oid]
  by (fastforce dest: resolved_in_from split: sum.splits)

section \<open>Resolving settled rows\<close>

definition cell_shaped :: "'s mib_table \<Rightarrow> oid \<Rightarrow> bool" where
  "cell_shaped t oid \<longleftrightarrow> (\<exists>col \<in> set (mt_columns t). \<exists>i. oid = cell_oid t (col_number col) i)"

lemma cell_shaped_entry: "cell_shaped t oid \<Longrightarrow> mt_entry_oid t = take (length oid - 2) oid"
  by (auto simp: cell_shaped_def cell_oid_def)

lemma table_cells_shaped: "oid \<in> table_cells t is \<Longrightarrow> cell_shaped t oid"
  by (auto simp: table_cells_def cell_shaped_def)

lemma resolve_tables_rows:
  assumes "\<forall>t \<in> set ts. mib_table_rows t I (rows t)" and "distinct (map mt_entry_oid ts)" and "I s"
  shows "\<exists>r. resolve_tables ts oid s = Some (r, s) \<and>
     (case r of
        Inl e \<Rightarrow> e = (if \<exists>t \<in> set ts. cell_shaped t oid then MIB_NO_SUCH_INSTANCE else MIB_NO_SUCH_OBJECT) \<and>
          (\<forall>t \<in> set ts. oid \<notin> table_cells t (rows t s))
      | Inr out \<Rightarrow> rs_oid out = oid \<and> (\<exists>t \<in> set ts. oid \<in> table_cells t (rows t s)))"
  using assms(1,2)
proof (induction ts)
  case Nil
  then show ?case by simp
next
  case (Cons t ts)
  then have tab: "mib_table_rows t I (rows t)" by simp
  note exact = mib_table_rows.find_exact_rows [OF tab assms(3), of oid, folded cell_shaped_def]
  show ?case
  proof (cases "cell_shaped t oid")
    case True
    have others: "\<not> cell_shaped t' oid" if "t' \<in> set ts" for t'
    proof
      assume "cell_shaped t' oid"
      with True have "mt_entry_oid t' = mt_entry_oid t" by (metis cell_shaped_entry)
      with that Cons.prems(2) show False by (auto simp: image_iff)
    qed
    have col: "oid = cell_oid t (col_number (the (List.find (\<lambda>c. col_number c = oid ! length (mt_entry_oid t))
        (mt_columns t)))) (oid ! Suc (length (mt_entry_oid t)))"
    proof -
      obtain c i where c: "c \<in> set (mt_columns t)" "oid = cell_oid t (col_number c) i"
        using True by (auto simp: cell_shaped_def)
      then obtain c' where "List.find (\<lambda>c. col_number c = oid ! length (mt_entry_oid t)) (mt_columns t) = Some c'"
        by (cases "List.find (\<lambda>c. col_number c = oid ! length (mt_entry_oid t)) (mt_columns t)")
          (auto simp: find_None_iff)
      with find_member [OF this] c show ?thesis by simp
    qed
    from True others col [symmetric] show ?thesis
      by (cases "oid \<in> table_cells t (rows t s)") (auto simp: exact dest: table_cells_shaped)
  next
    case False
    then have "oid \<notin> table_cells t (rows t s)" using table_cells_shaped by blast
    moreover obtain r where "resolve_tables ts oid s = Some (r, s)"
     "case r of
        Inl e \<Rightarrow> e = (if \<exists>t \<in> set ts. cell_shaped t oid then MIB_NO_SUCH_INSTANCE else MIB_NO_SUCH_OBJECT) \<and>
          (\<forall>t \<in> set ts. oid \<notin> table_cells t (rows t s))
      | Inr out \<Rightarrow> rs_oid out = oid \<and> (\<exists>t \<in> set ts. oid \<in> table_cells t (rows t s))"
      using Cons by auto
    ultimately show ?thesis using False by (cases r) (auto simp: exact)
  qed
qed

lemma resolve_next_tables_rows:
  assumes "\<forall>t \<in> set ts. mib_table_rows t I (rows t)" and "I s"
    and "is_next oid S (map_option rs_oid best)"
  shows "\<exists>r. resolve_next_tables ts oid best s = Some (r, s) \<and>
     is_next oid (S \<union> (\<Union>t \<in> set ts. table_cells t (rows t s))) (map_option rs_oid r)"
  using assms
proof (induction ts arbitrary: S best)
  case Nil
  then show ?case by simp
next
  case (Cons t ts)
  then have tab: "mib_table_rows t I (rows t)" by simp
  obtain r where r: "table_find_next t oid s = Some (r, s)"
     "is_next oid (table_cells t (rows t s)) (case r of Inl _ \<Rightarrow> None | Inr out \<Rightarrow> Some (rs_oid out))"
    using mib_table_rows.find_next_rows [OF tab Cons.prems(2)] by blast
  let ?best = "case r of Inl _ \<Rightarrow> best
    | Inr cand \<Rightarrow> (case best of None \<Rightarrow> Some cand
        | Some b \<Rightarrow> if mib_oid_compare (rs_oid cand) (rs_oid b) < 0 then Some cand else best)"
  have eq: "map_option rs_oid ?best = (case (case r of Inl _ \<Rightarrow> None | Inr out \<Rightarrow> Some (rs_oid out)) of
        None \<Rightarrow> map_option rs_oid best
      | Some c \<Rightarrow> (case map_option rs_oid best of None \<Rightarrow> Some c
          | Some b \<Rightarrow> if c < b then Some c else map_option rs_oid best))"
    by (auto split: sum.splits option.splits)
  have "is_next oid (S \<union> table_cells t (rows t s)) (map_option rs_oid ?best)"
    using is_next_union [OF Cons.prems(3) r(2)] unfolding eq
    by (auto split: sum.splits option.splits)
  from Cons.IH [OF _ Cons.prems(2) this] Cons.prems(1) r(1) show ?case
    by (auto simp: Un_assoc)
qed

text \<open>
  \<open>mib_registry_resolve_next\<close> is the successor in the view, and does not change the state.
\<close>

lemma resolve_next_rows:
  assumes "registry_rows I rows reg" and "I s"
  shows "\<exists>r. mib_registry_resolve_next reg oid s = Some (r, s) \<and>
     is_next oid (mib_view rows reg s) (case r of Inl _ \<Rightarrow> None | Inr out \<Rightarrow> Some (rs_oid out))"
proof -
  let ?f = "mib_registry_find_next reg oid"
  have scalar: "populate_scalar obj = Some (scalar_at obj)" if "?f = Some obj" for obj
  proof -
    have "obj \<in> scalars reg"
      using find_next_modules_member that by (fastforce simp: mib_registry_find_next_def)
    with assms(1) show ?thesis by (auto simp: registry_rows_def intro!: populate_scalar_fits)
  qed
  define best0 where "best0 = map_option scalar_at ?f"
  have best0: "(case ?f of None \<Rightarrow> Some None
      | Some scalar \<Rightarrow> do { b \<leftarrow> populate_scalar scalar; Some (Some b) }) = Some best0"
    using scalar by (auto simp: best0_def split: option.splits)
  have "map_option rs_oid best0 = map_option mo_oid ?f"
    by (cases ?f) (simp_all add: best0_def)
  then have "is_next oid (mo_oid ` scalars reg) (map_option rs_oid best0)"
    using mib_registry_find_next_is_next [of reg oid] assms(1) by (simp add: registry_rows_def)
  then have "\<exists>r. resolve_next_tables (s_tables reg) oid best0 s = Some (r, s) \<and>
      is_next oid (mib_view rows reg s) (map_option rs_oid r)"
    using assms unfolding mib_view_def by (intro resolve_next_tables_rows [where I = I]) (simp_all add: registry_rows_def)
  then obtain r where "resolve_next_tables (s_tables reg) oid best0 s = Some (r, s)"
    "is_next oid (mib_view rows reg s) (map_option rs_oid r)"
    by blast
  with best0 show ?thesis
    by (cases r) (auto simp: mib_registry_resolve_next_def)
qed

text \<open>\<open>mib_registry_resolve\<close> finds exactly the instances of the view.\<close>

lemma resolve_rows:
  assumes "registry_rows I rows reg" and "I s"
  shows "\<exists>r. mib_registry_resolve reg oid s = Some (r, s) \<and>
     (case r of
        Inl e \<Rightarrow> oid \<notin> mib_view rows reg s \<and>
          e = (if \<exists>t \<in> set (s_tables reg). cell_shaped t oid then MIB_NO_SUCH_INSTANCE else MIB_NO_SUCH_OBJECT)
      | Inr out \<Rightarrow> rs_oid out = oid \<and> oid \<in> mib_view rows reg s)"
proof -
  have find: "mib_registry_find reg oid = List.find (\<lambda>x. mo_oid x = oid) (concat (s_modules reg))"
    using assms(1) by (intro mib_registry_find_is_find) (simp add: registry_rows_def)
  show ?thesis
  proof (cases "mib_registry_find reg oid")
    case None
    then have "oid \<notin> mo_oid ` scalars reg" unfolding find by (auto simp: find_None_iff)
    moreover obtain r where "resolve_tables (s_tables reg) oid s = Some (r, s)"
       "case r of
          Inl e \<Rightarrow> e = (if \<exists>t \<in> set (s_tables reg). cell_shaped t oid then MIB_NO_SUCH_INSTANCE else MIB_NO_SUCH_OBJECT) \<and>
            (\<forall>t \<in> set (s_tables reg). oid \<notin> table_cells t (rows t s))
        | Inr out \<Rightarrow> rs_oid out = oid \<and> (\<exists>t \<in> set (s_tables reg). oid \<in> table_cells t (rows t s))"
      using resolve_tables_rows [where I = I and ts = "s_tables reg" and rows = rows and s = s and oid = oid] assms
      by (auto simp: registry_rows_def)
    ultimately show ?thesis
      using None by (cases r) (auto simp: mib_registry_resolve_def mib_view_def)
  next
    case (Some obj)
    then have obj: "obj \<in> scalars reg" "mo_oid obj = oid" unfolding find by (auto dest: find_member)
    then have "populate_scalar obj = Some (scalar_at obj)"
      using assms(1) by (auto simp: registry_rows_def intro!: populate_scalar_fits)
    with Some obj show ?thesis
      by (auto simp: mib_registry_resolve_def mib_view_def)
  qed
qed

end
