(* ===== verification/Snmp_Pdu.thy ===== *)
theory Snmp_Pdu
  imports Mib_Types
begin

text \<open>
  \<open>components/snmp_core/include/snmp_pdu.h\<close>: the version-neutral request and response context. The
  array of varbinds keeps all of its \<open>SNMP_MAX_VARBINDS\<close> slots, live or not, because the GetBulk
  handler reads and writes it in place; the principal keeps its 32 characters, because it is read
  back as a NUL-terminated string.
\<close>

abbreviation SNMP_MAX_VARBINDS :: nat where "SNMP_MAX_VARBINDS \<equiv> 50"
abbreviation SNMP_MAX_PRINCIPAL_LEN :: nat where "SNMP_MAX_PRINCIPAL_LEN \<equiv> 32"

datatype snmp_version = SNMP_VERSION_V1 | SNMP_VERSION_V2C | SNMP_VERSION_V3

fun version_code :: "snmp_version \<Rightarrow> i32" where
  "version_code SNMP_VERSION_V1 = 0"
| "version_code SNMP_VERSION_V2C = 1"
| "version_code SNMP_VERSION_V3 = 3"

datatype snmp_access_mode = SNMP_ACCESS_NONE | SNMP_ACCESS_READ | SNMP_ACCESS_READWRITE

record snmp_pdu_ctx =
  ctx_version :: snmp_version
  ctx_pdu_tag :: u8
  ctx_request_id :: i32
  ctx_error_status :: i32
  ctx_error_index :: i32
  ctx_varbinds :: "snmp_varbind list"
  ctx_varbind_count :: nat
  ctx_access_mode :: snmp_access_mode
  ctx_principal :: "u8 list"

text \<open>\<open>memset(&s_ctx, 0, sizeof(s_ctx))\<close>\<close>

definition ctx_zero :: snmp_pdu_ctx where
  "ctx_zero =
     \<lparr>ctx_version = SNMP_VERSION_V1, ctx_pdu_tag = 0, ctx_request_id = 0, ctx_error_status = 0,
      ctx_error_index = 0, ctx_varbinds = replicate SNMP_MAX_VARBINDS vb_zero,
      ctx_varbind_count = 0, ctx_access_mode = SNMP_ACCESS_NONE,
      ctx_principal = replicate SNMP_MAX_PRINCIPAL_LEN 0\<rparr>"

text \<open>The varbinds that count.\<close>

definition live_varbinds :: "snmp_pdu_ctx \<Rightarrow> snmp_varbind list" where
  "live_varbinds ctx = take (ctx_varbind_count ctx) (ctx_varbinds ctx)"

text \<open>The type invariant of a context.\<close>

definition ctx_ok :: "snmp_pdu_ctx \<Rightarrow> bool" where
  "ctx_ok ctx \<longleftrightarrow>
     length (ctx_varbinds ctx) = SNMP_MAX_VARBINDS \<and> (\<forall>vb \<in> set (ctx_varbinds ctx). vb_ok vb) \<and>
     ctx_varbind_count ctx \<le> SNMP_MAX_VARBINDS \<and>
     length (ctx_principal ctx) = SNMP_MAX_PRINCIPAL_LEN \<and> 0 \<in> set (ctx_principal ctx)"

lemma ctx_ok_zero: "ctx_ok ctx_zero"
  by (simp add: ctx_ok_def ctx_zero_def)

lemma ctx_ok_nth: "ctx_ok ctx \<Longrightarrow> i < SNMP_MAX_VARBINDS \<Longrightarrow> vb_ok (ctx_varbinds ctx ! i)"
  by (simp add: ctx_ok_def)

text \<open>C string functions on a character array: \<open>strlen\<close> up to the first NUL.\<close>

definition c_strlen :: "u8 list \<Rightarrow> nat option" where
  "c_strlen s = (if 0 \<in> set s then Some (length (takeWhile (\<lambda>c. c \<noteq> 0) s)) else None)"

definition c_string :: "u8 list \<Rightarrow> u8 list" where
  "c_string s = takeWhile (\<lambda>c. c \<noteq> 0) s"

lemma c_strlen_Some: "0 \<in> set s \<Longrightarrow> c_strlen s = Some (length (c_string s))"
  by (simp add: c_strlen_def c_string_def)

lemma take_c_string: "take (length (c_string s)) s = c_string s"
  by (metis c_string_def takeWhile_eq_take)

end
