(* ===== verification/Mib_Backend.thy ===== *)
theory Mib_Backend
  imports Mib_Resolve Snmp_Pdu
begin

text \<open>
  What the protocol engine relies on when it calls into a MIB module, as contracts of single getters
  and setters and as the locale \<open>mib_backend\<close> over a whole registry; and the small helpers that the
  modules share (\<open>Mib_Ii\<close>, \<open>Mib_Wespe\<close>, \<open>Mib_Iftable\<close>, \<open>Mib_Sensor_Table\<close>).
\<close>

section \<open>Contracts\<close>

text \<open>
  A getter of declared type \<open>tag\<close>: defined on every well-formed varbind, it keeps the invariant of
  the device and the name of the varbind; on success the value has the declared type, on failure the
  varbind is untouched.
\<close>

definition getter_ok :: "('s \<Rightarrow> bool) \<Rightarrow> u8 \<Rightarrow> 's mib_get_fn \<Rightarrow> bool" where
  "getter_ok I tag g \<longleftrightarrow> (\<forall>vb s. I s \<longrightarrow> vb_ok vb \<longrightarrow>
     (\<exists>r vb' s'. g vb s = Some ((r, vb'), s') \<and> I s' \<and> vb_ok vb' \<and> vb_oid vb' = vb_oid vb \<and>
        (if r = MIB_OK then vb_tag vb' = tag else vb' = vb)))"

definition setter_ok :: "('s \<Rightarrow> bool) \<Rightarrow> 's mib_set_fn \<Rightarrow> bool" where
  "setter_ok I f \<longleftrightarrow> (\<forall>vb s. I s \<longrightarrow> vb_ok vb \<longrightarrow> (\<exists>r s'. f vb s = Some (r, s') \<and> I s'))"

text \<open>The types a value may have; in particular no exception tag.\<close>

abbreviation smi_tags :: "u8 set" where
  "smi_tags \<equiv> {BER_TAG_INTEGER, BER_TAG_OCTET_STRING, BER_TAG_OID, SNMP_TAG_COUNTER32, SNMP_TAG_GAUGE32,
     SNMP_TAG_TIMETICKS, SNMP_TAG_COUNTER64}"

definition object_reads :: "('s \<Rightarrow> bool) \<Rightarrow> 's mib_object \<Rightarrow> bool" where
  "object_reads I obj \<longleftrightarrow>
     length (mo_oid obj) \<le> BER_MAX_OID_LEN \<and> mo_value_tag obj \<in> smi_tags \<and>
     getter_ok I (mo_value_tag obj) (mo_getter obj)"

definition object_ok :: "('s \<Rightarrow> bool) \<Rightarrow> 's mib_object \<Rightarrow> bool" where
  "object_ok I obj \<longleftrightarrow> object_reads I obj \<and> (\<forall>f. mo_setter obj = Some f \<longrightarrow> setter_ok I f)"

definition table_reads :: "('s \<Rightarrow> bool) \<Rightarrow> 's mib_table \<Rightarrow> bool" where
  "table_reads I t \<longleftrightarrow> mib_table_walk t I \<and>
     (\<forall>col \<in> set (mt_columns t). col_value_tag col \<in> smi_tags) \<and>
     (\<forall>col \<in> set (mt_columns t). \<forall>i. getter_ok I (col_value_tag col) (mt_get_cell t (col_number col) i))"

definition table_ok :: "('s \<Rightarrow> bool) \<Rightarrow> 's mib_table \<Rightarrow> bool" where
  "table_ok I t \<longleftrightarrow> table_reads I t \<and> (\<forall>f. mt_set_cell t = Some f \<longrightarrow> (\<forall>c i. setter_ok I (f c i)))"

text \<open>
  \<open>mib_reads\<close> is what the read handlers need; its invariant may be as fine as ``nothing but the
  telemetry changed since \<open>s0\<close>''. \<open>mib_backend\<close> adds the setters.
\<close>

locale mib_reads =
  fixes reg :: "'s registry" and I :: "'s \<Rightarrow> bool"
  assumes objects: "obj \<in> scalars reg \<Longrightarrow> object_reads I obj"
    and tables: "t \<in> set (s_tables reg) \<Longrightarrow> table_reads I t"
begin

lemma walks: "registry_walks I reg"
  using objects tables by (auto simp: registry_walks_def object_reads_def table_reads_def)

lemma resolved_get_ok: "resolved_from reg out \<Longrightarrow> getter_ok I (rs_value_tag out) (mib_resolved_get out)"
  using objects tables unfolding resolved_from_def
  by (fastforce simp: mib_resolved_get_def [abs_def] scalar_at_def cell_at_def object_reads_def table_reads_def)

lemma resolved_tag: "resolved_from reg out \<Longrightarrow> rs_value_tag out \<in> smi_tags"
  using objects tables unfolding resolved_from_def
  by (fastforce simp: scalar_at_def cell_at_def object_reads_def table_reads_def)

lemma get_total:
  assumes "resolved_from reg out" and "I s" and "vb_ok vb"
  obtains r vb' s' where "mib_resolved_get out vb s = Some ((r, vb'), s')" "I s'" "vb_ok vb'"
    "vb_oid vb' = vb_oid vb" "if r = MIB_OK then vb_tag vb' = rs_value_tag out else vb' = vb"
  using resolved_get_ok [OF assms(1)] assms(2,3) unfolding getter_ok_def by blast

end

locale mib_backend = mib_reads reg I for reg :: "'s registry" and I :: "'s \<Rightarrow> bool" +
  assumes object_sets: "obj \<in> scalars reg \<Longrightarrow> mo_setter obj = Some f \<Longrightarrow> setter_ok I f"
    and table_sets: "t \<in> set (s_tables reg) \<Longrightarrow> mt_set_cell t = Some h \<Longrightarrow> setter_ok I (h c i)"
begin

lemma resolved_set_ok: "resolved_from reg out \<Longrightarrow> setter_ok I (mib_resolved_set out)"
  using object_sets table_sets unfolding resolved_from_def
  by (fastforce simp: mib_resolved_set_def [abs_def] scalar_at_def cell_at_def setter_ok_def
      split: option.splits)

lemma set_total:
  assumes "resolved_from reg out" and "I s" and "vb_ok vb"
  obtains r s' where "mib_resolved_set out vb s = Some (r, s')" "I s'"
  using resolved_set_ok [OF assms(1)] assms(2,3) unfolding setter_ok_def by blast

end

text \<open>
  An invariant of the reads can be refined by a relation to a fixed earlier state, when every getter
  and every row callback keeps that relation.
\<close>

definition getter_keeps :: "('s \<Rightarrow> 's \<Rightarrow> bool) \<Rightarrow> 's mib_get_fn \<Rightarrow> bool" where
  "getter_keeps K g \<longleftrightarrow> (\<forall>vb s x s'. g vb s = Some (x, s') \<longrightarrow> K s s')"

definition rows_keep :: "('s \<Rightarrow> 's \<Rightarrow> bool) \<Rightarrow> 's mib_table \<Rightarrow> bool" where
  "rows_keep K t \<longleftrightarrow> (\<forall>s. K s (snd (mt_first_index t s))) \<and> (\<forall>c s. K s (snd (mt_next_index t c s)))"

definition registry_keeps :: "('s \<Rightarrow> 's \<Rightarrow> bool) \<Rightarrow> 's registry \<Rightarrow> bool" where
  "registry_keeps K reg \<longleftrightarrow>
     (\<forall>obj \<in> scalars reg. getter_keeps K (mo_getter obj)) \<and>
     (\<forall>t \<in> set (s_tables reg). rows_keep K t \<and> (\<forall>c i. getter_keeps K (mt_get_cell t c i)))"

lemma getter_ok_keeps:
  assumes "getter_ok I tag g" and "getter_keeps K g" and "transp K"
  shows "getter_ok (\<lambda>s. I s \<and> K s0 s) tag g"
  unfolding getter_ok_def
proof (intro allI impI)
  fix vb s assume "I s \<and> K s0 s" "vb_ok vb"
  with assms(1) obtain r vb' s' where g: "g vb s = Some ((r, vb'), s')" "I s'" "vb_ok vb'"
    "vb_oid vb' = vb_oid vb" "if r = MIB_OK then vb_tag vb' = tag else vb' = vb"
    unfolding getter_ok_def by blast
  with assms(2,3) \<open>I s \<and> K s0 s\<close> have "K s0 s'" unfolding getter_keeps_def by (meson transpE)
  with g show "\<exists>r vb' s'. g vb s = Some ((r, vb'), s') \<and> (I s' \<and> K s0 s') \<and> vb_ok vb' \<and>
      vb_oid vb' = vb_oid vb \<and> (if r = MIB_OK then vb_tag vb' = tag else vb' = vb)"
    by blast
qed

lemma table_walk_keeps:
  assumes "mib_table_walk t I" and "rows_keep K t" and "transp K"
  shows "mib_table_walk t (\<lambda>s. I s \<and> K s0 s)"
proof -
  have "K s0 (snd (mt_first_index t s))" "K s0 (snd (mt_next_index t c s))" if "K s0 s" for s c
    using assms(2,3) that unfolding rows_keep_def by (meson transpE)+
  with assms(1) show ?thesis by (auto simp: mib_table_walk_def)
qed

lemma mib_reads_keeps:
  assumes "mib_reads reg I" and "registry_keeps K reg" and "transp K"
  shows "mib_reads reg (\<lambda>s. I s \<and> K s0 s)"
proof
  fix obj assume "obj \<in> scalars reg"
  with assms show "object_reads (\<lambda>s. I s \<and> K s0 s) obj"
    unfolding mib_reads_def object_reads_def registry_keeps_def by (blast intro: getter_ok_keeps)
next
  fix t assume "t \<in> set (s_tables reg)"
  with assms show "table_reads (\<lambda>s. I s \<and> K s0 s) t"
    unfolding mib_reads_def table_reads_def registry_keeps_def
    by (blast intro: getter_ok_keeps table_walk_keeps)
qed

text \<open>
  A backend whose instances are the set \<open>V\<close> as long as only reads happen: a name determines the type of
  its value, the getter of an instance reports the general failure when \<open>fails\<close> says so of the state and the
  name and succeeds otherwise, and fewer instances than the guard of the v1 walk have the type that v1 must
  skip.
\<close>

definition counter64_names :: "'s registry \<Rightarrow> oid set" where
  "counter64_names reg = {rs_oid out | out. resolved_from reg out \<and> rs_value_tag out = SNMP_TAG_COUNTER64}"

locale mib_settled = mib_reads reg I for reg :: "'s registry" and I :: "'s \<Rightarrow> bool" +
  fixes rows :: "'s mib_table \<Rightarrow> 's \<Rightarrow> u32 list" and V :: "oid set" and fails :: "'s \<Rightarrow> oid \<Rightarrow> bool"
  assumes settled: "registry_rows I rows reg"
    and view: "I s \<Longrightarrow> mib_view rows reg s = V"
    and finite_view: "finite V"
    and typed: "resolved_from reg a \<Longrightarrow> resolved_from reg b \<Longrightarrow> rs_oid a = rs_oid b \<Longrightarrow>
      rs_value_tag a = rs_value_tag b"
    and answers: "resolved_from reg out \<Longrightarrow> rs_oid out \<in> V \<Longrightarrow> I s \<Longrightarrow>
      mib_resolved_get out vb s = Some ((r, vb'), s') \<Longrightarrow>
      r = (if fails s (rs_oid out) then MIB_GEN_ERR else MIB_OK)"
    and few_counter64: "card (V \<inter> counter64_names reg) < 64"
begin

lemma counter64_iff:
  assumes "resolved_from reg out"
  shows "rs_oid out \<in> counter64_names reg \<longleftrightarrow> rs_value_tag out = SNMP_TAG_COUNTER64"
proof
  assume "rs_oid out \<in> counter64_names reg"
  then obtain out' where "rs_oid out = rs_oid out'" "resolved_from reg out'" "rs_value_tag out' = SNMP_TAG_COUNTER64"
    unfolding counter64_names_def by blast
  with typed [OF assms this(2,1)] show "rs_value_tag out = SNMP_TAG_COUNTER64" by simp
next
  assume "rs_value_tag out = SNMP_TAG_COUNTER64"
  with assms show "rs_oid out \<in> counter64_names reg" unfolding counter64_names_def by blast
qed

lemma next_in_view:
  assumes "I s"
  shows "\<exists>r. mib_registry_resolve_next reg oid s = Some (r, s) \<and>
     (case r of Inl e \<Rightarrow> e = MIB_END_OF_VIEW \<and> is_next oid V None
      | Inr out \<Rightarrow> is_next oid V (Some (rs_oid out)) \<and> resolved_from reg out)"
proof -
  from resolve_next_rows [OF settled assms, of oid]
  obtain r where r: "mib_registry_resolve_next reg oid s = Some (r, s)"
    "is_next oid V (case r of Inl _ \<Rightarrow> None | Inr out \<Rightarrow> Some (rs_oid out))"
    by (auto simp: view [OF assms])
  moreover from resolve_next_total [OF walks assms, of oid] r(1)
  have "case r of Inl e \<Rightarrow> e = MIB_END_OF_VIEW | Inr out \<Rightarrow> resolved_from reg out"
    by (auto split: sum.splits)
  ultimately show ?thesis by (auto split: sum.splits)
qed

lemma exact_in_view:
  assumes "I s"
  shows "\<exists>r. mib_registry_resolve reg oid s = Some (r, s) \<and>
     (case r of
        Inl e \<Rightarrow> oid \<notin> V \<and>
          e = (if \<exists>t \<in> set (s_tables reg). cell_shaped t oid then MIB_NO_SUCH_INSTANCE else MIB_NO_SUCH_OBJECT)
      | Inr out \<Rightarrow> rs_oid out = oid \<and> oid \<in> V \<and> resolved_from reg out)"
proof -
  from resolve_rows [OF settled assms, of oid, unfolded view [OF assms]]
  obtain r where r: "mib_registry_resolve reg oid s = Some (r, s)"
    "case r of
        Inl e \<Rightarrow> oid \<notin> V \<and>
          e = (if \<exists>t \<in> set (s_tables reg). cell_shaped t oid then MIB_NO_SUCH_INSTANCE else MIB_NO_SUCH_OBJECT)
      | Inr out \<Rightarrow> rs_oid out = oid \<and> oid \<in> V"
    by blast
  moreover from resolve_total [OF walks assms, of oid] r(1)
  have "case r of Inl e \<Rightarrow> True | Inr out \<Rightarrow> resolved_from reg out"
    by (auto split: sum.splits)
  ultimately show ?thesis by (auto split: sum.splits)
qed

end

section \<open>Helpers of the modules\<close>

text \<open>A string literal without its terminator.\<close>

definition c_lit :: "string \<Rightarrow> u8 list" where
  "c_lit s = map of_char s"

text \<open>\<open>memcpy(vb->octets, p, n)\<close> with \<open>octets_len = n\<close>, for \<open>n\<close> readable bytes.\<close>

definition put_octets :: "u8 list \<Rightarrow> snmp_varbind \<Rightarrow> snmp_varbind option" where
  "put_octets bs vb =
     (if length bs \<le> SNMP_MAX_OCTETS_LEN
      then Some (vb\<lparr>vb_tag := BER_TAG_OCTET_STRING, vb_value := UOctets bs\<rparr>) else None)"

definition put_int :: "u8 \<Rightarrow> i32 \<Rightarrow> snmp_varbind \<Rightarrow> snmp_varbind" where
  "put_int tag v vb = vb\<lparr>vb_tag := tag, vb_value := UInt v\<rparr>"

text \<open>The getter of a string kept in a character array: \<open>strlen\<close>, then \<open>memcpy\<close>.\<close>

definition get_string_field :: "u8 list \<Rightarrow> snmp_varbind \<Rightarrow> snmp_varbind option" where
  "get_string_field field vb = do {
     n \<leftarrow> c_strlen field;
     put_octets (take n field) vb
   }"

text \<open>\<open>set_string_field\<close> of \<open>mib_ii.c\<close>: the result and the field afterwards.\<close>

definition set_string_field :: "u8 list \<Rightarrow> snmp_varbind \<Rightarrow> (mib_result \<times> u8 list) option" where
  "set_string_field field vb =
     (if vb_tag vb \<noteq> BER_TAG_OCTET_STRING then Some (MIB_WRONG_TYPE, field)
      else do {
        octets \<leftarrow> read_octets (vb_value vb);
        if length field \<le> length octets then Some (MIB_WRONG_VALUE, field)
        else Some (MIB_OK, octets @ [0] @ drop (length octets + 1) field)
      })"

lemma put_octets_ok:
  assumes "length bs \<le> SNMP_MAX_OCTETS_LEN" and "vb_ok vb"
  shows "\<exists>vb'. put_octets bs vb = Some vb' \<and> vb_ok vb' \<and> vb_oid vb' = vb_oid vb \<and> vb_tag vb' = BER_TAG_OCTET_STRING"
  using assms by (simp add: put_octets_def vb_ok_def value_ok_def)

lemma put_int_ok [simp]:
  "tag \<in> {BER_TAG_INTEGER, SNMP_TAG_COUNTER32, SNMP_TAG_GAUGE32, SNMP_TAG_TIMETICKS} \<Longrightarrow> vb_ok vb \<Longrightarrow>
   vb_ok (put_int tag v vb)"
  by (auto simp: put_int_def vb_ok_def value_ok_def)

lemma put_int_simps [simp]: "vb_oid (put_int tag v vb) = vb_oid vb" "vb_tag (put_int tag v vb) = tag"
  by (simp_all add: put_int_def)

lemma length_c_string: "length (c_string cs) \<le> length cs"
  by (simp add: c_string_def length_takeWhile_le)

lemma get_string_field_eq:
  "0 \<in> set field \<Longrightarrow> get_string_field field vb = put_octets (c_string field) vb"
  by (simp add: get_string_field_def c_strlen_Some take_c_string)

lemma c_string_terminated [simp]: "c_string (bs @ 0 # rest) = c_string bs"
  by (induction bs) (auto simp: c_string_def)

lemma c_string_no_nul: "0 \<notin> set bs \<Longrightarrow> c_string bs = bs"
  by (auto simp: c_string_def takeWhile_eq_all_conv)

end
