(* ===== verification/Device_Hal.thy ===== *)
theory Device_Hal
  imports Mib_Types
begin

unbundle bit_operations_syntax

text \<open>
  \<open>components/device_hal\<close>: the relay, the temperature sensors and the system telemetry, as functions
  of the device state. What ESP-IDF and the hardware answer is not code of this repository; it is the
  record \<open>env\<close>, a function of the number of calls made so far, so that two calls of one request may
  get different answers. The DS18B20 poll task runs beside the SNMP task: \<open>e_polls\<close> lists the bus
  transactions it completed before a given read of the cached value.
\<close>

section \<open>The environment and the device\<close>

text \<open>
  One run of \<open>read_once\<close> as the bus sees it: the presence bits of its two resets, and the level that
  each of the following read slots finds.
\<close>

record ow_transaction =
  ow_presence1 :: bool
  ow_presence2 :: bool
  ow_levels :: "nat \<Rightarrow> bool"

datatype sensor_backend = Sensor_DS18B20 | Sensor_Mock | Sensor_Mock_Volatile

text \<open>
  The compile-time choice (\<open>c_\<close>; the CMake file links the two mocks or the two drivers) and the
  external world (\<open>e_\<close>): microseconds since boot, free heap, signal strength of the access point when
  associated, MAC address when the driver has one, the completed polls, and what the calls of the
  initialisation answer (\<open>e_gpio_config\<close> for the pin of the sensor, \<open>e_relay_config\<close> for the one of the relay).
\<close>

record env =
  c_sensor :: sensor_backend
  e_timer :: "nat \<Rightarrow> nat"
  e_heap :: "nat \<Rightarrow> u32"
  e_ap_info :: "nat \<Rightarrow> 8 word option"
  e_mac :: "nat \<Rightarrow> u8 list option"
  e_polls :: "nat \<Rightarrow> ow_transaction list"
  e_gpio_config :: bool
  e_relay_config :: bool
  e_mutex_create :: bool
  e_task_create :: bool

abbreviation SENSOR_MAX_COUNT :: nat where "SENSOR_MAX_COUNT \<equiv> 4"
abbreviation WESPE_STR_MAX :: nat where "WESPE_STR_MAX \<equiv> 64"

text \<open>
  The static variables of the HAL and of the MIB modules, and the GPIO level of the relay pin;
  \<open>s_lock\<close> says whether the semaphore handle is other than \<open>NULL\<close>.
\<close>

record device =
  dev_env :: env
  dev_calls :: nat
  gpio_relay :: bool
  s_relay_on :: bool
  s_lock :: bool
  s_last_decidegrees :: i32
  s_have_reading :: bool
  s_last_change_initialized :: bool
  s_last_oper_up :: bool
  s_last_change_ticks :: u32
  s_sys_contact :: "u8 list"
  s_sys_name :: "u8 list"
  s_sys_location :: "u8 list"
  s_labels :: "u8 list list"
  s_read_count :: "u64 list"

definition tick :: "device \<Rightarrow> device" where
  "tick d = d\<lparr>dev_calls := Suc (dev_calls d)\<rparr>"

section \<open>System telemetry\<close>

definition sysinfo_uptime_ms :: "device \<Rightarrow> u64 \<times> device" where
  "sysinfo_uptime_ms d = (word_of_nat (e_timer (dev_env d) (dev_calls d) div 1000), tick d)"

definition sysinfo_free_heap_bytes :: "device \<Rightarrow> u32 \<times> device" where
  "sysinfo_free_heap_bytes d = (e_heap (dev_env d) (dev_calls d), tick d)"

text \<open>\<open>None\<close> is the return value -1; \<open>ap_info.rssi\<close> is an \<open>int8_t\<close>.\<close>

definition sysinfo_wifi_rssi_dbm :: "device \<Rightarrow> i32 option \<times> device" where
  "sysinfo_wifi_rssi_dbm d = (map_option scast (e_ap_info (dev_env d) (dev_calls d)), tick d)"

definition sysinfo_wifi_mac :: "device \<Rightarrow> u8 list option \<times> device" where
  "sysinfo_wifi_mac d = (e_mac (dev_env d) (dev_calls d), tick d)"

definition sysinfo_wifi_oper_up :: "device \<Rightarrow> bool \<times> device" where
  "sysinfo_wifi_oper_up d = (e_ap_info (dev_env d) (dev_calls d) \<noteq> None, tick d)"

definition sysinfo_wifi_last_change_ticks :: "device \<Rightarrow> u32 \<times> device" where
  "sysinfo_wifi_last_change_ticks d =
     (let (up, d1) = sysinfo_wifi_oper_up d in
      if \<not> s_last_change_initialized d1 then
        (0, d1\<lparr>s_last_change_initialized := True, s_last_oper_up := up\<rparr>)
      else if up \<noteq> s_last_oper_up d1 then
        let (ms, d2) = sysinfo_uptime_ms (d1\<lparr>s_last_oper_up := up\<rparr>);
            d3 = d2\<lparr>s_last_change_ticks := ucast (ms div 10)\<rparr>
        in (s_last_change_ticks d3, d3)
      else (s_last_change_ticks d1, d1))"

section \<open>The relay\<close>

text \<open>\<open>relay_gpio.c\<close>: the value returned, and the device afterwards.\<close>

definition gpio_relay_init :: "device \<Rightarrow> int \<times> device" where
  "gpio_relay_init d =
     (if \<not> e_relay_config (dev_env d) then (- 1, d)
      else (0, d\<lparr>gpio_relay := False, s_relay_on := False\<rparr>))"

definition gpio_relay_set_state :: "bool \<Rightarrow> device \<Rightarrow> int \<times> device" where
  "gpio_relay_set_state on d = (0, d\<lparr>gpio_relay := on, s_relay_on := on\<rparr>)"

definition gpio_relay_get_state :: "device \<Rightarrow> int \<times> bool" where
  "gpio_relay_get_state d = (0, s_relay_on d)"

text \<open>\<open>relay_mock.c\<close>\<close>

definition mock_relay_init :: "device \<Rightarrow> int \<times> device" where
  "mock_relay_init d = (0, d\<lparr>s_relay_on := False\<rparr>)"

definition mock_relay_set_state :: "bool \<Rightarrow> device \<Rightarrow> int \<times> device" where
  "mock_relay_set_state on d = (0, d\<lparr>s_relay_on := on\<rparr>)"

definition mock_relay_get_state :: "device \<Rightarrow> int \<times> bool" where
  "mock_relay_get_state d = (0, s_relay_on d)"

text \<open>The one that is linked.\<close>

definition hal_mock :: "device \<Rightarrow> bool" where
  "hal_mock d \<longleftrightarrow> c_sensor (dev_env d) \<noteq> Sensor_DS18B20"

definition relay_init :: "device \<Rightarrow> int \<times> device" where
  "relay_init d = (if hal_mock d then mock_relay_init d else gpio_relay_init d)"

definition relay_set_state :: "bool \<Rightarrow> device \<Rightarrow> int \<times> device" where
  "relay_set_state on d = (if hal_mock d then mock_relay_set_state on d else gpio_relay_set_state on d)"

definition relay_get_state :: "device \<Rightarrow> int \<times> bool" where
  "relay_get_state d = (if hal_mock d then mock_relay_get_state d else gpio_relay_get_state d)"

section \<open>The DS18B20 driver\<close>

text \<open>The bits that \<open>ow_write_byte\<close> drives onto the bus, in their order.\<close>

fun ow_write_bits :: "nat \<Rightarrow> u8 \<Rightarrow> bool list" where
  "ow_write_bits 0 b = []"
| "ow_write_bits (Suc n) b = (b AND 0x01 \<noteq> 0) # ow_write_bits n (drop_bit 1 b)"

definition ow_write_byte :: "u8 \<Rightarrow> bool list" where
  "ow_write_byte b = ow_write_bits 8 b"

text \<open>
  \<open>ow_read_byte\<close>: the levels of the next eight read slots, least significant bit first. The loop has
  \<open>n\<close> turns left, \<open>i\<close> is its counter.
\<close>

fun ow_read_bits :: "(nat \<Rightarrow> bool) \<Rightarrow> nat \<Rightarrow> nat \<Rightarrow> u8 \<Rightarrow> u8" where
  "ow_read_bits levels 0 i b = b"
| "ow_read_bits levels (Suc n) i b =
     ow_read_bits levels n (i + 1) (b OR push_bit i (if levels i then 1 else 0))"

definition ow_read_byte :: "(nat \<Rightarrow> bool) \<Rightarrow> u8" where
  "ow_read_byte levels = ow_read_bits levels 8 0 0"

text \<open>
  The arithmetic of \<open>read_once\<close>: a 16-bit two's complement value in sixteenths of a degree, as tenths
  of a degree, with the truncating division of C.
\<close>

definition raw_to_decidegrees :: "u8 \<Rightarrow> u8 \<Rightarrow> i32" where
  "raw_to_decidegrees msb lsb =
     (let raw = (push_bit 8 (ucast msb) OR ucast lsb :: 16 word);
          x = sint raw * 10
      in word_of_int (if x < 0 then - ((- x) div 16) else x div 16))"

text \<open>
  \<open>read_once\<close>; \<open>None\<close> is the return value -1. The two commands it writes after each reset (Skip ROM
  and Convert T; Skip ROM and Read Scratchpad) are what the transaction is the answer to.
\<close>

definition read_once :: "ow_transaction \<Rightarrow> i32 option" where
  "read_once w =
     (if \<not> ow_presence1 w then None
      else if \<not> ow_presence2 w then None
      else let lsb = ow_read_byte (ow_levels w); msb = ow_read_byte (\<lambda>i. ow_levels w (8 + i))
        in Some (raw_to_decidegrees msb lsb))"

text \<open>One turn of the poll task.\<close>

definition poll_turn :: "device \<Rightarrow> ow_transaction \<Rightarrow> device" where
  "poll_turn d w =
     (case read_once w of
        Some decidegrees \<Rightarrow> d\<lparr>s_last_decidegrees := decidegrees, s_have_reading := True\<rparr>
      | None \<Rightarrow> d)"

text \<open>The level of the released pin that it sets is \<open>sensor_init_bus\<close> of \<open>One_Wire\<close>.\<close>

definition ds18b20_sensor_init :: "device \<Rightarrow> int \<times> device" where
  "ds18b20_sensor_init d =
     (if \<not> e_gpio_config (dev_env d) then (- 1, d)
      else if \<not> e_mutex_create (dev_env d) then (- 1, d\<lparr>s_lock := False\<rparr>)
      else (if e_task_create (dev_env d) then 0 else - 1, d\<lparr>s_lock := True\<rparr>))"

text \<open>Taking the lock: the poll task's completed turns become visible. The handle must not be \<open>NULL\<close>.\<close>

definition take_lock :: "device \<Rightarrow> device option" where
  "take_lock d =
     (if s_lock d then Some (tick (foldl poll_turn d (e_polls (dev_env d) (dev_calls d)))) else None)"

definition ds18b20_read_temperature :: "device \<Rightarrow> (i32 option \<times> device) option" where
  "ds18b20_read_temperature d = do {
     d1 \<leftarrow> take_lock d;
     Some (if s_have_reading d1 then Some (s_last_decidegrees d1) else None, d1)
   }"

definition ds18b20_count :: nat where
  "ds18b20_count = 1"

definition ds18b20_read_indexed :: "u32 \<Rightarrow> device \<Rightarrow> (i32 option \<times> device) option" where
  "ds18b20_read_indexed index d = (if index \<noteq> 1 then Some (None, d) else ds18b20_read_temperature d)"

section \<open>The mock sensors\<close>

abbreviation MOCK_SENSOR_COUNT :: nat where "MOCK_SENSOR_COUNT \<equiv> 3"

abbreviation s_mock_decidegrees :: "i32 list" where
  "s_mock_decidegrees \<equiv> [235, 198, 271]"

definition mock_sensor_init :: "device \<Rightarrow> int \<times> device" where
  "mock_sensor_init d = (0, d)"

definition mock_read_temperature :: "device \<Rightarrow> i32 option \<times> device" where
  "mock_read_temperature d = (Some 235, d)"

definition mock_count :: "device \<Rightarrow> nat \<times> device" where
  "mock_count d =
     (if c_sensor (dev_env d) = Sensor_Mock_Volatile then
        let step = e_timer (dev_env d) (dev_calls d) div 1000000 div 10
        in ([1, 2, 3, 2] ! (step mod 4), tick d)
      else (MOCK_SENSOR_COUNT, d))"

definition mock_read_indexed :: "u32 \<Rightarrow> device \<Rightarrow> i32 option \<times> device" where
  "mock_read_indexed index d =
     (if index < 1 \<or> 3 < index then (None, d) else (Some (s_mock_decidegrees ! (unat index - 1)), d))"

section \<open>The sensor interface\<close>

text \<open>The backend that is linked; the outer \<open>None\<close> is undefined behaviour, the inner one the value -1.\<close>

definition sensor_init :: "device \<Rightarrow> int \<times> device" where
  "sensor_init d = (if hal_mock d then mock_sensor_init d else ds18b20_sensor_init d)"

definition sensor_read_temperature_decidegrees :: "device \<Rightarrow> (i32 option \<times> device) option" where
  "sensor_read_temperature_decidegrees d =
     (if hal_mock d then Some (mock_read_temperature d) else ds18b20_read_temperature d)"

definition sensor_count :: "device \<Rightarrow> nat \<times> device" where
  "sensor_count d = (if hal_mock d then mock_count d else (ds18b20_count, d))"

definition sensor_read_decidegrees_indexed :: "u32 \<Rightarrow> device \<Rightarrow> (i32 option \<times> device) option" where
  "sensor_read_decidegrees_indexed index d =
     (if hal_mock d then Some (mock_read_indexed index d) else ds18b20_read_indexed index d)"

section \<open>The invariant\<close>

text \<open>A C string in an array of \<open>n\<close> characters.\<close>

definition c_array :: "nat \<Rightarrow> u8 list \<Rightarrow> bool" where
  "c_array n cs \<longleftrightarrow> length cs = n \<and> 0 \<in> set cs"

definition dev_ok :: "device \<Rightarrow> bool" where
  "dev_ok d \<longleftrightarrow>
     c_array WESPE_STR_MAX (s_sys_contact d) \<and> c_array WESPE_STR_MAX (s_sys_name d) \<and> c_array WESPE_STR_MAX (s_sys_location d) \<and>
     length (s_labels d) = SENSOR_MAX_COUNT \<and> (\<forall>l \<in> set (s_labels d). c_array 32 l) \<and>
     length (s_read_count d) = SENSOR_MAX_COUNT \<and> (\<not> hal_mock d \<longrightarrow> s_lock d) \<and>
     (\<forall>n mac. e_mac (dev_env d) n = Some mac \<longrightarrow> length mac = 6)"

text \<open>
  What the HAL leaves alone: everything the MIB modules own, and the environment.
\<close>

definition same_mib :: "device \<Rightarrow> device \<Rightarrow> bool" where
  "same_mib d d' \<longleftrightarrow>
     dev_env d' = dev_env d \<and> s_lock d' = s_lock d \<and> s_relay_on d' = s_relay_on d \<and> gpio_relay d' = gpio_relay d \<and>
     s_sys_contact d' = s_sys_contact d \<and> s_sys_name d' = s_sys_name d \<and>
     s_sys_location d' = s_sys_location d \<and> s_labels d' = s_labels d \<and> s_read_count d' = s_read_count d"

lemma same_mib_refl [simp]: "same_mib d d"
  by (simp add: same_mib_def)

lemma same_mib_trans: "same_mib a b \<Longrightarrow> same_mib b c \<Longrightarrow> same_mib a c"
  by (simp add: same_mib_def)

lemma same_mib_tick [simp]: "same_mib d (tick d)"
  by (simp add: same_mib_def tick_def)

lemma same_mib_ok: "same_mib d d' \<Longrightarrow> dev_ok d \<Longrightarrow> dev_ok d'"
  by (simp add: same_mib_def dev_ok_def hal_mock_def)

lemma same_mib_poll [simp]: "same_mib d (foldl poll_turn d ws)"
proof (induction ws arbitrary: d)
  case (Cons w ws)
  have "same_mib d (poll_turn d w)"
    by (simp add: poll_turn_def same_mib_def split: option.split)
  from same_mib_trans [OF this Cons] show ?case by simp
qed simp

lemma take_lock_same: "take_lock d = Some d' \<Longrightarrow> same_mib d d'"
  using same_mib_trans [OF same_mib_poll same_mib_tick] by (auto simp: take_lock_def split: if_splits)

lemma sensor_read_same: "sensor_read_temperature_decidegrees d = Some (r, d') \<Longrightarrow> same_mib d d'"
  by (auto simp: sensor_read_temperature_decidegrees_def mock_read_temperature_def ds18b20_read_temperature_def
      take_lock_same bind_eq_Some_conv split: if_splits)

lemma sensor_read_indexed_same: "sensor_read_decidegrees_indexed i d = Some (r, d') \<Longrightarrow> same_mib d d'"
  using sensor_read_same [of d r d']
  by (auto simp: sensor_read_decidegrees_indexed_def mock_read_indexed_def ds18b20_read_indexed_def
      sensor_read_temperature_decidegrees_def split: if_splits)

text \<open>With the invariant the reads are defined.\<close>

lemma ds18b20_read_total: "s_lock d \<Longrightarrow> \<exists>r d'. ds18b20_read_temperature d = Some (r, d')"
  by (simp add: ds18b20_read_temperature_def take_lock_def)

lemma sensor_read_total:
  assumes "dev_ok d"
  obtains r d' where "sensor_read_temperature_decidegrees d = Some (r, d')" "same_mib d d'" "dev_ok d'"
proof -
  have "\<exists>r d'. sensor_read_temperature_decidegrees d = Some (r, d')"
    using assms ds18b20_read_total [of d]
    by (auto simp: sensor_read_temperature_decidegrees_def mock_read_temperature_def dev_ok_def)
  with that sensor_read_same same_mib_ok [OF _ assms] show ?thesis by blast
qed

lemma sensor_read_indexed_total:
  assumes "dev_ok d"
  obtains r d' where "sensor_read_decidegrees_indexed i d = Some (r, d')" "same_mib d d'" "dev_ok d'"
proof -
  have "\<exists>r d'. sensor_read_decidegrees_indexed i d = Some (r, d')"
    using assms ds18b20_read_total [of d]
    by (auto simp: sensor_read_decidegrees_indexed_def mock_read_indexed_def ds18b20_read_indexed_def dev_ok_def)
  with that sensor_read_indexed_same same_mib_ok [OF _ assms] show ?thesis by blast
qed

lemma sensor_count_same [simp]: "same_mib d (snd (sensor_count d))"
  by (simp add: sensor_count_def mock_count_def Let_def)

lemma last_change_same [simp]: "same_mib d (snd (sysinfo_wifi_last_change_ticks d))"
  by (simp add: sysinfo_wifi_last_change_ticks_def sysinfo_wifi_oper_up_def sysinfo_uptime_ms_def
      Let_def same_mib_def tick_def)

lemma sysinfo_same [simp]:
  "same_mib d (snd (sysinfo_uptime_ms d))"
  "same_mib d (snd (sysinfo_free_heap_bytes d))"
  "same_mib d (snd (sysinfo_wifi_rssi_dbm d))"
  "same_mib d (snd (sysinfo_wifi_mac d))"
  "same_mib d (snd (sysinfo_wifi_oper_up d))"
  by (simp_all add: sysinfo_uptime_ms_def sysinfo_free_heap_bytes_def sysinfo_wifi_rssi_dbm_def
      sysinfo_wifi_mac_def sysinfo_wifi_oper_up_def)

lemma pattern_bound: "[1, 2, 3, 2 :: nat] ! (k mod 4) \<in> {1, 2, 3}"
proof -
  have "k mod 4 < 4" by simp
  then consider "k mod 4 = 0" | "k mod 4 = 1" | "k mod 4 = 2" | "k mod 4 = 3" by linarith
  then show ?thesis by cases simp_all
qed

lemma sensor_count_bound: "1 \<le> fst (sensor_count d)" "fst (sensor_count d) \<le> 3"
  using pattern_bound [of "e_timer (dev_env d) (dev_calls d) div 1000000 div 10"]
  by (auto simp: sensor_count_def mock_count_def ds18b20_count_def Let_def simp del: nth_Cons_numeral)

end
