(* ===== verification/Mib_Ii.thy ===== *)
theory Mib_Ii
  imports Mib_Backend Device_Hal
begin

text \<open>
  \<open>components/mib/mib_ii.c\<close>: the \<open>system\<close> group, seven scalars, three of them writable strings.
\<close>

abbreviation OID_SYS_DESCR :: oid where "OID_SYS_DESCR \<equiv> [1, 3, 6, 1, 2, 1, 1, 1, 0]"
abbreviation OID_SYS_OBJECT_ID :: oid where "OID_SYS_OBJECT_ID \<equiv> [1, 3, 6, 1, 2, 1, 1, 2, 0]"
abbreviation OID_SYS_UPTIME_mib :: oid where "OID_SYS_UPTIME_mib \<equiv> [1, 3, 6, 1, 2, 1, 1, 3, 0]"
abbreviation OID_SYS_CONTACT :: oid where "OID_SYS_CONTACT \<equiv> [1, 3, 6, 1, 2, 1, 1, 4, 0]"
abbreviation OID_SYS_NAME :: oid where "OID_SYS_NAME \<equiv> [1, 3, 6, 1, 2, 1, 1, 5, 0]"
abbreviation OID_SYS_LOCATION :: oid where "OID_SYS_LOCATION \<equiv> [1, 3, 6, 1, 2, 1, 1, 6, 0]"
abbreviation OID_SYS_SERVICES :: oid where "OID_SYS_SERVICES \<equiv> [1, 3, 6, 1, 2, 1, 1, 7, 0]"

definition WESPE_SYS_OBJECT_ID :: oid where
  "WESPE_SYS_OBJECT_ID = [1, 3, 6, 1, 4, 1, 99999, 1, 1]"

definition get_sys_descr :: "device mib_get_fn" where
  "get_sys_descr vb d = do {
     vb' \<leftarrow> put_octets (c_lit ''Wespe ESP32-S3 SNMP Agent'') vb;
     Some ((MIB_OK, vb'), d)
   }"

definition get_sys_object_id :: "device mib_get_fn" where
  "get_sys_object_id vb d =
     Some ((MIB_OK, vb\<lparr>vb_tag := BER_TAG_OID, vb_value := UOid WESPE_SYS_OBJECT_ID\<rparr>), d)"

definition get_sys_uptime :: "device mib_get_fn" where
  "get_sys_uptime vb d =
     (let (ms, d1) = sysinfo_uptime_ms d; hundredths = ms div 10
      in Some ((MIB_OK, put_int SNMP_TAG_TIMETICKS (ucast hundredths) vb), d1))"

definition get_sys_contact :: "device mib_get_fn" where
  "get_sys_contact vb d = do {
     vb' \<leftarrow> get_string_field (s_sys_contact d) vb;
     Some ((MIB_OK, vb'), d)
   }"

definition set_sys_contact :: "device mib_set_fn" where
  "set_sys_contact vb d = do {
     (r, field) \<leftarrow> set_string_field (s_sys_contact d) vb;
     Some (r, d\<lparr>s_sys_contact := field\<rparr>)
   }"

definition get_sys_name :: "device mib_get_fn" where
  "get_sys_name vb d = do {
     vb' \<leftarrow> get_string_field (s_sys_name d) vb;
     Some ((MIB_OK, vb'), d)
   }"

definition set_sys_name :: "device mib_set_fn" where
  "set_sys_name vb d = do {
     (r, field) \<leftarrow> set_string_field (s_sys_name d) vb;
     Some (r, d\<lparr>s_sys_name := field\<rparr>)
   }"

definition get_sys_location :: "device mib_get_fn" where
  "get_sys_location vb d = do {
     vb' \<leftarrow> get_string_field (s_sys_location d) vb;
     Some ((MIB_OK, vb'), d)
   }"

definition set_sys_location :: "device mib_set_fn" where
  "set_sys_location vb d = do {
     (r, field) \<leftarrow> set_string_field (s_sys_location d) vb;
     Some (r, d\<lparr>s_sys_location := field\<rparr>)
   }"

definition get_sys_services :: "device mib_get_fn" where
  "get_sys_services vb d = Some ((MIB_OK, put_int BER_TAG_INTEGER 64 vb), d)"

definition scalar ::
  "oid \<Rightarrow> u8 \<Rightarrow> mib_access \<Rightarrow> 's mib_get_fn \<Rightarrow> 's mib_set_fn option \<Rightarrow> 's mib_object" where
  "scalar oid tag access getter setter =
     \<lparr>mo_oid = oid, mo_value_tag = tag, mo_access = access, mo_getter = getter, mo_setter = setter\<rparr>"

lemma scalar_simps [simp]:
  "mo_oid (scalar x tag a g f) = x" "mo_value_tag (scalar x tag a g f) = tag"
  "mo_access (scalar x tag a g f) = a" "mo_getter (scalar x tag a g f) = g"
  "mo_setter (scalar x tag a g f) = f"
  by (simp_all add: scalar_def)

definition s_mib_ii_objects :: "device mib_object list" where
  "s_mib_ii_objects =
     [scalar OID_SYS_DESCR BER_TAG_OCTET_STRING MIB_ACCESS_RO get_sys_descr None,
      scalar OID_SYS_OBJECT_ID BER_TAG_OID MIB_ACCESS_RO get_sys_object_id None,
      scalar OID_SYS_UPTIME_mib SNMP_TAG_TIMETICKS MIB_ACCESS_RO get_sys_uptime None,
      scalar OID_SYS_CONTACT BER_TAG_OCTET_STRING MIB_ACCESS_RW get_sys_contact (Some set_sys_contact),
      scalar OID_SYS_NAME BER_TAG_OCTET_STRING MIB_ACCESS_RW get_sys_name (Some set_sys_name),
      scalar OID_SYS_LOCATION BER_TAG_OCTET_STRING MIB_ACCESS_RW get_sys_location (Some set_sys_location),
      scalar OID_SYS_SERVICES BER_TAG_INTEGER MIB_ACCESS_RO get_sys_services None]"

definition mib_ii_register :: "device registry \<Rightarrow> device registry" where
  "mib_ii_register reg = snd (mib_registry_register_module s_mib_ii_objects reg)"

section \<open>The contracts\<close>

lemma get_string_field_ok:
  assumes "c_array n field" and "n \<le> SNMP_MAX_OCTETS_LEN" and "vb_ok vb"
  shows "\<exists>vb'. get_string_field field vb = Some vb' \<and> vb_ok vb' \<and> vb_oid vb' = vb_oid vb \<and>
    vb_tag vb' = BER_TAG_OCTET_STRING"
proof -
  have "length (c_string field) \<le> SNMP_MAX_OCTETS_LEN"
    using assms(1,2) length_c_string [of field] by (simp add: c_array_def)
  with assms(1) put_octets_ok [OF this assms(3)] show ?thesis
    by (simp add: get_string_field_eq c_array_def)
qed

lemma set_string_field_ok:
  assumes "c_array n field" and "vb_ok vb"
  shows "\<exists>r field'. set_string_field field vb = Some (r, field') \<and> c_array n field' \<and>
    (r = MIB_OK \<longrightarrow> (\<exists>bs. vb_value vb = UOctets bs \<and> length bs < n \<and> c_string field' = c_string bs)) \<and>
    (r \<noteq> MIB_OK \<longrightarrow> field' = field)"
proof (cases "vb_tag vb = BER_TAG_OCTET_STRING")
  case True
  then obtain bs where bs: "vb_value vb = UOctets bs"
    using assms(2) by (auto simp: vb_ok_def value_ok_def)
  show ?thesis
  proof (cases "length field \<le> length bs")
    case True
    with bs assms(1) show ?thesis by (simp add: set_string_field_def \<open>vb_tag vb = BER_TAG_OCTET_STRING\<close>)
  next
    case False
    with bs assms(1) show ?thesis
      by (simp add: set_string_field_def \<open>vb_tag vb = BER_TAG_OCTET_STRING\<close> c_array_def)
  qed
qed (use assms(1) in \<open>simp add: set_string_field_def\<close>)

lemma getter_okI:
  assumes "\<And>vb s. I s \<Longrightarrow> vb_ok vb \<Longrightarrow> \<exists>r vb' s'. g vb s = Some ((r, vb'), s') \<and> I s' \<and> vb_ok vb' \<and>
    vb_oid vb' = vb_oid vb \<and> (if r = MIB_OK then vb_tag vb' = tag else vb' = vb)"
  shows "getter_ok I tag g"
  using assms by (simp add: getter_ok_def)

lemma dev_ok_strings:
  "dev_ok d \<Longrightarrow> c_array WESPE_STR_MAX (s_sys_contact d)" "dev_ok d \<Longrightarrow> c_array WESPE_STR_MAX (s_sys_name d)"
  "dev_ok d \<Longrightarrow> c_array WESPE_STR_MAX (s_sys_location d)"
  by (simp_all add: dev_ok_def)

text \<open>A getter that fills in an octet string and returns \<open>MIB_OK\<close>.\<close>

lemma getter_ok_octets:
  assumes "\<And>vb d. I d \<Longrightarrow> vb_ok vb \<Longrightarrow> \<exists>vb'. f vb d = Some vb' \<and> vb_ok vb' \<and> vb_oid vb' = vb_oid vb \<and>
    vb_tag vb' = tag"
  shows "getter_ok I tag (\<lambda>vb d. do { vb' \<leftarrow> f vb d; Some ((MIB_OK, vb'), d) })"
  unfolding getter_ok_def using assms by fastforce

text \<open>A getter that fills in a 32-bit value and returns \<open>MIB_OK\<close>.\<close>

lemma getter_ok_int:
  assumes "tag \<in> {BER_TAG_INTEGER, SNMP_TAG_COUNTER32, SNMP_TAG_GAUGE32, SNMP_TAG_TIMETICKS}"
    and "\<And>d. I d \<Longrightarrow> I (g d)"
  shows "getter_ok I tag (\<lambda>vb d. Some ((MIB_OK, put_int tag (f d) vb), g d))"
  using assms unfolding getter_ok_def by simp

lemma getter_ok_fail: "getter_ok I tag (\<lambda>vb d. Some ((MIB_GEN_ERR, vb), d))"
  by (simp add: getter_ok_def)

lemma length_c_lit [simp]: "length (c_lit s) = length s"
  by (simp add: c_lit_def)

lemma get_sys_descr_ok: "getter_ok dev_ok BER_TAG_OCTET_STRING get_sys_descr"
  unfolding get_sys_descr_def [abs_def] by (intro getter_ok_octets put_octets_ok) simp_all

lemma get_sys_object_id_ok: "getter_ok dev_ok BER_TAG_OID get_sys_object_id"
  by (rule getter_okI) (simp add: get_sys_object_id_def vb_ok_def value_ok_def WESPE_SYS_OBJECT_ID_def)

lemma get_sys_uptime_ok: "getter_ok dev_ok SNMP_TAG_TIMETICKS get_sys_uptime"
  by (rule getter_okI)
    (simp add: get_sys_uptime_def sysinfo_uptime_ms_def Let_def same_mib_ok [OF same_mib_tick])

lemma get_sys_services_ok: "getter_ok dev_ok BER_TAG_INTEGER get_sys_services"
  by (rule getter_okI) (simp add: get_sys_services_def)

lemma get_sys_string_ok:
  "getter_ok dev_ok BER_TAG_OCTET_STRING get_sys_contact"
  "getter_ok dev_ok BER_TAG_OCTET_STRING get_sys_name"
  "getter_ok dev_ok BER_TAG_OCTET_STRING get_sys_location"
  unfolding get_sys_contact_def [abs_def] get_sys_name_def [abs_def] get_sys_location_def [abs_def]
  by (intro getter_ok_octets; rule get_string_field_ok [where n = WESPE_STR_MAX]; simp add: dev_ok_strings)+

lemma set_sys_string_ok:
  "setter_ok dev_ok set_sys_contact" "setter_ok dev_ok set_sys_name" "setter_ok dev_ok set_sys_location"
proof -
  have step: "\<exists>r field'. set_string_field field vb = Some (r, field') \<and> c_array WESPE_STR_MAX field'"
    if "c_array WESPE_STR_MAX field" "vb_ok vb" for field vb
    using set_string_field_ok [OF that] by blast
  show "setter_ok dev_ok set_sys_contact"
    unfolding setter_ok_def
  proof (intro allI impI)
    fix vb d assume d: "dev_ok d" "vb_ok vb"
    from step [OF dev_ok_strings(1) [OF d(1)] d(2)] d show "\<exists>r d'. set_sys_contact vb d = Some (r, d') \<and> dev_ok d'"
      by (auto simp: set_sys_contact_def dev_ok_def hal_mock_def)
  qed
  show "setter_ok dev_ok set_sys_name"
    unfolding setter_ok_def
  proof (intro allI impI)
    fix vb d assume d: "dev_ok d" "vb_ok vb"
    from step [OF dev_ok_strings(2) [OF d(1)] d(2)] d show "\<exists>r d'. set_sys_name vb d = Some (r, d') \<and> dev_ok d'"
      by (auto simp: set_sys_name_def dev_ok_def hal_mock_def)
  qed
  show "setter_ok dev_ok set_sys_location"
    unfolding setter_ok_def
  proof (intro allI impI)
    fix vb d assume d: "dev_ok d" "vb_ok vb"
    from step [OF dev_ok_strings(3) [OF d(1)] d(2)] d show "\<exists>r d'. set_sys_location vb d = Some (r, d') \<and> dev_ok d'"
      by (auto simp: set_sys_location_def dev_ok_def hal_mock_def)
  qed
qed

lemma mib_ii_objects_ok: "obj \<in> set s_mib_ii_objects \<Longrightarrow> object_ok dev_ok obj"
  by (auto simp: s_mib_ii_objects_def object_ok_def object_reads_def get_sys_descr_ok get_sys_object_id_ok
      get_sys_uptime_ok get_sys_services_ok get_sys_string_ok set_sys_string_ok)

lemma mib_ii_sorted: "module_sorted s_mib_ii_objects"
  by (simp add: module_sorted_def s_mib_ii_objects_def)

end
