(* ===== verification/Mib_Iftable.thy ===== *)
theory Mib_Iftable
  imports Mib_Ii
begin

text \<open>
  \<open>components/mib/mib_iftable.c\<close>: \<open>ifNumber\<close>, \<open>ifTable\<close> and \<open>ifXTable\<close>, two tables with the one row
  of the WiFi station.
\<close>

abbreviation IF_INDEX_STA :: u32 where "IF_INDEX_STA \<equiv> 1"

definition get_if_number :: "device mib_get_fn" where
  "get_if_number vb d = Some ((MIB_OK, put_int BER_TAG_INTEGER 1 vb), d)"

abbreviation OID_IF_NUMBER :: oid where "OID_IF_NUMBER \<equiv> [1, 3, 6, 1, 2, 1, 2, 1, 0]"

definition s_iftable_scalars :: "device mib_object list" where
  "s_iftable_scalars = [scalar OID_IF_NUMBER BER_TAG_INTEGER MIB_ACCESS_RO get_if_number None]"

definition if_first_index :: "device row_first" where
  "if_first_index d = (Inr IF_INDEX_STA, d)"

definition if_next_index :: "device row_next" where
  "if_next_index current d = (Inl MIB_END_OF_VIEW, d)"

abbreviation IF_COL_INDEX :: u32 where "IF_COL_INDEX \<equiv> 1"
abbreviation IF_COL_DESCR :: u32 where "IF_COL_DESCR \<equiv> 2"
abbreviation IF_COL_TYPE :: u32 where "IF_COL_TYPE \<equiv> 3"
abbreviation IF_COL_MTU :: u32 where "IF_COL_MTU \<equiv> 4"
abbreviation IF_COL_SPEED :: u32 where "IF_COL_SPEED \<equiv> 5"
abbreviation IF_COL_PHYS_ADDRESS :: u32 where "IF_COL_PHYS_ADDRESS \<equiv> 6"
abbreviation IF_COL_ADMIN_STATUS :: u32 where "IF_COL_ADMIN_STATUS \<equiv> 7"
abbreviation IF_COL_OPER_STATUS :: u32 where "IF_COL_OPER_STATUS \<equiv> 8"
abbreviation IF_COL_LAST_CHANGE :: u32 where "IF_COL_LAST_CHANGE \<equiv> 9"
abbreviation IF_COL_IN_OCTETS :: u32 where "IF_COL_IN_OCTETS \<equiv> 10"
abbreviation IF_COL_OUT_OCTETS :: u32 where "IF_COL_OUT_OCTETS \<equiv> 16"

definition iftable_get_cell :: "u32 \<Rightarrow> u32 \<Rightarrow> device mib_get_fn" where
  "iftable_get_cell col index vb d =
     (if col = IF_COL_INDEX then Some ((MIB_OK, put_int BER_TAG_INTEGER IF_INDEX_STA vb), d)
      else if col = IF_COL_DESCR then do {
        vb' \<leftarrow> put_octets (c_lit ''wifi0 (ESP32-S3 WiFi Station)'') vb;
        Some ((MIB_OK, vb'), d)
      }
      else if col = IF_COL_TYPE then Some ((MIB_OK, put_int BER_TAG_INTEGER 71 vb), d)
      else if col = IF_COL_MTU then Some ((MIB_OK, put_int BER_TAG_INTEGER 1500 vb), d)
      else if col = IF_COL_SPEED then Some ((MIB_OK, put_int SNMP_TAG_GAUGE32 72200000 vb), d)
      else if col = IF_COL_PHYS_ADDRESS then
        (case sysinfo_wifi_mac d of
           (None, d1) \<Rightarrow> Some ((MIB_GEN_ERR, vb), d1)
         | (Some mac, d1) \<Rightarrow> do {
             vb' \<leftarrow> put_octets mac vb;
             Some ((MIB_OK, vb'), d1)
           })
      else if col = IF_COL_ADMIN_STATUS then Some ((MIB_OK, put_int BER_TAG_INTEGER 1 vb), d)
      else if col = IF_COL_OPER_STATUS then
        (let (up, d1) = sysinfo_wifi_oper_up d
         in Some ((MIB_OK, put_int BER_TAG_INTEGER (if up then 1 else 2) vb), d1))
      else if col = IF_COL_LAST_CHANGE then
        (let (ticks, d1) = sysinfo_wifi_last_change_ticks d
         in Some ((MIB_OK, put_int SNMP_TAG_TIMETICKS ticks vb), d1))
      else if col = IF_COL_IN_OCTETS \<or> col = IF_COL_OUT_OCTETS then
        Some ((MIB_OK, put_int SNMP_TAG_COUNTER32 0 vb), d)
      else Some ((MIB_GEN_ERR, vb), d))"

definition column :: "u32 \<Rightarrow> u8 \<Rightarrow> mib_access \<Rightarrow> mib_column" where
  "column n tag access = \<lparr>col_number = n, col_value_tag = tag, col_access = access\<rparr>"

lemma column_simps [simp]:
  "col_number (column n tag a) = n" "col_value_tag (column n tag a) = tag" "col_access (column n tag a) = a"
  by (simp_all add: column_def)

definition s_iftable :: "device mib_table" where
  "s_iftable =
     \<lparr>mt_entry_oid = [1, 3, 6, 1, 2, 1, 2, 2, 1],
      mt_columns =
        [column IF_COL_INDEX BER_TAG_INTEGER MIB_ACCESS_RO,
         column IF_COL_DESCR BER_TAG_OCTET_STRING MIB_ACCESS_RO,
         column IF_COL_TYPE BER_TAG_INTEGER MIB_ACCESS_RO,
         column IF_COL_MTU BER_TAG_INTEGER MIB_ACCESS_RO,
         column IF_COL_SPEED SNMP_TAG_GAUGE32 MIB_ACCESS_RO,
         column IF_COL_PHYS_ADDRESS BER_TAG_OCTET_STRING MIB_ACCESS_RO,
         column IF_COL_ADMIN_STATUS BER_TAG_INTEGER MIB_ACCESS_RO,
         column IF_COL_OPER_STATUS BER_TAG_INTEGER MIB_ACCESS_RO,
         column IF_COL_LAST_CHANGE SNMP_TAG_TIMETICKS MIB_ACCESS_RO,
         column IF_COL_IN_OCTETS SNMP_TAG_COUNTER32 MIB_ACCESS_RO,
         column IF_COL_OUT_OCTETS SNMP_TAG_COUNTER32 MIB_ACCESS_RO],
      mt_first_index = if_first_index, mt_next_index = if_next_index,
      mt_get_cell = iftable_get_cell, mt_set_cell = None\<rparr>"

abbreviation IFX_COL_NAME :: u32 where "IFX_COL_NAME \<equiv> 1"
abbreviation IFX_COL_HC_IN_OCTETS :: u32 where "IFX_COL_HC_IN_OCTETS \<equiv> 6"
abbreviation IFX_COL_HC_OUT_OCTETS :: u32 where "IFX_COL_HC_OUT_OCTETS \<equiv> 10"

definition ifxtable_get_cell :: "u32 \<Rightarrow> u32 \<Rightarrow> device mib_get_fn" where
  "ifxtable_get_cell col index vb d =
     (if col = IFX_COL_NAME then do {
        vb' \<leftarrow> put_octets (c_lit ''wifi0'') vb;
        Some ((MIB_OK, vb'), d)
      }
      else if col = IFX_COL_HC_IN_OCTETS \<or> col = IFX_COL_HC_OUT_OCTETS then
        Some ((MIB_OK, vb\<lparr>vb_tag := SNMP_TAG_COUNTER64, vb_value := UCounter64 0\<rparr>), d)
      else Some ((MIB_GEN_ERR, vb), d))"

definition s_ifxtable :: "device mib_table" where
  "s_ifxtable =
     \<lparr>mt_entry_oid = [1, 3, 6, 1, 2, 1, 31, 1, 1, 1],
      mt_columns =
        [column IFX_COL_NAME BER_TAG_OCTET_STRING MIB_ACCESS_RO,
         column IFX_COL_HC_IN_OCTETS SNMP_TAG_COUNTER64 MIB_ACCESS_RO,
         column IFX_COL_HC_OUT_OCTETS SNMP_TAG_COUNTER64 MIB_ACCESS_RO],
      mt_first_index = if_first_index, mt_next_index = if_next_index,
      mt_get_cell = ifxtable_get_cell, mt_set_cell = None\<rparr>"

definition mib_iftable_register :: "device registry \<Rightarrow> device registry" where
  "mib_iftable_register reg =
     (let reg1 = snd (mib_registry_register_module s_iftable_scalars reg);
          reg2 = snd (mib_registry_register_table s_iftable reg1)
      in snd (mib_registry_register_table s_ifxtable reg2))"

section \<open>The contracts\<close>

interpretation iftable: mib_table_rows s_iftable dev_ok "\<lambda>_. [IF_INDEX_STA]"
  by unfold_locales (auto simp: s_iftable_def if_first_index_def if_next_index_def)

interpretation ifxtable: mib_table_rows s_ifxtable dev_ok "\<lambda>_. [IF_INDEX_STA]"
  by unfold_locales (auto simp: s_ifxtable_def if_first_index_def if_next_index_def)

lemma iftable_cell_dev_ok:
  "dev_ok d \<Longrightarrow> sysinfo_wifi_mac d = (m, d') \<Longrightarrow> dev_ok d' \<and> (\<forall>mac. m = Some mac \<longrightarrow> length mac = 6)"
  "dev_ok d \<Longrightarrow> sysinfo_wifi_oper_up d = (u, d') \<Longrightarrow> dev_ok d'"
  "dev_ok d \<Longrightarrow> sysinfo_wifi_last_change_ticks d = (t, d') \<Longrightarrow> dev_ok d'"
  using same_mib_ok [OF sysinfo_same(4) [of d]] same_mib_ok [OF sysinfo_same(5) [of d]]
    same_mib_ok [OF last_change_same [of d]]
  by (auto simp: sysinfo_wifi_mac_def dev_ok_def)

lemma iftable_phys_address_ok: "getter_ok dev_ok BER_TAG_OCTET_STRING (iftable_get_cell IF_COL_PHYS_ADDRESS i)"
proof (rule getter_okI)
  fix vb d assume d: "dev_ok d" "vb_ok vb"
  obtain m d1 where m: "sysinfo_wifi_mac d = (m, d1)" by fastforce
  note ok = iftable_cell_dev_ok(1) [OF d(1) m]
  show "\<exists>r vb' d'. iftable_get_cell IF_COL_PHYS_ADDRESS i vb d = Some ((r, vb'), d') \<and> dev_ok d' \<and> vb_ok vb' \<and>
    vb_oid vb' = vb_oid vb \<and> (if r = MIB_OK then vb_tag vb' = BER_TAG_OCTET_STRING else vb' = vb)"
  proof (cases m)
    case None
    with m ok d show ?thesis by (simp add: iftable_get_cell_def)
  next
    case (Some mac)
    with ok have "length mac \<le> SNMP_MAX_OCTETS_LEN" by simp
    from put_octets_ok [OF this d(2)] m ok Some show ?thesis
      by (auto simp: iftable_get_cell_def)
  qed
qed

lemma sysinfo_dev_ok:
  "dev_ok d \<Longrightarrow> dev_ok (snd (sysinfo_wifi_oper_up d))"
  "dev_ok d \<Longrightarrow> dev_ok (snd (sysinfo_wifi_last_change_ticks d))"
  using same_mib_ok sysinfo_same(5) last_change_same by blast+

lemma iftable_cells:
  "iftable_get_cell IF_COL_INDEX i = (\<lambda>vb d. Some ((MIB_OK, put_int BER_TAG_INTEGER IF_INDEX_STA vb), d))"
  "iftable_get_cell IF_COL_DESCR i = (\<lambda>vb d. do {
     vb' \<leftarrow> put_octets (c_lit ''wifi0 (ESP32-S3 WiFi Station)'') vb; Some ((MIB_OK, vb'), d) })"
  "iftable_get_cell IF_COL_TYPE i = (\<lambda>vb d. Some ((MIB_OK, put_int BER_TAG_INTEGER 71 vb), d))"
  "iftable_get_cell IF_COL_MTU i = (\<lambda>vb d. Some ((MIB_OK, put_int BER_TAG_INTEGER 1500 vb), d))"
  "iftable_get_cell IF_COL_SPEED i = (\<lambda>vb d. Some ((MIB_OK, put_int SNMP_TAG_GAUGE32 72200000 vb), d))"
  "iftable_get_cell IF_COL_ADMIN_STATUS i = (\<lambda>vb d. Some ((MIB_OK, put_int BER_TAG_INTEGER 1 vb), d))"
  "iftable_get_cell IF_COL_OPER_STATUS i = (\<lambda>vb d. Some ((MIB_OK,
     put_int BER_TAG_INTEGER (if fst (sysinfo_wifi_oper_up d) then 1 else 2) vb), snd (sysinfo_wifi_oper_up d)))"
  "iftable_get_cell IF_COL_LAST_CHANGE i = (\<lambda>vb d. Some ((MIB_OK,
     put_int SNMP_TAG_TIMETICKS (fst (sysinfo_wifi_last_change_ticks d)) vb), snd (sysinfo_wifi_last_change_ticks d)))"
  "iftable_get_cell IF_COL_IN_OCTETS i = (\<lambda>vb d. Some ((MIB_OK, put_int SNMP_TAG_COUNTER32 0 vb), d))"
  "iftable_get_cell IF_COL_OUT_OCTETS i = (\<lambda>vb d. Some ((MIB_OK, put_int SNMP_TAG_COUNTER32 0 vb), d))"
  by (simp_all add: iftable_get_cell_def fun_eq_iff split_beta Let_def)

lemma iftable_columns_ok:
  "col \<in> set (mt_columns s_iftable) \<Longrightarrow>
   getter_ok dev_ok (col_value_tag col) (iftable_get_cell (col_number col) i)"
  by (simp add: s_iftable_def, elim disjE)
    (simp_all only: column_simps iftable_cells iftable_phys_address_ok getter_ok_octets put_octets_ok
      getter_ok_int sysinfo_dev_ok insert_iff simp_thms length_c_lit, simp_all add: put_octets_ok getter_ok_octets)

lemma ifxtable_cells:
  "ifxtable_get_cell IFX_COL_NAME i = (\<lambda>vb d. do {
     vb' \<leftarrow> put_octets (c_lit ''wifi0'') vb; Some ((MIB_OK, vb'), d) })"
  "ifxtable_get_cell IFX_COL_HC_IN_OCTETS i =
     (\<lambda>vb d. Some ((MIB_OK, vb\<lparr>vb_tag := SNMP_TAG_COUNTER64, vb_value := UCounter64 0\<rparr>), d))"
  "ifxtable_get_cell IFX_COL_HC_OUT_OCTETS i =
     (\<lambda>vb d. Some ((MIB_OK, vb\<lparr>vb_tag := SNMP_TAG_COUNTER64, vb_value := UCounter64 0\<rparr>), d))"
  by (simp_all add: ifxtable_get_cell_def fun_eq_iff)

lemma getter_ok_counter64:
  "getter_ok I SNMP_TAG_COUNTER64
     (\<lambda>vb d. Some ((MIB_OK, vb\<lparr>vb_tag := SNMP_TAG_COUNTER64, vb_value := UCounter64 (f d)\<rparr>), d))"
  by (simp add: getter_ok_def vb_ok_def value_ok_def)

lemma ifxtable_columns_ok:
  "col \<in> set (mt_columns s_ifxtable) \<Longrightarrow>
   getter_ok dev_ok (col_value_tag col) (ifxtable_get_cell (col_number col) i)"
  by (simp add: s_ifxtable_def, elim disjE)
    (simp_all only: column_simps ifxtable_cells getter_ok_counter64, simp add: put_octets_ok getter_ok_octets)

lemma iftable_ok: "table_ok dev_ok s_iftable"
  using iftable.mib_table_walk_axioms iftable_columns_ok by (simp add: table_ok_def table_reads_def s_iftable_def)

lemma ifxtable_ok: "table_ok dev_ok s_ifxtable"
  using ifxtable.mib_table_walk_axioms ifxtable_columns_ok by (simp add: table_ok_def table_reads_def s_ifxtable_def)

lemma iftable_scalars_ok: "obj \<in> set s_iftable_scalars \<Longrightarrow> object_ok dev_ok obj"
  by (auto simp: s_iftable_scalars_def object_ok_def object_reads_def get_if_number_def intro!: getter_okI)

lemma iftable_scalars_sorted: "module_sorted s_iftable_scalars"
  by (simp add: module_sorted_def s_iftable_scalars_def)

end
