(* ===== verification/Mib_Sensor_Table.thy ===== *)
theory Mib_Sensor_Table
  imports Mib_Iftable
begin

text \<open>
  \<open>components/mib/mib_sensor_table.c\<close>: the table of the sensors, with a writable label per row and a
  counter of served readings. Its rows are \<open>1..sensor_count()\<close>; with the volatile mock backend every
  look at the clock may change that number, so this table keeps the walk contract only.
\<close>

abbreviation WESPE_SENSOR_LABEL_MAX :: nat where "WESPE_SENSOR_LABEL_MAX \<equiv> 32"

abbreviation COL_INDEX :: u32 where "COL_INDEX \<equiv> 1"
abbreviation COL_LABEL :: u32 where "COL_LABEL \<equiv> 2"
abbreviation COL_TEMP :: u32 where "COL_TEMP \<equiv> 3"
abbreviation COL_READ_COUNT :: u32 where "COL_READ_COUNT \<equiv> 4"
abbreviation COL_STATUS :: u32 where "COL_STATUS \<equiv> 5"

definition row_exists :: "u32 \<Rightarrow> device \<Rightarrow> bool \<times> device" where
  "row_exists index d =
     (if 1 \<le> index then
        let (count, d1) = sensor_count d in (index \<le> word_of_nat count, d1)
      else (False, d))"

text \<open>The digits that \<open>%u\<close> prints.\<close>

fun decimal :: "nat \<Rightarrow> u8 list" where
  "decimal n = (if n < 10 then [word_of_nat (48 + n)] else decimal (n div 10) @ [word_of_nat (48 + n mod 10)])"

declare decimal.simps [simp del]

definition default_label :: "u32 \<Rightarrow> u8 list" where
  "default_label index = c_lit ''sensor'' @ decimal (unat index)"

text \<open>
  \<open>label_for\<close>: the string in the slot, which gets its default first when it is empty (\<open>snprintf\<close>
  writes at most 31 characters and a NUL).
\<close>

definition label_for :: "u32 \<Rightarrow> device \<Rightarrow> (u8 list \<times> device) option" where
  "label_for index d =
     (let k = unat index - 1 in
      if index = 0 \<or> length (s_labels d) \<le> k \<or> s_labels d ! k = [] then None
      else
        let slot = s_labels d ! k;
            text = take (WESPE_SENSOR_LABEL_MAX - 1) (default_label index);
            slot' = (if hd slot = 0 then text @ [0] @ drop (length text + 1) slot else slot)
        in Some (slot', d\<lparr>s_labels := (s_labels d)[k := slot']\<rparr>))"

definition sensor_first_index :: "device row_first" where
  "sensor_first_index d =
     (let (count, d1) = sensor_count d in
      if count < 1 then (Inl MIB_END_OF_VIEW, d1) else (Inr 1, d1))"

definition sensor_next_index :: "device row_next" where
  "sensor_next_index current d =
     (let next_i = current + 1; (ex, d1) = row_exists next_i d in
      if \<not> ex then (Inl MIB_END_OF_VIEW, d1) else (Inr next_i, d1))"

definition sensor_get_cell :: "u32 \<Rightarrow> u32 \<Rightarrow> device mib_get_fn" where
  "sensor_get_cell col index vb d =
     (let (ex, d0) = row_exists index d; k = unat index - 1 in
      if \<not> ex then Some ((MIB_NO_SUCH_INSTANCE, vb), d0)
      else if col = COL_INDEX then Some ((MIB_OK, put_int BER_TAG_INTEGER index vb), d0)
      else if col = COL_LABEL then do {
        (label, d1) \<leftarrow> label_for index d0;
        vb' \<leftarrow> get_string_field label vb;
        Some ((MIB_OK, vb'), d1)
      }
      else if col = COL_TEMP then
        do {
          (r, d1) \<leftarrow> sensor_read_decidegrees_indexed index d0;
          case r of
            None \<Rightarrow> Some ((MIB_GEN_ERR, vb), d1)
          | Some decidegrees \<Rightarrow>
              if k < length (s_read_count d1) then
                Some ((MIB_OK, put_int BER_TAG_INTEGER decidegrees vb),
                      d1\<lparr>s_read_count := (s_read_count d1)[k := s_read_count d1 ! k + 1]\<rparr>)
              else None
        }
      else if col = COL_READ_COUNT then
        (if k < length (s_read_count d0) then
           Some ((MIB_OK, vb\<lparr>vb_tag := SNMP_TAG_COUNTER64, vb_value := UCounter64 (s_read_count d0 ! k)\<rparr>), d0)
         else None)
      else if col = COL_STATUS then
        do {
          (r, d1) \<leftarrow> sensor_read_decidegrees_indexed index d0;
          Some ((MIB_OK, put_int BER_TAG_INTEGER (if r \<noteq> None then 1 else 2) vb), d1)
        }
      else Some ((MIB_GEN_ERR, vb), d0))"

definition sensor_set_cell :: "u32 \<Rightarrow> u32 \<Rightarrow> device mib_set_fn" where
  "sensor_set_cell col index vb d =
     (let (ex, d0) = row_exists index d; k = unat index - 1 in
      if \<not> ex then Some (MIB_NO_SUCH_INSTANCE, d0)
      else if col \<noteq> COL_LABEL then Some (MIB_NOT_WRITABLE, d0)
      else if vb_tag vb \<noteq> BER_TAG_OCTET_STRING then Some (MIB_WRONG_TYPE, d0)
      else do {
        octets \<leftarrow> read_octets (vb_value vb);
        if WESPE_SENSOR_LABEL_MAX \<le> length octets then Some (MIB_WRONG_VALUE, d0)
        else if length (s_labels d0) \<le> k then None
        else Some (MIB_OK, d0\<lparr>s_labels :=
               (s_labels d0)[k := octets @ [0] @ drop (length octets + 1) (s_labels d0 ! k)]\<rparr>)
      })"

definition s_sensor_table :: "device mib_table" where
  "s_sensor_table =
     \<lparr>mt_entry_oid = [1, 3, 6, 1, 4, 1, 99999, 2, 6, 1],
      mt_columns =
        [column COL_INDEX BER_TAG_INTEGER MIB_ACCESS_RO,
         column COL_LABEL BER_TAG_OCTET_STRING MIB_ACCESS_RW,
         column COL_TEMP BER_TAG_INTEGER MIB_ACCESS_RO,
         column COL_READ_COUNT SNMP_TAG_COUNTER64 MIB_ACCESS_RO,
         column COL_STATUS BER_TAG_INTEGER MIB_ACCESS_RO],
      mt_first_index = sensor_first_index, mt_next_index = sensor_next_index,
      mt_get_cell = sensor_get_cell, mt_set_cell = Some sensor_set_cell\<rparr>"

text \<open>\<open>mib_sensor_table_register\<close>: the two \<open>memset\<close>s and the registration.\<close>

definition mib_sensor_table_register :: "device registry \<Rightarrow> device \<Rightarrow> device registry \<times> device" where
  "mib_sensor_table_register reg d =
     (snd (mib_registry_register_table s_sensor_table reg),
      d\<lparr>s_labels := replicate SENSOR_MAX_COUNT (replicate WESPE_SENSOR_LABEL_MAX 0),
        s_read_count := replicate SENSOR_MAX_COUNT 0\<rparr>)"

section \<open>The rows\<close>

lemma row_exists_same [simp]: "same_mib d (snd (row_exists i d))"
  using sensor_count_same [of d] by (simp add: row_exists_def split_beta)

lemma row_exists_bound:
  assumes "fst (row_exists i d)"
  shows "1 \<le> i" and "unat i \<le> 3" and "unat i - 1 < SENSOR_MAX_COUNT"
proof -
  have i: "1 \<le> i" "i \<le> word_of_nat (fst (sensor_count d))"
    using assms by (auto simp: row_exists_def split_beta split: if_splits)
  have "unat i \<le> unat (word_of_nat (fst (sensor_count d)) :: u32)"
    using i(2) by (simp add: word_le_nat_alt)
  also have "\<dots> = fst (sensor_count d)"
    using sensor_count_bound [of d] by (simp add: unsigned_of_nat take_bit_eq_mod)
  finally show "unat i \<le> 3" using sensor_count_bound(2) [of d] by simp
  then show "unat i - 1 < SENSOR_MAX_COUNT" by simp
  show "1 \<le> i" by (rule i(1))
qed

lemma sensor_entry_fits: "length (mt_entry_oid s_sensor_table) + 2 \<le> BER_MAX_OID_LEN"
  by (simp add: s_sensor_table_def)

lemma plus_one_ascends:
  assumes "1 \<le> (c + 1 :: u32)"
  shows "c < c + 1"
proof -
  have "unat (c + 1) = (unat c + 1) mod 4294967296" by (simp add: unat_word_ariths)
  moreover have "1 \<le> unat (c + 1)" using assms by (simp add: word_le_nat_alt)
  ultimately have "unat (c + 1) = unat c + 1"
    using unat_u32_bound [of c] by (cases "unat c + 1 = 4294967296") auto
  then show ?thesis by (simp add: word_less_nat_alt)
qed

lemma sensor_next_cases:
  "fst (sensor_next_index c d) = Inr i \<Longrightarrow> i = c + 1 \<and> fst (row_exists i d)"
  by (auto simp: sensor_next_index_def Let_def split_beta split: if_splits)

interpretation sensor_walk: mib_table_walk s_sensor_table dev_ok
proof unfold_locales
  show "length (mt_entry_oid s_sensor_table) + 2 \<le> BER_MAX_OID_LEN" by (rule sensor_entry_fits)
next
  fix d assume d: "dev_ok d"
  have "same_mib d (snd (mt_first_index s_sensor_table d))"
    using sensor_count_same [of d] by (simp add: s_sensor_table_def sensor_first_index_def split_beta)
  with d show "dev_ok (snd (mt_first_index s_sensor_table d))" by (rule same_mib_ok [rotated])
next
  fix d c assume d: "dev_ok d"
  have "same_mib d (snd (mt_next_index s_sensor_table c d))"
    using row_exists_same [of d "c + 1"]
    by (simp add: s_sensor_table_def sensor_next_index_def split_beta Let_def)
  with d show "dev_ok (snd (mt_next_index s_sensor_table c d))" by (rule same_mib_ok [rotated])
next
  fix d c i assume "fst (mt_next_index s_sensor_table c d) = Inr i"
  then have "i = c + 1" "fst (row_exists i d)"
    using sensor_next_cases by (simp_all add: s_sensor_table_def)
  with row_exists_bound(1) plus_one_ascends show "c < i" by blast
qed

text \<open>With a backend whose number of sensors is fixed, the rows are settled too.\<close>

definition sensor_fixed :: "device \<Rightarrow> bool" where
  "sensor_fixed d \<longleftrightarrow> c_sensor (dev_env d) \<noteq> Sensor_Mock_Volatile"

definition sensor_rows :: "device \<Rightarrow> u32 list" where
  "sensor_rows d = (if c_sensor (dev_env d) = Sensor_DS18B20 then [1] else [1, 2, 3])"

interpretation sensor_rows: mib_table_rows s_sensor_table "\<lambda>d. dev_ok d \<and> sensor_fixed d" sensor_rows
proof unfold_locales
  show "length (mt_entry_oid s_sensor_table) + 2 \<le> BER_MAX_OID_LEN" by (rule sensor_entry_fits)
next
  fix d c i assume "dev_ok d \<and> sensor_fixed d" "fst (mt_next_index s_sensor_table c d) = Inr i"
  then show "c < i" using sensor_walk.next_ascends by blast
qed (auto simp: s_sensor_table_def sensor_fixed_def sensor_rows_def sensor_first_index_def
    sensor_next_index_def row_exists_def sensor_count_def mock_count_def ds18b20_count_def hal_mock_def Let_def
    split: sensor_backend.splits if_splits)

section \<open>The cells\<close>

lemma dev_ok_labels:
  assumes "dev_ok d" and "fst (row_exists i d')"
  shows "unat i - 1 < length (s_labels d)" and "c_array WESPE_SENSOR_LABEL_MAX (s_labels d ! (unat i - 1))"
    and "unat i - 1 < length (s_read_count d)"
  using assms row_exists_bound(3) [OF assms(2)] by (auto simp: dev_ok_def)

lemma dev_ok_label_upd:
  "dev_ok d \<Longrightarrow> c_array WESPE_SENSOR_LABEL_MAX l \<Longrightarrow> dev_ok (d\<lparr>s_labels := (s_labels d)[k := l]\<rparr>)"
  using set_update_subset_insert [of "s_labels d" k l] by (auto simp: dev_ok_def hal_mock_def)

lemma label_slot_c_array:
  assumes "c_array WESPE_SENSOR_LABEL_MAX slot" and "length bs < WESPE_SENSOR_LABEL_MAX"
  shows "c_array WESPE_SENSOR_LABEL_MAX (bs @ [0] @ drop (length bs + 1) slot)"
  using assms by (simp add: c_array_def)

definition label_slot :: "u32 \<Rightarrow> u8 list \<Rightarrow> u8 list" where
  "label_slot i slot =
     (let text = take (WESPE_SENSOR_LABEL_MAX - 1) (default_label i)
      in if hd slot = 0 then text @ [0] @ drop (length text + 1) slot else slot)"

lemma label_slot_idem [simp]: "label_slot i (label_slot i slot) = label_slot i slot"
  by (simp add: label_slot_def default_label_def c_lit_def Let_def)

lemma label_slot_ok:
  assumes "c_array WESPE_SENSOR_LABEL_MAX slot"
  shows "c_array WESPE_SENSOR_LABEL_MAX (label_slot i slot)"
proof -
  have "length (take (WESPE_SENSOR_LABEL_MAX - 1) (default_label i)) < WESPE_SENSOR_LABEL_MAX" by simp
  from label_slot_c_array [OF assms this] assms show ?thesis
    unfolding label_slot_def Let_def by (simp split del: if_split split: if_split)
qed

lemma label_for_eq:
  assumes "i \<noteq> 0" and "unat i - 1 < length (s_labels d)" and "s_labels d ! (unat i - 1) \<noteq> []"
  shows "label_for i d = Some (label_slot i (s_labels d ! (unat i - 1)),
    d\<lparr>s_labels := (s_labels d)[unat i - 1 := label_slot i (s_labels d ! (unat i - 1))]\<rparr>)"
  using assms unfolding label_for_def label_slot_def Let_def by simp

lemma label_for_total:
  assumes "dev_ok d" and "fst (row_exists i d')"
  shows "\<exists>l d1. label_for i d = Some (l, d1) \<and> c_array WESPE_SENSOR_LABEL_MAX l \<and> dev_ok d1"
proof -
  note l = dev_ok_labels [OF assms]
  have "i \<noteq> 0" using row_exists_bound(1) [OF assms(2)] by auto
  moreover have "s_labels d ! (unat i - 1) \<noteq> []" using l(2) by (auto simp: c_array_def)
  ultimately show ?thesis
    using label_for_eq l(1) label_slot_ok [OF l(2)] dev_ok_label_upd [OF assms(1)] by blast
qed

lemma row_exists_dev_ok: "dev_ok d \<Longrightarrow> dev_ok (snd (row_exists i d))"
  using same_mib_ok row_exists_same by blast

text \<open>A cell getter is its body behind the check that the row exists.\<close>

lemma sensor_cell_getter_ok:
  assumes body: "\<And>vb d d'. dev_ok d \<Longrightarrow> vb_ok vb \<Longrightarrow> fst (row_exists i d') \<Longrightarrow>
    \<exists>r vb' d1. body vb d = Some ((r, vb'), d1) \<and> dev_ok d1 \<and> vb_ok vb' \<and> vb_oid vb' = vb_oid vb \<and>
      (if r = MIB_OK then vb_tag vb' = tag else vb' = vb)"
    and eq: "\<And>vb d. fst (row_exists i d) \<Longrightarrow> sensor_get_cell c i vb d = body vb (snd (row_exists i d))"
  shows "getter_ok dev_ok tag (sensor_get_cell c i)"
proof (rule getter_okI)
  fix vb d assume d: "dev_ok d" "vb_ok vb"
  show "\<exists>r vb' d'. sensor_get_cell c i vb d = Some ((r, vb'), d') \<and> dev_ok d' \<and> vb_ok vb' \<and>
    vb_oid vb' = vb_oid vb \<and> (if r = MIB_OK then vb_tag vb' = tag else vb' = vb)"
  proof (cases "fst (row_exists i d)")
    case True
    from body [OF row_exists_dev_ok [OF d(1)] d(2) True] show ?thesis by (simp add: eq [OF True])
  next
    case False
    with d row_exists_dev_ok [OF d(1), of i] show ?thesis by (simp add: sensor_get_cell_def split_beta Let_def)
  qed
qed

lemma sensor_label_ok: "getter_ok dev_ok BER_TAG_OCTET_STRING (sensor_get_cell COL_LABEL i)"
proof (rule sensor_cell_getter_ok [where body = "\<lambda>vb d. do { (label, d1) \<leftarrow> label_for i d;
    vb' \<leftarrow> get_string_field label vb; Some ((MIB_OK, vb'), d1) }"])
  fix vb d d' assume d: "dev_ok d" "vb_ok vb" "fst (row_exists i d')"
  obtain l d1 where l: "label_for i d = Some (l, d1)" "c_array WESPE_SENSOR_LABEL_MAX l" "dev_ok d1"
    using label_for_total [OF d(1,3)] by blast
  from get_string_field_ok [OF l(2) _ d(2)] l
  show "\<exists>r vb' d1. do { (label, d1) \<leftarrow> label_for i d; vb' \<leftarrow> get_string_field label vb; Some ((MIB_OK, vb'), d1) }
      = Some ((r, vb'), d1) \<and> dev_ok d1 \<and> vb_ok vb' \<and> vb_oid vb' = vb_oid vb \<and>
      (if r = MIB_OK then vb_tag vb' = BER_TAG_OCTET_STRING else vb' = vb)"
    by auto
qed (simp add: sensor_get_cell_def split_beta Let_def)

lemma sensor_temp_ok: "getter_ok dev_ok BER_TAG_INTEGER (sensor_get_cell COL_TEMP i)"
proof (rule sensor_cell_getter_ok [where body = "\<lambda>vb d. do {
      (r, d1) \<leftarrow> sensor_read_decidegrees_indexed i d;
      case r of
        None \<Rightarrow> Some ((MIB_GEN_ERR, vb), d1)
      | Some decidegrees \<Rightarrow>
          if unat i - 1 < length (s_read_count d1) then
            Some ((MIB_OK, put_int BER_TAG_INTEGER decidegrees vb),
                  d1\<lparr>s_read_count := (s_read_count d1)[unat i - 1 := s_read_count d1 ! (unat i - 1) + 1]\<rparr>)
          else None
    }"])
  fix vb d d' assume d: "dev_ok d" "vb_ok vb" "fst (row_exists i d')"
  let ?k = "unat i - 1"
  obtain m d1 where m: "sensor_read_decidegrees_indexed i d = Some (m, d1)" "dev_ok d1"
    using d(1) by (rule sensor_read_indexed_total)
  then have "dev_ok (d1\<lparr>s_read_count := (s_read_count d1)[?k := s_read_count d1 ! ?k + 1]\<rparr>)"
    by (simp add: dev_ok_def hal_mock_def)
  with m dev_ok_labels(3) [OF m(2) d(3)] d(2)
  show "\<exists>r vb' d2. do {
      (r, d1) \<leftarrow> sensor_read_decidegrees_indexed i d;
      case r of
        None \<Rightarrow> Some ((MIB_GEN_ERR, vb), d1)
      | Some decidegrees \<Rightarrow>
          if ?k < length (s_read_count d1) then
            Some ((MIB_OK, put_int BER_TAG_INTEGER decidegrees vb),
                  d1\<lparr>s_read_count := (s_read_count d1)[?k := s_read_count d1 ! ?k + 1]\<rparr>)
          else None
    } = Some ((r, vb'), d2) \<and> dev_ok d2 \<and> vb_ok vb' \<and> vb_oid vb' = vb_oid vb \<and>
      (if r = MIB_OK then vb_tag vb' = BER_TAG_INTEGER else vb' = vb)"
    by (cases m) simp_all
qed (simp add: sensor_get_cell_def split_beta Let_def split: option.split Option.bind_split)

lemma sensor_status_ok: "getter_ok dev_ok BER_TAG_INTEGER (sensor_get_cell COL_STATUS i)"
proof (rule sensor_cell_getter_ok [where body = "\<lambda>vb d. do {
      (r, d1) \<leftarrow> sensor_read_decidegrees_indexed i d;
      Some ((MIB_OK, put_int BER_TAG_INTEGER (if r \<noteq> None then 1 else 2) vb), d1)
    }"])
  fix vb d d' assume d: "dev_ok d" "vb_ok vb" "fst (row_exists i d')"
  obtain m d1 where "sensor_read_decidegrees_indexed i d = Some (m, d1)" "dev_ok d1"
    using d(1) by (rule sensor_read_indexed_total)
  with d(2) show "\<exists>r vb' d2. do {
      (r, d1) \<leftarrow> sensor_read_decidegrees_indexed i d;
      Some ((MIB_OK, put_int BER_TAG_INTEGER (if r \<noteq> None then 1 else 2) vb), d1)
    } = Some ((r, vb'), d2) \<and> dev_ok d2 \<and> vb_ok vb' \<and> vb_oid vb' = vb_oid vb \<and>
      (if r = MIB_OK then vb_tag vb' = BER_TAG_INTEGER else vb' = vb)"
    by simp
qed (simp add: sensor_get_cell_def split_beta Let_def)

lemma sensor_other_cells_ok:
  "getter_ok dev_ok BER_TAG_INTEGER (sensor_get_cell COL_INDEX i)"
  "getter_ok dev_ok SNMP_TAG_COUNTER64 (sensor_get_cell COL_READ_COUNT i)"
proof -
  show "getter_ok dev_ok BER_TAG_INTEGER (sensor_get_cell COL_INDEX i)"
    by (rule sensor_cell_getter_ok [where body = "\<lambda>vb d. Some ((MIB_OK, put_int BER_TAG_INTEGER i vb), d)"])
      (simp_all add: sensor_get_cell_def split_beta Let_def)
  show "getter_ok dev_ok SNMP_TAG_COUNTER64 (sensor_get_cell COL_READ_COUNT i)"
    by (rule sensor_cell_getter_ok [where body = "\<lambda>vb d. if unat i - 1 < length (s_read_count d) then
          Some ((MIB_OK, vb\<lparr>vb_tag := SNMP_TAG_COUNTER64, vb_value := UCounter64 (s_read_count d ! (unat i - 1))\<rparr>), d)
          else None"])
      (use dev_ok_labels(3) in \<open>simp_all add: sensor_get_cell_def split_beta Let_def vb_ok_def value_ok_def\<close>)
qed

lemma sensor_columns_ok:
  "col \<in> set (mt_columns s_sensor_table) \<Longrightarrow>
   getter_ok dev_ok (col_value_tag col) (sensor_get_cell (col_number col) i)"
  by (auto simp: s_sensor_table_def sensor_label_ok sensor_temp_ok sensor_status_ok
      sensor_other_cells_ok)

lemma sensor_set_cell_ok: "setter_ok dev_ok (sensor_set_cell c i)"
  unfolding setter_ok_def
proof (intro allI impI)
  fix vb d assume d: "dev_ok d" "vb_ok vb"
  let ?d0 = "snd (row_exists i d)"
  have d0: "dev_ok ?d0" by (rule row_exists_dev_ok [OF d(1)])
  show "\<exists>r d'. sensor_set_cell c i vb d = Some (r, d') \<and> dev_ok d'"
  proof (cases "fst (row_exists i d) \<and> c = COL_LABEL \<and> vb_tag vb = BER_TAG_OCTET_STRING")
    case False
    with d0 show ?thesis by (auto simp: sensor_set_cell_def split_beta Let_def)
  next
    case True
    then obtain bs where bs: "vb_value vb = UOctets bs" using d(2) by (auto simp: vb_ok_def value_ok_def)
    show ?thesis
    proof (cases "WESPE_SENSOR_LABEL_MAX \<le> length bs")
      case True
      with \<open>fst (row_exists i d) \<and> _\<close> bs d0 show ?thesis by (simp add: sensor_set_cell_def split_beta Let_def)
    next
      case False
      note l = dev_ok_labels [OF d0, of i d]
      from True l False have "dev_ok (?d0\<lparr>s_labels := (s_labels ?d0)[unat i - 1 :=
          bs @ [0] @ drop (length bs + 1) (s_labels ?d0 ! (unat i - 1))]\<rparr>)"
        by (intro dev_ok_label_upd d0 label_slot_c_array) simp_all
      with True l False bs show ?thesis by (simp add: sensor_set_cell_def split_beta Let_def)
    qed
  qed
qed

lemma sensor_table_ok: "table_ok dev_ok s_sensor_table"
  using sensor_walk.mib_table_walk_axioms sensor_columns_ok sensor_set_cell_ok
  by (simp add: table_ok_def table_reads_def s_sensor_table_def)

end
