(* ===== verification/Mib_Wespe.thy ===== *)
theory Mib_Wespe
  imports Mib_Ii
begin

text \<open>
  \<open>components/mib/mib_wespe.c\<close>: the scalars of the private MIB, each a thin layer over the HAL.
\<close>

abbreviation OID_WESPE_TEMPERATURE_mib :: oid where "OID_WESPE_TEMPERATURE_mib \<equiv> [1, 3, 6, 1, 4, 1, 99999, 2, 1, 0]"
abbreviation OID_WESPE_RELAY_STATE_mib :: oid where "OID_WESPE_RELAY_STATE_mib \<equiv> [1, 3, 6, 1, 4, 1, 99999, 2, 2, 0]"
abbreviation OID_WESPE_UPTIME_SECONDS :: oid where "OID_WESPE_UPTIME_SECONDS \<equiv> [1, 3, 6, 1, 4, 1, 99999, 2, 3, 0]"
abbreviation OID_WESPE_FREE_HEAP :: oid where "OID_WESPE_FREE_HEAP \<equiv> [1, 3, 6, 1, 4, 1, 99999, 2, 4, 0]"
abbreviation OID_WESPE_WIFI_RSSI :: oid where "OID_WESPE_WIFI_RSSI \<equiv> [1, 3, 6, 1, 4, 1, 99999, 2, 5, 0]"

definition get_temperature :: "device mib_get_fn" where
  "get_temperature vb d = do {
     (r, d1) \<leftarrow> sensor_read_temperature_decidegrees d;
     case r of
       None \<Rightarrow> Some ((MIB_GEN_ERR, vb), d1)
     | Some decidegrees \<Rightarrow> Some ((MIB_OK, put_int BER_TAG_INTEGER decidegrees vb), d1)
   }"

definition get_relay_state :: "device mib_get_fn" where
  "get_relay_state vb d =
     (let (st, on) = relay_get_state d in
      if st \<noteq> 0 then Some ((MIB_GEN_ERR, vb), d)
      else Some ((MIB_OK, put_int BER_TAG_INTEGER (if on then 1 else 0) vb), d))"

definition set_relay_state :: "device mib_set_fn" where
  "set_relay_state vb d =
     (if vb_tag vb \<noteq> BER_TAG_INTEGER then Some (MIB_WRONG_TYPE, d)
      else do {
        v \<leftarrow> read_int (vb_value vb);
        if v \<noteq> 0 \<and> v \<noteq> 1 then Some (MIB_WRONG_VALUE, d)
        else let (st, d1) = relay_set_state (v = 1) d in
          if st \<noteq> 0 then Some (MIB_GEN_ERR, d1) else Some (MIB_OK, d1)
      })"

definition get_uptime_seconds :: "device mib_get_fn" where
  "get_uptime_seconds vb d =
     (let (ms, d1) = sysinfo_uptime_ms d
      in Some ((MIB_OK, put_int SNMP_TAG_GAUGE32 (ucast (ms div 1000)) vb), d1))"

definition get_free_heap :: "device mib_get_fn" where
  "get_free_heap vb d =
     (let (n, d1) = sysinfo_free_heap_bytes d
      in Some ((MIB_OK, put_int SNMP_TAG_GAUGE32 n vb), d1))"

definition get_wifi_rssi :: "device mib_get_fn" where
  "get_wifi_rssi vb d =
     (case sysinfo_wifi_rssi_dbm d of
        (None, d1) \<Rightarrow> Some ((MIB_GEN_ERR, vb), d1)
      | (Some rssi, d1) \<Rightarrow> Some ((MIB_OK, put_int BER_TAG_INTEGER rssi vb), d1))"

definition s_mib_wespe_objects :: "device mib_object list" where
  "s_mib_wespe_objects =
     [scalar OID_WESPE_TEMPERATURE_mib BER_TAG_INTEGER MIB_ACCESS_RO get_temperature None,
      scalar OID_WESPE_RELAY_STATE_mib BER_TAG_INTEGER MIB_ACCESS_RW get_relay_state (Some set_relay_state),
      scalar OID_WESPE_UPTIME_SECONDS SNMP_TAG_GAUGE32 MIB_ACCESS_RO get_uptime_seconds None,
      scalar OID_WESPE_FREE_HEAP SNMP_TAG_GAUGE32 MIB_ACCESS_RO get_free_heap None,
      scalar OID_WESPE_WIFI_RSSI BER_TAG_INTEGER MIB_ACCESS_RO get_wifi_rssi None]"

definition mib_wespe_register :: "device registry \<Rightarrow> device registry" where
  "mib_wespe_register reg = snd (mib_registry_register_module s_mib_wespe_objects reg)"

section \<open>The contracts\<close>

lemma get_temperature_ok: "getter_ok dev_ok BER_TAG_INTEGER get_temperature"
proof (rule getter_okI)
  fix vb d assume d: "dev_ok d" "vb_ok vb"
  obtain r d' where "sensor_read_temperature_decidegrees d = Some (r, d')" "dev_ok d'"
    using d(1) by (rule sensor_read_total)
  with d(2) show "\<exists>r vb' d'. get_temperature vb d = Some ((r, vb'), d') \<and> dev_ok d' \<and> vb_ok vb' \<and>
      vb_oid vb' = vb_oid vb \<and> (if r = MIB_OK then vb_tag vb' = BER_TAG_INTEGER else vb' = vb)"
    by (cases r) (auto simp: get_temperature_def)
qed

lemma get_relay_state_ok: "getter_ok dev_ok BER_TAG_INTEGER get_relay_state"
  by (rule getter_okI)
    (simp add: get_relay_state_def relay_get_state_def mock_relay_get_state_def gpio_relay_get_state_def)

lemma get_uptime_seconds_ok: "getter_ok dev_ok SNMP_TAG_GAUGE32 get_uptime_seconds"
  by (rule getter_okI)
    (simp add: get_uptime_seconds_def sysinfo_uptime_ms_def same_mib_ok [OF same_mib_tick])

lemma get_free_heap_ok: "getter_ok dev_ok SNMP_TAG_GAUGE32 get_free_heap"
  by (rule getter_okI)
    (simp add: get_free_heap_def sysinfo_free_heap_bytes_def same_mib_ok [OF same_mib_tick])

lemma get_wifi_rssi_ok: "getter_ok dev_ok BER_TAG_INTEGER get_wifi_rssi"
  by (rule getter_okI)
    (auto simp: get_wifi_rssi_def sysinfo_wifi_rssi_dbm_def same_mib_ok [OF same_mib_tick] split: option.split)

lemma relay_set_dev_ok: "dev_ok d \<Longrightarrow> dev_ok (snd (relay_set_state on d))"
  by (simp add: relay_set_state_def mock_relay_set_state_def gpio_relay_set_state_def dev_ok_def hal_mock_def)

lemma set_relay_state_ok: "setter_ok dev_ok set_relay_state"
  unfolding setter_ok_def
proof (intro allI impI)
  fix vb d assume d: "dev_ok d" "vb_ok vb"
  show "\<exists>r d'. set_relay_state vb d = Some (r, d') \<and> dev_ok d'"
  proof (cases "vb_tag vb = BER_TAG_INTEGER")
    case True
    then obtain v where "vb_value vb = UInt v" using d(2) by (auto simp: vb_ok_def value_ok_def)
    with True d(1) relay_set_dev_ok [of d "v = 1"] show ?thesis
      by (auto simp: set_relay_state_def split: prod.split)
  qed (use d in \<open>simp add: set_relay_state_def\<close>)
qed

lemma mib_wespe_objects_ok: "obj \<in> set s_mib_wespe_objects \<Longrightarrow> object_ok dev_ok obj"
  by (auto simp: s_mib_wespe_objects_def object_ok_def object_reads_def get_temperature_ok get_relay_state_ok
      get_uptime_seconds_ok get_free_heap_ok get_wifi_rssi_ok set_relay_state_ok)

lemma mib_wespe_sorted: "module_sorted s_mib_wespe_objects"
  by (simp add: module_sorted_def s_mib_wespe_objects_def)

end
