(* ===== verification/Snmp_Codec.thy ===== *)
theory Snmp_Codec
  imports Snmp_Pdu Ber_Oid
begin

text \<open>
  \<open>components/snmp_core/snmp_codec.c\<close>: the grammar of values, varbinds, varbind lists and PDUs,
  shared by every security model.
\<close>

section \<open>Values and varbinds, encoding\<close>

text \<open>Use of a member of the value union: undefined when another member is the live one.\<close>

definition with_member :: "'a option \<Rightarrow> ('a \<Rightarrow> enc_op) \<Rightarrow> enc_op" where
  "with_member m f s = Option.bind m (\<lambda>x. f x s)"

definition snmp_encode_value :: "snmp_varbind \<Rightarrow> enc_op" where
  "snmp_encode_value vb =
     (let tag = vb_tag vb; v = vb_value vb in
      if tag = BER_TAG_INTEGER then with_member (read_int v) ber_encode_integer
      else if tag = BER_TAG_OCTET_STRING then
        with_member (read_octets v) (\<lambda>bs. ber_encode_octet_string (Some bs) (length bs))
      else if tag = BER_TAG_NULL then ber_encode_null
      else if tag = BER_TAG_OID then with_member (read_oid v) ber_encode_oid
      else if tag = SNMP_TAG_COUNTER32 \<or> tag = SNMP_TAG_GAUGE32 \<or> tag = SNMP_TAG_TIMETICKS then
        with_member (read_int v) (ber_encode_unsigned_tagged tag)
      else if tag = SNMP_TAG_COUNTER64 then
        with_member (read_counter64 v) (ber_encode_unsigned64_tagged tag)
      else if tag = SNMP_TAG_NO_SUCH_OBJECT \<or> tag = SNMP_TAG_NO_SUCH_INSTANCE \<or>
          tag = SNMP_TAG_END_OF_MIB_VIEW then ber_encode_null_tagged tag
      else if tag = SNMP_TAG_IPADDRESS \<or> tag = SNMP_TAG_OPAQUE then
        with_member (read_octets v) (\<lambda>bs.
          andthen (ber_encode_prepend_bytes (Some bs) (length bs))
            (ber_encode_prepend_tlv_header tag (length bs)))
      else ret_status BER_ERR_BAD_TAG)"

definition snmp_encode_varbind :: "snmp_varbind \<Rightarrow> enc_op" where
  "snmp_encode_varbind vb s =
     (let start = ecursor s in
      andthen (snmp_encode_value vb)
        (andthen (ber_encode_oid (vb_oid vb))
          (\<lambda>s'. ber_encode_container_header BER_TAG_SEQUENCE (start - ecursor s') s')) s)"

text \<open>\<open>for (i = count; i-- > 0;)\<close>\<close>

fun encode_varbinds_down :: "snmp_varbind list \<Rightarrow> nat \<Rightarrow> enc_op" where
  "encode_varbinds_down vbs 0 = ret_status BER_OK"
| "encode_varbinds_down vbs (Suc i) =
     (if i < length vbs then andthen (snmp_encode_varbind (vbs ! i)) (encode_varbinds_down vbs i)
      else (\<lambda>s. None))"

definition snmp_encode_varbind_list :: "snmp_varbind list \<Rightarrow> nat \<Rightarrow> enc_op" where
  "snmp_encode_varbind_list vbs count s =
     (let start = ecursor s in
      andthen (encode_varbinds_down vbs count)
        (\<lambda>s'. ber_encode_container_header BER_TAG_SEQUENCE (start - ecursor s') s') s)"

definition snmp_encode_response_shaped_pdu ::
  "u8 \<Rightarrow> i32 \<Rightarrow> i32 \<Rightarrow> i32 \<Rightarrow> snmp_varbind list \<Rightarrow> nat \<Rightarrow> enc_op" where
  "snmp_encode_response_shaped_pdu pdu_tag request_id error_status error_index vbs count s =
     (let start = ecursor s in
      andthen (snmp_encode_varbind_list vbs count)
        (andthen (ber_encode_integer error_index)
          (andthen (ber_encode_integer error_status)
            (andthen (ber_encode_integer request_id)
              (\<lambda>s'. ber_encode_container_header pdu_tag (start - ecursor s') s')))) s)"

text \<open>\<open>agent_addr\<close> is a \<open>const uint8_t[4]\<close>, possibly NULL.\<close>

definition snmp_encode_v1_trap_pdu ::
  "oid \<Rightarrow> u8 list option \<Rightarrow> i32 \<Rightarrow> i32 \<Rightarrow> u32 \<Rightarrow> snmp_varbind list \<Rightarrow> nat \<Rightarrow> enc_op" where
  "snmp_encode_v1_trap_pdu enterprise agent_addr generic_trap specific_trap time_stamp vbs count s =
     (let start = ecursor s in
      andthen (snmp_encode_varbind_list vbs count)
        (andthen (ber_encode_unsigned_tagged SNMP_TAG_TIMETICKS time_stamp)
          (andthen (ber_encode_integer specific_trap)
            (andthen (ber_encode_integer generic_trap)
              (andthen (ber_encode_prepend_bytes agent_addr 4)
                (andthen (ber_encode_prepend_tlv_header SNMP_TAG_IPADDRESS 4)
                  (andthen (ber_encode_oid enterprise)
                    (\<lambda>s'. ber_encode_container_header SNMP_PDU_TRAP_V1 (start - ecursor s') s'))))))) s)"

section \<open>Decoding\<close>

definition snmp_decode_value :: "u8 list \<Rightarrow> ber_tlv \<Rightarrow> snmp_varbind \<Rightarrow> (ber_status + snmp_varbind) option" where
  "snmp_decode_value mem tlv vb0 =
     (let tag = tlv_tag tlv; vb = vb0\<lparr>vb_tag := tag\<rparr> in
      if tag = BER_TAG_INTEGER then
        chk (ber_decode_integer mem tlv) (\<lambda>v. Some (Inr (vb\<lparr>vb_value := UInt v\<rparr>)))
      else if tag = BER_TAG_OCTET_STRING then
        chk (ber_decode_octet_string mem tlv SNMP_MAX_OCTETS_LEN) (\<lambda>bs. Some (Inr (vb\<lparr>vb_value := UOctets bs\<rparr>)))
      else if tag = BER_TAG_NULL then chk (ber_decode_null tlv) (\<lambda>_. Some (Inr vb))
      else if tag = BER_TAG_OID then
        chk (ber_decode_oid mem tlv BER_MAX_OID_LEN) (\<lambda>x. Some (Inr (vb\<lparr>vb_value := UOid x\<rparr>)))
      else if tag = SNMP_TAG_COUNTER32 \<or> tag = SNMP_TAG_GAUGE32 \<or> tag = SNMP_TAG_TIMETICKS then
        chk (ber_decode_unsigned mem tlv) (\<lambda>u. Some (Inr (vb\<lparr>vb_value := UInt u\<rparr>)))
      else if tag = SNMP_TAG_COUNTER64 then
        chk (ber_decode_unsigned64 mem tlv) (\<lambda>u. Some (Inr (vb\<lparr>vb_value := UCounter64 u\<rparr>)))
      else if tag = SNMP_TAG_IPADDRESS \<or> tag = SNMP_TAG_OPAQUE then
        (if SNMP_MAX_OCTETS_LEN < tlv_length tlv then Some (Inl BER_ERR_OVERFLOW)
         else do {
           bytes \<leftarrow> rd_bytes mem (tlv_value tlv) (tlv_length tlv);
           Some (Inr (vb\<lparr>vb_value := UOctets bytes\<rparr>))
         })
      else if tag = SNMP_TAG_NO_SUCH_OBJECT \<or> tag = SNMP_TAG_NO_SUCH_INSTANCE \<or>
          tag = SNMP_TAG_END_OF_MIB_VIEW then
        (if tlv_length tlv \<noteq> 0 then Some (Inl BER_ERR_BAD_LENGTH) else Some (Inr vb))
      else Some (Inl BER_ERR_BAD_TAG))"

definition decode_varbind_from_seq_tlv ::
  "u8 list \<Rightarrow> ber_tlv \<Rightarrow> nat \<Rightarrow> snmp_varbind \<Rightarrow> (ber_status + snmp_varbind) option" where
  "decode_varbind_from_seq_tlv mem sq depth vb =
     chk (ber_expect_tag mem (tlv_value sq) (tlv_length sq) depth BER_TAG_OID) (\<lambda>name_tlv.
     chk (ber_decode_oid mem name_tlv BER_MAX_OID_LEN) (\<lambda>name.
     let remaining = tlv_value sq + tlv_length sq - tlv_next name_tlv in
     chk (ber_decode_tlv mem (tlv_next name_tlv) remaining depth) (\<lambda>value_tlv.
     snmp_decode_value mem value_tlv (vb\<lparr>vb_oid := name\<rparr>))))"

lemma ber_decode_tlv_next:
  "ber_decode_tlv mem p len depth = Some (Inr t) \<Longrightarrow> p < tlv_next t"
  by (auto simp: ber_decode_tlv_def chk_Inr_iff Let_def bind_eq_Some_conv split: if_splits)

lemma ber_expect_tag_next:
  "ber_expect_tag mem p len depth tag = Some (Inr t) \<Longrightarrow> p < tlv_next t"
  by (auto simp: ber_expect_tag_def chk_Inr_iff split: if_splits dest: ber_decode_tlv_next)

text \<open>
  The loop of \<open>snmp_decode_varbind_list\<close>: \<open>out\<close> is the caller's array, \<open>n\<close> the next slot.
\<close>

function varbind_loop ::
  "u8 list \<Rightarrow> nat \<Rightarrow> nat \<Rightarrow> nat \<Rightarrow> snmp_varbind list \<Rightarrow> nat \<Rightarrow> nat \<Rightarrow>
   (ber_status + snmp_varbind list \<times> nat) option" where
  "varbind_loop mem p e depth out out_cap n =
     (if p < e then
        chk (ber_expect_tag mem p (e - p) (depth + 1) BER_TAG_SEQUENCE) (\<lambda>vb_seq.
          if out_cap \<le> n then Some (Inl BER_ERR_OVERFLOW)
          else if length out \<le> n then None
          else chk (decode_varbind_from_seq_tlv mem vb_seq (depth + 2) (out ! n)) (\<lambda>vb.
            varbind_loop mem (tlv_next vb_seq) e depth (out[n := vb]) out_cap (n + 1)))
      else Some (Inr (out, n)))"
  by pat_completeness auto
termination
  by (relation "measure (\<lambda>(mem, p, e, depth, out, out_cap, n). e - p)")
    (auto dest!: ber_expect_tag_next)

declare varbind_loop.simps [simp del]

definition snmp_decode_varbind_list ::
  "u8 list \<Rightarrow> nat \<Rightarrow> nat \<Rightarrow> nat \<Rightarrow> snmp_varbind list \<Rightarrow> nat \<Rightarrow>
   (ber_status + snmp_varbind list \<times> nat) option" where
  "snmp_decode_varbind_list mem buf len depth out out_cap =
     chk (ber_expect_tag mem buf len depth BER_TAG_SEQUENCE) (\<lambda>list_seq.
       varbind_loop mem (tlv_value list_seq) (tlv_value list_seq + tlv_length list_seq) depth out out_cap 0)"

definition snmp_decode_request_pdu ::
  "u8 list \<Rightarrow> nat \<Rightarrow> nat \<Rightarrow> nat \<Rightarrow> snmp_pdu_ctx \<Rightarrow> (ber_status + snmp_pdu_ctx) option" where
  "snmp_decode_request_pdu mem buf len depth ctx =
     chk (ber_decode_tlv mem buf len depth) (\<lambda>pdu.
     if tlv_tag pdu \<noteq> SNMP_PDU_GET_REQUEST \<and> tlv_tag pdu \<noteq> SNMP_PDU_GET_NEXT_REQUEST \<and>
        tlv_tag pdu \<noteq> SNMP_PDU_SET_REQUEST \<and> tlv_tag pdu \<noteq> SNMP_PDU_GET_BULK_REQUEST
     then Some (Inl BER_ERR_BAD_TAG)
     else let p0 = tlv_value pdu; remaining0 = tlv_length pdu in
     chk (ber_expect_tag mem p0 remaining0 (depth + 1) BER_TAG_INTEGER) (\<lambda>f_request_id.
     chk (ber_decode_integer mem f_request_id) (\<lambda>request_id.
     let p1 = tlv_next f_request_id; remaining1 = remaining0 - (p1 - p0) in
     chk (ber_expect_tag mem p1 remaining1 (depth + 1) BER_TAG_INTEGER) (\<lambda>f_field2.
     chk (ber_decode_integer mem f_field2) (\<lambda>error_status.
     let p2 = tlv_next f_field2; remaining2 = remaining1 - (p2 - p1) in
     chk (ber_expect_tag mem p2 remaining2 (depth + 1) BER_TAG_INTEGER) (\<lambda>f_field3.
     chk (ber_decode_integer mem f_field3) (\<lambda>error_index.
     let p3 = tlv_next f_field3; remaining3 = remaining2 - (p3 - p2) in
     chk (snmp_decode_varbind_list mem p3 remaining3 (depth + 1) (ctx_varbinds ctx) SNMP_MAX_VARBINDS)
       (\<lambda>(varbinds, count).
     Some (Inr (ctx\<lparr>ctx_pdu_tag := tlv_tag pdu, ctx_request_id := request_id,
       ctx_error_status := error_status, ctx_error_index := error_index,
       ctx_varbinds := varbinds, ctx_varbind_count := count\<rparr>))))))))))"

end
