(* ===== verification/Snmp_Security.thy ===== *)
theory Snmp_Security
  imports Snmp_Codec
begin

text \<open>
  \<open>snmp_security.c\<close>, \<open>snmp_security_community.c\<close> and \<open>snmp_security_usm_stub.c\<close>: the table of security
  models, the community model of v1 and v2c, and the stub that declines v3. The static variables are
  a record: the slots and the two community strings, each an array of \<open>SNMP_MAX_PRINCIPAL_LEN\<close>
  characters.
\<close>

section \<open>The registration table\<close>

record communities =
  s_ro_community :: "u8 list"
  s_rw_community :: "u8 list"

text \<open>
  \<open>snmp_security_model_t\<close>: \<open>process_incoming\<close> gets the statics of its file, the buffer with the
  datagram, its length, the nesting depth and the context to fill; \<open>prepare_outgoing\<close> the context,
  the output buffer and its capacity, and gives back the bytes it would send.
\<close>

record snmp_security_model =
  process_incoming ::
    "communities \<Rightarrow> u8 list \<Rightarrow> nat \<Rightarrow> nat \<Rightarrow> snmp_pdu_ctx \<Rightarrow> (ber_status + snmp_pdu_ctx) option"
  prepare_outgoing :: "snmp_pdu_ctx \<Rightarrow> u8 list \<Rightarrow> nat \<Rightarrow> (ber_status + u8 list) option"

record security =
  s_slots :: "(i32 \<times> snmp_security_model) list"
  s_communities :: communities

abbreviation SNMP_SECURITY_MAX_MODELS :: nat where "SNMP_SECURITY_MAX_MODELS \<equiv> 4"

text \<open>The first loop of \<open>snmp_security_register\<close>; \<open>None\<close> when no slot has the version.\<close>

fun overwrite_slot ::
  "i32 \<Rightarrow> snmp_security_model \<Rightarrow> (i32 \<times> snmp_security_model) list \<Rightarrow> (i32 \<times> snmp_security_model) list option" where
  "overwrite_slot version model [] = None"
| "overwrite_slot version model ((v, m) # slots) =
     (if v = version then Some ((v, model) # slots)
      else map_option ((#) (v, m)) (overwrite_slot version model slots))"

definition snmp_security_register ::
  "i32 \<Rightarrow> snmp_security_model \<Rightarrow> security \<Rightarrow> ber_status \<times> security" where
  "snmp_security_register version model sec =
     (case overwrite_slot version model (s_slots sec) of
        Some slots \<Rightarrow> (BER_OK, sec\<lparr>s_slots := slots\<rparr>)
      | None \<Rightarrow>
          if SNMP_SECURITY_MAX_MODELS \<le> length (s_slots sec) then (BER_ERR_OVERFLOW, sec)
          else (BER_OK, sec\<lparr>s_slots := s_slots sec @ [(version, model)]\<rparr>))"

definition snmp_security_lookup :: "security \<Rightarrow> i32 \<Rightarrow> snmp_security_model option" where
  "snmp_security_lookup sec version =
     map_option snd (List.find (\<lambda>(v, m). v = version) (s_slots sec))"

definition snmp_security_reset :: "security \<Rightarrow> security" where
  "snmp_security_reset sec = sec\<lparr>s_slots := []\<rparr>"

section \<open>The community model\<close>

text \<open>\<open>strcmp(a, b) == 0\<close> on two character arrays.\<close>

definition c_streq :: "u8 list \<Rightarrow> u8 list \<Rightarrow> bool option" where
  "c_streq a b = (if 0 \<in> set a \<and> 0 \<in> set b then Some (c_string a = c_string b) else None)"

definition community_process_incoming ::
  "communities \<Rightarrow> u8 list \<Rightarrow> nat \<Rightarrow> nat \<Rightarrow> snmp_pdu_ctx \<Rightarrow> (ber_status + snmp_pdu_ctx) option" where
  "community_process_incoming cs msg len depth out_ctx =
     chk (ber_expect_tag msg 0 len depth BER_TAG_SEQUENCE) (\<lambda>top.
     let p0 = tlv_value top; remaining0 = tlv_length top in
     chk (ber_expect_tag msg p0 remaining0 (depth + 1) BER_TAG_INTEGER) (\<lambda>version_tlv.
     chk (ber_decode_integer msg version_tlv) (\<lambda>version_raw.
     let p1 = tlv_next version_tlv; remaining1 = remaining0 - (p1 - p0) in
     chk (ber_expect_tag msg p1 remaining1 (depth + 1) BER_TAG_OCTET_STRING) (\<lambda>community_tlv.
     chk (ber_decode_octet_string msg community_tlv (SNMP_MAX_PRINCIPAL_LEN - 1)) (\<lambda>community.
     let community_buf = community @ [0];
         p2 = tlv_next community_tlv; remaining2 = remaining1 - (p2 - p1);
         ctx = out_ctx\<lparr>
           ctx_version := (if version_raw = version_code SNMP_VERSION_V2C then SNMP_VERSION_V2C else SNMP_VERSION_V1),
           ctx_principal := community_buf @ drop (length community_buf) (ctx_principal out_ctx)\<rparr>
     in do {
       is_rw \<leftarrow> c_streq community_buf (s_rw_community cs);
       is_ro \<leftarrow> (if is_rw then Some False else c_streq community_buf (s_ro_community cs));
       if is_rw then
         snmp_decode_request_pdu msg p2 remaining2 (depth + 1) (ctx\<lparr>ctx_access_mode := SNMP_ACCESS_READWRITE\<rparr>)
       else if is_ro then
         snmp_decode_request_pdu msg p2 remaining2 (depth + 1) (ctx\<lparr>ctx_access_mode := SNMP_ACCESS_READ\<rparr>)
       else Some (Inl BER_ERR_BAD_ARGS)
     })))))"

text \<open>
  The message is built right-aligned in \<open>out\<close> and moved to its start; the result is the first
  \<open>*out_len\<close> bytes of \<open>out\<close> afterwards.
\<close>

definition community_prepare_outgoing :: "snmp_pdu_ctx \<Rightarrow> u8 list \<Rightarrow> nat \<Rightarrow> (ber_status + u8 list) option" where
  "community_prepare_outgoing ctx out cap = do {
     (st, e) \<leftarrow>
       andthen (snmp_encode_response_shaped_pdu (ctx_pdu_tag ctx) (ctx_request_id ctx)
           (ctx_error_status ctx) (ctx_error_index ctx) (ctx_varbinds ctx) (ctx_varbind_count ctx))
         (andthen (with_member (c_strlen (ctx_principal ctx))
             (\<lambda>n. ber_encode_octet_string (Some (ctx_principal ctx)) n))
           (andthen (ber_encode_integer (version_code (ctx_version ctx)))
             (\<lambda>e. ber_encode_container_header BER_TAG_SEQUENCE (cap - ecursor e) e)))
         \<lparr>ebuf = out, ecursor = cap\<rparr>;
     if st \<noteq> BER_OK then Some (Inl st)
     else do {
       moved \<leftarrow> rd_bytes (ebuf e) (ecursor e) (cap - ecursor e);
       Some (Inr moved)
     }
   }"

definition s_community_model :: snmp_security_model where
  "s_community_model = \<lparr>process_incoming = community_process_incoming,
     prepare_outgoing = community_prepare_outgoing\<rparr>"

text \<open>
  \<open>strncpy(dst, src, 31); dst[31] = 0;\<close> for a NUL-terminated \<open>src\<close>: at most 31 characters, padded
  with NULs.
\<close>

definition copy_community :: "u8 list \<Rightarrow> u8 list option" where
  "copy_community src =
     (if 0 \<in> set src then
        let cs = take (SNMP_MAX_PRINCIPAL_LEN - 1) (c_string src) in
        Some (cs @ replicate (SNMP_MAX_PRINCIPAL_LEN - length cs) 0)
      else None)"

definition snmp_security_community_init :: "u8 list \<Rightarrow> u8 list \<Rightarrow> security \<Rightarrow> security option" where
  "snmp_security_community_init ro_community rw_community sec = do {
     ro \<leftarrow> copy_community ro_community;
     rw \<leftarrow> copy_community rw_community;
     let sec1 = sec\<lparr>s_communities := \<lparr>s_ro_community = ro, s_rw_community = rw\<rparr>\<rparr>;
     let (_, sec2) = snmp_security_register (version_code SNMP_VERSION_V1) s_community_model sec1;
     let (_, sec3) = snmp_security_register (version_code SNMP_VERSION_V2C) s_community_model sec2;
     Some sec3
   }"

section \<open>The v3 stub\<close>

definition usm_process_incoming ::
  "communities \<Rightarrow> u8 list \<Rightarrow> nat \<Rightarrow> nat \<Rightarrow> snmp_pdu_ctx \<Rightarrow> (ber_status + snmp_pdu_ctx) option" where
  "usm_process_incoming cs msg len depth out_ctx =
     chk (ber_expect_tag msg 0 len depth BER_TAG_SEQUENCE) (\<lambda>top.
     let p0 = tlv_value top; remaining0 = tlv_length top in
     chk (ber_expect_tag msg p0 remaining0 (depth + 1) BER_TAG_INTEGER) (\<lambda>version_tlv.
     let p1 = tlv_next version_tlv; remaining1 = remaining0 - (p1 - p0) in
     chk (ber_expect_tag msg p1 remaining1 (depth + 1) BER_TAG_SEQUENCE) (\<lambda>global_data_tlv.
     Some (Inl BER_ERR_BAD_ARGS))))"

definition usm_prepare_outgoing :: "snmp_pdu_ctx \<Rightarrow> u8 list \<Rightarrow> nat \<Rightarrow> (ber_status + u8 list) option" where
  "usm_prepare_outgoing ctx out cap = Some (Inl BER_ERR_BAD_ARGS)"

definition s_usm_stub_model :: snmp_security_model where
  "s_usm_stub_model = \<lparr>process_incoming = usm_process_incoming, prepare_outgoing = usm_prepare_outgoing\<rparr>"

definition snmp_security_usm_stub_init :: "security \<Rightarrow> security" where
  "snmp_security_usm_stub_init sec = snd (snmp_security_register (version_code SNMP_VERSION_V3) s_usm_stub_model sec)"

end
