(* ===== verification/Snmp_Error.thy ===== *)
theory Snmp_Error
  imports Snmp_Pdu
begin

text \<open>
  \<open>components/snmp_core/snmp_error.c\<close>: the one place where the version decides what a result of the
  MIB layer looks like on the wire.
\<close>

abbreviation SNMP_V1_ERR_NO_ERROR :: i32 where "SNMP_V1_ERR_NO_ERROR \<equiv> 0"
abbreviation SNMP_V1_ERR_TOO_BIG :: i32 where "SNMP_V1_ERR_TOO_BIG \<equiv> 1"
abbreviation SNMP_V1_ERR_NO_SUCH_NAME :: i32 where "SNMP_V1_ERR_NO_SUCH_NAME \<equiv> 2"
abbreviation SNMP_V1_ERR_BAD_VALUE :: i32 where "SNMP_V1_ERR_BAD_VALUE \<equiv> 3"
abbreviation SNMP_V1_ERR_READ_ONLY :: i32 where "SNMP_V1_ERR_READ_ONLY \<equiv> 4"
abbreviation SNMP_V1_ERR_GEN_ERR :: i32 where "SNMP_V1_ERR_GEN_ERR \<equiv> 5"

record snmp_error_translation =
  pdu_level_abort :: bool
  v1_error_status :: i32
  v2c_exception_tag :: u8

definition snmp_error_translate :: "snmp_version \<Rightarrow> mib_result \<Rightarrow> snmp_error_translation" where
  "snmp_error_translate version result =
     (let out = \<lparr>pdu_level_abort = False, v1_error_status = SNMP_V1_ERR_NO_ERROR, v2c_exception_tag = 0\<rparr> in
      if result = MIB_OK then out
      else if version = SNMP_VERSION_V1 then
        let out = out\<lparr>pdu_level_abort := True\<rparr> in
        (case result of
           MIB_NO_SUCH_OBJECT \<Rightarrow> out\<lparr>v1_error_status := SNMP_V1_ERR_NO_SUCH_NAME\<rparr>
         | MIB_NO_SUCH_INSTANCE \<Rightarrow> out\<lparr>v1_error_status := SNMP_V1_ERR_NO_SUCH_NAME\<rparr>
         | MIB_END_OF_VIEW \<Rightarrow> out\<lparr>v1_error_status := SNMP_V1_ERR_NO_SUCH_NAME\<rparr>
         | MIB_WRONG_TYPE \<Rightarrow> out\<lparr>v1_error_status := SNMP_V1_ERR_BAD_VALUE\<rparr>
         | MIB_WRONG_VALUE \<Rightarrow> out\<lparr>v1_error_status := SNMP_V1_ERR_BAD_VALUE\<rparr>
         | MIB_NOT_WRITABLE \<Rightarrow> out\<lparr>v1_error_status := SNMP_V1_ERR_READ_ONLY\<rparr>
         | _ \<Rightarrow> out\<lparr>v1_error_status := SNMP_V1_ERR_GEN_ERR\<rparr>)
      else
        (case result of
           MIB_NO_SUCH_OBJECT \<Rightarrow> out\<lparr>v2c_exception_tag := SNMP_TAG_NO_SUCH_OBJECT\<rparr>
         | MIB_NO_SUCH_INSTANCE \<Rightarrow> out\<lparr>v2c_exception_tag := SNMP_TAG_NO_SUCH_INSTANCE\<rparr>
         | MIB_END_OF_VIEW \<Rightarrow> out\<lparr>v2c_exception_tag := SNMP_TAG_END_OF_MIB_VIEW\<rparr>
         | _ \<Rightarrow> out\<lparr>pdu_level_abort := True, v1_error_status := SNMP_V1_ERR_GEN_ERR\<rparr>))"

lemma translate_v1_abort: "pdu_level_abort (snmp_error_translate SNMP_VERSION_V1 r) \<longleftrightarrow> r \<noteq> MIB_OK"
  by (cases r) (simp_all add: snmp_error_translate_def Let_def)

lemma translate_abort_status:
  "pdu_level_abort (snmp_error_translate v r) \<Longrightarrow> v1_error_status (snmp_error_translate v r) \<noteq> SNMP_V1_ERR_NO_ERROR"
  by (cases r) (simp_all add: snmp_error_translate_def Let_def split: if_splits)

lemma translate_v1_no_exception: "v2c_exception_tag (snmp_error_translate SNMP_VERSION_V1 r) = 0"
  by (cases r) (simp_all add: snmp_error_translate_def Let_def)

lemma translate_exception_cases:
  "v2c_exception_tag (snmp_error_translate v r) \<in>
     {0, SNMP_TAG_NO_SUCH_OBJECT, SNMP_TAG_NO_SUCH_INSTANCE, SNMP_TAG_END_OF_MIB_VIEW}"
  by (cases r) (simp_all add: snmp_error_translate_def Let_def)

lemma translate_value:
  "\<not> pdu_level_abort (snmp_error_translate v r) \<Longrightarrow> v2c_exception_tag (snmp_error_translate v r) = 0 \<Longrightarrow>
   r = MIB_OK"
  by (cases r) (simp_all add: snmp_error_translate_def Let_def split: if_splits)

lemma translate_OK [simp]:
  "snmp_error_translate v MIB_OK =
     \<lparr>pdu_level_abort = False, v1_error_status = SNMP_V1_ERR_NO_ERROR, v2c_exception_tag = 0\<rparr>"
  by (simp add: snmp_error_translate_def)

end
