(* ===== verification/Snmp_Pdu_Get.thy ===== *)
theory Snmp_Pdu_Get
  imports Snmp_Error Mib_Registry
begin

text \<open>
  \<open>components/snmp_core/snmp_pdu_get.c\<close>: GetRequest and GetNextRequest. A handler transforms the
  context in place and acts on the device through the getters and row callbacks of the registry; its
  result is \<open>None\<close> when any of that is undefined.
\<close>

datatype lookup_mode = LOOKUP_EXACT | LOOKUP_NEXT

abbreviation SNMP_V1_COUNTER64_SKIP_GUARD :: nat where "SNMP_V1_COUNTER64_SKIP_GUARD \<equiv> 64"

text \<open>
  The loop of \<open>lookup_and_fetch\<close>: the first argument is the number of turns that are left,
  \<open>current\<close> the OID of the C local of that name (its other fields are not read).
\<close>

fun lookup_loop ::
  "nat \<Rightarrow> 's registry \<Rightarrow> snmp_version \<Rightarrow> lookup_mode \<Rightarrow> oid \<Rightarrow> snmp_varbind \<Rightarrow> 's \<Rightarrow>
   ((mib_result \<times> snmp_varbind) \<times> 's) option" where
  "lookup_loop 0 reg version mode current out_vb s = Some ((MIB_GEN_ERR, out_vb), s)"
| "lookup_loop (Suc guard) reg version mode current out_vb s = do {
     (r, s1) \<leftarrow> (if mode = LOOKUP_EXACT then mib_registry_resolve reg current s
                 else mib_registry_resolve_next reg current s);
     case r of
       Inl e \<Rightarrow> Some ((e, out_vb), s1)
     | Inr resolved \<Rightarrow>
         if version = SNMP_VERSION_V1 \<and> rs_value_tag resolved = SNMP_TAG_COUNTER64 then
           if mode = LOOKUP_EXACT then Some ((MIB_NO_SUCH_OBJECT, out_vb), s1)
           else lookup_loop guard reg version mode (rs_oid resolved) out_vb s1
         else mib_resolved_get resolved (out_vb\<lparr>vb_oid := rs_oid resolved\<rparr>) s1
   }"

definition lookup_and_fetch ::
  "'s registry \<Rightarrow> snmp_version \<Rightarrow> lookup_mode \<Rightarrow> snmp_varbind \<Rightarrow> snmp_varbind \<Rightarrow> 's \<Rightarrow>
   ((mib_result \<times> snmp_varbind) \<times> 's) option" where
  "lookup_and_fetch reg version mode request_vb out_vb s =
     lookup_loop SNMP_V1_COUNTER64_SKIP_GUARD reg version mode (vb_oid request_vb) out_vb s"

text \<open>
  Pass 1 of a v1 request, from index \<open>i\<close> with \<open>n\<close> varbinds to go: the error status and index of the
  first varbind that fails, if one does.
\<close>

fun v1_probe ::
  "'s registry \<Rightarrow> lookup_mode \<Rightarrow> snmp_varbind list \<Rightarrow> nat \<Rightarrow> nat \<Rightarrow> 's \<Rightarrow> ((i32 \<times> i32) option \<times> 's) option" where
  "v1_probe reg mode vbs 0 i s = Some (None, s)"
| "v1_probe reg mode vbs (Suc n) i s =
     (if i < length vbs then do {
        ((res, scratch), s1) \<leftarrow> lookup_and_fetch reg SNMP_VERSION_V1 mode (vbs ! i) vb_zero s;
        let tr = snmp_error_translate SNMP_VERSION_V1 res;
        if pdu_level_abort tr then Some (Some (v1_error_status tr, word_of_nat (i + 1)), s1)
        else v1_probe reg mode vbs n (i + 1) s1
      } else None)"

text \<open>Pass 2: every lookup again, into the request's own slot, its result ignored.\<close>

fun v1_commit ::
  "'s registry \<Rightarrow> lookup_mode \<Rightarrow> snmp_varbind list \<Rightarrow> nat \<Rightarrow> nat \<Rightarrow> 's \<Rightarrow> (snmp_varbind list \<times> 's) option" where
  "v1_commit reg mode vbs 0 i s = Some (vbs, s)"
| "v1_commit reg mode vbs (Suc n) i s =
     (if i < length vbs then do {
        ((_, vb), s1) \<leftarrow> lookup_and_fetch reg SNMP_VERSION_V1 mode (vbs ! i) (vbs ! i) s;
        v1_commit reg mode (vbs[i := vb]) n (i + 1) s1
      } else None)"

text \<open>The single pass of a v2c request.\<close>

fun v2c_read ::
  "'s registry \<Rightarrow> snmp_version \<Rightarrow> lookup_mode \<Rightarrow> snmp_varbind list \<Rightarrow> nat \<Rightarrow> nat \<Rightarrow> 's \<Rightarrow>
   ((snmp_varbind list \<times> (i32 \<times> i32) option) \<times> 's) option" where
  "v2c_read reg version mode vbs 0 i s = Some ((vbs, None), s)"
| "v2c_read reg version mode vbs (Suc n) i s =
     (if i < length vbs then do {
        ((res, scratch), s1) \<leftarrow> lookup_and_fetch reg version mode (vbs ! i) vb_zero s;
        let tr = snmp_error_translate version res;
        if pdu_level_abort tr then Some ((vbs, Some (v1_error_status tr, word_of_nat (i + 1))), s1)
        else
          let vb = (if v2c_exception_tag tr \<noteq> 0
                    then (vbs ! i)\<lparr>vb_tag := v2c_exception_tag tr, vb_value := UOctets []\<rparr>
                    else scratch)
          in v2c_read reg version mode (vbs[i := vb]) n (i + 1) s1
      } else None)"

definition process_read_pdu ::
  "'s registry \<Rightarrow> snmp_pdu_ctx \<Rightarrow> lookup_mode \<Rightarrow> 's \<Rightarrow> ((ber_status \<times> snmp_pdu_ctx) \<times> 's) option" where
  "process_read_pdu reg ctx mode s =
     (if ctx_version ctx = SNMP_VERSION_V1 then do {
        (failed, s1) \<leftarrow> v1_probe reg mode (ctx_varbinds ctx) (ctx_varbind_count ctx) 0 s;
        case failed of
          Some (status, index) \<Rightarrow>
            Some ((BER_OK, ctx\<lparr>ctx_pdu_tag := SNMP_PDU_GET_RESPONSE, ctx_error_status := status,
                               ctx_error_index := index\<rparr>), s1)
        | None \<Rightarrow> do {
            (vbs, s2) \<leftarrow> v1_commit reg mode (ctx_varbinds ctx) (ctx_varbind_count ctx) 0 s1;
            Some ((BER_OK, ctx\<lparr>ctx_varbinds := vbs, ctx_pdu_tag := SNMP_PDU_GET_RESPONSE,
                               ctx_error_status := SNMP_V1_ERR_NO_ERROR, ctx_error_index := 0\<rparr>), s2)
          }
      } else do {
        ((vbs, failed), s1) \<leftarrow>
          v2c_read reg (ctx_version ctx) mode (ctx_varbinds ctx) (ctx_varbind_count ctx) 0 s;
        let ctx' = ctx\<lparr>ctx_varbinds := vbs, ctx_pdu_tag := SNMP_PDU_GET_RESPONSE\<rparr>;
        case failed of
          Some (status, index) \<Rightarrow>
            Some ((BER_OK, ctx'\<lparr>ctx_error_status := status, ctx_error_index := index\<rparr>), s1)
        | None \<Rightarrow> Some ((BER_OK, ctx'\<lparr>ctx_error_status := 0, ctx_error_index := 0\<rparr>), s1)
      })"

definition snmp_pdu_handle_get ::
  "'s registry \<Rightarrow> snmp_pdu_ctx \<Rightarrow> 's \<Rightarrow> ((ber_status \<times> snmp_pdu_ctx) \<times> 's) option" where
  "snmp_pdu_handle_get reg ctx s = process_read_pdu reg ctx LOOKUP_EXACT s"

definition snmp_pdu_handle_getnext ::
  "'s registry \<Rightarrow> snmp_pdu_ctx \<Rightarrow> 's \<Rightarrow> ((ber_status \<times> snmp_pdu_ctx) \<times> 's) option" where
  "snmp_pdu_handle_getnext reg ctx s = process_read_pdu reg ctx LOOKUP_NEXT s"

end
