(* ===== verification/Snmp_Pdu_Set.thy ===== *)
theory Snmp_Pdu_Set
  imports Snmp_Error Mib_Registry
begin

text \<open>
  \<open>components/snmp_core/snmp_pdu_set.c\<close>: SetRequest in two passes, validation of every varbind and then
  the setters.
\<close>

text \<open>Pass 1 from index \<open>i\<close> with \<open>n\<close> varbinds to go: the first varbind that may not be set.\<close>

fun set_validate ::
  "'s registry \<Rightarrow> snmp_varbind list \<Rightarrow> nat \<Rightarrow> nat \<Rightarrow> 's \<Rightarrow> ((mib_result \<times> nat) option \<times> 's) option" where
  "set_validate reg vbs 0 i s = Some (None, s)"
| "set_validate reg vbs (Suc n) i s =
     (if i < length vbs then do {
        (r, s1) \<leftarrow> mib_registry_resolve reg (vb_oid (vbs ! i)) s;
        let res = (case r of
            Inl e \<Rightarrow> e
          | Inr resolved \<Rightarrow>
              if rs_access resolved \<noteq> MIB_ACCESS_RW then MIB_NOT_WRITABLE
              else if vb_tag (vbs ! i) \<noteq> rs_value_tag resolved then MIB_WRONG_TYPE
              else MIB_OK);
        if res \<noteq> MIB_OK then Some (Some (res, i), s1)
        else set_validate reg vbs n (i + 1) s1
      } else None)"

text \<open>Pass 2: the index of the varbind whose setter failed, if one did.\<close>

fun set_commit ::
  "'s registry \<Rightarrow> snmp_varbind list \<Rightarrow> nat \<Rightarrow> nat \<Rightarrow> 's \<Rightarrow> (nat option \<times> 's) option" where
  "set_commit reg vbs 0 i s = Some (None, s)"
| "set_commit reg vbs (Suc n) i s =
     (if i < length vbs then do {
        (r, s1) \<leftarrow> mib_registry_resolve reg (vb_oid (vbs ! i)) s;
        (res, s2) \<leftarrow> (case r of
            Inl e \<Rightarrow> Some (e, s1)
          | Inr resolved \<Rightarrow> mib_resolved_set resolved (vbs ! i) s1);
        if res \<noteq> MIB_OK then Some (Some i, s2)
        else set_commit reg vbs n (i + 1) s2
      } else None)"

definition snmp_pdu_handle_set ::
  "'s registry \<Rightarrow> snmp_pdu_ctx \<Rightarrow> 's \<Rightarrow> ((ber_status \<times> snmp_pdu_ctx) \<times> 's) option" where
  "snmp_pdu_handle_set reg ctx s =
     (if ctx_access_mode ctx \<noteq> SNMP_ACCESS_READWRITE then Some ((BER_ERR_BAD_ARGS, ctx), s)
      else do {
        (invalid, s1) \<leftarrow> set_validate reg (ctx_varbinds ctx) (ctx_varbind_count ctx) 0 s;
        case invalid of
          Some (res, i) \<Rightarrow>
            let tr = snmp_error_translate SNMP_VERSION_V1 res in
            Some ((BER_OK, ctx\<lparr>ctx_pdu_tag := SNMP_PDU_GET_RESPONSE,
                               ctx_error_status := v1_error_status tr,
                               ctx_error_index := word_of_nat (i + 1)\<rparr>), s1)
        | None \<Rightarrow> do {
            (failed, s2) \<leftarrow> set_commit reg (ctx_varbinds ctx) (ctx_varbind_count ctx) 0 s1;
            case failed of
              Some i \<Rightarrow>
                Some ((BER_OK, ctx\<lparr>ctx_pdu_tag := SNMP_PDU_GET_RESPONSE,
                                   ctx_error_status := SNMP_V1_ERR_GEN_ERR,
                                   ctx_error_index := word_of_nat (i + 1)\<rparr>), s2)
            | None \<Rightarrow>
                Some ((BER_OK, ctx\<lparr>ctx_pdu_tag := SNMP_PDU_GET_RESPONSE,
                                   ctx_error_status := SNMP_V1_ERR_NO_ERROR,
                                   ctx_error_index := 0\<rparr>), s2)
          }
      })"

end
