(* ===== verification/Snmp_Pdu_Getbulk.thy ===== *)
theory Snmp_Pdu_Getbulk
  imports Snmp_Error Mib_Registry
begin

text \<open>
  \<open>components/snmp_core/snmp_pdu_getbulk.c\<close>: GetBulkRequest. The response is written into the array
  of the request while the request is still being read, so the loops below pass the whole array of
  slots along.
\<close>

abbreviation SNMP_MAX_REPEATING_COLUMNS :: nat where "SNMP_MAX_REPEATING_COLUMNS \<equiv> 16"

definition getnext_into ::
  "'s registry \<Rightarrow> snmp_varbind \<Rightarrow> snmp_varbind \<Rightarrow> 's \<Rightarrow> ((mib_result \<times> snmp_varbind) \<times> 's) option" where
  "getnext_into reg current out_vb s = do {
     (r, s1) \<leftarrow> mib_registry_resolve_next reg (vb_oid current) s;
     case r of
       Inl e \<Rightarrow> Some ((e, out_vb), s1)
     | Inr resolved \<Rightarrow> mib_resolved_get resolved (out_vb\<lparr>vb_oid := rs_oid resolved\<rparr>) s1
   }"

text \<open>
  \<open>append_result\<close>: \<open>None\<close> inside the result is the return value 0, with nothing written. \<open>current\<close> is
  passed by value; where the C passes the address of the very slot that is written, the slot is
  first assigned to itself.
\<close>

definition append_result ::
  "snmp_varbind list \<Rightarrow> nat \<Rightarrow> nat \<Rightarrow> snmp_varbind \<Rightarrow> mib_result \<Rightarrow> snmp_varbind \<Rightarrow>
   (snmp_varbind list \<times> nat) option option" where
  "append_result vbs resp_count cap current res fetched =
     (if cap \<le> resp_count then Some None
      else if length vbs \<le> resp_count then None
      else
        let tr = snmp_error_translate SNMP_VERSION_V2C res;
            vb = (if pdu_level_abort tr
                  then current\<lparr>vb_tag := SNMP_TAG_END_OF_MIB_VIEW, vb_value := UOctets []\<rparr>
                  else if v2c_exception_tag tr \<noteq> 0
                  then current\<lparr>vb_tag := v2c_exception_tag tr, vb_value := UOctets []\<rparr>
                  else fetched)
        in Some (Some (vbs[resp_count := vb], resp_count + 1)))"

record bulk =
  bk_varbinds :: "snmp_varbind list"
  bk_count :: nat
  bk_cursor :: "snmp_varbind list"
  bk_exhausted :: "bool list"
  bk_active :: bool

text \<open>
  The loop over the non-repeaters, from index \<open>i\<close> with \<open>n\<close> to go; the boolean is \<open>True\<close> when the C
  jumps to \<open>done\<close>.
\<close>

fun bulk_non_repeaters :: "'s registry \<Rightarrow> nat \<Rightarrow> nat \<Rightarrow> bulk \<Rightarrow> 's \<Rightarrow> ((bool \<times> bulk) \<times> 's) option" where
  "bulk_non_repeaters reg 0 i b s = Some ((False, b), s)"
| "bulk_non_repeaters reg (Suc n) i b s =
     (if i < length (bk_varbinds b) then do {
        let current = bk_varbinds b ! i;
        ((res, fetched), s1) \<leftarrow> getnext_into reg current vb_zero s;
        appended \<leftarrow> append_result (bk_varbinds b) (bk_count b) SNMP_MAX_VARBINDS current res fetched;
        case appended of
          None \<Rightarrow> Some ((True, b), s1)
        | Some (vbs, count) \<Rightarrow>
            bulk_non_repeaters reg n (i + 1) (b\<lparr>bk_varbinds := vbs, bk_count := count\<rparr>) s1
      } else None)"

text \<open>One round over the repeaters, from repeater \<open>r\<close> with \<open>n\<close> to go.\<close>

fun bulk_round :: "'s registry \<Rightarrow> nat \<Rightarrow> nat \<Rightarrow> bulk \<Rightarrow> 's \<Rightarrow> ((bool \<times> bulk) \<times> 's) option" where
  "bulk_round reg 0 r b s = Some ((False, b), s)"
| "bulk_round reg (Suc n) r b s =
     (if r < length (bk_cursor b) \<and> r < length (bk_exhausted b) then do {
        ((res, fetched), s1) \<leftarrow>
          (if bk_exhausted b ! r then Some ((MIB_END_OF_VIEW, vb_zero), s)
           else getnext_into reg (bk_cursor b ! r) vb_zero s);
        let b1 = (if bk_exhausted b ! r then b
                  else if res = MIB_OK
                  then b\<lparr>bk_cursor := (bk_cursor b)[r := fetched], bk_active := True\<rparr>
                  else b\<lparr>bk_exhausted := (bk_exhausted b)[r := True]\<rparr>);
        appended \<leftarrow> append_result (bk_varbinds b1) (bk_count b1) SNMP_MAX_VARBINDS (bk_cursor b1 ! r) res fetched;
        case appended of
          None \<Rightarrow> Some ((True, b1), s1)
        | Some (vbs, count) \<Rightarrow>
            bulk_round reg n (r + 1) (b1\<lparr>bk_varbinds := vbs, bk_count := count\<rparr>) s1
      } else None)"

text \<open>The rounds: at most \<open>m\<close>, ended early by a full response or by a round without a value.\<close>

fun bulk_rounds :: "'s registry \<Rightarrow> nat \<Rightarrow> nat \<Rightarrow> bulk \<Rightarrow> 's \<Rightarrow> (bulk \<times> 's) option" where
  "bulk_rounds reg 0 repeaters b s = Some (b, s)"
| "bulk_rounds reg (Suc m) repeaters b s = do {
     ((full, b1), s1) \<leftarrow> bulk_round reg repeaters 0 (b\<lparr>bk_active := False\<rparr>) s;
     if full \<or> \<not> bk_active b1 then Some (b1, s1) else bulk_rounds reg m repeaters b1 s1
   }"

definition snmp_pdu_handle_getbulk ::
  "'s registry \<Rightarrow> snmp_pdu_ctx \<Rightarrow> 's \<Rightarrow> ((ber_status \<times> snmp_pdu_ctx) \<times> 's) option" where
  "snmp_pdu_handle_getbulk reg ctx s =
     (if ctx_version ctx \<noteq> SNMP_VERSION_V2C then Some ((BER_ERR_BAD_TAG, ctx), s)
      else
        let total = ctx_varbind_count ctx;
            non_repeaters = min (if ctx_error_status ctx <s 0 then 0 else unat (ctx_error_status ctx)) total;
            max_repetitions = (if ctx_error_index ctx <s 0 then 0 else unat (ctx_error_index ctx));
            repeaters = min (total - non_repeaters) SNMP_MAX_REPEATING_COLUMNS;
            b0 = \<lparr>bk_varbinds = ctx_varbinds ctx, bk_count = 0, bk_cursor = [], bk_exhausted = [],
                  bk_active = False\<rparr>
        in do {
          ((full, b1), s1) \<leftarrow> bulk_non_repeaters reg non_repeaters 0 b0 s;
          (b2, s2) \<leftarrow>
            (if \<not> full \<and> 0 < repeaters \<and> 0 < max_repetitions then
               if length (bk_varbinds b1) < non_repeaters + repeaters then None
               else bulk_rounds reg max_repetitions repeaters
                 (b1\<lparr>bk_cursor := take repeaters (drop non_repeaters (bk_varbinds b1)),
                     bk_exhausted := replicate SNMP_MAX_REPEATING_COLUMNS False\<rparr>) s1
             else Some (b1, s1));
          Some ((BER_OK, ctx\<lparr>ctx_varbinds := bk_varbinds b2, ctx_varbind_count := bk_count b2,
                             ctx_pdu_tag := SNMP_PDU_GET_RESPONSE, ctx_error_status := 0,
                             ctx_error_index := 0\<rparr>), s2)
        })"

end
