(* ===== verification/Snmp_Message.thy ===== *)
theory Snmp_Message
  imports Snmp_Security Snmp_Pdu_Get Snmp_Pdu_Set Snmp_Pdu_Getbulk
begin

text \<open>
  \<open>snmp_dispatch.c\<close> and \<open>snmp_message.c\<close>: from a received datagram to the datagram that answers it.
\<close>

definition snmp_dispatch_pdu ::
  "'s registry \<Rightarrow> snmp_pdu_ctx \<Rightarrow> 's \<Rightarrow> ((ber_status \<times> snmp_pdu_ctx) \<times> 's) option" where
  "snmp_dispatch_pdu reg ctx s =
     (let tag = ctx_pdu_tag ctx in
      if tag = SNMP_PDU_GET_REQUEST then snmp_pdu_handle_get reg ctx s
      else if tag = SNMP_PDU_GET_NEXT_REQUEST then snmp_pdu_handle_getnext reg ctx s
      else if tag = SNMP_PDU_SET_REQUEST then snmp_pdu_handle_set reg ctx s
      else if tag = SNMP_PDU_GET_BULK_REQUEST then snmp_pdu_handle_getbulk reg ctx s
      else Some ((BER_ERR_BAD_TAG, ctx), s))"

text \<open>
  The decisions before the device is touched: the version sniff, the lookup of the model and its
  \<open>process_incoming\<close>. \<open>Inl\<close> is every early \<open>return 0\<close>.
\<close>

definition message_accept ::
  "security \<Rightarrow> u8 list \<Rightarrow> nat \<Rightarrow> (ber_status + snmp_security_model \<times> snmp_pdu_ctx) option" where
  "message_accept sec msg in_len =
     chk (ber_decode_tlv msg 0 in_len 0) (\<lambda>top.
     if tlv_tag top \<noteq> BER_TAG_SEQUENCE then Some (Inl BER_ERR_BAD_TAG)
     else
     chk (ber_expect_tag msg (tlv_value top) (tlv_length top) 1 BER_TAG_INTEGER) (\<lambda>version_tlv.
     chk (ber_decode_integer msg version_tlv) (\<lambda>version.
     case snmp_security_lookup sec version of
       None \<Rightarrow> Some (Inl BER_ERR_BAD_ARGS)
     | Some model \<Rightarrow>
         chk (process_incoming model (s_communities sec) msg in_len 0 ctx_zero) (\<lambda>ctx.
           Some (Inr (model, ctx))))))"

text \<open>
  \<open>snmp_message_process\<close>: the bytes of the response (none for the return value 0) and the state of
  the device afterwards. \<open>msg\<close> is the receive buffer, of which \<open>in_len\<close> bytes are the datagram.
\<close>

definition snmp_message_process ::
  "'s registry \<Rightarrow> security \<Rightarrow> u8 list \<Rightarrow> nat \<Rightarrow> u8 list \<Rightarrow> nat \<Rightarrow> 's \<Rightarrow> (u8 list \<times> 's) option" where
  "snmp_message_process reg sec msg in_len out out_cap s =
     (if in_len = 0 \<or> out_cap = 0 then Some ([], s)
      else do {
        accepted \<leftarrow> message_accept sec msg in_len;
        case accepted of
          Inl _ \<Rightarrow> Some ([], s)
        | Inr (model, ctx) \<Rightarrow> do {
            ((st, ctx'), s1) \<leftarrow> snmp_dispatch_pdu reg ctx s;
            if st \<noteq> BER_OK then Some ([], s1)
            else do {
              r \<leftarrow> prepare_outgoing model ctx' out out_cap;
              case r of Inl _ \<Rightarrow> Some ([], s1) | Inr response \<Rightarrow> Some (response, s1)
            }
          }
      })"

end
