(* ===== verification/Snmp_Udp.thy ===== *)
theory Snmp_Udp
  imports Snmp_Message
begin

text \<open>
  \<open>components/transport/snmp_udp.c\<close>: the agent's socket, the loop that answers datagrams, and the
  sending of notifications. lwIP and FreeRTOS are not code of this repository: what \<open>socket\<close>, \<open>bind\<close>,
  \<open>sendto\<close>, \<open>inet_pton\<close> and \<open>xTaskCreate\<close> answer is the record \<open>net_env\<close>, a function of the number
  of calls made so far. \<open>net_sent\<close> records what was handed to \<open>sendto\<close>, oldest first.
\<close>

abbreviation SNMP_AGENT_PORT :: nat where "SNMP_AGENT_PORT \<equiv> 161"
abbreviation SNMP_TRAP_PORT :: nat where "SNMP_TRAP_PORT \<equiv> 162"
abbreviation SNMP_MAX_PACKET_LEN :: nat where "SNMP_MAX_PACKET_LEN \<equiv> 1472"

text \<open>A \<open>struct sockaddr_in\<close>: the four octets of the address and the port.\<close>

record sockaddr_in =
  sin_addr :: "u8 list"
  sin_port :: nat

record net_env =
  n_socket :: "nat \<Rightarrow> int"
  n_bind :: "nat \<Rightarrow> int"
  n_sendto :: "nat \<Rightarrow> int"
  n_inet_pton :: "u8 list \<Rightarrow> u8 list option"
  n_task_create :: "nat \<Rightarrow> bool"

record datagram =
  dg_socket :: int
  dg_peer :: sockaddr_in
  dg_bytes :: "u8 list"

record transport =
  net_env :: net_env
  net_calls :: nat
  s_trap_socket :: int
  s_trap_dest :: sockaddr_in
  s_trap_dest_valid :: bool
  net_sent :: "datagram list"

text \<open>The static initialisers.\<close>

definition transport_start :: "net_env \<Rightarrow> transport" where
  "transport_start env =
     \<lparr>net_env = env, net_calls = 0, s_trap_socket = - 1,
      s_trap_dest = \<lparr>sin_addr = [0, 0, 0, 0], sin_port = 0\<rparr>, s_trap_dest_valid = False, net_sent = []\<rparr>"

section \<open>The calls of the network stack\<close>

definition net_tick :: "transport \<Rightarrow> transport" where
  "net_tick tr = tr\<lparr>net_calls := Suc (net_calls tr)\<rparr>"

definition socket_call :: "transport \<Rightarrow> int \<times> transport" where
  "socket_call tr = (n_socket (net_env tr) (net_calls tr), net_tick tr)"

definition bind_call :: "int \<Rightarrow> nat \<Rightarrow> transport \<Rightarrow> int \<times> transport" where
  "bind_call sock port tr = (n_bind (net_env tr) (net_calls tr), net_tick tr)"

definition sendto_call :: "int \<Rightarrow> u8 list \<Rightarrow> sockaddr_in \<Rightarrow> transport \<Rightarrow> int \<times> transport" where
  "sendto_call sock packet peer tr =
     (n_sendto (net_env tr) (net_calls tr),
      net_tick (tr\<lparr>net_sent := net_sent tr @ [\<lparr>dg_socket = sock, dg_peer = peer, dg_bytes = packet\<rparr>]\<rparr>))"

definition task_create_call :: "transport \<Rightarrow> bool \<times> transport" where
  "task_create_call tr = (n_task_create (net_env tr) (net_calls tr), net_tick tr)"

section \<open>Notifications\<close>

definition snmp_transport_set_trap_destination :: "u8 list \<Rightarrow> transport \<Rightarrow> int \<times> transport" where
  "snmp_transport_set_trap_destination ipv4_address tr =
     (let tr1 = tr\<lparr>s_trap_dest := \<lparr>sin_addr = [0, 0, 0, 0], sin_port = SNMP_TRAP_PORT\<rparr>\<rparr> in
      case n_inet_pton (net_env tr1) (c_string ipv4_address) of
        None \<Rightarrow> (- 1, tr1\<lparr>s_trap_dest_valid := False\<rparr>)
      | Some addr \<Rightarrow> (0, tr1\<lparr>s_trap_dest := (s_trap_dest tr1)\<lparr>sin_addr := addr\<rparr>, s_trap_dest_valid := True\<rparr>))"

definition snmp_transport_send_trap :: "u8 list \<Rightarrow> transport \<Rightarrow> int \<times> transport" where
  "snmp_transport_send_trap packet tr =
     (if \<not> s_trap_dest_valid tr then (- 1, tr)
      else let tr1 = (if s_trap_socket tr < 0 then
                        let (sock, tr') = socket_call tr in tr'\<lparr>s_trap_socket := sock\<rparr>
                      else tr) in
        if s_trap_socket tr1 < 0 then (- 1, tr1)
        else let (sent, tr2) = sendto_call (s_trap_socket tr1) packet (s_trap_dest tr1) tr1
          in (if sent = int (length packet) then 0 else - 1, tr2))"

section \<open>The task of the agent\<close>

definition snmp_transport_start :: "transport \<Rightarrow> int \<times> transport" where
  "snmp_transport_start tr = (let (ok, tr1) = task_create_call tr in (if ok then 0 else - 1, tr1))"

text \<open>
  The task up to its loop; \<open>None\<close> when it deletes itself. \<open>in_buf\<close> is a static array, so it starts as
  zeros.
\<close>

record udp_task =
  udp_sock :: int
  in_buf :: "u8 list"

definition snmp_udp_open :: "transport \<Rightarrow> udp_task option \<times> transport" where
  "snmp_udp_open tr =
     (let (sock, tr1) = socket_call tr in
      if sock < 0 then (None, tr1)
      else let (st, tr2) = bind_call sock SNMP_AGENT_PORT tr1 in
        if st \<noteq> 0 then (None, tr2)
        else (Some \<lparr>udp_sock = sock, in_buf = replicate SNMP_MAX_PACKET_LEN 0\<rparr>, tr2))"

text \<open>
  One turn of the loop. \<open>recvfrom\<close> failed (\<open>None\<close>) or delivered the start of the datagram that arrived,
  as much as fits into the buffer. \<open>out\<close> is what the output buffer holds.
\<close>

definition snmp_udp_turn ::
  "'s registry \<Rightarrow> security \<Rightarrow> (sockaddr_in \<times> u8 list) option \<Rightarrow> u8 list \<Rightarrow> udp_task \<Rightarrow> 's \<Rightarrow> transport \<Rightarrow>
   (udp_task \<times> 's \<times> transport) option" where
  "snmp_udp_turn reg sec received out task s tr =
     (case received of
        None \<Rightarrow> Some (task, s, tr)
      | Some (from, payload) \<Rightarrow>
          let bytes = take SNMP_MAX_PACKET_LEN payload;
              n = length bytes;
              task1 = task\<lparr>in_buf := bytes @ drop n (in_buf task)\<rparr>
          in if n = 0 then Some (task1, s, tr)
          else do {
            (response, s1) \<leftarrow> snmp_message_process reg sec (in_buf task1) n out SNMP_MAX_PACKET_LEN s;
            if length response = 0 then Some (task1, s1, tr)
            else let (sent, tr1) = sendto_call (udp_sock task1) response from tr in Some (task1, s1, tr1)
          })"

end
