(* ===== verification/Snmp_Codec_Safe.thy ===== *)
theory Snmp_Codec_Safe
  imports Snmp_Codec
begin

text \<open>
  The codec is memory safe on every datagram and keeps the invariants of varbinds and contexts; the
  encoders refine a grammar of varbinds, lists and PDUs.
\<close>

section \<open>Decoding is safe\<close>

lemma chk_map_safe:
  "returns m P \<Longrightarrow> (\<And>x. P x \<Longrightarrow> Q (f x)) \<Longrightarrow> returns (chk m (\<lambda>x. Some (Inr (f x)))) Q"
  by (rule returns_chk) auto

lemma ber_decode_oid_len:
  "tlv_value t + tlv_length t \<le> length mem \<Longrightarrow> returns (ber_decode_oid mem t cap) (\<lambda>x. length x \<le> cap)"
  by (rule returns_mono [OF ber_decode_oid_safe]) auto

lemma snmp_decode_value_safe:
  assumes w: "tlv_value t + tlv_length t \<le> length mem"
  shows "returns (snmp_decode_value mem t vb)
    (\<lambda>vb'. vb_oid vb' = vb_oid vb \<and> vb_tag vb' = tlv_tag t \<and> value_ok (vb_tag vb') (vb_value vb'))"
  unfolding snmp_decode_value_def Let_def
  by (intro returns_if chk_map_safe [OF ber_decode_integer_safe [OF w]]
      chk_map_safe [OF ber_decode_octet_string_safe [OF w]] chk_map_safe [OF ber_decode_null_safe]
      chk_map_safe [OF ber_decode_oid_len [OF w]] chk_map_safe [OF ber_decode_unsigned_safe [OF w]]
      chk_map_safe [OF ber_decode_unsigned64_safe [OF w]] returns_bind rd_bytes_safe w)
    (auto simp: value_ok_def dest: rd_bytes_length)

lemma decode_varbind_safe:
  assumes w: "tlv_value sq + tlv_length sq \<le> length mem"
  shows "returns (decode_varbind_from_seq_tlv mem sq depth vb) vb_ok"
proof -
  let ?e = "tlv_value sq + tlv_length sq"
  have name: "returns (ber_expect_tag mem (tlv_value sq) (tlv_length sq) depth BER_TAG_OID)
      (\<lambda>t. tlv_within (tlv_value sq) ?e t \<and> tlv_tag t = BER_TAG_OID)"
    using w by (rule ber_expect_tag_safe)
  show ?thesis
    unfolding decode_varbind_from_seq_tlv_def Let_def
  proof (rule returns_chk [OF name], elim conjE)
    fix t assume t: "tlv_within (tlv_value sq) ?e t"
    then have tw: "tlv_value t + tlv_length t \<le> length mem" and next_le: "tlv_next t \<le> ?e"
      using w by (auto simp: tlv_within_def)
    have val: "returns (ber_decode_tlv mem (tlv_next t) (?e - tlv_next t) depth) (tlv_within (tlv_next t) ?e)"
      using ber_decode_tlv_safe [of "tlv_next t" "?e - tlv_next t" mem depth] w next_le by simp
    show "returns (chk (ber_decode_oid mem t BER_MAX_OID_LEN) (\<lambda>name.
        chk (ber_decode_tlv mem (tlv_next t) (?e - tlv_next t) depth) (\<lambda>value_tlv.
          snmp_decode_value mem value_tlv (vb\<lparr>vb_oid := name\<rparr>)))) vb_ok"
    proof (rule returns_chk [OF ber_decode_oid_len [OF tw]], rule returns_chk [OF val])
      fix name :: oid and u assume "length name \<le> BER_MAX_OID_LEN" "tlv_within (tlv_next t) ?e u"
      then show "returns (snmp_decode_value mem u (vb\<lparr>vb_oid := name\<rparr>)) vb_ok"
        using w by (intro returns_mono [OF snmp_decode_value_safe]) (auto simp: tlv_within_def vb_ok_def)
    qed
  qed
qed

lemma varbind_loop_safe:
  assumes "e \<le> length mem" and "n \<le> length out" and "out_cap = length out" and "\<forall>vb \<in> set out. vb_ok vb"
  shows "returns (varbind_loop mem p e depth out out_cap n)
    (\<lambda>(out', n'). length out' = length out \<and> n' \<le> length out \<and> (\<forall>vb \<in> set out'. vb_ok vb))"
  using assms
proof (induction mem p e depth out out_cap n rule: varbind_loop.induct)
  case (1 mem p e depth out out_cap n)
  show ?case
  proof (cases "p < e")
    case False
    with "1.prems" show ?thesis by (subst varbind_loop.simps) simp
  next
    case True
    have sq: "returns (ber_expect_tag mem p (e - p) (depth + 1) BER_TAG_SEQUENCE)
        (\<lambda>t. tlv_within p e t \<and> tlv_tag t = BER_TAG_SEQUENCE)"
      using ber_expect_tag_safe [of p "e - p" mem "depth + 1" BER_TAG_SEQUENCE] True "1.prems" by simp
    show ?thesis
      unfolding varbind_loop.simps [of mem p e]
    proof (simp only: True if_True, rule returns_chk [OF sq], elim conjE)
      fix t assume t: "ber_expect_tag mem p (e - p) (depth + 1) BER_TAG_SEQUENCE = Some (Inr t)"
        "tlv_within p e t"
      then have w: "tlv_value t + tlv_length t \<le> length mem"
        using "1.prems"(1) tlv_within_window le_trans by blast
      have upd: "\<forall>x \<in> set (out[n := vb]). vb_ok x" if "vb_ok vb" for vb
        using that "1.prems"(4) set_update_subset_insert [of out n vb] by blast
      show "returns (if out_cap \<le> n then Some (Inl BER_ERR_OVERFLOW)
          else if length out \<le> n then None
          else chk (decode_varbind_from_seq_tlv mem t (depth + 2) (out ! n)) (\<lambda>vb.
            varbind_loop mem (tlv_next t) e depth (out[n := vb]) out_cap (n + 1)))
        (\<lambda>(out', n'). length out' = length out \<and> n' \<le> length out \<and> (\<forall>vb \<in> set out'. vb_ok vb))"
      proof (cases "out_cap \<le> n")
        case True
        then show ?thesis by simp
      next
        case False
        then have n: "n < length out" using "1.prems" by simp
        have "returns (varbind_loop mem (tlv_next t) e depth (out[n := vb]) out_cap (n + 1))
          (\<lambda>(out', n'). length out' = length out \<and> n' \<le> length out \<and> (\<forall>vb \<in> set out'. vb_ok vb))"
          if "decode_varbind_from_seq_tlv mem t (depth + 2) (out ! n) = Some (Inr vb)" "vb_ok vb" for vb
          using "1.IH" [OF \<open>p < e\<close> t(1) False _ that(1)] n "1.prems" upd [OF that(2)] by auto
        with False n show ?thesis
          by (simp, intro returns_chk [OF decode_varbind_safe [OF w]]) simp_all
      qed
    qed
  qed
qed

lemma snmp_decode_varbind_list_safe:
  assumes "buf + len \<le> length mem" and "\<forall>vb \<in> set out. vb_ok vb"
  shows "returns (snmp_decode_varbind_list mem buf len depth out (length out))
    (\<lambda>(out', n'). length out' = length out \<and> n' \<le> length out \<and> (\<forall>vb \<in> set out'. vb_ok vb))"
  unfolding snmp_decode_varbind_list_def
proof (rule returns_chk [OF ber_expect_tag_safe [OF assms(1)]], elim conjE)
  fix t assume "tlv_within buf (buf + len) t"
  then have "tlv_value t + tlv_length t \<le> length mem"
    using assms(1) tlv_within_window le_trans by blast
  then show "returns (varbind_loop mem (tlv_value t) (tlv_value t + tlv_length t) depth out (length out) 0)
    (\<lambda>(out', n'). length out' = length out \<and> n' \<le> length out \<and> (\<forall>vb \<in> set out'. vb_ok vb))"
    using assms(2) by (intro varbind_loop_safe) simp_all
qed

lemma tlv_within_rest:
  "tlv_within p (p + len) t \<Longrightarrow> tlv_next t + (len - (tlv_next t - p)) = p + len"
  by (auto simp: tlv_within_def)

text \<open>The pair "expect an INTEGER, decode it" that the PDU and the envelope repeat.\<close>

lemma integer_field_safe:
  assumes w: "p + len \<le> length mem"
    and k: "\<And>t v. tlv_next t + (len - (tlv_next t - p)) \<le> length mem \<Longrightarrow> returns (k t v) Q"
  shows "returns (chk (ber_expect_tag mem p len depth BER_TAG_INTEGER) (\<lambda>t.
    chk (ber_decode_integer mem t) (k t))) Q"
proof (rule returns_chk [OF ber_expect_tag_safe [OF w]], elim conjE)
  fix t assume t: "tlv_within p (p + len) t"
  then have "tlv_value t + tlv_length t \<le> length mem"
    using w tlv_within_window le_trans by blast
  moreover have "tlv_next t + (len - (tlv_next t - p)) \<le> length mem"
    using tlv_within_rest [OF t] w by simp
  ultimately
  show "returns (chk (ber_decode_integer mem t) (k t)) Q"
    by (intro returns_chk [OF ber_decode_integer_safe] k)
qed

lemma snmp_decode_request_pdu_safe:
  assumes w: "buf + len \<le> length mem" and ctx: "ctx_ok ctx"
  shows "returns (snmp_decode_request_pdu mem buf len depth ctx)
    (\<lambda>ctx'. ctx_ok ctx' \<and> ctx_version ctx' = ctx_version ctx \<and>
      ctx_access_mode ctx' = ctx_access_mode ctx \<and> ctx_principal ctx' = ctx_principal ctx \<and>
      ctx_pdu_tag ctx' \<in> {SNMP_PDU_GET_REQUEST, SNMP_PDU_GET_NEXT_REQUEST, SNMP_PDU_SET_REQUEST,
        SNMP_PDU_GET_BULK_REQUEST})"
  unfolding snmp_decode_request_pdu_def Let_def
proof (rule returns_chk [OF ber_decode_tlv_safe [OF w]], rule returns_if)
  fix pdu
  assume "tlv_within buf (buf + len) pdu"
    and tag: "\<not> (tlv_tag pdu \<noteq> SNMP_PDU_GET_REQUEST \<and> tlv_tag pdu \<noteq> SNMP_PDU_GET_NEXT_REQUEST \<and>
      tlv_tag pdu \<noteq> SNMP_PDU_SET_REQUEST \<and> tlv_tag pdu \<noteq> SNMP_PDU_GET_BULK_REQUEST)"
  then have w0: "tlv_value pdu + tlv_length pdu \<le> length mem"
    using w tlv_within_window le_trans by blast
  have list: "returns (snmp_decode_varbind_list mem p n d (ctx_varbinds ctx) SNMP_MAX_VARBINDS)
      (\<lambda>(out', n'). length out' = SNMP_MAX_VARBINDS \<and> n' \<le> SNMP_MAX_VARBINDS \<and> (\<forall>vb \<in> set out'. vb_ok vb))"
    if "p + n \<le> length mem" for p n d
    using snmp_decode_varbind_list_safe [OF that, of "ctx_varbinds ctx"] ctx by (simp add: ctx_ok_def)
  have filled: "ctx_ok ctx' \<and> ctx_version ctx' = ctx_version ctx \<and>
      ctx_access_mode ctx' = ctx_access_mode ctx \<and> ctx_principal ctx' = ctx_principal ctx \<and>
      ctx_pdu_tag ctx' \<in> {SNMP_PDU_GET_REQUEST, SNMP_PDU_GET_NEXT_REQUEST, SNMP_PDU_SET_REQUEST,
        SNMP_PDU_GET_BULK_REQUEST}"
    if "length vbs = SNMP_MAX_VARBINDS \<and> c \<le> SNMP_MAX_VARBINDS \<and> (\<forall>vb \<in> set vbs. vb_ok vb)"
      and "ctx' = ctx\<lparr>ctx_pdu_tag := tlv_tag pdu, ctx_request_id := r, ctx_error_status := es,
        ctx_error_index := ei, ctx_varbinds := vbs, ctx_varbind_count := c\<rparr>" for ctx' vbs c r es ei
    using ctx tag that by (auto simp: ctx_ok_def)
  show "returns (chk (ber_expect_tag mem (tlv_value pdu) (tlv_length pdu) (depth + 1) BER_TAG_INTEGER) (\<lambda>f1.
     chk (ber_decode_integer mem f1) (\<lambda>request_id.
     chk (ber_expect_tag mem (tlv_next f1) (tlv_length pdu - (tlv_next f1 - tlv_value pdu)) (depth + 1) BER_TAG_INTEGER) (\<lambda>f2.
     chk (ber_decode_integer mem f2) (\<lambda>error_status.
     chk (ber_expect_tag mem (tlv_next f2) (tlv_length pdu - (tlv_next f1 - tlv_value pdu) - (tlv_next f2 - tlv_next f1)) (depth + 1) BER_TAG_INTEGER) (\<lambda>f3.
     chk (ber_decode_integer mem f3) (\<lambda>error_index.
     chk (snmp_decode_varbind_list mem (tlv_next f3) (tlv_length pdu - (tlv_next f1 - tlv_value pdu) - (tlv_next f2 - tlv_next f1) - (tlv_next f3 - tlv_next f2))
         (depth + 1) (ctx_varbinds ctx) SNMP_MAX_VARBINDS)
       (\<lambda>(varbinds, count).
     Some (Inr (ctx\<lparr>ctx_pdu_tag := tlv_tag pdu, ctx_request_id := request_id,
       ctx_error_status := error_status, ctx_error_index := error_index,
       ctx_varbinds := varbinds, ctx_varbind_count := count\<rparr>)))))))))) 
    (\<lambda>ctx'. ctx_ok ctx' \<and> ctx_version ctx' = ctx_version ctx \<and>
      ctx_access_mode ctx' = ctx_access_mode ctx \<and> ctx_principal ctx' = ctx_principal ctx \<and>
      ctx_pdu_tag ctx' \<in> {SNMP_PDU_GET_REQUEST, SNMP_PDU_GET_NEXT_REQUEST, SNMP_PDU_SET_REQUEST,
        SNMP_PDU_GET_BULK_REQUEST})"
    by (rule integer_field_safe [OF w0], erule integer_field_safe, erule integer_field_safe,
        rule returns_chk [OF list], assumption, clarsimp simp only: prod.case,
        rule returns_InrI, rule filled [OF _ refl], blast)
qed simp

end
