(* ===== verification/Snmp_Codec_Roundtrip.thy ===== *)
theory Snmp_Codec_Roundtrip
  imports Snmp_Codec_Grammar
begin

text \<open>
  The decoders of the codec read back what its grammar says: a value, a varbind, a list of varbinds,
  a request PDU.
\<close>

section \<open>Varbinds that travel\<close>

text \<open>
  The varbinds with a faithful wire image: an OID the codec represents, and a value whose tag and
  live member agree (an empty value leaves the zeroed union of the receiver alone).
\<close>

definition wire_ok :: "snmp_varbind \<Rightarrow> bool" where
  "wire_ok vb \<longleftrightarrow> oid_ok (vb_oid vb) \<and>
     (case vb_value vb of
        UInt _ \<Rightarrow> vb_tag vb \<in> {BER_TAG_INTEGER, SNMP_TAG_COUNTER32, SNMP_TAG_GAUGE32, SNMP_TAG_TIMETICKS}
      | UCounter64 _ \<Rightarrow> vb_tag vb = SNMP_TAG_COUNTER64
      | UOctets bs \<Rightarrow> vb_tag vb \<in> {BER_TAG_OCTET_STRING, SNMP_TAG_IPADDRESS, SNMP_TAG_OPAQUE} \<and>
          length bs \<le> SNMP_MAX_OCTETS_LEN
      | UOid x \<Rightarrow> vb_tag vb = BER_TAG_OID \<and> oid_ok x
      | UZero \<Rightarrow> vb_tag vb \<in> {BER_TAG_NULL, SNMP_TAG_NO_SUCH_OBJECT, SNMP_TAG_NO_SUCH_INSTANCE,
          SNMP_TAG_END_OF_MIB_VIEW})"

lemma wire_ok_vb_ok: "wire_ok vb \<Longrightarrow> vb_ok vb"
  by (auto simp: wire_ok_def vb_ok_def value_ok_def oid_ok_def split: vunion.splits)

lemma holds_at_length: "holds_at mem p bs \<Longrightarrow> length mem < 2 ^ 32 \<Longrightarrow> length bs < 2 ^ 32"
  by (auto dest: holds_at_bound)

section \<open>Values\<close>

definition value_content :: "snmp_varbind \<Rightarrow> u8 list" where
  "value_content vb =
     (case vb_value vb of
        UInt v \<Rightarrow> if vb_tag vb = BER_TAG_INTEGER then int_content v else uns_content 4 v
      | UCounter64 c \<Rightarrow> uns_content 8 c
      | UOctets bs \<Rightarrow> bs
      | UOid x \<Rightarrow> oid_content x
      | UZero \<Rightarrow> [])"

lemma value_bytes_wire:
  "wire_ok vb \<Longrightarrow> value_bytes vb = Some (ber_tlv_bytes (vb_tag vb) (value_content vb))"
  by (auto simp: wire_ok_def value_bytes_def value_content_def Let_def oid_bytes_ok split: vunion.splits)

lemma snmp_decode_value_content:
  assumes vb: "wire_ok vb" and h: "holds_at mem p (ber_tlv_bytes (vb_tag vb) (value_content vb))"
    and z: "vb_value vb0 = UZero"
  shows "snmp_decode_value mem (tlv_at (vb_tag vb) p (value_content vb)) vb0 =
    Some (Inr (vb0\<lparr>vb_tag := vb_tag vb, vb_value := vb_value vb\<rparr>))"
proof (cases "vb_value vb")
  case UZero
  with vb z show ?thesis
    by (auto simp: wire_ok_def value_content_def snmp_decode_value_def Let_def ber_decode_null_def)
next
  case (UInt v)
  with vb h show ?thesis
    using integer.dec_tlv_at [where x = v and mem = mem and p = p] counter32.dec_tlv_at [where x = v and mem = mem and p = p]
      gauge32.dec_tlv_at [where x = v and mem = mem and p = p] timeticks.dec_tlv_at [where x = v and mem = mem and p = p]
    by (auto simp: wire_ok_def value_content_def snmp_decode_value_def Let_def)
next
  case (UCounter64 c)
  with vb h show ?thesis
    using counter64.dec_tlv_at [where x = c and mem = mem and p = p]
    by (auto simp: wire_ok_def value_content_def snmp_decode_value_def Let_def)
next
  case (UOctets bs)
  have "rd_bytes mem (tlv_value (tlv_at tag p bs)) (length bs) = Some bs"
    if "holds_at mem p (ber_tlv_bytes tag bs)" for tag
    by (rule holds_at_rd_bytes [OF holds_at_content [OF that]])
  with UOctets vb h show ?thesis
    using octets.dec_tlv_at [where x = bs and mem = mem and p = p]
    by (auto simp: wire_ok_def value_content_def snmp_decode_value_def Let_def)
next
  case (UOid x)
  with vb h show ?thesis
    using oids.dec_tlv_at [where x = x and mem = mem and p = p]
    by (auto simp: wire_ok_def value_content_def snmp_decode_value_def Let_def)
qed

section \<open>Varbinds and lists of varbinds\<close>

definition varbind_content :: "snmp_varbind \<Rightarrow> u8 list" where
  "varbind_content vb = ber_tlv_bytes BER_TAG_OID (oid_content (vb_oid vb)) @
     ber_tlv_bytes (vb_tag vb) (value_content vb)"

abbreviation varbind_octets :: "snmp_varbind \<Rightarrow> u8 list" where
  "varbind_octets vb \<equiv> ber_tlv_bytes BER_TAG_SEQUENCE (varbind_content vb)"

lemma varbind_bytes_wire: "wire_ok vb \<Longrightarrow> varbind_bytes vb = Some (varbind_octets vb)"
  by (simp add: varbind_bytes_def varbind_content_def value_bytes_wire oid_bytes_ok wire_ok_def)

lemma join_varbinds_wire:
  "\<forall>vb \<in> set vbs. wire_ok vb \<Longrightarrow> join_bytes (map varbind_bytes vbs) = Some (concat (map varbind_octets vbs))"
  by (induction vbs) (simp_all add: varbind_bytes_wire)

lemma length_content_lt: "length c \<le> length (ber_tlv_bytes tag c)"
  by (simp add: ber_tlv_bytes_def)

lemma decode_varbind_content:
  assumes vb: "wire_ok vb" and h: "holds_at mem p (varbind_octets vb)" and mem: "length mem < 2 ^ 32"
    and z: "vb_value vb0 = UZero" and d: "depth \<le> BER_MAX_NEST_DEPTH"
  shows "decode_varbind_from_seq_tlv mem (tlv_at BER_TAG_SEQUENCE p (varbind_content vb)) depth vb0 = Some (Inr vb)"
proof -
  let ?q = "tlv_value (tlv_at BER_TAG_SEQUENCE p (varbind_content vb))"
  let ?o = "ber_tlv_bytes BER_TAG_OID (oid_content (vb_oid vb))"
  let ?v = "ber_tlv_bytes (vb_tag vb) (value_content vb)"
  have oid: "oid_ok (vb_oid vb)" using vb by (simp add: wire_ok_def)
  have c: "holds_at mem ?q (?o @ ?v)"
    using holds_at_content [OF h] by (simp add: varbind_content_def)
  then have ho: "holds_at mem ?q ?o" and hv: "holds_at mem (?q + length ?o) ?v"
    by (simp_all add: holds_at_append)
  have lo: "length (oid_content (vb_oid vb)) < 2 ^ 32" "length (value_content vb) < 2 ^ 32"
    using holds_at_length [OF ho mem] holds_at_length [OF hv mem]
      length_content_lt [of "oid_content (vb_oid vb)" BER_TAG_OID]
      length_content_lt [of "value_content vb" "vb_tag vb"] by linarith+
  have name: "ber_expect_tag mem ?q (length (varbind_content vb)) depth BER_TAG_OID =
      Some (Inr (tlv_at BER_TAG_OID ?q (oid_content (vb_oid vb))))"
    by (rule ber_expect_tag_bytes [OF ho lo(1) _ d]) (simp add: varbind_content_def)
  have val: "ber_decode_tlv mem (?q + length ?o) (length ?v) depth =
      Some (Inr (tlv_at (vb_tag vb) (?q + length ?o) (value_content vb)))"
    by (rule ber_decode_tlv_bytes [OF hv lo(2) _ d]) simp
  have rest: "?q + length (varbind_content vb) - (?q + length ?o) = length ?v"
    by (simp add: varbind_content_def)
  have "snmp_decode_value mem (tlv_at (vb_tag vb) (?q + length ?o) (value_content vb)) (vb0\<lparr>vb_oid := vb_oid vb\<rparr>)
      = Some (Inr (vb0\<lparr>vb_oid := vb_oid vb, vb_tag := vb_tag vb, vb_value := vb_value vb\<rparr>))"
    using snmp_decode_value_content [OF vb hv, of "vb0\<lparr>vb_oid := vb_oid vb\<rparr>"] z by simp
  also have "vb0\<lparr>vb_oid := vb_oid vb, vb_tag := vb_tag vb, vb_value := vb_value vb\<rparr> = vb"
    by simp
  finally show ?thesis
    using name oids.dec_tlv_at [OF oid ho] val rest
    by (simp add: decode_varbind_from_seq_tlv_def Let_def)
qed

lemma varbind_loop_octets:
  assumes "\<forall>vb \<in> set vbs. wire_ok vb" and "holds_at mem p (concat (map varbind_octets vbs))"
    and "e = p + length (concat (map varbind_octets vbs))" and mem: "length mem < 2 ^ 32"
    and "n + length vbs \<le> length out" and "\<forall>i. n \<le> i \<and> i < length out \<longrightarrow> vb_value (out ! i) = UZero"
    and d: "depth + 2 \<le> BER_MAX_NEST_DEPTH"
  shows "varbind_loop mem p e depth out (length out) n =
    Some (Inr (take n out @ vbs @ drop (n + length vbs) out, n + length vbs))"
  using assms(1-3,5,6)
proof (induction vbs arbitrary: p out n)
  case Nil
  then show ?case by (simp add: varbind_loop.simps)
next
  case (Cons vb vbs)
  let ?b = "varbind_octets vb"
  have h: "holds_at mem p ?b" and hr: "holds_at mem (p + length ?b) (concat (map varbind_octets vbs))"
    using Cons.prems(2) by (simp_all add: holds_at_append)
  have lt: "p < e" using Cons.prems(3) by (simp add: ber_tlv_bytes_def)
  have "length (varbind_content vb) < 2 ^ 32"
    using holds_at_length [OF h mem] length_content_lt [of "varbind_content vb" BER_TAG_SEQUENCE] by linarith
  then have sq: "ber_expect_tag mem p (e - p) (depth + 1) BER_TAG_SEQUENCE =
      Some (Inr (tlv_at BER_TAG_SEQUENCE p (varbind_content vb)))"
    using Cons.prems(3) d by (intro ber_expect_tag_bytes [OF h]) simp_all
  have "vb_value (out ! n) = UZero" using Cons.prems(4,5) by simp
  from decode_varbind_content [OF _ h mem this d] Cons.prems(1)
  have dv: "decode_varbind_from_seq_tlv mem (tlv_at BER_TAG_SEQUENCE p (varbind_content vb)) (depth + 2) (out ! n)
      = Some (Inr vb)" by simp
  have "varbind_loop mem (p + length ?b) e depth (out[n := vb]) (length (out[n := vb])) (n + 1) =
      Some (Inr (take (n + 1) (out[n := vb]) @ vbs @ drop (n + 1 + length vbs) (out[n := vb]), n + 1 + length vbs))"
    using Cons.prems hr by (intro Cons.IH) auto
  also have "take (n + 1) (out[n := vb]) = take n out @ [vb]"
    using Cons.prems(4) by (simp add: take_Suc_conv_app_nth)
  finally show ?case
    using lt sq dv Cons.prems(4)
    by (subst varbind_loop.simps) simp
qed

lemma snmp_decode_varbind_list_bytes:
  assumes vbs: "\<forall>vb \<in> set vbs. wire_ok vb" and l: "varbind_list_bytes vbs = Some bs"
    and h: "holds_at mem p bs" and len: "length bs \<le> len" and mem: "length mem < 2 ^ 32"
    and out: "length vbs \<le> length out" "\<forall>vb \<in> set out. vb_value vb = UZero" and d: "depth + 2 \<le> BER_MAX_NEST_DEPTH"
  shows "snmp_decode_varbind_list mem p len depth out (length out) =
    Some (Inr (vbs @ drop (length vbs) out, length vbs))"
proof -
  let ?c = "concat (map varbind_octets vbs)"
  have bs: "bs = ber_tlv_bytes BER_TAG_SEQUENCE ?c"
    using l vbs by (simp add: varbind_list_bytes_def join_varbinds_wire)
  have "length ?c < 2 ^ 32"
    by (rule le_less_trans [OF length_content_lt holds_at_length [OF h [unfolded bs] mem]])
  then have "ber_expect_tag mem p len depth BER_TAG_SEQUENCE = Some (Inr (tlv_at BER_TAG_SEQUENCE p ?c))"
    using h len d by (intro ber_expect_tag_bytes) (simp_all add: bs)
  moreover have "varbind_loop mem (tlv_value (tlv_at BER_TAG_SEQUENCE p ?c))
      (tlv_value (tlv_at BER_TAG_SEQUENCE p ?c) + length ?c) depth out (length out) 0 =
      Some (Inr (take 0 out @ vbs @ drop (0 + length vbs) out, 0 + length vbs))"
    using vbs holds_at_content [of mem p BER_TAG_SEQUENCE ?c] h out d
    by (intro varbind_loop_octets mem) (auto simp: bs)
  ultimately show ?thesis by (simp add: snmp_decode_varbind_list_def)
qed

section \<open>Request PDUs\<close>

lemma integer_field:
  assumes h: "holds_at mem p (int_bytes v)" and len: "length (int_bytes v) \<le> len"
    and d: "depth \<le> BER_MAX_NEST_DEPTH"
  shows "ber_expect_tag mem p len depth BER_TAG_INTEGER = Some (Inr (tlv_at BER_TAG_INTEGER p (int_content v)))"
    and "ber_decode_integer mem (tlv_at BER_TAG_INTEGER p (int_content v)) = Some (Inr v)"
proof -
  have "length (int_content v) < 2 ^ 32" using length_int_content(2) [of v] by simp
  then show "ber_expect_tag mem p len depth BER_TAG_INTEGER = Some (Inr (tlv_at BER_TAG_INTEGER p (int_content v)))"
    by (rule ber_expect_tag_bytes [OF h _ len d])
  show "ber_decode_integer mem (tlv_at BER_TAG_INTEGER p (int_content v)) = Some (Inr v)"
    by (rule integer.dec_tlv_at [OF TrueI h])
qed

lemma snmp_decode_request_pdu_bytes:
  assumes vbs: "\<forall>vb \<in> set vbs. wire_ok vb" "length vbs \<le> SNMP_MAX_VARBINDS"
    and tag: "tag \<in> {SNMP_PDU_GET_REQUEST, SNMP_PDU_GET_NEXT_REQUEST, SNMP_PDU_SET_REQUEST, SNMP_PDU_GET_BULK_REQUEST}"
    and b: "pdu_bytes tag rid es ei vbs = Some bs"
    and h: "holds_at mem p bs" and len: "length bs \<le> len" and mem: "length mem < 2 ^ 32"
    and out: "length (ctx_varbinds ctx) = SNMP_MAX_VARBINDS" "\<forall>vb \<in> set (ctx_varbinds ctx). vb_value vb = UZero"
    and d: "depth + 3 \<le> BER_MAX_NEST_DEPTH"
  shows "snmp_decode_request_pdu mem p len depth ctx =
    Some (Inr (ctx\<lparr>ctx_pdu_tag := tag, ctx_request_id := rid, ctx_error_status := es,
      ctx_error_index := ei, ctx_varbinds := vbs @ drop (length vbs) (ctx_varbinds ctx),
      ctx_varbind_count := length vbs\<rparr>))"
proof -
  obtain l where l: "varbind_list_bytes vbs = Some l"
    using b by (auto simp: pdu_bytes_def)
  let ?r = "int_bytes rid" and ?s = "int_bytes es" and ?i = "int_bytes ei"
  let ?c = "?r @ ?s @ ?i @ l"
  have bs: "bs = ber_tlv_bytes tag ?c" using b l by (simp add: pdu_bytes_def)
  have "length ?c < 2 ^ 32"
    by (rule le_less_trans [OF length_content_lt holds_at_length [OF h [unfolded bs] mem]])
  then have pdu: "ber_decode_tlv mem p len depth = Some (Inr (tlv_at tag p ?c))"
    using h len d by (intro ber_decode_tlv_bytes) (simp_all add: bs)
  let ?p0 = "tlv_value (tlv_at tag p ?c)"
  have c: "holds_at mem ?p0 ?c" using h unfolding bs by (rule holds_at_content)
  then have f: "holds_at mem ?p0 ?r" "holds_at mem (?p0 + length ?r) ?s"
      "holds_at mem (?p0 + length ?r + length ?s) ?i"
      "holds_at mem (?p0 + length ?r + length ?s + length ?i) l"
    by (simp_all add: holds_at_append add.assoc)
  have d1: "depth + 1 \<le> BER_MAX_NEST_DEPTH" using d by simp
  have "snmp_decode_varbind_list mem (?p0 + length ?r + length ?s + length ?i) (length l) (depth + 1)
      (ctx_varbinds ctx) SNMP_MAX_VARBINDS =
      Some (Inr (vbs @ drop (length vbs) (ctx_varbinds ctx), length vbs))"
    using snmp_decode_varbind_list_bytes [OF vbs(1) l f(4) le_refl mem _ out(2), of "depth + 1"] vbs(2) out(1) d
    by simp
  then show ?thesis
    using pdu tag integer_field [OF f(1) _ d1, of "length ?c"]
      integer_field [OF f(2) _ d1, of "length ?c - length ?r"]
      integer_field [OF f(3) _ d1, of "length ?c - length ?r - length ?s"]
    by (auto simp: snmp_decode_request_pdu_def Let_def)
qed

end
