(* ===== verification/Snmp_Security_Correct.thy ===== *)
theory Snmp_Security_Correct
  imports Snmp_Security Snmp_Codec_Safe Snmp_Codec_Roundtrip
begin

text \<open>
  The contract that the message layer relies on when it calls a security model, as a locale that both
  models implement; the wire format of a whole message; and the table of models.
\<close>

section \<open>The contract of a security model\<close>

definition communities_ok :: "communities \<Rightarrow> bool" where
  "communities_ok cs \<longleftrightarrow> 0 \<in> set (s_ro_community cs) \<and> 0 \<in> set (s_rw_community cs)"

abbreviation request_tags :: "u8 set" where
  "request_tags \<equiv> {SNMP_PDU_GET_REQUEST, SNMP_PDU_GET_NEXT_REQUEST, SNMP_PDU_SET_REQUEST, SNMP_PDU_GET_BULK_REQUEST}"

locale security_model =
  fixes model :: snmp_security_model
  assumes incoming_safe: "communities_ok cs \<Longrightarrow> len \<le> length msg \<Longrightarrow> ctx_ok ctx \<Longrightarrow>
      returns (process_incoming model cs msg len depth ctx) (\<lambda>ctx'. ctx_ok ctx' \<and> ctx_pdu_tag ctx' \<in> request_tags)"
    and outgoing_safe: "ctx_ok ctx \<Longrightarrow> cap \<le> length out \<Longrightarrow> length out < 2 ^ 32 \<Longrightarrow>
      returns (prepare_outgoing model ctx out cap) (\<lambda>r. 0 < length r \<and> length r \<le> cap)"

section \<open>The wire format of a message\<close>

definition message_bytes :: "snmp_version \<Rightarrow> u8 list \<Rightarrow> u8 list \<Rightarrow> u8 list" where
  "message_bytes version community pdu = ber_tlv_bytes BER_TAG_SEQUENCE
     (int_bytes (version_code version) @ ber_tlv_bytes BER_TAG_OCTET_STRING community @ pdu)"

text \<open>The bytes of the response to a context.\<close>

definition response_bytes :: "snmp_pdu_ctx \<Rightarrow> u8 list option" where
  "response_bytes ctx = map_option (message_bytes (ctx_version ctx) (c_string (ctx_principal ctx)))
     (pdu_bytes (ctx_pdu_tag ctx) (ctx_request_id ctx) (ctx_error_status ctx) (ctx_error_index ctx)
       (live_varbinds ctx))"

lemma emits_octet_prefix:
  assumes "n \<le> length bs"
  shows "emits (ber_encode_octet_string (Some bs) n) (Some (ber_tlv_bytes BER_TAG_OCTET_STRING (take n bs)))"
proof -
  have "ber_encode_prepend_bytes (Some bs) n = ber_encode_prepend_bytes (Some (take n bs)) n"
    using assms by (simp add: ber_encode_prepend_bytes_def fun_eq_iff Let_def)
  then show ?thesis using emits_octet_string [of "take n bs" n] assms by (simp add: ber_encode_octet_string_def)
qed

text \<open>
  Any PDU, then the community, the version and the header of the message: what \<open>prepare_outgoing\<close> and
  the trap builder have in common.
\<close>

lemma emits_envelope:
  assumes pdu: "emits m sp" and nul: "0 \<in> set community"
  shows "emits (\<lambda>s. andthen (andthen m (andthen (with_member (c_strlen community)
             (\<lambda>n. ber_encode_octet_string (Some community) n)) (ber_encode_integer (version_code version))))
       (\<lambda>s'. ber_encode_prepend_tlv_header BER_TAG_SEQUENCE (ecursor s - ecursor s') s') s)
     (map_option (message_bytes version (c_string community)) sp)"
proof -
  have "length (c_string community) \<le> length community" by (simp add: c_string_def length_takeWhile_le)
  from emits_octet_prefix [OF this] have comm: "emits (with_member (c_strlen community)
      (\<lambda>n. ber_encode_octet_string (Some community) n)) (Some (ber_tlv_bytes BER_TAG_OCTET_STRING (c_string community)))"
    by (simp add: c_strlen_Some [OF nul] take_c_string with_member_def [abs_def])
  from emits_container [OF emits_andthen [OF pdu emits_andthen [OF comm emits_integer [of "version_code version"]]],
      of BER_TAG_SEQUENCE]
  show ?thesis
    by (simp add: message_bytes_def [abs_def] in_front_def option.map_comp comp_def split: option.splits)
qed

lemma envelope_runs:
  assumes pdu: "emits m sp" and nul: "0 \<in> set community" and "cap \<le> length out" and "length out < 2 ^ 32"
  obtains st e where "andthen m (andthen (with_member (c_strlen community)
        (\<lambda>n. ber_encode_octet_string (Some community) n)) (andthen (ber_encode_integer (version_code version))
          (\<lambda>e. ber_encode_container_header BER_TAG_SEQUENCE (cap - ecursor e) e))) \<lparr>ebuf = out, ecursor = cap\<rparr> = Some (st, e)"
    "st = BER_OK \<Longrightarrow> \<exists>bs. map_option (message_bytes version (c_string community)) sp = Some bs \<and>
       length bs \<le> cap \<and> rd_bytes (ebuf e) (ecursor e) (cap - ecursor e) = Some bs"
    "st \<noteq> BER_OK \<Longrightarrow> \<forall>bs. map_option (message_bytes version (c_string community)) sp = Some bs \<longrightarrow> cap < length bs"
proof -
  let ?s = "\<lparr>ebuf = out, ecursor = cap\<rparr>"
  have ok: "enc_ok ?s" using assms(3,4) by (simp add: enc_ok_def)
  from emits_envelope [OF pdu nul, of version] ok obtain st e where
    e: "andthen (andthen m (andthen (with_member (c_strlen community)
             (\<lambda>n. ber_encode_octet_string (Some community) n)) (ber_encode_integer (version_code version))))
       (\<lambda>s'. ber_encode_prepend_tlv_header BER_TAG_SEQUENCE (ecursor ?s - ecursor s') s') ?s = Some (st, e)"
    "st = BER_OK \<longrightarrow> (\<exists>bs. map_option (message_bytes version (c_string community)) sp = Some bs \<and>
       length bs \<le> ecursor ?s \<and> e = put bs ?s)"
    "st \<noteq> BER_OK \<longrightarrow> (\<forall>bs. map_option (message_bytes version (c_string community)) sp = Some bs \<longrightarrow>
       ecursor ?s < length bs)"
    by (rule emitsE)
  have read: "rd_bytes (ebuf (put bs ?s)) (ecursor (put bs ?s)) (cap - ecursor (put bs ?s)) = Some bs"
    if "length bs \<le> cap" for bs
    using holds_at_rd_bytes [OF put_holds_at [OF ok, of bs]] that by simp
  show ?thesis
    by (rule that [of st e])
      (use e read in \<open>auto simp: ber_encode_container_header_def andthen_assoc simp del: map_option_eq_Some\<close>)
qed

text \<open>\<open>prepare_outgoing\<close> sends exactly the bytes of the response, or nothing when they do not fit.\<close>

lemma emits_response_ctx:
  assumes "ctx_ok ctx"
  shows "emits (snmp_encode_response_shaped_pdu (ctx_pdu_tag ctx) (ctx_request_id ctx)
      (ctx_error_status ctx) (ctx_error_index ctx) (ctx_varbinds ctx) (ctx_varbind_count ctx))
    (pdu_bytes (ctx_pdu_tag ctx) (ctx_request_id ctx) (ctx_error_status ctx) (ctx_error_index ctx) (live_varbinds ctx))"
  unfolding live_varbinds_def using assms by (intro emits_response_pdu) (auto simp: ctx_ok_def dest: in_set_takeD)

lemma community_outgoing:
  assumes "ctx_ok ctx" and "cap \<le> length out" and "length out < 2 ^ 32"
  shows "\<exists>r. community_prepare_outgoing ctx out cap = Some r \<and>
    (case r of Inl e \<Rightarrow> e \<noteq> BER_OK \<and> (\<forall>bs. response_bytes ctx = Some bs \<longrightarrow> cap < length bs)
     | Inr bs \<Rightarrow> response_bytes ctx = Some bs \<and> length bs \<le> cap)"
proof -
  have nul: "0 \<in> set (ctx_principal ctx)" using assms(1) by (simp add: ctx_ok_def)
  show ?thesis
    by (rule envelope_runs [OF emits_response_ctx [OF assms(1)] nul assms(2,3), of "ctx_version ctx"])
      (fastforce simp: community_prepare_outgoing_def response_bytes_def
        simp del: map_option_eq_Some split: if_splits)
qed

lemma message_bytes_nonempty: "0 < length (message_bytes version community pdu)"
  by (simp add: message_bytes_def ber_tlv_bytes_def)

section \<open>Both models implement the contract\<close>

lemma c_streq_total: "0 \<in> set a \<Longrightarrow> 0 \<in> set b \<Longrightarrow> c_streq a b = Some (c_string a = c_string b)"
  by (simp add: c_streq_def)

lemma tlv_rest_within:
  "tlv_within p (p + len) t \<Longrightarrow> p + len \<le> n \<Longrightarrow> tlv_next t + (len - (tlv_next t - p)) \<le> n"
  by (auto simp: tlv_within_def)

lemma community_branch:
  assumes "0 \<in> set a" and cs: "communities_ok cs" and D: "\<And>m. returns (D m) Q"
  shows "returns (do {
       is_rw \<leftarrow> c_streq a (s_rw_community cs);
       is_ro \<leftarrow> (if is_rw then Some False else c_streq a (s_ro_community cs));
       if is_rw then D SNMP_ACCESS_READWRITE else if is_ro then D SNMP_ACCESS_READ else Some (Inl BER_ERR_BAD_ARGS)
     }) Q"
  using assms by (auto simp: communities_ok_def c_streq_total)

lemma community_incoming_safe:
  assumes cs: "communities_ok cs" and len: "len \<le> length msg" and ctx: "ctx_ok ctx"
  shows "returns (community_process_incoming cs msg len depth ctx)
    (\<lambda>ctx'. ctx_ok ctx' \<and> ctx_pdu_tag ctx' \<in> request_tags)"
  unfolding community_process_incoming_def Let_def
proof (rule returns_chk [OF ber_expect_tag_safe], goal_cases)
  case 1
  then show ?case using len by simp
next
  case (2 top)
  then have top: "tlv_value top + tlv_length top \<le> length msg" using len by (auto simp: tlv_within_def)
  show ?case
  proof (rule integer_field_safe [OF top], rule returns_chk [OF ber_expect_tag_safe], assumption, goal_cases)
    case (1 version_tlv version_raw community_tlv)
    let ?p1 = "tlv_next version_tlv"
    let ?r1 = "tlv_length top - (?p1 - tlv_value top)"
    have c: "tlv_within ?p1 (?p1 + ?r1) community_tlv" using 1 by blast
    have comm: "tlv_value community_tlv + tlv_length community_tlv \<le> length msg"
      using c 1(1) by (auto simp: tlv_within_def)
    have rest: "tlv_next community_tlv + (?r1 - (tlv_next community_tlv - ?p1)) \<le> length msg"
      by (rule tlv_rest_within [OF c 1(1)])
    show ?case
    proof (rule returns_chk [OF ber_decode_octet_string_safe [OF comm]], goal_cases)
      case (1 community)
      let ?buf = "community @ [0]"
      define D where "D = (\<lambda>m. snmp_decode_request_pdu msg (tlv_next community_tlv)
        (?r1 - (tlv_next community_tlv - ?p1)) (depth + 1)
        (ctx\<lparr>ctx_version := if version_raw = version_code SNMP_VERSION_V2C then SNMP_VERSION_V2C else SNMP_VERSION_V1,
          ctx_principal := ?buf @ drop (length ?buf) (ctx_principal ctx), ctx_access_mode := m\<rparr>))"
      have "returns (D m) (\<lambda>ctx'. ctx_ok ctx' \<and> ctx_pdu_tag ctx' \<in> request_tags)" for m
      proof -
        have "ctx_ok (ctx\<lparr>ctx_version := if version_raw = version_code SNMP_VERSION_V2C then SNMP_VERSION_V2C else SNMP_VERSION_V1,
          ctx_principal := ?buf @ drop (length ?buf) (ctx_principal ctx), ctx_access_mode := m\<rparr>)"
          using ctx 1(2) by (simp add: ctx_ok_def)
        from snmp_decode_request_pdu_safe [OF rest this, of "depth + 1"] show ?thesis
          unfolding D_def by (rule returns_mono) simp
      qed
      from community_branch [of ?buf cs D, OF _ cs this] show ?case
        unfolding D_def by simp
    qed
  qed
qed

interpretation community: security_model s_community_model
proof
  fix cs :: communities and len depth :: nat and msg :: "u8 list" and ctx :: snmp_pdu_ctx
  assume "communities_ok cs" "len \<le> length msg" "ctx_ok ctx"
  then show "returns (process_incoming s_community_model cs msg len depth ctx)
      (\<lambda>ctx'. ctx_ok ctx' \<and> ctx_pdu_tag ctx' \<in> request_tags)"
    using community_incoming_safe by (simp add: s_community_model_def)
next
  fix ctx :: snmp_pdu_ctx and cap :: nat and out :: "u8 list"
  assume "ctx_ok ctx" "cap \<le> length out" "length out < 2 ^ 32"
  from community_outgoing [OF this] show "returns (prepare_outgoing s_community_model ctx out cap)
      (\<lambda>r. 0 < length r \<and> length r \<le> cap)"
    using message_bytes_nonempty
    by (auto simp: s_community_model_def returns_def response_bytes_def split: sum.splits)
qed

lemma usm_incoming_safe:
  assumes "len \<le> length msg"
  shows "returns (usm_process_incoming cs msg len depth ctx) (\<lambda>_. False)"
  unfolding usm_process_incoming_def Let_def
proof (rule returns_chk [OF ber_expect_tag_safe], goal_cases)
  case 1
  then show ?case using assms by simp
next
  case (2 top)
  then have top: "tlv_value top + tlv_length top \<le> length msg" using assms by (auto simp: tlv_within_def)
  show ?case
  proof (rule returns_chk [OF ber_expect_tag_safe [OF top]], elim conjE)
    fix v assume v: "tlv_within (tlv_value top) (tlv_value top + tlv_length top) v"
    show "returns (chk (ber_expect_tag msg (tlv_next v) (tlv_length top - (tlv_next v - tlv_value top)) (depth + 1)
        BER_TAG_SEQUENCE) (\<lambda>_. Some (Inl BER_ERR_BAD_ARGS))) (\<lambda>_. False)"
      by (rule returns_chk [OF ber_expect_tag_safe [OF tlv_rest_within [OF v top]]]) simp
  qed
qed

interpretation usm_stub: security_model s_usm_stub_model
proof
  fix cs :: communities and len depth :: nat and msg :: "u8 list" and ctx :: snmp_pdu_ctx
  assume "len \<le> length msg"
  then show "returns (process_incoming s_usm_stub_model cs msg len depth ctx)
      (\<lambda>ctx'. ctx_ok ctx' \<and> ctx_pdu_tag ctx' \<in> request_tags)"
    using usm_incoming_safe [of len msg cs depth ctx] by (simp add: s_usm_stub_model_def returns_mono)
qed (simp add: s_usm_stub_model_def usm_prepare_outgoing_def)

section \<open>The table of models\<close>

lemma overwrite_slot_cases:
  "overwrite_slot v m slots = None \<Longrightarrow> v \<notin> fst ` set slots"
  "overwrite_slot v m slots = Some slots' \<Longrightarrow> v \<in> fst ` set slots \<and> length slots' = length slots \<and>
     map_of slots' = (map_of slots)(v \<mapsto> m)"
proof (induction slots arbitrary: slots')
  case Nil
  { case 1 then show ?case by simp }
  { case 2 then show ?case by simp }
next
  case (Cons s slots)
  { case 1 with Cons.IH(1) show ?case by (cases s) (auto split: if_splits) }
  { case 2
    with Cons.IH(2) show ?case
      by (cases s) (auto split: if_splits simp: fun_upd_twist fun_eq_iff) }
qed

lemma security_lookup_map: "snmp_security_lookup sec v = map_of (s_slots sec) v"
proof -
  have "map_option snd (List.find (\<lambda>(w, m). w = v) slots) = map_of slots v" for slots :: "(i32 \<times> snmp_security_model) list"
    by (induction slots) auto
  then show ?thesis by (simp add: snmp_security_lookup_def)
qed

lemma security_register_lookup:
  assumes "snmp_security_register v m sec = (st, sec')"
  shows "(if st = BER_OK then snmp_security_lookup sec' = (snmp_security_lookup sec)(v \<mapsto> m)
      else st = BER_ERR_OVERFLOW \<and> sec' = sec \<and> snmp_security_lookup sec v = None \<and>
        SNMP_SECURITY_MAX_MODELS \<le> length (s_slots sec)) \<and>
    s_communities sec' = s_communities sec"
proof (cases "overwrite_slot v m (s_slots sec)")
  case None
  then have new: "map_of (s_slots sec) v = None"
    using overwrite_slot_cases(1) by (simp add: map_of_eq_None_iff)
  then have "map_of (s_slots sec @ [(v, m)]) = (map_of (s_slots sec))(v \<mapsto> m)"
    by (auto simp: fun_eq_iff map_add_def split: option.splits)
  with None new assms show ?thesis
    by (auto simp: snmp_security_register_def security_lookup_map fun_eq_iff split: if_splits)
next
  case (Some slots)
  with overwrite_slot_cases(2) [OF Some] assms show ?thesis
    by (auto simp: snmp_security_register_def security_lookup_map fun_eq_iff)
qed

end
