(* ===== verification/Snmp_Pdu_Get_Correct.thy ===== *)
theory Snmp_Pdu_Get_Correct
  imports Snmp_Pdu_Get Mib_Backend
begin

text \<open>
  The read handlers over any registry that keeps the contract \<open>mib_reads\<close>: always defined, they keep
  the invariant of the device and leave a well-formed response context. Over a settled backend their
  lookups are membership and successor in the set of instances.
\<close>

section \<open>Contexts\<close>

text \<open>What a handler may change of the context: the varbinds and the error fields.\<close>

definition same_request :: "snmp_pdu_ctx \<Rightarrow> snmp_pdu_ctx \<Rightarrow> bool" where
  "same_request ctx ctx' \<longleftrightarrow>
     ctx_version ctx' = ctx_version ctx \<and> ctx_request_id ctx' = ctx_request_id ctx \<and>
     ctx_access_mode ctx' = ctx_access_mode ctx \<and> ctx_principal ctx' = ctx_principal ctx"

text \<open>
  A handler under an invariant of the device: it returns, a success is a well-formed GetResponse to the
  request, and a failure leaves the request as it was.
\<close>

definition handler_ok ::
  "('s \<Rightarrow> bool) \<Rightarrow> (snmp_pdu_ctx \<Rightarrow> 's \<Rightarrow> ((ber_status \<times> snmp_pdu_ctx) \<times> 's) option) \<Rightarrow> bool" where
  "handler_ok I h \<longleftrightarrow> (\<forall>ctx s. I s \<longrightarrow> ctx_ok ctx \<longrightarrow>
     (\<exists>st ctx' s'. h ctx s = Some ((st, ctx'), s') \<and> I s' \<and> ctx_ok ctx' \<and> same_request ctx ctx' \<and>
        (if st = BER_OK then ctx_pdu_tag ctx' = SNMP_PDU_GET_RESPONSE else ctx' = ctx)))"

lemma handler_okI:
  assumes "\<And>ctx s. I s \<Longrightarrow> ctx_ok ctx \<Longrightarrow>
     \<exists>st ctx' s'. h ctx s = Some ((st, ctx'), s') \<and> I s' \<and> ctx_ok ctx' \<and> same_request ctx ctx' \<and>
        (if st = BER_OK then ctx_pdu_tag ctx' = SNMP_PDU_GET_RESPONSE else ctx' = ctx)"
  shows "handler_ok I h"
  using assms unfolding handler_ok_def by blast

lemma handler_okE:
  assumes "handler_ok I h" and "I s" and "ctx_ok ctx"
  obtains st ctx' s' where "h ctx s = Some ((st, ctx'), s')" "I s'" "ctx_ok ctx'" "same_request ctx ctx'"
    "if st = BER_OK then ctx_pdu_tag ctx' = SNMP_PDU_GET_RESPONSE else ctx' = ctx"
  using assms unfolding handler_ok_def by blast

text \<open>The varbinds of a context.\<close>

definition vbs_ok :: "snmp_varbind list \<Rightarrow> bool" where
  "vbs_ok vbs \<longleftrightarrow> (\<forall>vb \<in> set vbs. vb_ok vb)"

lemma vbs_ok_nth [intro]: "vbs_ok vbs \<Longrightarrow> i < length vbs \<Longrightarrow> vb_ok (vbs ! i)"
  by (simp add: vbs_ok_def)

lemma vbs_ok_update [intro]: "vbs_ok vbs \<Longrightarrow> vb_ok vb \<Longrightarrow> vbs_ok (vbs[i := vb])"
  using set_update_subset_insert [of vbs i vb] by (auto simp: vbs_ok_def)

lemma ctx_ok_vbs:
  "ctx_ok ctx \<Longrightarrow> vbs_ok (ctx_varbinds ctx) \<and> length (ctx_varbinds ctx) = SNMP_MAX_VARBINDS \<and>
     ctx_varbind_count ctx \<le> SNMP_MAX_VARBINDS"
  by (simp add: ctx_ok_def vbs_ok_def)

lemma ctx_ok_response:
  "ctx_ok ctx \<Longrightarrow> vbs_ok vbs \<Longrightarrow> length vbs = SNMP_MAX_VARBINDS \<Longrightarrow>
   ctx_ok (ctx\<lparr>ctx_varbinds := vbs, ctx_pdu_tag := tag, ctx_error_status := e, ctx_error_index := x\<rparr>)"
  "ctx_ok ctx \<Longrightarrow> ctx_ok (ctx\<lparr>ctx_pdu_tag := tag, ctx_error_status := e, ctx_error_index := x\<rparr>)"
  by (simp_all add: ctx_ok_def vbs_ok_def)

text \<open>The value of a varbind that becomes an exception.\<close>

lemma vb_ok_exception:
  "vb_ok vb \<Longrightarrow> tag \<in> {0, SNMP_TAG_NO_SUCH_OBJECT, SNMP_TAG_NO_SUCH_INSTANCE, SNMP_TAG_END_OF_MIB_VIEW} \<Longrightarrow>
   vb_ok (vb\<lparr>vb_tag := tag, vb_value := UOctets []\<rparr>)"
  by (auto simp: vb_ok_def value_ok_def)

lemma vb_ok_oid: "vb_ok vb \<Longrightarrow> length x \<le> BER_MAX_OID_LEN \<Longrightarrow> vb_ok (vb\<lparr>vb_oid := x\<rparr>)"
  by (simp add: vb_ok_def)

section \<open>Totality\<close>

context mib_reads
begin

lemma fetch_total:
  assumes "resolved_from reg out" and "I s" and "vb_ok vb"
  shows "\<exists>r vb' s'. mib_resolved_get out (vb\<lparr>vb_oid := rs_oid out\<rparr>) s = Some ((r, vb'), s') \<and> I s' \<and>
    vb_ok vb' \<and> vb_oid vb' = rs_oid out \<and> (r = MIB_OK \<longrightarrow> vb_tag vb' = rs_value_tag out)"
proof -
  have "vb_ok (vb\<lparr>vb_oid := rs_oid out\<rparr>)"
    by (rule vb_ok_oid [OF assms(3) resolved_from_length [OF walks assms(1)]])
  from get_total [OF assms(1,2) this] show ?thesis by (metis snmp_varbind.select_convs(1) snmp_varbind.surjective snmp_varbind.update_convs(1))
qed

lemma lookup_step_total:
  assumes "I s"
  shows "\<exists>r s'. (if mode = LOOKUP_EXACT then mib_registry_resolve reg oid s
      else mib_registry_resolve_next reg oid s) = Some (r, s') \<and> I s' \<and>
     (case r of Inl e \<Rightarrow> e \<in> {MIB_NO_SUCH_OBJECT, MIB_NO_SUCH_INSTANCE, MIB_END_OF_VIEW}
      | Inr out \<Rightarrow> resolved_from reg out \<and> (if mode = LOOKUP_EXACT then rs_oid out = oid else oid < rs_oid out))"
proof (cases "mode = LOOKUP_EXACT")
  case True
  from resolve_total [OF walks assms, of oid] obtain r s' where
    "mib_registry_resolve reg oid s = Some (r, s')" "I s'"
    "case r of Inl e \<Rightarrow> e = MIB_NO_SUCH_OBJECT \<or> e = MIB_NO_SUCH_INSTANCE
     | Inr out \<Rightarrow> rs_oid out = oid \<and> resolved_from reg out" by blast
  with True show ?thesis by (cases r) auto
next
  case False
  from resolve_next_total [OF walks assms, of oid] obtain r s' where
    "mib_registry_resolve_next reg oid s = Some (r, s')" "I s'"
    "case r of Inl e \<Rightarrow> e = MIB_END_OF_VIEW | Inr out \<Rightarrow> oid < rs_oid out \<and> resolved_from reg out" by blast
  with False show ?thesis by (cases r) auto
qed

text \<open>One turn of the loop that fetches what it resolved.\<close>

lemma lookup_loop_fetches:
  assumes "(if mode = LOOKUP_EXACT then mib_registry_resolve reg current s else mib_registry_resolve_next reg current s) =
      Some (Inr out, s1)" and "I s1" and "resolved_from reg out" and "vb_ok out_vb"
    and fetch: "\<not> (version = SNMP_VERSION_V1 \<and> rs_value_tag out = SNMP_TAG_COUNTER64)"
  shows "\<exists>r vb s'. lookup_loop (Suc guard) reg version mode current out_vb s = Some ((r, vb), s') \<and> I s' \<and> vb_ok vb \<and>
    vb_oid vb = rs_oid out \<and> (r = MIB_OK \<longrightarrow> version = SNMP_VERSION_V1 \<longrightarrow> vb_tag vb \<noteq> SNMP_TAG_COUNTER64)"
proof -
  from fetch_total [OF assms(3,2,4)]
  obtain r' vb s' where get: "mib_resolved_get out (out_vb\<lparr>vb_oid := rs_oid out\<rparr>) s1 = Some ((r', vb), s')"
    "I s'" "vb_ok vb" "vb_oid vb = rs_oid out" "r' = MIB_OK \<longrightarrow> vb_tag vb = rs_value_tag out" by blast
  have "lookup_loop (Suc guard) reg version mode current out_vb s = Some ((r', vb), s')"
    using assms(1) fetch get(1) by auto
  with get fetch show ?thesis by auto
qed

lemma lookup_loop_total:
  assumes "I s" and "vb_ok out_vb"
  shows "\<exists>r vb s'. lookup_loop guard reg version mode current out_vb s = Some ((r, vb), s') \<and> I s' \<and> vb_ok vb \<and>
     (r = MIB_OK \<longrightarrow> (if mode = LOOKUP_EXACT then vb_oid vb = current else current < vb_oid vb) \<and>
        (version = SNMP_VERSION_V1 \<longrightarrow> vb_tag vb \<noteq> SNMP_TAG_COUNTER64))"
  using assms
proof (induction guard arbitrary: current s)
  case (Suc guard)
  obtain r s1 where step: "(if mode = LOOKUP_EXACT then mib_registry_resolve reg current s
      else mib_registry_resolve_next reg current s) = Some (r, s1)" "I s1"
     "case r of Inl e \<Rightarrow> e \<in> {MIB_NO_SUCH_OBJECT, MIB_NO_SUCH_INSTANCE, MIB_END_OF_VIEW}
      | Inr out \<Rightarrow> resolved_from reg out \<and>
          (if mode = LOOKUP_EXACT then rs_oid out = current else current < rs_oid out)"
    using lookup_step_total [OF Suc.prems(1)] by blast
  show ?case
  proof (cases r)
    case (Inl e)
    with step Suc.prems(2) show ?thesis by auto
  next
    case (Inr out)
    with step(3) have out: "resolved_from reg out"
      "if mode = LOOKUP_EXACT then rs_oid out = current else current < rs_oid out" by simp_all
    consider (fetch) "\<not> (version = SNMP_VERSION_V1 \<and> rs_value_tag out = SNMP_TAG_COUNTER64)"
      | (miss) "version = SNMP_VERSION_V1" "rs_value_tag out = SNMP_TAG_COUNTER64" "mode = LOOKUP_EXACT"
      | (skip) "version = SNMP_VERSION_V1" "rs_value_tag out = SNMP_TAG_COUNTER64" "mode \<noteq> LOOKUP_EXACT" by blast
    then show ?thesis
    proof cases
      case fetch
      from lookup_loop_fetches [OF step(1) [unfolded Inr] step(2) out(1) Suc.prems(2) fetch, of guard] out(2)
      show ?thesis by fastforce
    next
      case miss
      with step Inr Suc.prems(2) show ?thesis by auto
    next
      case skip
      from Suc.IH [OF step(2) Suc.prems(2), of "rs_oid out"] skip
      obtain r' vb s' where rec: "lookup_loop guard reg version mode (rs_oid out) out_vb s1 = Some ((r', vb), s')"
        "I s'" "vb_ok vb" "r' = MIB_OK \<longrightarrow> rs_oid out < vb_oid vb \<and> vb_tag vb \<noteq> SNMP_TAG_COUNTER64" by auto
      have "lookup_loop (Suc guard) reg version mode current out_vb s = Some ((r', vb), s')"
        using step(1) Inr skip rec(1) by simp
      moreover have "current < vb_oid vb" if "rs_oid out < vb_oid vb" using out(2) skip(3) that by simp
      ultimately show ?thesis using rec skip(3) by auto
    qed
  qed
qed simp

lemma lookup_and_fetch_total:
  assumes "I s" and "vb_ok out_vb"
  shows "\<exists>r vb s'. lookup_and_fetch reg version mode req out_vb s = Some ((r, vb), s') \<and> I s' \<and> vb_ok vb \<and>
     (r = MIB_OK \<longrightarrow> (if mode = LOOKUP_EXACT then vb_oid vb = vb_oid req else vb_oid req < vb_oid vb) \<and>
        (version = SNMP_VERSION_V1 \<longrightarrow> vb_tag vb \<noteq> SNMP_TAG_COUNTER64))"
  unfolding lookup_and_fetch_def by (rule lookup_loop_total [OF assms])

lemma v1_probe_total:
  assumes "I s" and "vbs_ok vbs" and "i + n \<le> length vbs"
  shows "\<exists>f s'. v1_probe reg mode vbs n i s = Some (f, s') \<and> I s' \<and>
    (\<forall>e x. f = Some (e, x) \<longrightarrow> e \<noteq> SNMP_V1_ERR_NO_ERROR \<and> (\<exists>k. i \<le> k \<and> k < i + n \<and> x = word_of_nat (k + 1)))"
  using assms
proof (induction n arbitrary: i s)
  case 0
  then show ?case by simp
next
  case (Suc n)
  obtain r vb s1 where fetch: "lookup_and_fetch reg SNMP_VERSION_V1 mode (vbs ! i) vb_zero s = Some ((r, vb), s1)" "I s1"
    using lookup_and_fetch_total [OF Suc.prems(1), of vb_zero] by fastforce
  show ?case
  proof (cases "pdu_level_abort (snmp_error_translate SNMP_VERSION_V1 r)")
    case True
    with fetch Suc.prems(3) translate_abort_status [OF True] show ?thesis
      by (auto simp: Let_def intro!: exI [of _ i])
  next
    case False
    from Suc.IH [OF fetch(2) Suc.prems(2), of "i + 1"] Suc.prems(3)
    obtain f s' where rec: "v1_probe reg mode vbs n (i + 1) s1 = Some (f, s')" "I s'"
      "\<forall>e x. f = Some (e, x) \<longrightarrow> e \<noteq> SNMP_V1_ERR_NO_ERROR \<and>
         (\<exists>k. i + 1 \<le> k \<and> k < i + 1 + n \<and> x = word_of_nat (k + 1))" by auto
    have "v1_probe reg mode vbs (Suc n) i s = Some (f, s')"
      using fetch(1) False rec(1) Suc.prems(3) by (simp add: Let_def)
    moreover have "\<exists>k. i \<le> k \<and> k < i + Suc n \<and> x = word_of_nat (k + 1)"
      if "\<exists>k. i + 1 \<le> k \<and> k < i + 1 + n \<and> x = word_of_nat (k + 1)" for x :: i32
    proof -
      from that obtain k where "i + 1 \<le> k" "k < i + 1 + n" "x = word_of_nat (k + 1)" by blast
      then show ?thesis by (intro exI [of _ k]) simp
    qed
    ultimately show ?thesis using rec(2,3) by blast
  qed
qed

lemma v1_commit_total:
  assumes "I s" and "vbs_ok vbs" and "i + n \<le> length vbs"
  shows "\<exists>vbs' s'. v1_commit reg mode vbs n i s = Some (vbs', s') \<and> I s' \<and> vbs_ok vbs' \<and> length vbs' = length vbs"
  using assms
proof (induction n arbitrary: i s vbs)
  case 0
  then show ?case by simp
next
  case (Suc n)
  have "vb_ok (vbs ! i)" using Suc.prems by auto
  from lookup_and_fetch_total [OF Suc.prems(1) this]
  obtain r vb s1 where fetch:
    "lookup_and_fetch reg SNMP_VERSION_V1 mode (vbs ! i) (vbs ! i) s = Some ((r, vb), s1)" "I s1" "vb_ok vb"
    by blast
  have "vbs_ok (vbs[i := vb])" by (rule vbs_ok_update [OF Suc.prems(2) fetch(3)])
  from Suc.IH [OF fetch(2) this, of "i + 1"] fetch(1) Suc.prems(3) show ?case by auto
qed

lemma v2c_read_total:
  assumes "I s" and "vbs_ok vbs" and "i + n \<le> length vbs"
  shows "\<exists>vbs' f s'. v2c_read reg version mode vbs n i s = Some ((vbs', f), s') \<and> I s' \<and> vbs_ok vbs' \<and>
    length vbs' = length vbs"
  using assms
proof (induction n arbitrary: i s vbs)
  case 0
  then show ?case by simp
next
  case (Suc n)
  have vb: "vb_ok (vbs ! i)" using Suc.prems by auto
  obtain r scratch s1 where fetch:
    "lookup_and_fetch reg version mode (vbs ! i) vb_zero s = Some ((r, scratch), s1)" "I s1" "vb_ok scratch"
    using lookup_and_fetch_total [OF Suc.prems(1), of vb_zero] by fastforce
  let ?tr = "snmp_error_translate version r"
  let ?vb = "if v2c_exception_tag ?tr \<noteq> 0
     then (vbs ! i)\<lparr>vb_tag := v2c_exception_tag ?tr, vb_value := UOctets []\<rparr> else scratch"
  have "vb_ok ?vb" using vb_ok_exception [OF vb translate_exception_cases] fetch(3) by simp
  then have upd: "vbs_ok (vbs[i := ?vb])" by (rule vbs_ok_update [OF Suc.prems(2)])
  show ?case
  proof (cases "pdu_level_abort ?tr")
    case True
    with fetch Suc.prems show ?thesis by (simp add: Let_def)
  next
    case False
    have "v2c_read reg version mode vbs (Suc n) i s = v2c_read reg version mode (vbs[i := ?vb]) n (i + 1) s1"
      using fetch(1) Suc.prems(3) False by (simp add: Let_def)
    with Suc.IH [OF fetch(2) upd, of "i + 1"] Suc.prems(3) show ?thesis by simp
  qed
qed

theorem process_read_ok: "handler_ok I (\<lambda>ctx. process_read_pdu reg ctx mode)"
proof (rule handler_okI)
  fix ctx s assume s: "I s" "ctx_ok ctx"
  note vbs = ctx_ok_vbs [OF s(2)]
  let ?vbs = "ctx_varbinds ctx" and ?n = "ctx_varbind_count ctx"
  have len: "0 + ?n \<le> length ?vbs" using vbs by simp
  show "\<exists>st ctx' s'. process_read_pdu reg ctx mode s = Some ((st, ctx'), s') \<and> I s' \<and> ctx_ok ctx' \<and>
    same_request ctx ctx' \<and> (if st = BER_OK then ctx_pdu_tag ctx' = SNMP_PDU_GET_RESPONSE else ctx' = ctx)"
  proof (cases "ctx_version ctx = SNMP_VERSION_V1")
    case True
    from v1_probe_total [OF s(1) conjunct1 [OF vbs] len]
    obtain f s1 where probe: "v1_probe reg mode ?vbs ?n 0 s = Some (f, s1)" "I s1" by blast
    show ?thesis
    proof (cases f)
      case None
      from v1_commit_total [OF probe(2) conjunct1 [OF vbs] len]
      obtain vbs' s2 where "v1_commit reg mode ?vbs ?n 0 s1 = Some (vbs', s2)" "I s2" "vbs_ok vbs'"
        "length vbs' = length ?vbs" by blast
      with True None probe vbs s(2) show ?thesis
        by (simp add: process_read_pdu_def same_request_def ctx_ok_response)
    next
      case (Some e)
      with True probe s(2) show ?thesis
        by (cases e) (simp add: process_read_pdu_def same_request_def ctx_ok_response)
    qed
  next
    case False
    from v2c_read_total [OF s(1) conjunct1 [OF vbs] len]
    obtain vbs' f s1 where "v2c_read reg (ctx_version ctx) mode ?vbs ?n 0 s = Some ((vbs', f), s1)" "I s1"
      "vbs_ok vbs'" "length vbs' = length ?vbs" by blast
    with False vbs s(2) show ?thesis
      by (cases f) (auto simp: process_read_pdu_def same_request_def ctx_ok_response Let_def)
  qed
qed

lemma handle_get_ok: "handler_ok I (snmp_pdu_handle_get reg)"
  using process_read_ok [of LOOKUP_EXACT] by (simp add: snmp_pdu_handle_get_def [abs_def])

lemma handle_getnext_ok: "handler_ok I (snmp_pdu_handle_getnext reg)"
  using process_read_ok [of LOOKUP_NEXT] by (simp add: snmp_pdu_handle_getnext_def [abs_def])

end

end
