(* ===== verification/Snmp_Pdu_Set_Correct.thy ===== *)
theory Snmp_Pdu_Set_Correct
  imports Snmp_Pdu_Set Snmp_Pdu_Get_Correct
begin

text \<open>
  SetRequest: validation only reads, so it needs the contract \<open>mib_reads\<close> and touches no setting;
  the commit needs the setters of \<open>mib_backend\<close>.
\<close>

context mib_reads
begin

lemma set_validate_total:
  assumes "I s" and "i + n \<le> length vbs"
  shows "\<exists>f s'. set_validate reg vbs n i s = Some (f, s') \<and> I s' \<and>
    (\<forall>res k. f = Some (res, k) \<longrightarrow> i \<le> k \<and> k < i + n \<and> res \<noteq> MIB_OK)"
  using assms
proof (induction n arbitrary: i s)
  case 0
  then show ?case by simp
next
  case (Suc n)
  obtain r s1 where r: "mib_registry_resolve reg (vb_oid (vbs ! i)) s = Some (r, s1)" "I s1"
    using resolve_total [OF walks Suc.prems(1), of "vb_oid (vbs ! i)"] by blast
  let ?res = "case r of Inl e \<Rightarrow> e
       | Inr out \<Rightarrow> if rs_access out \<noteq> MIB_ACCESS_RW then MIB_NOT_WRITABLE
           else if vb_tag (vbs ! i) \<noteq> rs_value_tag out then MIB_WRONG_TYPE else MIB_OK"
  show ?case
  proof (cases "?res = MIB_OK")
    case False
    have "set_validate reg vbs (Suc n) i s = Some (Some (?res, i), s1)"
      using r(1) Suc.prems(2) False by simp
    with r(2) False show ?thesis by auto
  next
    case True
    have "set_validate reg vbs (Suc n) i s = set_validate reg vbs n (i + 1) s1"
      using r(1) Suc.prems(2) True by simp
    with Suc.IH [OF r(2), of "i + 1"] Suc.prems(2) show ?thesis by fastforce
  qed
qed

end

context mib_backend
begin

lemma set_commit_total:
  assumes "I s" and "vbs_ok vbs" and "i + n \<le> length vbs"
  shows "\<exists>f s'. set_commit reg vbs n i s = Some (f, s') \<and> I s' \<and> (\<forall>k. f = Some k \<longrightarrow> i \<le> k \<and> k < i + n)"
  using assms
proof (induction n arbitrary: i s)
  case 0
  then show ?case by simp
next
  case (Suc n)
  obtain r s1 where r: "mib_registry_resolve reg (vb_oid (vbs ! i)) s = Some (r, s1)" "I s1"
     "case r of Inl e \<Rightarrow> e = MIB_NO_SUCH_OBJECT \<or> e = MIB_NO_SUCH_INSTANCE
      | Inr out \<Rightarrow> rs_oid out = vb_oid (vbs ! i) \<and> resolved_from reg out"
    using resolve_total [OF walks Suc.prems(1), of "vb_oid (vbs ! i)"] by blast
  obtain res s2 where set: "(case r of Inl e \<Rightarrow> Some (e, s1)
      | Inr out \<Rightarrow> mib_resolved_set out (vbs ! i) s1) = Some (res, s2)" "I s2"
  proof (cases r)
    case (Inl e)
    with r(2) that show ?thesis by simp
  next
    case (Inr out)
    then have "resolved_from reg out" using r(3) by simp
    moreover have "vb_ok (vbs ! i)" using Suc.prems by auto
    ultimately obtain res s2 where "mib_resolved_set out (vbs ! i) s1 = Some (res, s2)" "I s2"
      using set_total r(2) by blast
    with Inr that show ?thesis by simp
  qed
  show ?case
  proof (cases "res = MIB_OK")
    case False
    have "set_commit reg vbs (Suc n) i s = Some (Some i, s2)"
      using r(1) set(1) Suc.prems(3) False by simp
    with set(2) show ?thesis by auto
  next
    case True
    have "set_commit reg vbs (Suc n) i s = set_commit reg vbs n (i + 1) s2"
      using r(1) set(1) Suc.prems(3) True by simp
    with Suc.IH [OF set(2) Suc.prems(2), of "i + 1"] Suc.prems(3) show ?thesis by fastforce
  qed
qed

lemma handle_set_ok: "handler_ok I (snmp_pdu_handle_set reg)"
proof (rule handler_okI)
  fix ctx s assume s: "I s" "ctx_ok ctx"
  note vbs = ctx_ok_vbs [OF s(2)]
  let ?vbs = "ctx_varbinds ctx" and ?n = "ctx_varbind_count ctx"
  have len: "0 + ?n \<le> length ?vbs" using vbs by simp
  from set_validate_total [OF s(1) len]
  obtain f s1 where val: "set_validate reg ?vbs ?n 0 s = Some (f, s1)" "I s1" by blast
  from set_commit_total [OF val(2) conjunct1 [OF vbs] len]
  obtain g s2 where com: "set_commit reg ?vbs ?n 0 s1 = Some (g, s2)" "I s2" by blast
  show "\<exists>st ctx' s'. snmp_pdu_handle_set reg ctx s = Some ((st, ctx'), s') \<and> I s' \<and> ctx_ok ctx' \<and>
    same_request ctx ctx' \<and> (if st = BER_OK then ctx_pdu_tag ctx' = SNMP_PDU_GET_RESPONSE else ctx' = ctx)"
  proof (cases "ctx_access_mode ctx = SNMP_ACCESS_READWRITE")
    case False
    with s show ?thesis by (simp add: snmp_pdu_handle_set_def same_request_def)
  next
    case True
    show ?thesis
    proof (cases f)
      case (Some e)
      with True val s(2) show ?thesis
        by (cases e) (simp add: snmp_pdu_handle_set_def same_request_def ctx_ok_response Let_def)
    next
      case None
      with True val com s(2) show ?thesis
        by (cases g) (simp_all add: snmp_pdu_handle_set_def same_request_def ctx_ok_response)
    qed
  qed
qed

end

section \<open>Refusals\<close>

lemma handle_set_no_access:
  "ctx_access_mode ctx \<noteq> SNMP_ACCESS_READWRITE \<Longrightarrow>
   snmp_pdu_handle_set reg ctx s = Some ((BER_ERR_BAD_ARGS, ctx), s)"
  by (simp add: snmp_pdu_handle_set_def)

end
