(* ===== verification/Snmp_Pdu_Getbulk_Correct.thy ===== *)
theory Snmp_Pdu_Getbulk_Correct
  imports Snmp_Pdu_Getbulk Snmp_Pdu_Get_Correct
begin

text \<open>
  GetBulkRequest: always defined, never more than \<open>SNMP_MAX_VARBINDS\<close> varbinds, and a number of rounds
  that is bounded whatever \<open>max-repetitions\<close> the request names.
\<close>

definition bulk_ok :: "nat \<Rightarrow> bulk \<Rightarrow> bool" where
  "bulk_ok repeaters b \<longleftrightarrow>
     vbs_ok (bk_varbinds b) \<and> length (bk_varbinds b) = SNMP_MAX_VARBINDS \<and> bk_count b \<le> SNMP_MAX_VARBINDS \<and>
     vbs_ok (bk_cursor b) \<and> repeaters \<le> length (bk_cursor b) \<and> repeaters \<le> length (bk_exhausted b)"

lemma append_result_total:
  assumes "vbs_ok vbs" and "length vbs = cap" and "vb_ok current" and "vb_ok fetched"
  shows "\<exists>r. append_result vbs count cap current res fetched = Some r \<and>
    (case r of None \<Rightarrow> cap \<le> count
     | Some (vbs', count') \<Rightarrow> count < cap \<and> count' = count + 1 \<and> vbs_ok vbs' \<and> length vbs' = cap)"
proof (cases "cap \<le> count")
  case True
  then show ?thesis by (simp add: append_result_def)
next
  case False
  let ?tr = "snmp_error_translate SNMP_VERSION_V2C res"
  have "vb_ok (if pdu_level_abort ?tr then current\<lparr>vb_tag := SNMP_TAG_END_OF_MIB_VIEW, vb_value := UOctets []\<rparr>
     else if v2c_exception_tag ?tr \<noteq> 0 then current\<lparr>vb_tag := v2c_exception_tag ?tr, vb_value := UOctets []\<rparr>
     else fetched)"
    using vb_ok_exception [OF assms(3) translate_exception_cases [of SNMP_VERSION_V2C res]] assms(4)
      vb_ok_exception [OF assms(3), of SNMP_TAG_END_OF_MIB_VIEW] by simp
  with False assms(1,2) show ?thesis by (auto simp: append_result_def Let_def)
qed

context mib_reads
begin

lemma getnext_into_total:
  assumes "I s" and "vb_ok out_vb"
  shows "\<exists>r vb s'. getnext_into reg current out_vb s = Some ((r, vb), s') \<and> I s' \<and> vb_ok vb \<and>
    (r = MIB_OK \<longrightarrow> vb_oid current < vb_oid vb)"
proof -
  obtain r s1 where r: "mib_registry_resolve_next reg (vb_oid current) s = Some (r, s1)" "I s1"
     "case r of Inl e \<Rightarrow> e = MIB_END_OF_VIEW | Inr out \<Rightarrow> vb_oid current < rs_oid out \<and> resolved_from reg out"
    using resolve_next_total [OF walks assms(1), of "vb_oid current"] by blast
  show ?thesis
  proof (cases r)
    case (Inl e)
    with r assms(2) show ?thesis by (auto simp: getnext_into_def)
  next
    case (Inr out)
    with r(3) have out: "resolved_from reg out" "vb_oid current < rs_oid out" by simp_all
    from fetch_total [OF out(1) r(2) assms(2)] obtain x vb s' where
      "mib_resolved_get out (out_vb\<lparr>vb_oid := rs_oid out\<rparr>) s1 = Some ((x, vb), s')" "I s'" "vb_ok vb"
      "vb_oid vb = rs_oid out" by blast
    with Inr r(1) out(2) show ?thesis by (auto simp: getnext_into_def)
  qed
qed

lemma bulk_non_repeaters_total:
  assumes "I s" and "bulk_ok 0 b" and "i + n \<le> SNMP_MAX_VARBINDS"
  shows "\<exists>full b' s'. bulk_non_repeaters reg n i b s = Some ((full, b'), s') \<and> I s' \<and> bulk_ok 0 b'"
  using assms
proof (induction n arbitrary: i b s)
  case 0
  then show ?case by auto
next
  case (Suc n)
  have b: "vbs_ok (bk_varbinds b)" "length (bk_varbinds b) = SNMP_MAX_VARBINDS"
    using Suc.prems(2) by (simp_all add: bulk_ok_def)
  have cur: "vb_ok (bk_varbinds b ! i)" using b Suc.prems(3) by (intro vbs_ok_nth) simp_all
  obtain r vb s1 where get: "getnext_into reg (bk_varbinds b ! i) vb_zero s = Some ((r, vb), s1)" "I s1" "vb_ok vb"
    using getnext_into_total [OF Suc.prems(1), of vb_zero] by fastforce
  obtain a where app: "append_result (bk_varbinds b) (bk_count b) SNMP_MAX_VARBINDS (bk_varbinds b ! i) r vb = Some a"
    "case a of None \<Rightarrow> SNMP_MAX_VARBINDS \<le> bk_count b
     | Some (vbs', count') \<Rightarrow> bk_count b < SNMP_MAX_VARBINDS \<and> count' = bk_count b + 1 \<and> vbs_ok vbs' \<and>
         length vbs' = SNMP_MAX_VARBINDS"
    using append_result_total [OF b cur get(3)] by blast
  show ?case
  proof (cases a)
    case None
    with get app(1) Suc.prems b(2) show ?thesis by auto
  next
    case (Some p)
    then obtain vbs' count' where a: "a = Some (vbs', count')" by (cases p) auto
    have "bulk_ok 0 (b\<lparr>bk_varbinds := vbs', bk_count := count'\<rparr>)"
      using app(2) a Suc.prems(2) by (simp add: bulk_ok_def)
    from Suc.IH [OF get(2) this, of "i + 1"] get(1) app(1) a Suc.prems(3) b(2) show ?thesis by simp
  qed
qed

text \<open>What a round reads for a column: the end of the view once it was reached, the successor before.\<close>

lemma bulk_fetch_total:
  assumes "I s"
  obtains res vb s1 where "(if exhausted then Some ((MIB_END_OF_VIEW, vb_zero), s)
      else getnext_into reg cur vb_zero s) = Some ((res, vb), s1)" "I s1" "vb_ok vb"
proof (cases exhausted)
  case True
  with that assms show ?thesis by simp
next
  case False
  have "vb_ok vb_zero" by simp
  from getnext_into_total [OF assms this, of cur] obtain res vb s1 where
    "getnext_into reg cur vb_zero s = Some ((res, vb), s1)" "I s1" "vb_ok vb" by blast
  with False that show ?thesis by simp
qed

text \<open>One column of a round: the response is full, or it has one varbind more.\<close>

lemma bulk_round_step:
  assumes "I s" and "bulk_ok repeaters b" and "r < repeaters"
  obtains (full) b1 s1 where "bulk_round reg (Suc n) r b s = Some ((True, b1), s1)" "I s1" "bulk_ok repeaters b1"
      "bk_count b1 = SNMP_MAX_VARBINDS"
    | (more) b1 s1 where "bulk_round reg (Suc n) r b s = bulk_round reg n (Suc r) b1 s1" "I s1" "bulk_ok repeaters b1"
      "bk_count b1 = Suc (bk_count b)"
proof -
  have lens: "r < length (bk_cursor b)" "r < length (bk_exhausted b)"
    using assms(2,3) by (simp_all add: bulk_ok_def)
  have cur: "vb_ok (bk_cursor b ! r)" using assms(2) lens by (intro vbs_ok_nth) (simp_all add: bulk_ok_def)
  obtain res vb s1 where get: "(if bk_exhausted b ! r then Some ((MIB_END_OF_VIEW, vb_zero), s)
      else getnext_into reg (bk_cursor b ! r) vb_zero s) = Some ((res, vb), s1)" "I s1" "vb_ok vb"
    using assms(1) by (rule bulk_fetch_total)
  define b1 where "b1 = (if bk_exhausted b ! r then b
     else if res = MIB_OK then b\<lparr>bk_cursor := (bk_cursor b)[r := vb], bk_active := True\<rparr>
     else b\<lparr>bk_exhausted := (bk_exhausted b)[r := True]\<rparr>)"
  have b1: "bulk_ok repeaters b1" "bk_count b1 = bk_count b" "bk_varbinds b1 = bk_varbinds b"
    "r < length (bk_cursor b1)"
    using assms(2) get(3) lens by (auto simp: b1_def bulk_ok_def)
  have cur1: "vb_ok (bk_cursor b1 ! r)" using b1 by (intro vbs_ok_nth) (simp_all add: bulk_ok_def)
  have vbs1: "vbs_ok (bk_varbinds b1)" "length (bk_varbinds b1) = SNMP_MAX_VARBINDS"
    using b1(1) by (simp_all add: bulk_ok_def)
  obtain a where app:
    "append_result (bk_varbinds b1) (bk_count b1) SNMP_MAX_VARBINDS (bk_cursor b1 ! r) res vb = Some a"
    "case a of None \<Rightarrow> SNMP_MAX_VARBINDS \<le> bk_count b1
     | Some (vbs', count') \<Rightarrow> bk_count b1 < SNMP_MAX_VARBINDS \<and> count' = bk_count b1 + 1 \<and> vbs_ok vbs' \<and>
         length vbs' = SNMP_MAX_VARBINDS"
    using append_result_total [OF vbs1 cur1 get(3)] by blast
  have unfold: "bulk_round reg (Suc n) r b s = (case a of None \<Rightarrow> Some ((True, b1), s1)
      | Some (vbs, count) \<Rightarrow> bulk_round reg n (Suc r) (b1\<lparr>bk_varbinds := vbs, bk_count := count\<rparr>) s1)"
    using lens get(1) app(1) by (simp add: b1_def [symmetric] Let_def)
  show thesis
  proof (cases a)
    case None
    then have "bk_count b1 = SNMP_MAX_VARBINDS" using app(2) b1(1) by (simp add: bulk_ok_def)
    moreover have "bulk_round reg (Suc n) r b s = Some ((True, b1), s1)" unfolding unfold None by (simp only: option.case)
    ultimately show ?thesis using get(2) b1(1) by (intro full)
  next
    case (Some p)
    then obtain vbs' count' where a: "a = Some (vbs', count')" by (cases p) auto
    have "bulk_ok repeaters (b1\<lparr>bk_varbinds := vbs', bk_count := count'\<rparr>)"
      using app(2) a b1(1) by (simp add: bulk_ok_def)
    moreover have "bulk_round reg (Suc n) r b s = bulk_round reg n (Suc r) (b1\<lparr>bk_varbinds := vbs', bk_count := count'\<rparr>) s1"
      unfolding unfold a by (simp only: option.case prod.case)
    moreover have "bk_count (b1\<lparr>bk_varbinds := vbs', bk_count := count'\<rparr>) = Suc (bk_count b)" using app(2) a b1(2) by simp
    ultimately show ?thesis using get(2) by (intro more)
  qed
qed

lemma bulk_round_total:
  assumes "I s" and "bulk_ok repeaters b" and "r + n \<le> repeaters"
  shows "\<exists>full b' s'. bulk_round reg n r b s = Some ((full, b'), s') \<and> I s' \<and> bulk_ok repeaters b' \<and>
    (if full then bk_count b' = SNMP_MAX_VARBINDS else bk_count b' = bk_count b + n)"
  using assms
proof (induction n arbitrary: r b s)
  case (Suc n)
  have "r < repeaters" using Suc.prems(3) by simp
  with Suc.prems(1,2) show ?case
  proof (cases rule: bulk_round_step [where n = n])
    case (full b1 s1)
    then show ?thesis by (intro exI [of _ True] exI [of _ b1] exI [of _ s1]) (simp del: bulk_round.simps)
  next
    case (more b1 s1)
    have "Suc r + n \<le> repeaters" using Suc.prems(3) by simp
    from Suc.IH [OF more(2,3) this] show ?thesis unfolding more(1,4) add_Suc_shift .
  qed
qed auto

lemma bulk_rounds_total:
  assumes "I s" and "bulk_ok repeaters b"
  shows "\<exists>b' s'. bulk_rounds reg m repeaters b s = Some (b', s') \<and> I s' \<and> bulk_ok repeaters b'"
  using assms
proof (induction m arbitrary: b s)
  case 0
  then show ?case by simp
next
  case (Suc m)
  have "bulk_ok repeaters (b\<lparr>bk_active := False\<rparr>)" using Suc.prems(2) by (simp add: bulk_ok_def)
  from bulk_round_total [OF Suc.prems(1) this, of 0 repeaters] obtain full b' s' where
    "bulk_round reg repeaters 0 (b\<lparr>bk_active := False\<rparr>) s = Some ((full, b'), s')" "I s'" "bulk_ok repeaters b'"
    by auto
  with Suc.IH [OF this(2,3)] show ?case by auto
qed

text \<open>
  Every round appends one varbind per repeater, so the rounds after the one that fills the response do
  not happen: \<open>max-repetitions\<close> beyond 51 makes no difference.
\<close>

lemma bulk_rounds_cap:
  assumes "I s" and "bulk_ok repeaters b" and "0 < repeaters" and "SNMP_MAX_VARBINDS < bk_count b + k" and "k \<le> m"
  shows "bulk_rounds reg m repeaters b s = bulk_rounds reg k repeaters b s"
  using assms
proof (induction k arbitrary: m b s)
  case 0
  then show ?case by (simp add: bulk_ok_def)
next
  case (Suc k)
  then obtain m' where m: "m = Suc m'" by (cases m) auto
  have ok: "bulk_ok repeaters (b\<lparr>bk_active := False\<rparr>)" using Suc.prems(2) by (simp add: bulk_ok_def)
  from bulk_round_total [OF Suc.prems(1) ok, of 0 repeaters] obtain full b' s' where
    round: "bulk_round reg repeaters 0 (b\<lparr>bk_active := False\<rparr>) s = Some ((full, b'), s')" "I s'" "bulk_ok repeaters b'"
    "if full then bk_count b' = SNMP_MAX_VARBINDS else bk_count b' = bk_count b + repeaters"
    by auto
  show ?case
  proof (cases full)
    case True
    with round(1) m show ?thesis by simp
  next
    case False
    with round(4) Suc.prems have "SNMP_MAX_VARBINDS < bk_count b' + k" "k \<le> m'" using m by auto
    from Suc.IH [OF round(2,3) Suc.prems(3) this] round(1) m show ?thesis by simp
  qed
qed

text \<open>The repetitions over the columns behind the non-repeaters.\<close>

lemma bulk_repeaters_total:
  assumes "I s" and "bulk_ok 0 b" and "first + columns \<le> SNMP_MAX_VARBINDS" and "columns \<le> SNMP_MAX_REPEATING_COLUMNS"
  shows "\<exists>b' s'. (if length (bk_varbinds b) < first + columns then None
      else bulk_rounds reg m columns (b\<lparr>bk_cursor := take columns (drop first (bk_varbinds b)),
        bk_exhausted := replicate SNMP_MAX_REPEATING_COLUMNS False\<rparr>) s) = Some (b', s') \<and> I s' \<and> bulk_ok 0 b'"
proof -
  let ?b = "b\<lparr>bk_cursor := take columns (drop first (bk_varbinds b)), bk_exhausted := replicate SNMP_MAX_REPEATING_COLUMNS False\<rparr>"
  have len: "\<not> length (bk_varbinds b) < first + columns" using assms(2,3) by (simp add: bulk_ok_def)
  have "vbs_ok (take columns (drop first (bk_varbinds b)))"
    using assms(2) set_take_subset set_drop_subset unfolding bulk_ok_def vbs_ok_def by fast
  then have "bulk_ok columns ?b" using assms(2-4) len by (simp add: bulk_ok_def)
  from bulk_rounds_total [OF assms(1) this] len show ?thesis by (fastforce simp: bulk_ok_def)
qed

lemma handle_getbulk_ok: "handler_ok I (snmp_pdu_handle_getbulk reg)"
proof (rule handler_okI)
  fix ctx s assume s: "I s" "ctx_ok ctx"
  note vbs = ctx_ok_vbs [OF s(2)]
  define nr where "nr = min (if ctx_error_status ctx <s 0 then 0 else unat (ctx_error_status ctx)) (ctx_varbind_count ctx)"
  define mr where "mr = (if ctx_error_index ctx <s 0 then 0 else unat (ctx_error_index ctx))"
  define rep where "rep = min (ctx_varbind_count ctx - nr) SNMP_MAX_REPEATING_COLUMNS"
  let ?b0 = "\<lparr>bk_varbinds = ctx_varbinds ctx, bk_count = 0, bk_cursor = [], bk_exhausted = [], bk_active = False\<rparr>"
  have nr: "nr \<le> ctx_varbind_count ctx" by (simp add: nr_def)
  have rep: "nr + rep \<le> SNMP_MAX_VARBINDS" "rep \<le> SNMP_MAX_REPEATING_COLUMNS" using nr vbs by (auto simp: rep_def)
  have "bulk_ok 0 ?b0" using vbs by (simp add: bulk_ok_def vbs_ok_def)
  moreover have "0 + nr \<le> SNMP_MAX_VARBINDS" using nr vbs by simp
  ultimately obtain full b1 s1 where non: "bulk_non_repeaters reg nr 0 ?b0 s = Some ((full, b1), s1)" "I s1"
    "bulk_ok 0 b1"
    using bulk_non_repeaters_total [OF s(1)] by blast
  let ?more = "if length (bk_varbinds b1) < nr + rep then None
      else bulk_rounds reg mr rep (b1\<lparr>bk_cursor := take rep (drop nr (bk_varbinds b1)),
        bk_exhausted := replicate SNMP_MAX_REPEATING_COLUMNS False\<rparr>) s1"
  have "\<exists>b3 s3. (if \<not> full \<and> 0 < rep \<and> 0 < mr then ?more else Some (b1, s1)) = Some (b3, s3) \<and> I s3 \<and> bulk_ok 0 b3"
  proof (cases "\<not> full \<and> 0 < rep \<and> 0 < mr")
    case True
    show ?thesis unfolding if_P [OF True] by (rule bulk_repeaters_total [OF non(2,3) rep])
  next
    case False
    show ?thesis unfolding if_not_P [OF False] using non(2,3) by blast
  qed
  then obtain b3 s3 where eq: "(if \<not> full \<and> 0 < rep \<and> 0 < mr then ?more else Some (b1, s1)) = Some (b3, s3)"
    and ok: "I s3" "bulk_ok 0 b3" by blast
  show "\<exists>st ctx' s'. snmp_pdu_handle_getbulk reg ctx s = Some ((st, ctx'), s') \<and> I s' \<and> ctx_ok ctx' \<and>
    same_request ctx ctx' \<and> (if st = BER_OK then ctx_pdu_tag ctx' = SNMP_PDU_GET_RESPONSE else ctx' = ctx)"
  proof (cases "ctx_version ctx = SNMP_VERSION_V2C")
    case False
    with s show ?thesis by (simp add: snmp_pdu_handle_getbulk_def same_request_def)
  next
    case True
    have "snmp_pdu_handle_getbulk reg ctx s = Some ((BER_OK, ctx\<lparr>ctx_varbinds := bk_varbinds b3,
        ctx_varbind_count := bk_count b3, ctx_pdu_tag := SNMP_PDU_GET_RESPONSE, ctx_error_status := 0,
        ctx_error_index := 0\<rparr>), s3)"
      unfolding snmp_pdu_handle_getbulk_def Let_def nr_def [symmetric] mr_def [symmetric] rep_def [symmetric]
      by (simp only: True non(1) eq not_True_eq_False if_False bind.bind_lunit prod.case simp_thms)
    moreover have "ctx_ok (ctx\<lparr>ctx_varbinds := bk_varbinds b3, ctx_varbind_count := bk_count b3,
        ctx_pdu_tag := SNMP_PDU_GET_RESPONSE, ctx_error_status := 0, ctx_error_index := 0\<rparr>)"
      using ok(2) s(2) by (simp add: ctx_ok_def bulk_ok_def vbs_ok_def)
    ultimately show ?thesis using ok(1) by (simp add: same_request_def)
  qed
qed

end

end
