(* ===== verification/Snmp_Message_Correct.thy ===== *)
theory Snmp_Message_Correct
  imports Snmp_Message Snmp_Security_Correct Snmp_Pdu_Set_Correct Snmp_Pdu_Getbulk_Correct
begin

text \<open>
  The whole path from a datagram to its answer: total for every datagram over every registry that keeps
  the contract \<open>mib_backend\<close>, silent on everything it does not accept, and within the output buffer.
\<close>

section \<open>Dispatch\<close>

context mib_reads
begin

text \<open>Every dispatch but that of a SetRequest with write access only reads.\<close>

lemma dispatch_reads:
  assumes "I s" and "ctx_ok ctx"
    and "ctx_pdu_tag ctx = SNMP_PDU_SET_REQUEST \<longrightarrow> ctx_access_mode ctx \<noteq> SNMP_ACCESS_READWRITE"
  shows "\<exists>st ctx' s'. snmp_dispatch_pdu reg ctx s = Some ((st, ctx'), s') \<and> I s' \<and> ctx_ok ctx' \<and>
    same_request ctx ctx' \<and> (if st = BER_OK then ctx_pdu_tag ctx' = SNMP_PDU_GET_RESPONSE else ctx' = ctx)"
proof -
  note handlers = handle_get_ok handle_getnext_ok handle_getbulk_ok
  consider "ctx_pdu_tag ctx = SNMP_PDU_GET_REQUEST" | "ctx_pdu_tag ctx = SNMP_PDU_GET_NEXT_REQUEST"
    | "ctx_pdu_tag ctx = SNMP_PDU_SET_REQUEST" | "ctx_pdu_tag ctx = SNMP_PDU_GET_BULK_REQUEST"
    | (other) "ctx_pdu_tag ctx \<notin> request_tags" by auto
  then show ?thesis
  proof cases
    case other
    with assms show ?thesis by (simp add: snmp_dispatch_pdu_def same_request_def)
  next
    case 3
    with assms show ?thesis by (simp add: snmp_dispatch_pdu_def handle_set_no_access same_request_def)
  qed (use handlers [unfolded handler_ok_def, rule_format, OF assms(1,2)] in \<open>simp_all add: snmp_dispatch_pdu_def\<close>)
qed

end

context mib_backend
begin

lemma dispatch_ok: "handler_ok I (snmp_dispatch_pdu reg)"
proof (rule handler_okI)
  fix ctx s assume s: "I s" "ctx_ok ctx"
  show "\<exists>st ctx' s'. snmp_dispatch_pdu reg ctx s = Some ((st, ctx'), s') \<and> I s' \<and> ctx_ok ctx' \<and>
    same_request ctx ctx' \<and> (if st = BER_OK then ctx_pdu_tag ctx' = SNMP_PDU_GET_RESPONSE else ctx' = ctx)"
  proof (cases "ctx_pdu_tag ctx = SNMP_PDU_SET_REQUEST")
    case True
    with handle_set_ok s show ?thesis by (simp add: snmp_dispatch_pdu_def handler_ok_def)
  next
    case False
    with dispatch_reads [OF s] show ?thesis by simp
  qed
qed

end

section \<open>Acceptance\<close>

text \<open>A table of models that all keep the contract.\<close>

definition security_ok :: "security \<Rightarrow> bool" where
  "security_ok sec \<longleftrightarrow> communities_ok (s_communities sec) \<and> (\<forall>(v, m) \<in> set (s_slots sec). security_model m)"

lemma security_ok_lookup: "security_ok sec \<Longrightarrow> snmp_security_lookup sec v = Some m \<Longrightarrow> security_model m"
  by (auto simp: security_ok_def security_lookup_map dest!: map_of_SomeD)

lemma message_accept_safe:
  assumes "security_ok sec" and "in_len \<le> length msg"
  shows "returns (message_accept sec msg in_len)
    (\<lambda>(model, ctx). security_model model \<and> ctx_ok ctx \<and> ctx_pdu_tag ctx \<in> request_tags)"
  unfolding message_accept_def
proof (rule returns_chk [OF ber_decode_tlv_safe], goal_cases)
  case 1
  then show ?case using assms by simp
next
  case (2 top)
  then have top: "tlv_value top + tlv_length top \<le> length msg" using assms by (auto simp: tlv_within_def)
  show ?case
  proof (rule returns_if, simp, rule integer_field_safe [OF top])
    fix t version
    show "returns (case snmp_security_lookup sec version of None \<Rightarrow> Some (Inl BER_ERR_BAD_ARGS)
      | Some model \<Rightarrow> chk (process_incoming model (s_communities sec) msg in_len 0 ctx_zero)
          (\<lambda>ctx. Some (Inr (model, ctx))))
      (\<lambda>(model, ctx). security_model model \<and> ctx_ok ctx \<and> ctx_pdu_tag ctx \<in> request_tags)"
    proof (cases "snmp_security_lookup sec version")
      case None
      then show ?thesis by simp
    next
      case (Some model)
      then have model: "security_model model" by (rule security_ok_lookup [OF assms(1)])
      have "returns (process_incoming model (s_communities sec) msg in_len 0 ctx_zero)
          (\<lambda>ctx. ctx_ok ctx \<and> ctx_pdu_tag ctx \<in> request_tags)"
        using assms ctx_ok_zero by (intro security_model.incoming_safe [OF model]) (simp_all add: security_ok_def)
      with Some model show ?thesis by (auto intro!: returns_chk)
    qed
  qed
qed

section \<open>The whole message\<close>

context mib_backend
begin

lemma message_total:
  assumes "security_ok sec" and "in_len \<le> length msg" and "out_cap \<le> length out" and "length out < 2 ^ 32" and "I s"
  shows "\<exists>r s'. snmp_message_process reg sec msg in_len out out_cap s = Some (r, s') \<and> I s' \<and> length r \<le> out_cap"
proof (cases "in_len = 0 \<or> out_cap = 0")
  case True
  with assms show ?thesis by (auto simp: snmp_message_process_def)
next
  case False
  from message_accept_safe [OF assms(1,2)] show ?thesis
  proof (cases rule: returns_cases)
    case (1 e)
    with False assms show ?thesis by (simp add: snmp_message_process_def)
  next
    case (2 x)
    then obtain model ctx where acc: "message_accept sec msg in_len = Some (Inr (model, ctx))"
      "security_model model" "ctx_ok ctx" by (cases x) auto
    obtain st ctx' s' where disp: "snmp_dispatch_pdu reg ctx s = Some ((st, ctx'), s')" "I s'" "ctx_ok ctx'"
      using dispatch_ok assms(5) acc(3) by (rule handler_okE)
    show ?thesis
    proof (cases "st = BER_OK")
      case no: False
      with False acc disp show ?thesis by (simp add: snmp_message_process_def)
    next
      case True
      from security_model.outgoing_safe [OF acc(2) disp(3) assms(3,4)] show ?thesis
        using False acc disp True assms(5) by (cases rule: returns_cases) (simp_all add: snmp_message_process_def)
    qed
  qed
qed

end

text \<open>What is not accepted is dropped, with nothing touched.\<close>

lemma message_dropped:
  "message_accept sec msg in_len = Some (Inl e) \<Longrightarrow>
   snmp_message_process reg sec msg in_len out out_cap s = Some ([], s)"
  by (simp add: snmp_message_process_def)

end
