(* ===== verification/Snmp_Udp_Correct.thy ===== *)
theory Snmp_Udp_Correct
  imports Snmp_Udp Snmp_Message_Correct
begin

text \<open>
  A turn of the serving loop over any backend: defined whatever arrives, the invariant of the backend and
  the sizes of the buffers kept.
\<close>

context mib_backend
begin

lemma udp_turn_total:
  assumes "security_ok sec" and "length (in_buf task) = SNMP_MAX_PACKET_LEN" and "length out = SNMP_MAX_PACKET_LEN"
    and "I s"
  shows "\<exists>task' s' tr'. snmp_udp_turn reg sec received out task s tr = Some (task', s', tr') \<and> I s' \<and>
    length (in_buf task') = SNMP_MAX_PACKET_LEN \<and> udp_sock task' = udp_sock task"
proof (cases received)
  case None
  with assms show ?thesis by (simp add: snmp_udp_turn_def)
next
  case (Some r)
  obtain peer payload where r: "r = (peer, payload)" by fastforce
  let ?bytes = "take SNMP_MAX_PACKET_LEN payload"
  let ?buf = "?bytes @ drop (length ?bytes) (in_buf task)"
  have len: "length ?buf = SNMP_MAX_PACKET_LEN" using assms(2) by simp
  have "length ?bytes \<le> length ?buf" "SNMP_MAX_PACKET_LEN \<le> length out" "length out < 2 ^ 32" using assms(3) by simp_all
  from message_total [OF assms(1) this assms(4)] obtain resp s' where
    "snmp_message_process reg sec ?buf (length ?bytes) out SNMP_MAX_PACKET_LEN s = Some (resp, s')" "I s'"
    by blast
  with Some r len assms(2,4) show ?thesis by (simp add: snmp_udp_turn_def Let_def split: prod.split)
qed

end

end
