(* ===== verification/Snmp_Trap.thy ===== *)
theory Snmp_Trap
  imports Snmp_Security_Correct
begin

text \<open>
  \<open>snmp_core/snmp_pdu_trap.c\<close>: the datagram of a notification. The functions take the output buffer as
  it was before and return the bytes it holds from offset 0 on, none for the return value 0; the outer
  \<open>None\<close> is undefined behaviour. \<open>extra\<close> is the array of the additional varbinds.
\<close>

section \<open>The definitions\<close>

abbreviation SNMP_TRAP_MAX_VARBINDS :: nat where "SNMP_TRAP_MAX_VARBINDS \<equiv> SNMP_MAX_VARBINDS"

definition OID_SNMP_TRAP_OID :: oid where "OID_SNMP_TRAP_OID = [1, 3, 6, 1, 6, 3, 1, 1, 4, 1, 0]"
definition OID_SYS_UPTIME :: oid where "OID_SYS_UPTIME = [1, 3, 6, 1, 2, 1, 1, 3, 0]"

definition encode_envelope_and_finish :: "snmp_version \<Rightarrow> u8 list \<Rightarrow> nat \<Rightarrow> enc \<Rightarrow> (ber_status + u8 list) option" where
  "encode_envelope_and_finish version community cap e = do {
     (st, e1) \<leftarrow>
       andthen (with_member (c_strlen community) (\<lambda>n. ber_encode_octet_string (Some community) n))
         (andthen (ber_encode_integer (version_code version))
           (\<lambda>e. ber_encode_container_header BER_TAG_SEQUENCE (cap - ecursor e) e)) e;
     if st \<noteq> BER_OK then Some (Inl st)
     else do {
       moved \<leftarrow> rd_bytes (ebuf e1) (ecursor e1) (cap - ecursor e1);
       Some (Inr moved)
     }
   }"

text \<open>The two varbinds that lead a v2c notification.\<close>

definition v2c_trap_varbinds :: "u32 \<Rightarrow> oid \<Rightarrow> snmp_varbind list" where
  "v2c_trap_varbinds uptime_hundredths trap_oid =
     [vb_zero\<lparr>vb_oid := OID_SYS_UPTIME, vb_tag := SNMP_TAG_TIMETICKS, vb_value := UInt uptime_hundredths\<rparr>,
      vb_zero\<lparr>vb_oid := OID_SNMP_TRAP_OID, vb_tag := BER_TAG_OID, vb_value := UOid trap_oid\<rparr>]"

text \<open>\<open>memcpy\<close> of the trap OID into \<open>oid_value\<close> must stay inside the array.\<close>

definition build_v2c_trap ::
  "u8 list \<Rightarrow> u32 \<Rightarrow> oid \<Rightarrow> snmp_varbind list \<Rightarrow> u8 list \<Rightarrow> nat \<Rightarrow> u8 list option" where
  "build_v2c_trap community uptime_hundredths trap_oid extra out cap =
     (if SNMP_TRAP_MAX_VARBINDS < length extra + 2 then Some []
      else if BER_MAX_OID_LEN < length trap_oid then None
      else let varbinds = v2c_trap_varbinds uptime_hundredths trap_oid @ extra in do {
        (st, e) \<leftarrow> snmp_encode_response_shaped_pdu SNMP_PDU_TRAP_V2 0 0 0 varbinds (length varbinds)
          \<lparr>ebuf = out, ecursor = cap\<rparr>;
        if st \<noteq> BER_OK then Some []
        else do {
          r \<leftarrow> encode_envelope_and_finish SNMP_VERSION_V2C community cap e;
          case r of Inl _ \<Rightarrow> Some [] | Inr packet \<Rightarrow> Some packet
        }
      })"

text \<open>\<open>agent_addr\<close> is a pointer that may be \<open>NULL\<close>.\<close>

definition build_v1_trap ::
  "u8 list \<Rightarrow> u32 \<Rightarrow> oid \<Rightarrow> u8 list option \<Rightarrow> snmp_varbind list \<Rightarrow> u8 list \<Rightarrow> nat \<Rightarrow> u8 list option" where
  "build_v1_trap community uptime_hundredths trap_oid agent_addr extra out cap =
     (if SNMP_TRAP_MAX_VARBINDS < length extra then Some []
      else let specific_trap = (if 0 < length trap_oid then trap_oid ! (length trap_oid - 1) else 0) in do {
        (st, e) \<leftarrow> snmp_encode_v1_trap_pdu trap_oid agent_addr 6 specific_trap uptime_hundredths extra (length extra)
          \<lparr>ebuf = out, ecursor = cap\<rparr>;
        if st \<noteq> BER_OK then Some []
        else do {
          r \<leftarrow> encode_envelope_and_finish SNMP_VERSION_V1 community cap e;
          case r of Inl _ \<Rightarrow> Some [] | Inr packet \<Rightarrow> Some packet
        }
      })"

definition snmp_trap_build ::
  "snmp_version \<Rightarrow> u8 list \<Rightarrow> u32 \<Rightarrow> oid \<Rightarrow> u8 list option \<Rightarrow> snmp_varbind list \<Rightarrow> u8 list \<Rightarrow> nat \<Rightarrow> u8 list option" where
  "snmp_trap_build version community uptime_hundredths trap_oid agent_addr extra out cap =
     (if version = SNMP_VERSION_V2C then build_v2c_trap community uptime_hundredths trap_oid extra out cap
      else build_v1_trap community uptime_hundredths trap_oid agent_addr extra out cap)"

section \<open>What a notification is on the wire\<close>

text \<open>The whole packet if it fits, otherwise nothing.\<close>

definition fitting :: "nat \<Rightarrow> u8 list option \<Rightarrow> u8 list" where
  "fitting cap sp = (case sp of None \<Rightarrow> [] | Some bs \<Rightarrow> if length bs \<le> cap then bs else [])"

definition v2c_trap_packet :: "u8 list \<Rightarrow> u32 \<Rightarrow> oid \<Rightarrow> snmp_varbind list \<Rightarrow> u8 list option" where
  "v2c_trap_packet community uptime trap_oid extra =
     map_option (message_bytes SNMP_VERSION_V2C (c_string community))
       (pdu_bytes SNMP_PDU_TRAP_V2 0 0 0 (v2c_trap_varbinds uptime trap_oid @ extra))"

definition v1_trap_packet :: "u8 list \<Rightarrow> u32 \<Rightarrow> oid \<Rightarrow> u8 list \<Rightarrow> snmp_varbind list \<Rightarrow> u8 list option" where
  "v1_trap_packet community uptime trap_oid addr extra =
     map_option (message_bytes SNMP_VERSION_V1 (c_string community))
       (v1_trap_bytes trap_oid addr 6 (if trap_oid = [] then 0 else last trap_oid) uptime extra)"

lemma length_fitting: "length (fitting cap sp) \<le> cap"
  by (simp add: fitting_def split: option.split)

text \<open>A PDU encoder followed by the envelope.\<close>

lemma envelope_packet:
  assumes pdu: "emits m sp" and nul: "0 \<in> set community" and cap: "cap \<le> length out" "length out < 2 ^ 32"
  shows "Option.bind (m \<lparr>ebuf = out, ecursor = cap\<rparr>) (\<lambda>(st, e). if st \<noteq> BER_OK then Some []
      else Option.bind (encode_envelope_and_finish version community cap e)
        (\<lambda>r. case r of Inl _ \<Rightarrow> Some [] | Inr packet \<Rightarrow> Some packet)) =
    Some (fitting cap (map_option (message_bytes version (c_string community)) sp))"
    (is "?run = Some (fitting cap ?sp)")
proof -
  let ?k = "andthen (with_member (c_strlen community) (\<lambda>n. ber_encode_octet_string (Some community) n))
      (andthen (ber_encode_integer (version_code version))
        (\<lambda>e. ber_encode_container_header BER_TAG_SEQUENCE (cap - ecursor e) e))"
  from envelope_runs [OF pdu nul cap, of version] obtain st e where
    e: "andthen m ?k \<lparr>ebuf = out, ecursor = cap\<rparr> = Some (st, e)"
      "st = BER_OK \<Longrightarrow> \<exists>bs. ?sp = Some bs \<and> length bs \<le> cap \<and> rd_bytes (ebuf e) (ecursor e) (cap - ecursor e) = Some bs"
      "st \<noteq> BER_OK \<Longrightarrow> \<forall>bs. ?sp = Some bs \<longrightarrow> cap < length bs"
    by blast
  from e(1) obtain st1 e1 where m: "m \<lparr>ebuf = out, ecursor = cap\<rparr> = Some (st1, e1)"
    and k: "if st1 = BER_OK then ?k e1 = Some (st, e) else st = st1"
    by (auto simp: andthen_simps split: option.splits if_splits)
  have "?run = (if st = BER_OK then rd_bytes (ebuf e) (ecursor e) (cap - ecursor e) else Some [])"
    using m k by (cases "st1 = BER_OK")
      (auto simp: encode_envelope_and_finish_def split: Option.bind_split)
  moreover have "fitting cap ?sp = []" if "st \<noteq> BER_OK"
    using e(3) [OF that] by (auto simp: fitting_def split: option.split)
  ultimately show ?thesis
    using e(2) by (cases "st = BER_OK") (auto simp: fitting_def)
qed

lemma build_v2c_trap_packet:
  assumes "0 \<in> set community" and "cap \<le> length out" and "length out < 2 ^ 32"
    and "length trap_oid \<le> BER_MAX_OID_LEN" and "length extra \<le> 48" and "\<forall>vb \<in> set extra. vb_ok vb"
  shows "build_v2c_trap community uptime trap_oid extra out cap =
    Some (fitting cap (v2c_trap_packet community uptime trap_oid extra))"
proof -
  let ?vbs = "v2c_trap_varbinds uptime trap_oid @ extra"
  have "\<forall>vb \<in> set ?vbs. vb_ok vb"
    using assms(4,6)
    by (auto simp: v2c_trap_varbinds_def vb_ok_def value_ok_def vb_zero_def OID_SYS_UPTIME_def OID_SNMP_TRAP_OID_def)
  then have "emits (snmp_encode_response_shaped_pdu SNMP_PDU_TRAP_V2 0 0 0 ?vbs (length ?vbs))
      (pdu_bytes SNMP_PDU_TRAP_V2 0 0 0 ?vbs)"
    using emits_response_pdu [of "length ?vbs" ?vbs SNMP_PDU_TRAP_V2 0 0 0] by simp
  from envelope_packet [OF this assms(1-3), of SNMP_VERSION_V2C] assms(4,5) show ?thesis
    by (simp add: build_v2c_trap_def v2c_trap_packet_def Let_def)
qed

lemma build_v1_trap_packet:
  assumes "0 \<in> set community" and "cap \<le> length out" and "length out < 2 ^ 32"
    and "length addr = 4" and "length extra \<le> SNMP_TRAP_MAX_VARBINDS" and "\<forall>vb \<in> set extra. vb_ok vb"
  shows "build_v1_trap community uptime trap_oid (Some addr) extra out cap =
    Some (fitting cap (v1_trap_packet community uptime trap_oid addr extra))"
proof -
  let ?sp = "if 0 < length trap_oid then trap_oid ! (length trap_oid - 1) else 0"
  have "emits (snmp_encode_v1_trap_pdu trap_oid (Some addr) 6 ?sp uptime extra (length extra))
      (v1_trap_bytes trap_oid addr 6 ?sp uptime extra)"
    using emits_v1_trap_pdu [of "length extra" extra addr trap_oid 6 ?sp uptime] assms by simp
  from envelope_packet [OF this assms(1-3), of SNMP_VERSION_V1] assms(5) show ?thesis
    by (simp add: build_v1_trap_def v1_trap_packet_def Let_def last_conv_nth)
qed

end
