(* ===== verification/Snmp_Message_Local.thy ===== *)
theory Snmp_Message_Local
  imports Snmp_Udp_Correct Snmp_Trap
begin

text \<open>
  Locality: what the agent answers is a function of the bytes of the datagram. What else the receive buffer
  holds behind them, and what the output buffer held before, has no influence; so no byte of an earlier
  datagram can leak into a later answer. A routine that reads only inside its datagram gives the same result
  when more memory follows; \<open>extends\<close> says so and is proved along the structure of the decoders.
\<close>

named_theorems extends_intros \<open>a decoder gives the same result over more memory\<close>

definition extends :: "(u8 list \<Rightarrow> 'a option) \<Rightarrow> bool" where
  "extends f \<longleftrightarrow> (\<forall>mem ext r. f mem = Some r \<longrightarrow> f (mem @ ext) = Some r)"

lemma extendsD: "extends f \<Longrightarrow> f mem = Some r \<Longrightarrow> f (mem @ ext) = Some r"
  by (simp add: extends_def)

lemma extends_const [extends_intros]: "extends (\<lambda>mem. r)"
  by (simp add: extends_def)

lemma extends_bind [extends_intros]:
  "extends f \<Longrightarrow> (\<And>x. extends (\<lambda>mem. g mem x)) \<Longrightarrow> extends (\<lambda>mem. Option.bind (f mem) (g mem))"
  by (fastforce simp: extends_def bind_eq_Some_conv)

lemma extends_chk [extends_intros]:
  "extends f \<Longrightarrow> (\<And>x. extends (\<lambda>mem. g mem x)) \<Longrightarrow> extends (\<lambda>mem. chk (f mem) (g mem))"
  unfolding extends_def chk_def by (fastforce split: option.splits sum.splits)

lemma extends_if [extends_intros]:
  "extends f \<Longrightarrow> extends g \<Longrightarrow> extends (\<lambda>mem. if c then f mem else g mem)"
  by (simp add: extends_def)

lemma extends_prod [extends_intros]:
  "(\<And>a b. extends (\<lambda>mem. f mem a b)) \<Longrightarrow> extends (\<lambda>mem. case p of (a, b) \<Rightarrow> f mem a b)"
  by (cases p) simp

lemma extends_option [extends_intros]:
  "extends f \<Longrightarrow> (\<And>x. extends (\<lambda>mem. g mem x)) \<Longrightarrow> extends (\<lambda>mem. case r of None \<Rightarrow> f mem | Some x \<Rightarrow> g mem x)"
  by (cases r) simp_all

lemma extends_rd [extends_intros]: "extends (\<lambda>mem. rd mem p)"
  by (auto simp: extends_def rd_def nth_append split: if_splits)

lemma extends_rd_bytes [extends_intros]: "extends (\<lambda>mem. rd_bytes mem p n)"
  by (auto simp: extends_def rd_bytes_def split: if_splits)

lemma extends_be_loop [extends_intros]: "extends (\<lambda>mem. be_loop mem p n v)"
  by (induction n arbitrary: p v) (simp_all add: extends_intros)

section \<open>The decoders\<close>

lemma extends_decode_length [extends_intros]: "extends (\<lambda>mem. decode_length mem p len)"
  unfolding decode_length_def Let_def by (intro extends_intros)

lemma extends_decode_tlv [extends_intros]: "extends (\<lambda>mem. ber_decode_tlv mem p len depth)"
  unfolding ber_decode_tlv_def Let_def by (intro extends_intros)

lemma extends_expect_tag [extends_intros]: "extends (\<lambda>mem. ber_expect_tag mem p len depth tag)"
  unfolding ber_expect_tag_def by (intro extends_intros)

lemma extends_values [extends_intros]:
  "extends (\<lambda>mem. ber_decode_integer mem t)"
  "extends (\<lambda>mem. ber_decode_unsigned mem t)"
  "extends (\<lambda>mem. ber_decode_unsigned64 mem t)"
  "extends (\<lambda>mem. ber_decode_octet_string mem t cap)"
  unfolding ber_decode_integer_def ber_decode_unsigned_def ber_decode_unsigned64_def ber_decode_octet_string_def
  by (intro extends_intros)+

lemma extends_oid_arc_loop [extends_intros]: "extends (\<lambda>mem. oid_arc_loop mem p e arc)"
proof -
  have "oid_arc_loop (mem @ ext) p e arc = Some r" if "oid_arc_loop mem p e arc = Some r" for mem ext r
    using that
  proof (induction mem p e arc rule: oid_arc_loop.induct)
    case (1 mem p e arc)
    show ?case
    proof (cases "p < e")
      case True
      with "1.prems" obtain b where b: "rd mem p = Some b"
        by (subst (asm) oid_arc_loop.simps) (auto simp: bind_eq_Some_conv)
      with "1.prems" True "1.IH" [OF True b] extendsD [OF extends_rd b, of ext] show ?thesis
        by (subst (asm) oid_arc_loop.simps, subst oid_arc_loop.simps) (auto simp: Let_def split: if_splits)
    next
      case False
      with "1.prems" show ?thesis by (subst (asm) oid_arc_loop.simps, subst oid_arc_loop.simps) simp
    qed
  qed
  then show ?thesis by (simp add: extends_def)
qed

lemma extends_oid_loop [extends_intros]: "extends (\<lambda>mem. oid_loop mem p e out cap)"
proof -
  have "oid_loop (mem @ ext) p e out cap = Some r" if "oid_loop mem p e out cap = Some r" for mem ext r
    using that
  proof (induction mem p e out cap rule: oid_loop.induct)
    case (1 mem p e out cap)
    show ?case
    proof (cases "p < e")
      case True
      with "1.prems" obtain a where a: "oid_arc_loop mem p e 0 = Some a"
        by (subst (asm) oid_loop.simps) (auto simp: chk_def split: option.splits)
      note a' = extendsD [OF extends_oid_arc_loop a, of ext]
      show ?thesis
      proof (cases a)
        case (Inl e)
        with "1.prems" True a a' show ?thesis by (subst (asm) oid_loop.simps, subst oid_loop.simps) simp
      next
        case (Inr x)
        obtain arc q where x: "x = (arc, q)" by fastforce
        from "1.prems" True a a' Inr x "1.IH" [OF True, of "(arc, q)" arc q] show ?thesis
          by (subst (asm) oid_loop.simps, subst oid_loop.simps) (auto split: if_splits)
      qed
    next
      case False
      with "1.prems" show ?thesis by (subst (asm) oid_loop.simps, subst oid_loop.simps) simp
    qed
  qed
  then show ?thesis by (simp add: extends_def)
qed

lemma extends_decode_oid [extends_intros]: "extends (\<lambda>mem. ber_decode_oid mem t cap)"
  unfolding ber_decode_oid_def by (intro extends_intros)

lemma extends_decode_value [extends_intros]: "extends (\<lambda>mem. snmp_decode_value mem t vb)"
  unfolding snmp_decode_value_def Let_def by (intro extends_intros)

lemma extends_decode_varbind [extends_intros]: "extends (\<lambda>mem. decode_varbind_from_seq_tlv mem t depth vb)"
  unfolding decode_varbind_from_seq_tlv_def Let_def by (intro extends_intros)

lemma extends_varbind_loop [extends_intros]: "extends (\<lambda>mem. varbind_loop mem p e depth out cap n)"
proof -
  have "varbind_loop (mem @ ext) p e depth out cap n = Some r" if "varbind_loop mem p e depth out cap n = Some r" for mem ext r
    using that
  proof (induction mem p e depth out cap n rule: varbind_loop.induct)
    case (1 mem p e depth out cap n)
    show ?case
    proof (cases "p < e")
      case True
      with "1.prems" obtain a where a: "ber_expect_tag mem p (e - p) (depth + 1) BER_TAG_SEQUENCE = Some a"
        by (subst (asm) varbind_loop.simps) (auto simp: chk_def split: option.splits)
      note a' = extendsD [OF extends_expect_tag a, of ext]
      show ?thesis
      proof (cases a)
        case (Inl st)
        with "1.prems" True a a' show ?thesis by (subst (asm) varbind_loop.simps, subst varbind_loop.simps) simp
      next
        case (Inr sq)
        show ?thesis
        proof (cases "cap \<le> n \<or> length out \<le> n")
          case True
          with "1.prems" \<open>p < e\<close> a a' Inr show ?thesis
            by (subst (asm) varbind_loop.simps, subst varbind_loop.simps) (auto split: if_splits)
        next
          case False
          with "1.prems" \<open>p < e\<close> a Inr obtain b where b: "decode_varbind_from_seq_tlv mem sq (depth + 2) (out ! n) = Some b"
            by (subst (asm) varbind_loop.simps) (auto simp: chk_def split: option.splits)
          note b' = extendsD [OF extends_decode_varbind b, of ext]
          from "1.prems" False \<open>p < e\<close> a a' Inr b b' "1.IH" [OF \<open>p < e\<close>, of sq] show ?thesis
            by (subst (asm) varbind_loop.simps, subst varbind_loop.simps) (cases b; auto)
        qed
      qed
    next
      case False
      with "1.prems" show ?thesis by (subst (asm) varbind_loop.simps, subst varbind_loop.simps) simp
    qed
  qed
  then show ?thesis by (simp add: extends_def)
qed

lemma extends_decode_varbind_list [extends_intros]: "extends (\<lambda>mem. snmp_decode_varbind_list mem p len depth out cap)"
  unfolding snmp_decode_varbind_list_def by (intro extends_intros)

lemma extends_decode_request_pdu [extends_intros]: "extends (\<lambda>mem. snmp_decode_request_pdu mem p len depth ctx)"
  unfolding snmp_decode_request_pdu_def Let_def by (intro extends_intros)

section \<open>The security models\<close>

text \<open>
  A local model: accepting only looks at the datagram, and the answer is a function of the context.
\<close>

definition model_local :: "snmp_security_model \<Rightarrow> bool" where
  "model_local m \<longleftrightarrow> (\<forall>cs len depth ctx. extends (\<lambda>msg. process_incoming m cs msg len depth ctx)) \<and>
     (\<exists>f. \<forall>ctx out cap. ctx_ok ctx \<longrightarrow> cap \<le> length out \<longrightarrow> length out < 2 ^ 32 \<longrightarrow>
        (case prepare_outgoing m ctx out cap of
           None \<Rightarrow> False | Some (Inl _) \<Rightarrow> f ctx cap = [] | Some (Inr bs) \<Rightarrow> f ctx cap = bs))"

definition security_local :: "security \<Rightarrow> bool" where
  "security_local sec \<longleftrightarrow> (\<forall>(v, m) \<in> set (s_slots sec). model_local m)"

lemma security_local_lookup: "security_local sec \<Longrightarrow> snmp_security_lookup sec v = Some m \<Longrightarrow> model_local m"
  by (auto simp: security_local_def security_lookup_map dest!: map_of_SomeD)

lemma community_outgoing_fitting:
  assumes "ctx_ok ctx" and "cap \<le> length out" and "length out < 2 ^ 32"
  shows "(case community_prepare_outgoing ctx out cap of
      Some (Inl e) \<Rightarrow> fitting cap (response_bytes ctx) = []
    | Some (Inr bs) \<Rightarrow> fitting cap (response_bytes ctx) = bs | None \<Rightarrow> False)"
proof -
  obtain r where r: "community_prepare_outgoing ctx out cap = Some r"
    "case r of Inl e \<Rightarrow> e \<noteq> BER_OK \<and> (\<forall>bs. response_bytes ctx = Some bs \<longrightarrow> cap < length bs)
     | Inr bs \<Rightarrow> response_bytes ctx = Some bs \<and> length bs \<le> cap"
    using community_outgoing [OF assms] by blast
  then show ?thesis by (cases r) (auto simp: fitting_def split: option.split)
qed

lemma community_model_local: "model_local s_community_model"
  unfolding model_local_def
proof (intro conjI allI)
  show "extends (\<lambda>msg. process_incoming s_community_model cs msg len depth ctx)" for cs len depth ctx
    unfolding s_community_model_def community_process_incoming_def Let_def snmp_security_model.select_convs
    by (intro extends_intros)
  show "\<exists>f. \<forall>ctx out cap. ctx_ok ctx \<longrightarrow> cap \<le> length out \<longrightarrow> length out < 2 ^ 32 \<longrightarrow>
        (case prepare_outgoing s_community_model ctx out cap of
           None \<Rightarrow> False | Some (Inl _) \<Rightarrow> f ctx cap = [] | Some (Inr bs) \<Rightarrow> f ctx cap = bs)"
    using community_outgoing_fitting
    by (intro exI [of _ "\<lambda>ctx cap. fitting cap (response_bytes ctx)"])
      (fastforce simp: s_community_model_def split: option.splits sum.splits)
qed

lemma usm_model_local: "model_local s_usm_stub_model"
  unfolding model_local_def s_usm_stub_model_def snmp_security_model.select_convs usm_process_incoming_def
    usm_prepare_outgoing_def Let_def
  by (auto intro!: extends_intros)

lemma extends_message_accept: "security_local sec \<Longrightarrow> extends (\<lambda>msg. message_accept sec msg len)"
proof -
  assume "security_local sec"
  then have "extends (\<lambda>msg. process_incoming m cs msg len 0 ctx)" if "snmp_security_lookup sec v = Some m" for v m cs ctx
    using that security_local_lookup unfolding model_local_def by blast
  then have inner: "extends (\<lambda>msg. case snmp_security_lookup sec v of None \<Rightarrow> Some (Inl BER_ERR_BAD_ARGS)
      | Some model \<Rightarrow> chk (process_incoming model (s_communities sec) msg len 0 ctx_zero) (\<lambda>ctx. Some (Inr (model, ctx))))" for v
    by (cases "snmp_security_lookup sec v") (auto intro!: extends_intros)
  show ?thesis
    unfolding message_accept_def
    by (intro extends_chk extends_if extends_const extends_decode_tlv extends_expect_tag extends_values inner)
qed

section \<open>The whole message\<close>

lemma message_accept_local:
  assumes "security_ok sec" and "security_local sec" and "n \<le> length msg" and "take n msg' = take n msg"
  shows "message_accept sec msg' n = message_accept sec msg n"
proof -
  have "\<exists>r. message_accept sec (take n msg) n = Some r"
    using message_accept_safe [OF assms(1), of n "take n msg"] assms(3) by (auto elim: returns_cases)
  then obtain r where r: "message_accept sec (take n msg) n = Some r" by blast
  from extendsD [OF extends_message_accept [OF assms(2)] r, of "drop n msg"]
    extendsD [OF extends_message_accept [OF assms(2)] r, of "drop n msg'"]
  show ?thesis using assms(4) append_take_drop_id [of n msg] append_take_drop_id [of n msg'] by metis
qed

context mib_backend
begin

lemma message_local:
  assumes "security_ok sec" and "security_local sec" and "n \<le> length msg" and "take n msg' = take n msg"
    and "cap \<le> length out" "length out < 2 ^ 32" "cap \<le> length out'" "length out' < 2 ^ 32" and "I s"
  shows "snmp_message_process reg sec msg' n out' cap s = snmp_message_process reg sec msg n out cap s"
proof (cases "n = 0 \<or> cap = 0")
  case True
  then show ?thesis by (auto simp: snmp_message_process_def)
next
  case False
  note acc' = message_accept_local [OF assms(1-4)]
  from message_accept_safe [OF assms(1,3)] show ?thesis
  proof (cases rule: returns_cases)
    case (1 e)
    with False acc' show ?thesis by (simp add: snmp_message_process_def)
  next
    case (2 x)
    obtain model ctx where x: "x = (model, ctx)" by fastforce
    with 2 have ctx: "ctx_ok ctx" by simp
    have "model_local model"
      using 2(1) x security_local_lookup [OF assms(2)]
      by (auto simp: message_accept_def chk_Inr_iff split: if_splits option.splits)
    then obtain f where f: "\<And>ctx out cap. ctx_ok ctx \<Longrightarrow> cap \<le> length out \<Longrightarrow> length out < 2 ^ 32 \<Longrightarrow>
        (case prepare_outgoing model ctx out cap of
           None \<Rightarrow> False | Some (Inl _) \<Rightarrow> f ctx cap = [] | Some (Inr bs) \<Rightarrow> f ctx cap = bs)"
      unfolding model_local_def by blast
    obtain st ctx' s' where disp: "snmp_dispatch_pdu reg ctx s = Some ((st, ctx'), s')" "I s'" "ctx_ok ctx'"
      using dispatch_ok assms(9) ctx by (rule handler_okE)
    from f [OF disp(3) assms(5,6)] f [OF disp(3) assms(7,8)] 2(1) x disp(1) False acc' show ?thesis
      by (auto simp: snmp_message_process_def split: option.splits sum.splits)
  qed
qed

text \<open>A turn of the serving loop: the two runs differ at most in what their buffers hold.\<close>

lemma udp_turn_local:
  assumes "security_ok sec" and "security_local sec" and "I s"
    and "length (in_buf task) = SNMP_MAX_PACKET_LEN" and "length (in_buf task') = SNMP_MAX_PACKET_LEN"
    and "length out = SNMP_MAX_PACKET_LEN" and "length out' = SNMP_MAX_PACKET_LEN" and "udp_sock task' = udp_sock task"
    and "snmp_udp_turn reg sec received out task s tr = Some (t1, s1, tr1)"
  shows "\<exists>t1'. snmp_udp_turn reg sec received out' task' s tr = Some (t1', s1, tr1) \<and> udp_sock t1' = udp_sock t1 \<and>
    length (in_buf t1') = SNMP_MAX_PACKET_LEN"
proof (cases received)
  case None
  with assms show ?thesis by (simp add: snmp_udp_turn_def)
next
  case (Some r)
  obtain peer payload where r: "r = (peer, payload)" by fastforce
  let ?bytes = "take SNMP_MAX_PACKET_LEN payload"
  define n where "n = length ?bytes"
  define buf where "buf = ?bytes @ drop n (in_buf task)"
  define buf' where "buf' = ?bytes @ drop n (in_buf task')"
  have same: "snmp_message_process reg sec buf' n out' SNMP_MAX_PACKET_LEN s = snmp_message_process reg sec buf n out SNMP_MAX_PACKET_LEN s"
    by (rule message_local [OF assms(1,2)]) (use assms(3-7) in \<open>simp_all add: buf_def buf'_def n_def\<close>)
  have len: "length (in_buf (task'\<lparr>in_buf := buf'\<rparr>)) = SNMP_MAX_PACKET_LEN" "udp_sock (task'\<lparr>in_buf := buf'\<rparr>) = udp_sock task"
    using assms(5,8) by (simp_all add: buf'_def n_def)
  have turn: "snmp_udp_turn reg sec received o' tk s tr =
      (let tk1 = tk\<lparr>in_buf := ?bytes @ drop n (in_buf tk)\<rparr> in
       if n = 0 then Some (tk1, s, tr)
       else do { (resp, s1) \<leftarrow> snmp_message_process reg sec (in_buf tk1) n o' SNMP_MAX_PACKET_LEN s;
         if length resp = 0 then Some (tk1, s1, tr)
         else let (sent, tr1) = sendto_call (udp_sock tk1) resp peer tr in Some (tk1, s1, tr1) })" for o' tk
    by (simp only: snmp_udp_turn_def Some r n_def Let_def option.case prod.case)
  show ?thesis
  proof (cases "n = 0")
    case True
    then have "payload = []" by (cases payload) (simp_all add: n_def)
    with True assms(5,8,9) turn show ?thesis by (auto simp: Let_def)
  next
    case False
    with assms(9) obtain resp where resp: "snmp_message_process reg sec buf n out SNMP_MAX_PACKET_LEN s = Some (resp, s1)"
      "tr1 = (if length resp = 0 then tr else snd (sendto_call (udp_sock task) resp peer tr))" "udp_sock t1 = udp_sock task"
      by (auto simp: turn Let_def buf_def [symmetric] bind_eq_Some_conv split_beta split: if_splits)
    have "snmp_udp_turn reg sec received out' task' s tr = Some (task'\<lparr>in_buf := buf'\<rparr>, s1, tr1)"
      using False resp(1,2) same assms(8) by (simp add: turn Let_def buf'_def [symmetric] split_beta)
    with len resp(3) show ?thesis by simp
  qed
qed

end

end
