(* ===== verification/Snmp_Pdu_Get_View.thy ===== *)
theory Snmp_Pdu_Get_View
  imports Snmp_Pdu_Get_Correct
begin

text \<open>
  What GetRequest and GetNextRequest answer over a settled backend: membership and successor in the set
  of instances, less the Counter64 instances for an SNMPv1 request; the whole response context, errors
  included, as a function of what the reads of these instances deliver.
\<close>

section \<open>The abstract lookup\<close>

text \<open>\<open>hit mode W q r\<close>: in the set \<open>W\<close> of instances the lookup of \<open>q\<close> finds \<open>r\<close>.\<close>

fun hit :: "lookup_mode \<Rightarrow> oid set \<Rightarrow> oid \<Rightarrow> oid option \<Rightarrow> bool" where
  "hit LOOKUP_EXACT W q None \<longleftrightarrow> q \<notin> W"
| "hit LOOKUP_EXACT W q (Some x) \<longleftrightarrow> x = q \<and> q \<in> W"
| "hit LOOKUP_NEXT W q r \<longleftrightarrow> is_next q W r"

abbreviation exception_tags :: "u8 set" where
  "exception_tags \<equiv> {SNMP_TAG_NO_SUCH_OBJECT, SNMP_TAG_NO_SUCH_INSTANCE, SNMP_TAG_END_OF_MIB_VIEW}"

text \<open>The exception that a lookup of \<open>q\<close> becomes in a v2c response when it finds nothing.\<close>

definition exception_of :: "'s registry \<Rightarrow> lookup_mode \<Rightarrow> oid \<Rightarrow> u8" where
  "exception_of reg mode q =
     (case mode of
        LOOKUP_NEXT \<Rightarrow> SNMP_TAG_END_OF_MIB_VIEW
      | LOOKUP_EXACT \<Rightarrow> if \<exists>t \<in> set (s_tables reg). cell_shaped t q then SNMP_TAG_NO_SUCH_INSTANCE else SNMP_TAG_NO_SUCH_OBJECT)"

text \<open>What a version can see: a Counter64 does not exist in SNMPv1.\<close>

definition visible :: "'s registry \<Rightarrow> snmp_version \<Rightarrow> oid set \<Rightarrow> oid set" where
  "visible reg version V = (if version = SNMP_VERSION_V1 then V - counter64_names reg else V)"

lemma visible_v1: "visible reg SNMP_VERSION_V1 V = V - counter64_names reg"
  by (simp add: visible_def)

lemma visible_subset: "visible reg version V \<subseteq> V"
  by (auto simp: visible_def)

lemma is_next_skip:
  assumes "is_next q V (Some x)" and "W \<subseteq> V" and "x \<notin> W" and "is_next x W r"
  shows "is_next q W r"
  using assms by (cases r) (force simp: is_next_def)+

section \<open>The abstract read\<close>

text \<open>
  A read of the name \<open>q\<close> finds no instance, or fetches the varbind that the getter of the instance delivers in
  the state that the earlier reads left, or that getter fails. \<open>old\<close> is the varbind that the getter is given.
\<close>

datatype read_outcome = Missing | is_fetched: Fetched snmp_varbind | is_failed: Failed snmp_varbind

inductive reads_one ::
  "'s registry \<Rightarrow> oid set \<Rightarrow> ('s \<Rightarrow> oid \<Rightarrow> bool) \<Rightarrow> lookup_mode \<Rightarrow> oid \<Rightarrow> snmp_varbind \<Rightarrow> 's \<Rightarrow> read_outcome \<Rightarrow> 's \<Rightarrow> bool"
  for reg W fails mode q old s where
  read_missing: "hit mode W q None \<Longrightarrow> reads_one reg W fails mode q old s Missing s"
| read_fetched: "hit mode W q (Some (rs_oid out)) \<Longrightarrow> resolved_from reg out \<Longrightarrow> \<not> fails s (rs_oid out) \<Longrightarrow>
    mib_resolved_get out (old\<lparr>vb_oid := rs_oid out\<rparr>) s = Some ((MIB_OK, vb), s') \<Longrightarrow> vb_oid vb = rs_oid out \<Longrightarrow>
    vb_tag vb \<in> smi_tags \<Longrightarrow> reads_one reg W fails mode q old s (Fetched vb) s'"
| read_failed: "hit mode W q (Some (rs_oid out)) \<Longrightarrow> resolved_from reg out \<Longrightarrow> fails s (rs_oid out) \<Longrightarrow>
    mib_resolved_get out (old\<lparr>vb_oid := rs_oid out\<rparr>) s = Some ((MIB_GEN_ERR, old\<lparr>vb_oid := rs_oid out\<rparr>), s') \<Longrightarrow>
    reads_one reg W fails mode q old s (Failed (old\<lparr>vb_oid := rs_oid out\<rparr>)) s'"

text \<open>The reads of the varbinds of a request, one after the other, up to the first outcome that ends them.\<close>

inductive reads ::
  "'s registry \<Rightarrow> oid set \<Rightarrow> ('s \<Rightarrow> oid \<Rightarrow> bool) \<Rightarrow> lookup_mode \<Rightarrow> (read_outcome \<Rightarrow> bool) \<Rightarrow> (snmp_varbind \<Rightarrow> snmp_varbind) \<Rightarrow>
   snmp_varbind list \<Rightarrow> 's \<Rightarrow> read_outcome list \<Rightarrow> 's \<Rightarrow> bool"
  for reg W fails mode ends old where
  reads_Nil: "reads reg W fails mode ends old [] s [] s"
| reads_end: "reads_one reg W fails mode (vb_oid q) (old q) s a s' \<Longrightarrow> ends a \<Longrightarrow> reads reg W fails mode ends old (q # qs) s [a] s'"
| reads_Cons: "reads_one reg W fails mode (vb_oid q) (old q) s a s1 \<Longrightarrow> \<not> ends a \<Longrightarrow>
    reads reg W fails mode ends old qs s1 as s' \<Longrightarrow> reads reg W fails mode ends old (q # qs) s (a # as) s'"

inductive_simps reads_Nil_iff [simp]: "reads reg W fails mode ends old [] s as s'"
inductive_cases reads_single: "reads reg W fails mode ends old [q] s as s'"

lemma reads_length: "reads reg W fails mode ends old qs s as s' \<Longrightarrow> length as \<le> length qs"
  by (induction rule: reads.induct) simp_all

section \<open>The abstract response\<close>

text \<open>The request with new varbinds in its first slots, as a response.\<close>

definition respond :: "snmp_pdu_ctx \<Rightarrow> snmp_varbind list \<Rightarrow> i32 \<Rightarrow> i32 \<Rightarrow> snmp_pdu_ctx" where
  "respond req vbs status index =
     req\<lparr>ctx_varbinds := vbs @ drop (length vbs) (ctx_varbinds req), ctx_pdu_tag := SNMP_PDU_GET_RESPONSE,
         ctx_error_status := status, ctx_error_index := index\<rparr>"

text \<open>
  SNMPv2c: every varbind is answered with the instance or with its exception. Only a getter that fails ends
  the request, with \<open>genErr\<close> and the position of its varbind.
\<close>

definition v2c_varbind :: "'s registry \<Rightarrow> lookup_mode \<Rightarrow> snmp_varbind \<Rightarrow> read_outcome \<Rightarrow> snmp_varbind" where
  "v2c_varbind reg mode q a =
     (case a of
        Missing \<Rightarrow> q\<lparr>vb_tag := exception_of reg mode (vb_oid q), vb_value := UOctets []\<rparr>
      | Fetched vb \<Rightarrow> vb
      | Failed vb \<Rightarrow> q)"

definition v2c_error :: "nat \<Rightarrow> read_outcome list \<Rightarrow> (i32 \<times> i32) option" where
  "v2c_error i as = (if as \<noteq> [] \<and> is_failed (last as) then Some (SNMP_V1_ERR_GEN_ERR, word_of_nat (i + length as)) else None)"

definition v2c_response ::
  "'s registry \<Rightarrow> oid set \<Rightarrow> ('s \<Rightarrow> oid \<Rightarrow> bool) \<Rightarrow> lookup_mode \<Rightarrow> snmp_pdu_ctx \<Rightarrow> 's \<Rightarrow> snmp_pdu_ctx \<Rightarrow> 's \<Rightarrow> bool" where
  "v2c_response reg V fails mode req s resp s' \<longleftrightarrow>
     (\<exists>as. reads reg V fails mode is_failed (\<lambda>q. vb_zero) (live_varbinds req) s as s' \<and>
        resp = (let vbs = map2 (v2c_varbind reg mode) (live_varbinds req) as in
          case v2c_error 0 as of None \<Rightarrow> respond req vbs 0 0 | Some (status, index) \<Rightarrow> respond req vbs status index))"

text \<open>
  SNMPv1: a first pass stops at the first varbind that has no instance, with \<open>noSuchName\<close>, or whose getter
  fails, with \<open>genErr\<close>, and leaves the varbinds of the request. When it gets through, a second pass reads
  them all again, into the slots of the request.
\<close>

definition v1_error :: "nat \<Rightarrow> read_outcome list \<Rightarrow> (i32 \<times> i32) option" where
  "v1_error i as =
     (if as = [] \<or> is_fetched (last as) then None
      else Some (if last as = Missing then SNMP_V1_ERR_NO_SUCH_NAME else SNMP_V1_ERR_GEN_ERR, word_of_nat (i + length as)))"

definition v1_varbind :: "snmp_varbind \<Rightarrow> read_outcome \<Rightarrow> snmp_varbind" where
  "v1_varbind q a = (case a of Missing \<Rightarrow> q | Fetched vb \<Rightarrow> vb | Failed vb \<Rightarrow> vb)"

definition v1_response ::
  "'s registry \<Rightarrow> oid set \<Rightarrow> ('s \<Rightarrow> oid \<Rightarrow> bool) \<Rightarrow> lookup_mode \<Rightarrow> snmp_pdu_ctx \<Rightarrow> 's \<Rightarrow> snmp_pdu_ctx \<Rightarrow> 's \<Rightarrow> bool" where
  "v1_response reg W fails mode req s resp s' \<longleftrightarrow>
     (\<exists>as s1. reads reg W fails mode (\<lambda>a. \<not> is_fetched a) (\<lambda>q. vb_zero) (live_varbinds req) s as s1 \<and>
        (case v1_error 0 as of
           Some (status, index) \<Rightarrow> resp = respond req [] status index \<and> s' = s1
         | None \<Rightarrow> \<exists>bs. reads reg W fails mode (\<lambda>a. False) (\<lambda>q. q) (live_varbinds req) s1 bs s' \<and>
             resp = respond req (map2 v1_varbind (live_varbinds req) bs) 0 0))"

definition read_response ::
  "'s registry \<Rightarrow> oid set \<Rightarrow> ('s \<Rightarrow> oid \<Rightarrow> bool) \<Rightarrow> lookup_mode \<Rightarrow> snmp_pdu_ctx \<Rightarrow> 's \<Rightarrow> snmp_pdu_ctx \<Rightarrow> 's \<Rightarrow> bool" where
  "read_response reg V fails mode req s resp s' \<longleftrightarrow>
     (if ctx_version req = SNMP_VERSION_V1 then v1_response reg (V - counter64_names reg) fails mode req s resp s'
      else v2c_response reg V fails mode req s resp s')"

section \<open>One lookup\<close>

text \<open>What a lookup that finds nothing returns.\<close>

fun misses :: "lookup_mode \<Rightarrow> mib_result set" where
  "misses LOOKUP_EXACT = {MIB_NO_SUCH_OBJECT, MIB_NO_SUCH_INSTANCE}"
| "misses LOOKUP_NEXT = {MIB_END_OF_VIEW}"

text \<open>The result and the varbind of the code for an outcome.\<close>

definition returned ::
  "'s registry \<Rightarrow> snmp_version \<Rightarrow> lookup_mode \<Rightarrow> oid \<Rightarrow> snmp_varbind \<Rightarrow> read_outcome \<Rightarrow> mib_result \<Rightarrow> snmp_varbind \<Rightarrow> bool" where
  "returned reg version mode q old a r vb \<longleftrightarrow>
     (case a of
        Missing \<Rightarrow> r \<in> misses mode \<and> vb = old \<and>
          (version \<noteq> SNMP_VERSION_V1 \<longrightarrow> v2c_exception_tag (snmp_error_translate version r) = exception_of reg mode q)
      | Fetched v \<Rightarrow> r = MIB_OK \<and> vb = v
      | Failed v \<Rightarrow> r = MIB_GEN_ERR \<and> vb = v)"

lemma hit_next_iff: "hit LOOKUP_NEXT W q r \<longleftrightarrow> is_next q W r"
  by simp

text \<open>Skipping an invisible instance changes nothing but the name that is asked for.\<close>

lemma reads_one_skip:
  assumes "reads_one reg W fails LOOKUP_NEXT x old s a s'" and "is_next q V (Some x)" and "W \<subseteq> V" and "x \<notin> W"
  shows "reads_one reg W fails LOOKUP_NEXT q old s a s'"
  using assms(1)
proof cases
  case read_missing
  with is_next_skip [OF assms(2-4)] show ?thesis by (simp add: reads_one.read_missing)
next
  case (read_fetched out vb)
  from read_fetched(2) is_next_skip [OF assms(2-4)] have "hit LOOKUP_NEXT W q (Some (rs_oid out))" by simp
  from this read_fetched(3-7) show ?thesis unfolding read_fetched(1) by (rule reads_one.read_fetched)
next
  case (read_failed out)
  from read_failed(2) is_next_skip [OF assms(2-4)] have "hit LOOKUP_NEXT W q (Some (rs_oid out))" by simp
  from this read_failed(3-5) show ?thesis unfolding read_failed(1) by (rule reads_one.read_failed)
qed

context mib_settled
begin

lemma fetch_reads:
  assumes "resolved_from reg out" and "rs_oid out \<in> V" and "I s" and "vb_ok old" and "hit mode W q (Some (rs_oid out))"
  shows "\<exists>r vb s' a. mib_resolved_get out (old\<lparr>vb_oid := rs_oid out\<rparr>) s = Some ((r, vb), s') \<and> I s' \<and> vb_ok vb \<and>
    reads_one reg W fails mode q old s a s' \<and> returned reg version mode q old a r vb"
proof -
  have "vb_ok (old\<lparr>vb_oid := rs_oid out\<rparr>)"
    by (rule vb_ok_oid [OF assms(4) resolved_from_length [OF walks assms(1)]])
  from get_total [OF assms(1,3) this] obtain r vb s' where
    get: "mib_resolved_get out (old\<lparr>vb_oid := rs_oid out\<rparr>) s = Some ((r, vb), s')" "I s'" "vb_ok vb" "vb_oid vb = rs_oid out"
      "if r = MIB_OK then vb_tag vb = rs_value_tag out else vb = old\<lparr>vb_oid := rs_oid out\<rparr>" by auto
  have r: "r = (if fails s (rs_oid out) then MIB_GEN_ERR else MIB_OK)" by (rule answers [OF assms(1,2,3) get(1)])
  show ?thesis
  proof (cases "fails s (rs_oid out)")
    case True
    then have r: "r = MIB_GEN_ERR" "vb = old\<lparr>vb_oid := rs_oid out\<rparr>" using r get(5) by simp_all
    from assms(5,1) True get(1) have "reads_one reg W fails mode q old s (Failed vb) s'"
      unfolding r by (rule read_failed)
    with r(1) get(1-3) show ?thesis by (auto simp: returned_def)
  next
    case False
    then have r: "r = MIB_OK" "vb_tag vb \<in> smi_tags" using r get(5) resolved_tag [OF assms(1)] by simp_all
    from assms(5,1) False get(1,4) r(2) have "reads_one reg W fails mode q old s (Fetched vb) s'"
      unfolding r(1) by (rule read_fetched)
    with r(1) get(1-3) show ?thesis by (auto simp: returned_def)
  qed
qed

lemma lookup_exact_reads:
  assumes "I s" and "vb_ok old"
  shows "\<exists>r vb s' a. lookup_loop (Suc guard) reg version LOOKUP_EXACT q old s = Some ((r, vb), s') \<and> I s' \<and> vb_ok vb \<and>
    reads_one reg (visible reg version V) fails LOOKUP_EXACT q old s a s' \<and> returned reg version LOOKUP_EXACT q old a r vb"
proof -
  let ?shaped = "\<exists>t \<in> set (s_tables reg). cell_shaped t q"
  obtain r where r: "mib_registry_resolve reg q s = Some (r, s)"
    "case r of Inl e \<Rightarrow> q \<notin> V \<and> e = (if ?shaped then MIB_NO_SUCH_INSTANCE else MIB_NO_SUCH_OBJECT)
      | Inr out \<Rightarrow> rs_oid out = q \<and> q \<in> V \<and> resolved_from reg out"
    using exact_in_view [OF assms(1)] by blast
  show ?thesis
  proof (cases r)
    case (Inl e)
    then have e: "q \<notin> V" "e = (if ?shaped then MIB_NO_SUCH_INSTANCE else MIB_NO_SUCH_OBJECT)" using r(2) by auto
    then have "returned reg version LOOKUP_EXACT q old Missing e old"
      by (simp add: returned_def exception_of_def snmp_error_translate_def Let_def)
    moreover have "reads_one reg (visible reg version V) fails LOOKUP_EXACT q old s Missing s"
      using e(1) by (intro read_missing) (auto simp: visible_def)
    ultimately show ?thesis using r(1) Inl assms by auto
  next
    case (Inr out)
    then have out: "rs_oid out = q" "q \<in> V" "resolved_from reg out" using r(2) by auto
    show ?thesis
    proof (cases "version = SNMP_VERSION_V1 \<and> rs_value_tag out = SNMP_TAG_COUNTER64")
      case True
      then have "reads_one reg (visible reg version V) fails LOOKUP_EXACT q old s Missing s"
        using counter64_iff [OF out(3)] out(1) by (intro read_missing) (simp add: visible_def)
      moreover have "returned reg version LOOKUP_EXACT q old Missing MIB_NO_SUCH_OBJECT old"
        using True by (simp add: returned_def)
      ultimately show ?thesis using r(1) Inr True assms by auto
    next
      case False
      then have "hit LOOKUP_EXACT (visible reg version V) q (Some (rs_oid out))"
        using out counter64_iff [OF out(3)] by (auto simp: visible_def)
      from fetch_reads [OF out(3) _ assms this] out(1,2) r(1) Inr False show ?thesis by auto
    qed
  qed
qed

lemma fewer_above:
  assumes "x \<in> V \<inter> W" and "q < x" and "card {y \<in> V \<inter> W. q < y} < Suc n"
  shows "card {y \<in> V \<inter> W. x < y} < n"
proof -
  have "{y \<in> V \<inter> W. x < y} \<subset> {y \<in> V \<inter> W. q < y}" using assms(1,2) by auto
  then have "card {y \<in> V \<inter> W. x < y} < card {y \<in> V \<inter> W. q < y}"
    using finite_view by (intro psubset_card_mono) auto
  with assms(3) show ?thesis by simp
qed

lemma returned_next:
  "returned reg version LOOKUP_NEXT x old a r vb \<Longrightarrow> returned reg version LOOKUP_NEXT q old a r vb"
  by (auto simp: returned_def exception_of_def split: read_outcome.splits)

lemma lookup_next_reads:
  assumes "I s" and "vb_ok old" and "card {x \<in> V \<inter> counter64_names reg. q < x} < guard"
  shows "\<exists>r vb s' a. lookup_loop guard reg version LOOKUP_NEXT q old s = Some ((r, vb), s') \<and> I s' \<and> vb_ok vb \<and>
    reads_one reg (visible reg version V) fails LOOKUP_NEXT q old s a s' \<and> returned reg version LOOKUP_NEXT q old a r vb"
  using assms(1,3)
proof (induction guard arbitrary: q s)
  case 0
  then show ?case by simp
next
  case (Suc guard)
  let ?W = "visible reg version V"
  obtain r where r: "mib_registry_resolve_next reg q s = Some (r, s)"
    "case r of Inl e \<Rightarrow> e = MIB_END_OF_VIEW \<and> is_next q V None
      | Inr out \<Rightarrow> is_next q V (Some (rs_oid out)) \<and> resolved_from reg out"
    using next_in_view [OF Suc.prems(1)] by blast
  show ?case
  proof (cases r)
    case (Inl e)
    then have "e = MIB_END_OF_VIEW" "is_next q V None" using r(2) by auto
    moreover from this have "reads_one reg ?W fails LOOKUP_NEXT q old s Missing s"
      using visible_subset [of reg version V] by (intro read_missing) (auto simp: is_next_def)
    ultimately show ?thesis using r(1) Inl Suc.prems(1) assms(2)
      by (auto simp: returned_def exception_of_def snmp_error_translate_def Let_def)
  next
    case (Inr out)
    then have out: "is_next q V (Some (rs_oid out))" "resolved_from reg out" using r(2) by auto
    then have mem: "rs_oid out \<in> V" "q < rs_oid out" by (auto simp: is_next_def)
    show ?thesis
    proof (cases "version = SNMP_VERSION_V1 \<and> rs_value_tag out = SNMP_TAG_COUNTER64")
      case True
      then have hidden: "rs_oid out \<in> counter64_names reg" "rs_oid out \<notin> ?W"
        using counter64_iff [OF out(2)] by (simp_all add: visible_def)
      with mem have "card {y \<in> V \<inter> counter64_names reg. rs_oid out < y} < guard"
        by (intro fewer_above [OF _ mem(2) Suc.prems(2)]) simp
      from Suc.IH [OF Suc.prems(1) this] obtain x vb s' a where
        rec: "lookup_loop guard reg version LOOKUP_NEXT (rs_oid out) old s = Some ((x, vb), s')" "I s'" "vb_ok vb"
          "reads_one reg ?W fails LOOKUP_NEXT (rs_oid out) old s a s'" "returned reg version LOOKUP_NEXT (rs_oid out) old a x vb"
        by blast
      have "lookup_loop (Suc guard) reg version LOOKUP_NEXT q old s = Some ((x, vb), s')"
        using r(1) Inr True rec(1) by simp
      with rec(2,3) reads_one_skip [OF rec(4) out(1) visible_subset hidden(2)] returned_next [OF rec(5)]
      show ?thesis by blast
    next
      case False
      then have "hit LOOKUP_NEXT ?W q (Some (rs_oid out))"
        using out counter64_iff [OF out(2)] by (auto simp: visible_def is_next_def)
      from fetch_reads [OF out(2) mem(1) Suc.prems(1) assms(2) this] r(1) Inr False show ?thesis by auto
    qed
  qed
qed

lemma lookup_reads:
  assumes "I s" and "vb_ok old"
  obtains r vb s' a where "lookup_and_fetch reg version mode req old s = Some ((r, vb), s')" "I s'" "vb_ok vb"
    "reads_one reg (visible reg version V) fails mode (vb_oid req) old s a s'" "returned reg version mode (vb_oid req) old a r vb"
proof (cases mode)
  case LOOKUP_EXACT
  with lookup_exact_reads [OF assms, where guard = 63 and q = "vb_oid req" and version = version] that show thesis
    unfolding lookup_and_fetch_def by (simp only: numeral_eq_Suc pred_numeral_simps arith_simps) blast
next
  case LOOKUP_NEXT
  have "card {x \<in> V \<inter> counter64_names reg. vb_oid req < x} \<le> card (V \<inter> counter64_names reg)"
    using finite_view by (intro card_mono) auto
  then have "card {x \<in> V \<inter> counter64_names reg. vb_oid req < x} < 64" using few_counter64 by simp
  from lookup_next_reads [OF assms this, of version] LOOKUP_NEXT that show thesis
    unfolding lookup_and_fetch_def by blast
qed

end

section \<open>The passes\<close>

text \<open>The varbinds after the reads from position \<open>i\<close> on.\<close>

definition answered :: "(snmp_varbind \<Rightarrow> read_outcome \<Rightarrow> snmp_varbind) \<Rightarrow> snmp_varbind list \<Rightarrow> nat \<Rightarrow> read_outcome list \<Rightarrow> snmp_varbind list" where
  "answered f vbs i as = take i vbs @ map2 f (drop i vbs) as @ drop (i + length as) vbs"

lemma answered_Nil [simp]: "answered f vbs i [] = vbs"
  by (simp add: answered_def)

lemma answered_Cons:
  "i < length vbs \<Longrightarrow> answered f vbs i (a # as) = answered f (vbs[i := f (vbs ! i) a]) (i + 1) as"
  by (simp add: answered_def Cons_nth_drop_Suc [symmetric] take_Suc_conv_app_nth drop_update_cancel)

lemma answered_same: "i < length vbs \<Longrightarrow> f (vbs ! i) a = vbs ! i \<Longrightarrow> answered f vbs i [a] = vbs"
  by (simp add: answered_Cons)

lemma slice_Cons: "i + Suc n \<le> length xs \<Longrightarrow> take (Suc n) (drop i xs) = xs ! i # take n (drop (i + 1) xs)"
  by (simp add: Cons_nth_drop_Suc [symmetric])

lemma map2_take: "length as \<le> n \<Longrightarrow> map2 f (take n xs) as = map2 f xs as"
proof -
  assume n: "length as \<le> n"
  then have "zip (take n xs) as = take n (zip xs as)" by (simp add: take_zip)
  also have "\<dots> = zip xs as" using n by simp
  finally show ?thesis by simp
qed

context mib_settled
begin

lemma v2c_reads_settled:
  assumes "I s" and "vbs_ok vbs" and "i + n \<le> length vbs" and "version \<noteq> SNMP_VERSION_V1"
  shows "\<exists>as s'. v2c_read reg version mode vbs n i s = Some ((answered (v2c_varbind reg mode) vbs i as, v2c_error i as), s') \<and>
    I s' \<and> reads reg V fails mode is_failed (\<lambda>q. vb_zero) (take n (drop i vbs)) s as s'"
  using assms(1-3)
proof (induction n arbitrary: i s vbs)
  case 0
  have "reads reg V fails mode is_failed (\<lambda>q. vb_zero) [] s [] s" by (rule reads_Nil)
  with 0 show ?case by (intro exI [of _ "[]"]) (simp add: v2c_error_def)
next
  case (Suc n)
  have i: "i < length vbs" using Suc.prems(3) by simp
  have vis: "visible reg version V = V" using assms(4) by (simp add: visible_def)
  obtain r scratch s1 a where fetch:
    "lookup_and_fetch reg version mode (vbs ! i) vb_zero s = Some ((r, scratch), s1)" "I s1" "vb_ok scratch"
    "reads_one reg V fails mode (vb_oid (vbs ! i)) vb_zero s a s1"
    "returned reg version mode (vb_oid (vbs ! i)) vb_zero a r scratch"
    by (rule lookup_reads [OF Suc.prems(1) vb_ok_zero, of version mode "vbs ! i", unfolded vis])
  let ?tr = "snmp_error_translate version r"
  let ?vb = "if v2c_exception_tag ?tr \<noteq> 0
     then (vbs ! i)\<lparr>vb_tag := v2c_exception_tag ?tr, vb_value := UOctets []\<rparr> else scratch"
  show ?case
  proof (cases "is_failed a")
    case True
    then obtain v where a: "a = Failed v" by (cases a) auto
    then have "v2c_read reg version mode vbs (Suc n) i s = Some ((vbs, Some (SNMP_V1_ERR_GEN_ERR, word_of_nat (i + 1))), s1)"
      using fetch(1,5) i assms(4) by (auto simp: returned_def snmp_error_translate_def Let_def)
    moreover have "answered (v2c_varbind reg mode) vbs i [a] = vbs" by (rule answered_same [OF i]) (simp add: a v2c_varbind_def)
    moreover have "reads reg V fails mode is_failed (\<lambda>q. vb_zero) (take (Suc n) (drop i vbs)) s [a] s1"
      unfolding slice_Cons [OF Suc.prems(3)] by (rule reads_end) (use fetch(4) True in simp_all)
    ultimately show ?thesis using fetch(2) True by (intro exI [of _ "[a]"] exI [of _ s1]) (simp add: v2c_error_def)
  next
    case False
    have vb: "?vb = v2c_varbind reg mode (vbs ! i) a" "\<not> pdu_level_abort ?tr"
      using fetch(5) False assms(4)
      by (cases a; cases mode; auto simp: returned_def v2c_varbind_def exception_of_def snmp_error_translate_def Let_def)+
    have "vb_ok ?vb" using vb_ok_exception [OF _ translate_exception_cases] Suc.prems(2) i fetch(3) by auto
    then have upd: "vbs_ok (vbs[i := ?vb])" by (rule vbs_ok_update [OF Suc.prems(2)])
    from Suc.IH [OF fetch(2) upd, of "i + 1"] Suc.prems(3) obtain as s' where
      rec: "v2c_read reg version mode (vbs[i := ?vb]) n (i + 1) s1 =
          Some ((answered (v2c_varbind reg mode) (vbs[i := ?vb]) (i + 1) as, v2c_error (i + 1) as), s')" "I s'"
        "reads reg V fails mode is_failed (\<lambda>q. vb_zero) (take n (drop (i + 1) (vbs[i := ?vb]))) s1 as s'" by auto
    have "v2c_read reg version mode vbs (Suc n) i s = v2c_read reg version mode (vbs[i := ?vb]) n (i + 1) s1"
      using fetch(1) i vb(2) by (simp add: Let_def)
    moreover have "v2c_error i (a # as) = v2c_error (i + 1) as" using False by (simp add: v2c_error_def)
    moreover have "answered (v2c_varbind reg mode) vbs i (a # as) = answered (v2c_varbind reg mode) (vbs[i := ?vb]) (i + 1) as"
      unfolding vb(1) by (rule answered_Cons [OF i])
    moreover have "reads reg V fails mode is_failed (\<lambda>q. vb_zero) (take (Suc n) (drop i vbs)) s (a # as) s'"
      unfolding slice_Cons [OF Suc.prems(3)] by (rule reads_Cons) (use fetch(4) False rec(3) in simp_all)
    ultimately show ?thesis using rec(1,2) by (intro exI [of _ "a # as"] exI [of _ s']) simp
  qed
qed

text \<open>Pass 1 of a v1 request.\<close>

lemma v1_probe_settled:
  assumes "I s" and "i + n \<le> length vbs"
  shows "\<exists>as s'. v1_probe reg mode vbs n i s = Some (v1_error i as, s') \<and> I s' \<and>
    reads reg (V - counter64_names reg) fails mode (\<lambda>a. \<not> is_fetched a) (\<lambda>q. vb_zero) (take n (drop i vbs)) s as s'"
  using assms
proof (induction n arbitrary: i s)
  case 0
  have "reads reg (V - counter64_names reg) fails mode (\<lambda>a. \<not> is_fetched a) (\<lambda>q. vb_zero) [] s [] s" by (rule reads_Nil)
  with 0 show ?case by (intro exI [of _ "[]"]) (simp add: v1_error_def)
next
  case (Suc n)
  obtain r vb s1 a where fetch:
    "lookup_and_fetch reg SNMP_VERSION_V1 mode (vbs ! i) vb_zero s = Some ((r, vb), s1)" "I s1"
    "reads_one reg (V - counter64_names reg) fails mode (vb_oid (vbs ! i)) vb_zero s a s1"
    "returned reg SNMP_VERSION_V1 mode (vb_oid (vbs ! i)) vb_zero a r vb"
    by (rule lookup_reads [OF Suc.prems(1) vb_ok_zero, of SNMP_VERSION_V1 mode "vbs ! i", unfolded visible_v1])
  show ?case
  proof (cases "is_fetched a")
    case False
    then have "v1_probe reg mode vbs (Suc n) i s = Some (v1_error i [a], s1)"
      using fetch(1,4) Suc.prems(2)
      by (cases a; cases mode; auto simp: returned_def v1_error_def snmp_error_translate_def Let_def)
    moreover have "reads reg (V - counter64_names reg) fails mode (\<lambda>a. \<not> is_fetched a) (\<lambda>q. vb_zero) (take (Suc n) (drop i vbs)) s [a] s1"
      unfolding slice_Cons [OF Suc.prems(2)] by (rule reads_end) (use fetch(3) False in simp_all)
    ultimately show ?thesis using fetch(2) by (intro exI [of _ "[a]"] exI [of _ s1]) simp
  next
    case True
    then have "\<not> pdu_level_abort (snmp_error_translate SNMP_VERSION_V1 r)"
      using fetch(4) by (cases a) (auto simp: returned_def snmp_error_translate_def)
    from Suc.IH [OF fetch(2), of "i + 1"] Suc.prems(2) this fetch(1) obtain as s' where
      rec: "v1_probe reg mode vbs (Suc n) i s = Some (v1_error (i + 1) as, s')" "I s'"
        "reads reg (V - counter64_names reg) fails mode (\<lambda>a. \<not> is_fetched a) (\<lambda>q. vb_zero) (take n (drop (i + 1) vbs)) s1 as s'"
      by (auto simp: Let_def)
    moreover have "v1_error i (a # as) = v1_error (i + 1) as" using True by (simp add: v1_error_def)
    moreover have "reads reg (V - counter64_names reg) fails mode (\<lambda>a. \<not> is_fetched a) (\<lambda>q. vb_zero) (take (Suc n) (drop i vbs)) s (a # as) s'"
      unfolding slice_Cons [OF Suc.prems(2)] by (rule reads_Cons) (use fetch(3) True rec(3) in simp_all)
    ultimately show ?thesis by (intro exI [of _ "a # as"] exI [of _ s']) simp
  qed
qed

text \<open>Pass 2.\<close>

lemma v1_commit_settled:
  assumes "I s" and "vbs_ok vbs" and "i + n \<le> length vbs"
  shows "\<exists>as s'. v1_commit reg mode vbs n i s = Some (answered v1_varbind vbs i as, s') \<and> I s' \<and>
    reads reg (V - counter64_names reg) fails mode (\<lambda>a. False) (\<lambda>q. q) (take n (drop i vbs)) s as s'"
  using assms
proof (induction n arbitrary: i s vbs)
  case 0
  have "reads reg (V - counter64_names reg) fails mode (\<lambda>a. False) (\<lambda>q. q) [] s [] s" by (rule reads_Nil)
  with 0 show ?case by (intro exI [of _ "[]"]) simp
next
  case (Suc n)
  have i: "i < length vbs" using Suc.prems(3) by simp
  then have ok: "vb_ok (vbs ! i)" using Suc.prems(2) by auto
  obtain r vb s1 a where fetch:
    "lookup_and_fetch reg SNMP_VERSION_V1 mode (vbs ! i) (vbs ! i) s = Some ((r, vb), s1)" "I s1" "vb_ok vb"
    "reads_one reg (V - counter64_names reg) fails mode (vb_oid (vbs ! i)) (vbs ! i) s a s1"
    "returned reg SNMP_VERSION_V1 mode (vb_oid (vbs ! i)) (vbs ! i) a r vb"
    by (rule lookup_reads [OF Suc.prems(1) ok, of SNMP_VERSION_V1 mode "vbs ! i", unfolded visible_v1])
  have vb: "vb = v1_varbind (vbs ! i) a" using fetch(5) by (cases a) (simp_all add: returned_def v1_varbind_def)
  from Suc.IH [OF fetch(2) vbs_ok_update [OF Suc.prems(2) fetch(3)], where i = "i + 1"] Suc.prems(3) obtain as s' where
    rec: "v1_commit reg mode (vbs[i := vb]) n (i + 1) s1 = Some (answered v1_varbind (vbs[i := vb]) (i + 1) as, s')" "I s'"
      "reads reg (V - counter64_names reg) fails mode (\<lambda>a. False) (\<lambda>q. q) (take n (drop (i + 1) (vbs[i := vb]))) s1 as s'"
    by fastforce
  have "v1_commit reg mode vbs (Suc n) i s = Some (answered v1_varbind vbs i (a # as), s')"
    using fetch(1) rec(1) i by (simp add: answered_Cons vb)
  moreover have "reads reg (V - counter64_names reg) fails mode (\<lambda>a. False) (\<lambda>q. q) (take (Suc n) (drop i vbs)) s (a # as) s'"
    unfolding slice_Cons [OF Suc.prems(3)] by (rule reads_Cons) (use fetch(4) rec(3) in simp_all)
  ultimately show ?case using rec(2) by blast
qed

section \<open>The whole handler\<close>

lemma answered_slots:
  assumes "ctx_ok ctx" and "length as \<le> length (live_varbinds ctx)"
  shows "answered f (ctx_varbinds ctx) 0 as =
    map2 f (live_varbinds ctx) as @ drop (length (map2 f (live_varbinds ctx) as)) (ctx_varbinds ctx)"
  using assms(2) ctx_ok_vbs [OF assms(1)] by (simp add: answered_def live_varbinds_def map2_take min_absorb2)

lemma v1_read_settled:
  assumes "I s" and "ctx_ok ctx" and v1: "ctx_version ctx = SNMP_VERSION_V1"
  shows "\<exists>ctx' s'. process_read_pdu reg ctx mode s = Some ((BER_OK, ctx'), s') \<and> I s' \<and>
    v1_response reg (V - counter64_names reg) fails mode ctx s ctx' s'"
proof -
  let ?vbs = "ctx_varbinds ctx" and ?n = "ctx_varbind_count ctx"
  have vbs: "vbs_ok ?vbs" and len: "0 + ?n \<le> length ?vbs" and live: "take ?n (drop 0 ?vbs) = live_varbinds ctx"
    using ctx_ok_vbs [OF assms(2)] by (simp_all add: live_varbinds_def)
  from v1_probe_settled [OF assms(1) len, of mode] obtain as s1 where
    probe: "v1_probe reg mode ?vbs ?n 0 s = Some (v1_error 0 as, s1)" "I s1"
      "reads reg (V - counter64_names reg) fails mode (\<lambda>a. \<not> is_fetched a) (\<lambda>q. vb_zero) (live_varbinds ctx) s as s1"
    unfolding live by blast
  show ?thesis
  proof (cases "v1_error 0 as")
    case None
    from v1_commit_settled [OF probe(2) vbs len, of mode] obtain bs s2 where
      commit: "v1_commit reg mode ?vbs ?n 0 s1 = Some (answered v1_varbind ?vbs 0 bs, s2)" "I s2"
        "reads reg (V - counter64_names reg) fails mode (\<lambda>a. False) (\<lambda>q. q) (live_varbinds ctx) s1 bs s2"
      unfolding live by blast
    let ?resp = "respond ctx (map2 v1_varbind (live_varbinds ctx) bs) 0 0"
    have "process_read_pdu reg ctx mode s = Some ((BER_OK, ?resp), s2)"
      unfolding respond_def answered_slots [OF assms(2) reads_length [OF commit(3)], symmetric]
      using v1 None probe(1) commit(1) by (simp add: process_read_pdu_def)
    moreover have "v1_response reg (V - counter64_names reg) fails mode ctx s ?resp s2"
      unfolding v1_response_def using None probe(3) commit(3) by (intro exI [of _ as] exI [of _ s1]) auto
    ultimately show ?thesis using commit(2) by blast
  next
    case (Some e)
    obtain status index where e: "e = (status, index)" by (cases e)
    have "process_read_pdu reg ctx mode s = Some ((BER_OK, respond ctx [] status index), s1)"
      using v1 Some probe(1) by (simp add: process_read_pdu_def respond_def e)
    moreover have "v1_response reg (V - counter64_names reg) fails mode ctx s (respond ctx [] status index) s1"
      unfolding v1_response_def using Some probe(3) by (intro exI [of _ as] exI [of _ s1]) (simp add: e)
    ultimately show ?thesis using probe(2) by blast
  qed
qed

lemma v2c_read_settled:
  assumes "I s" and "ctx_ok ctx" and v2c: "ctx_version ctx \<noteq> SNMP_VERSION_V1"
  shows "\<exists>ctx' s'. process_read_pdu reg ctx mode s = Some ((BER_OK, ctx'), s') \<and> I s' \<and>
    v2c_response reg V fails mode ctx s ctx' s'"
proof -
  let ?vbs = "ctx_varbinds ctx" and ?n = "ctx_varbind_count ctx"
  have vbs: "vbs_ok ?vbs" and len: "0 + ?n \<le> length ?vbs" and live: "take ?n (drop 0 ?vbs) = live_varbinds ctx"
    using ctx_ok_vbs [OF assms(2)] by (simp_all add: live_varbinds_def)
  from v2c_reads_settled [OF assms(1) vbs len v2c, of mode] obtain as s1 where
    read: "v2c_read reg (ctx_version ctx) mode ?vbs ?n 0 s = Some ((answered (v2c_varbind reg mode) ?vbs 0 as, v2c_error 0 as), s1)"
      "I s1" "reads reg V fails mode is_failed (\<lambda>q. vb_zero) (live_varbinds ctx) s as s1"
    unfolding live by blast
  let ?resp = "let vbs = map2 (v2c_varbind reg mode) (live_varbinds ctx) as in
    case v2c_error 0 as of None \<Rightarrow> respond ctx vbs 0 0 | Some (status, index) \<Rightarrow> respond ctx vbs status index"
  have "process_read_pdu reg ctx mode s = Some ((BER_OK, ?resp), s1)"
    unfolding respond_def Let_def answered_slots [OF assms(2) reads_length [OF read(3)], symmetric]
    using v2c read(1) by (simp add: process_read_pdu_def Let_def split: option.split)
  moreover have "v2c_response reg V fails mode ctx s ?resp s1"
    unfolding v2c_response_def using read(3) by (intro exI [of _ as]) simp
  ultimately show ?thesis using read(2) by blast
qed

lemma process_read_settled:
  assumes "I s" and "ctx_ok ctx"
  shows "\<exists>ctx' s'. process_read_pdu reg ctx mode s = Some ((BER_OK, ctx'), s') \<and> I s' \<and>
    read_response reg V fails mode ctx s ctx' s'"
  using v1_read_settled [OF assms, of mode] v2c_read_settled [OF assms, of mode] by (auto simp: read_response_def)

end

end
