(* ===== verification/Sensor_Reading.thy ===== *)
theory Sensor_Reading
  imports Device_Hal
begin

text \<open>
  What a read of the temperature answers, as a function of the device: with the mock its constant, with the
  DS18B20 the last successful one of the polls that were completed before the read.
\<close>

text \<open>The last successful one among some completed polls.\<close>

definition last_reading :: "i32 option \<Rightarrow> ow_transaction list \<Rightarrow> i32 option" where
  "last_reading r ws = (case rev (List.map_filter read_once ws) of [] \<Rightarrow> r | v # _ \<Rightarrow> Some v)"

definition cached_reading :: "device \<Rightarrow> i32 option" where
  "cached_reading d = (if s_have_reading d then Some (s_last_decidegrees d) else None)"

lemma last_reading_Cons:
  "last_reading r (w # ws) = last_reading (case read_once w of None \<Rightarrow> r | Some v \<Rightarrow> Some v) ws"
  by (auto simp: last_reading_def List.map_filter_simps split: option.split list.split)

lemma cached_polls: "cached_reading (foldl poll_turn d ws) = last_reading (cached_reading d) ws"
proof (induction ws arbitrary: d)
  case (Cons w ws)
  have "cached_reading (poll_turn d w) = (case read_once w of None \<Rightarrow> cached_reading d | Some v \<Rightarrow> Some v)"
    by (simp add: poll_turn_def cached_reading_def split: option.split)
  with Cons show ?case by (simp add: last_reading_Cons)
qed (simp add: last_reading_def List.map_filter_simps)

lemma read_cached:
  assumes "\<not> hal_mock d" and "s_lock d"
  shows "\<exists>d'. sensor_read_temperature_decidegrees d =
    Some (last_reading (cached_reading d) (e_polls (dev_env d) (dev_calls d)), d')"
proof -
  have "sensor_read_temperature_decidegrees d =
      Some (cached_reading (foldl poll_turn d (e_polls (dev_env d) (dev_calls d))),
        tick (foldl poll_turn d (e_polls (dev_env d) (dev_calls d))))"
    using assms by (simp add: sensor_read_temperature_decidegrees_def ds18b20_read_temperature_def take_lock_def
        cached_reading_def tick_def)
  then show ?thesis by (simp only: cached_polls) blast
qed

text \<open>The answer of the backend that is linked.\<close>

definition measured :: "device \<Rightarrow> i32 option" where
  "measured d = (if hal_mock d then Some 235 else last_reading (cached_reading d) (e_polls (dev_env d) (dev_calls d)))"

lemma sensor_read_measured:
  assumes "dev_ok d"
  obtains d' where "sensor_read_temperature_decidegrees d = Some (measured d, d')" "same_mib d d'"
proof -
  have "\<exists>d'. sensor_read_temperature_decidegrees d = Some (measured d, d')"
  proof (cases "hal_mock d")
    case True
    then show ?thesis by (simp add: measured_def sensor_read_temperature_decidegrees_def mock_read_temperature_def)
  next
    case False
    with read_cached [of d] assms show ?thesis by (simp add: measured_def dev_ok_def)
  qed
  with that sensor_read_same show thesis by blast
qed

end
