(* ===== verification/App_Main.thy ===== *)
theory App_Main
  imports Mib_Sensor_Table Mib_Wespe Snmp_Message_Local Snmp_Pdu_Get_View Sensor_Reading
begin

text \<open>
  \<open>main/app_main.c\<close>: the state in which the firmware starts and the order of the registrations. What
  the protocol engine needs of the four MIB modules is collected here, as interpretations of its
  interfaces on the registry that \<open>app_main\<close> builds: over any device state, over a device whose rows
  and settings stay, and over one whose getters all succeed.
\<close>

section \<open>Power on\<close>

text \<open>The static initialisers; the GPIO level before \<open>relay_init\<close> is the parameter \<open>level\<close>.\<close>

definition power_on :: "env \<Rightarrow> bool \<Rightarrow> device" where
  "power_on env level =
     \<lparr>dev_env = env, dev_calls = 0, gpio_relay = level, s_relay_on = False, s_lock = False, s_last_decidegrees = 0,
      s_have_reading = False, s_last_change_initialized = False, s_last_oper_up = False,
      s_last_change_ticks = 0, s_sys_contact = replicate WESPE_STR_MAX 0,
      s_sys_name = c_lit ''wespe-esp32s3'' @ replicate 51 0, s_sys_location = replicate WESPE_STR_MAX 0,
      s_labels = replicate SENSOR_MAX_COUNT (replicate WESPE_SENSOR_LABEL_MAX 0),
      s_read_count = replicate SENSOR_MAX_COUNT 0\<rparr>"

definition registry_empty :: "device registry" where
  "registry_empty = \<lparr>s_modules = [], s_tables = []\<rparr>"

text \<open>The two community arrays are initialised with \<open>"public"\<close> and \<open>"private"\<close>.\<close>

definition security_start :: security where
  "security_start =
     \<lparr>s_slots = [],
      s_communities = \<lparr>s_ro_community = c_lit ''public'' @ replicate 26 0,
                       s_rw_community = c_lit ''private'' @ replicate 25 0\<rparr>\<rparr>"

section \<open>The registrations of \<open>app_main\<close>\<close>

text \<open>
  From \<open>relay_init\<close> to \<open>mib_sensor_table_register\<close>, with the two configured communities.
\<close>

definition app_main_register ::
  "u8 list \<Rightarrow> u8 list \<Rightarrow> security \<Rightarrow> device registry \<Rightarrow> device \<Rightarrow> (security \<times> device registry \<times> device) option" where
  "app_main_register ro rw sec reg d = do {
     let (sensor_st, d0) = sensor_init d;
     let (relay_st, d1) = relay_init d0;
     sec1 \<leftarrow> snmp_security_community_init ro rw sec;
     let sec2 = snmp_security_usm_stub_init sec1;
     let reg1 = mib_ii_register reg;
     let reg2 = mib_wespe_register reg1;
     let reg3 = mib_iftable_register reg2;
     let (reg4, d2) = mib_sensor_table_register reg3 d1;
     Some (sec2, reg4, d2)
   }"

text \<open>The registry this leaves behind.\<close>

definition agent_registry :: "device registry" where
  "agent_registry =
     \<lparr>s_modules = [s_mib_ii_objects, s_mib_wespe_objects, s_iftable_scalars],
      s_tables = [s_iftable, s_ifxtable, s_sensor_table]\<rparr>"

lemma app_main_registry:
  "app_main_register ro rw sec registry_empty d = Some (sec', reg, d') \<Longrightarrow> reg = agent_registry"
  by (auto simp: app_main_register_def mib_ii_register_def mib_wespe_register_def mib_iftable_register_def
      mib_sensor_table_register_def mib_registry_register_module_def mib_registry_register_table_def
      registry_empty_def agent_registry_def Let_def bind_eq_Some_conv split: prod.splits)

section \<open>The interface of the protocol engine\<close>

lemma agent_scalars:
  "scalars agent_registry = set s_mib_ii_objects \<union> set s_mib_wespe_objects \<union> set s_iftable_scalars"
  by (simp add: agent_registry_def Un_assoc)

lemma agent_tables: "set (s_tables agent_registry) = {s_iftable, s_ifxtable, s_sensor_table}"
  by (simp add: agent_registry_def)

lemma agent_object_ok: "obj \<in> scalars agent_registry \<Longrightarrow> object_ok dev_ok obj"
  unfolding agent_scalars using mib_ii_objects_ok mib_wespe_objects_ok iftable_scalars_ok by blast

lemma agent_table_ok: "t \<in> set (s_tables agent_registry) \<Longrightarrow> table_ok dev_ok t"
  using iftable_ok ifxtable_ok sensor_table_ok by (auto simp: agent_registry_def)

interpretation agent: mib_backend agent_registry dev_ok
  by unfold_locales
    (use agent_object_ok agent_table_ok in \<open>auto simp: object_ok_def table_ok_def\<close>)

text \<open>The device that the registrations leave behind, when \<open>sensor_init\<close> succeeded.\<close>

definition init_answers :: "env \<Rightarrow> bool" where
  "init_answers env \<longleftrightarrow> e_gpio_config env \<and> e_mutex_create env \<and> (\<forall>n mac. e_mac env n = Some mac \<longrightarrow> length mac = 6)"

lemma app_main_device:
  assumes "init_answers env" and "app_main_register ro rw sec reg (power_on env level) = Some (sec', reg', d)"
  shows "dev_ok d \<and> \<not> s_relay_on d"
  using assms
  by (auto simp: init_answers_def app_main_register_def mib_sensor_table_register_def power_on_def sensor_init_def
      relay_init_def mock_sensor_init_def ds18b20_sensor_init_def mock_relay_init_def gpio_relay_init_def
      hal_mock_def dev_ok_def c_array_def Let_def bind_eq_Some_conv split: prod.splits if_splits)

section \<open>Settled rows\<close>

definition agent_rows :: "device mib_table \<Rightarrow> device \<Rightarrow> u32 list" where
  "agent_rows t d = (if mt_entry_oid t = mt_entry_oid s_sensor_table then sensor_rows d else [IF_INDEX_STA])"

lemma agent_rows_simps [simp]:
  "agent_rows s_iftable = (\<lambda>_. [IF_INDEX_STA])"
  "agent_rows s_ifxtable = (\<lambda>_. [IF_INDEX_STA])"
  "agent_rows s_sensor_table = sensor_rows"
  by (simp_all add: agent_rows_def fun_eq_iff s_iftable_def s_ifxtable_def s_sensor_table_def)

lemma agent_registry_rows: "registry_rows (\<lambda>d. dev_ok d \<and> sensor_fixed d) agent_rows agent_registry"
proof -
  have "mib_table_rows s_iftable (\<lambda>d. dev_ok d \<and> sensor_fixed d) (\<lambda>_. [IF_INDEX_STA])"
    "mib_table_rows s_ifxtable (\<lambda>d. dev_ok d \<and> sensor_fixed d) (\<lambda>_. [IF_INDEX_STA])"
    by (unfold_locales; auto simp: s_iftable_def s_ifxtable_def if_first_index_def if_next_index_def)+
  moreover have "\<forall>obj \<in> scalars agent_registry. length (mo_oid obj) \<le> BER_MAX_OID_LEN"
    using agent.objects by (simp add: object_reads_def)
  moreover have "distinct (map mt_entry_oid (s_tables agent_registry))"
    by (simp add: agent_registry_def s_iftable_def s_ifxtable_def s_sensor_table_def)
  ultimately show ?thesis
    using mib_ii_sorted mib_wespe_sorted iftable_scalars_sorted sensor_rows.mib_table_rows_axioms
    unfolding registry_rows_def by (simp add: agent_registry_def)
qed

section \<open>What reading leaves alone\<close>

text \<open>
  The settings that only a SetRequest may change (and the environment). A sensor label may only change by
  being read while it is empty, which stores its default text.
\<close>

definition labels_kept :: "device \<Rightarrow> device \<Rightarrow> bool" where
  "labels_kept d d' \<longleftrightarrow> length (s_labels d') = length (s_labels d) \<and>
     (\<forall>k < length (s_labels d).
        s_labels d' ! k \<in> {s_labels d ! k, label_slot (word_of_nat (Suc k)) (s_labels d ! k)})"

definition same_settings :: "device \<Rightarrow> device \<Rightarrow> bool" where
  "same_settings d d' \<longleftrightarrow>
     dev_env d' = dev_env d \<and> s_relay_on d' = s_relay_on d \<and> gpio_relay d' = gpio_relay d \<and>
     s_sys_contact d' = s_sys_contact d \<and> s_sys_name d' = s_sys_name d \<and> s_sys_location d' = s_sys_location d \<and>
     labels_kept d d'"

lemma same_settings_refl [simp]: "same_settings d d"
  by (simp add: same_settings_def labels_kept_def)

lemma labels_kept_trans: "labels_kept d d' \<Longrightarrow> labels_kept d' d'' \<Longrightarrow> labels_kept d d''"
  unfolding labels_kept_def using label_slot_idem by fastforce

lemma same_settings_transp: "transp same_settings"
  by (rule transpI) (auto simp: same_settings_def intro: labels_kept_trans)

lemma same_mib_settings: "same_mib d d' \<Longrightarrow> same_settings d d'"
  by (simp add: same_mib_def same_settings_def labels_kept_def)

lemma same_settings_upd [simp]:
  "same_settings d (d'\<lparr>s_read_count := c\<rparr>) = same_settings d d'"
  by (simp_all add: same_settings_def labels_kept_def)

lemma hal_settings [simp]:
  "same_settings d (tick d)"
  "same_settings d (snd (sysinfo_uptime_ms d))"
  "same_settings d (snd (sysinfo_free_heap_bytes d))"
  "same_settings d (snd (sysinfo_wifi_rssi_dbm d))"
  "same_settings d (snd (sysinfo_wifi_mac d))"
  "same_settings d (snd (sysinfo_wifi_oper_up d))"
  "same_settings d (snd (sysinfo_wifi_last_change_ticks d))"
  "same_settings d (snd (sensor_count d))"
  "same_settings d (snd (row_exists i d))"
  by (simp_all add: same_mib_settings)

lemma sensor_settings:
  "sensor_read_temperature_decidegrees d = Some (r, d') \<Longrightarrow> same_settings d d'"
  "sensor_read_decidegrees_indexed i d = Some (r, d') \<Longrightarrow> same_settings d d'"
  using sensor_read_same sensor_read_indexed_same by (blast intro: same_mib_settings)+

lemma mib_ii_keeps: "obj \<in> set s_mib_ii_objects \<Longrightarrow> getter_keeps same_settings (mo_getter obj)"
  by (auto simp: s_mib_ii_objects_def getter_keeps_def get_sys_descr_def get_sys_object_id_def get_sys_uptime_def
      get_sys_contact_def get_sys_name_def get_sys_location_def get_sys_services_def bind_eq_Some_conv Let_def split_beta)

lemma mib_wespe_keeps: "obj \<in> set s_mib_wespe_objects \<Longrightarrow> getter_keeps same_settings (mo_getter obj)"
  by (auto simp: s_mib_wespe_objects_def getter_keeps_def get_temperature_def get_relay_state_def
      get_uptime_seconds_def get_free_heap_def get_wifi_rssi_def relay_get_state_def mock_relay_get_state_def
      gpio_relay_get_state_def Let_def split_beta bind_eq_Some_conv sensor_settings split: option.splits if_splits)

lemma iftable_scalars_keeps: "obj \<in> set s_iftable_scalars \<Longrightarrow> getter_keeps same_settings (mo_getter obj)"
  by (auto simp: s_iftable_scalars_def getter_keeps_def get_if_number_def)

lemma iftable_keeps: "getter_keeps same_settings (iftable_get_cell c i)"
  by (auto simp: getter_keeps_def iftable_get_cell_def bind_eq_Some_conv Let_def split_beta
      split: option.splits if_splits)

lemma ifxtable_keeps: "getter_keeps same_settings (ifxtable_get_cell c i)"
  by (auto simp: getter_keeps_def ifxtable_get_cell_def bind_eq_Some_conv split: if_splits)

lemma label_for_settings:
  assumes "label_for i d = Some (l, d')"
  shows "same_settings d d'"
proof -
  have i: "i \<noteq> 0" "unat i - 1 < length (s_labels d)" "s_labels d ! (unat i - 1) \<noteq> []"
    using assms by (auto simp: label_for_def Let_def split: if_splits)
  then have "0 < unat i" by (simp add: unat_gt_0)
  then have "word_of_nat (Suc (unat i - 1)) = i" by simp
  with i label_for_eq [OF i] assms show ?thesis
    by (auto simp: same_settings_def labels_kept_def nth_list_update)
qed

lemma sensor_table_keeps: "getter_keeps same_settings (sensor_get_cell c i)"
  unfolding getter_keeps_def
proof (intro allI impI)
  fix vb d x d' assume "sensor_get_cell c i vb d = Some (x, d')"
  then have "same_settings (snd (row_exists i d)) d'"
    by (auto simp: sensor_get_cell_def Let_def split_beta bind_eq_Some_conv label_for_settings
        sensor_settings split: if_splits option.splits)
  then show "same_settings d d'" using hal_settings(9) same_settings_transp by (meson transpE)
qed

lemma agent_rows_keep: "t \<in> set (s_tables agent_registry) \<Longrightarrow> rows_keep same_settings t"
  using hal_settings(8,9)
  by (auto simp: agent_registry_def rows_keep_def s_iftable_def s_ifxtable_def s_sensor_table_def
      if_first_index_def if_next_index_def sensor_first_index_def sensor_next_index_def Let_def split_beta)

lemma agent_keeps: "registry_keeps same_settings agent_registry"
  unfolding registry_keeps_def agent_scalars
  using mib_ii_keeps mib_wespe_keeps iftable_scalars_keeps agent_rows_keep
    iftable_keeps ifxtable_keeps sensor_table_keeps
  by (auto simp: agent_registry_def s_iftable_def s_ifxtable_def s_sensor_table_def)

interpretation agent_reads: mib_reads agent_registry "\<lambda>d. dev_ok d \<and> same_settings d0 d" for d0
  by (rule mib_reads_keeps [OF agent.mib_reads_axioms agent_keeps same_settings_transp])

text \<open>With a settled sensor backend the view depends on the settings only.\<close>

definition agent_settled :: "device \<Rightarrow> device \<Rightarrow> bool" where
  "agent_settled d0 d \<longleftrightarrow> (dev_ok d \<and> same_settings d0 d) \<and> sensor_fixed d0"

definition agent_view :: "device \<Rightarrow> oid set" where
  "agent_view d = mib_view agent_rows agent_registry d"

lemma agent_view_settled: "agent_settled d0 d \<Longrightarrow> agent_view d = agent_view d0"
  by (simp add: agent_view_def mib_view_def agent_registry_def agent_settled_def same_settings_def sensor_rows_def)

lemma rows_restrict: "mib_table_rows t I rows \<Longrightarrow> mib_table_walk t J \<Longrightarrow> (\<And>s. J s \<Longrightarrow> I s) \<Longrightarrow> mib_table_rows t J rows"
  unfolding mib_table_rows_def mib_table_rows_axioms_def by blast

lemma settled_sensor_fixed: "agent_settled d0 d \<Longrightarrow> dev_ok d \<and> sensor_fixed d"
  by (simp add: agent_settled_def sensor_fixed_def same_settings_def)

lemma agent_settled_reads: "mib_reads agent_registry (agent_settled d0)"
proof (cases "sensor_fixed d0")
  case True
  then have "agent_settled d0 = (\<lambda>d. dev_ok d \<and> same_settings d0 d)"
    by (simp add: agent_settled_def fun_eq_iff)
  then show ?thesis using agent_reads.mib_reads_axioms by simp
next
  case False
  then have none: "agent_settled d0 = (\<lambda>d. False)" by (simp add: agent_settled_def fun_eq_iff)
  then show ?thesis
    using agent.objects agent.tables unfolding mib_reads_def none
    by (auto simp: object_reads_def table_reads_def getter_ok_def mib_table_walk_def simp del: insert_iff)
qed

section \<open>The instances of the settled agent\<close>

lemma agent_resolved_cases:
  assumes "resolved_from agent_registry out"
  obtains (object) obj where "obj \<in> scalars agent_registry" "out = scalar_at obj"
    | (cell) t col i where "t \<in> {s_iftable, s_ifxtable, s_sensor_table}" "col \<in> set (mt_columns t)" "out = cell_at t col i"
  using assms unfolding resolved_from_def by (auto simp: agent_registry_def)

lemma finite_agent_view: "finite (agent_view d)"
proof -
  have "finite (table_cells t is)" for t :: "device mib_table" and "is"
  proof -
    have "table_cells t is = (\<lambda>(col, i). cell_oid t (col_number col) i) ` (set (mt_columns t) \<times> set is)"
      by (auto simp: table_cells_def)
    then show ?thesis by simp
  qed
  then show ?thesis by (simp add: agent_view_def mib_view_def)
qed

lemma agent_scalars_distinct: "distinct (map mo_oid (concat (s_modules agent_registry)))"
  by (simp add: agent_registry_def s_mib_ii_objects_def s_mib_wespe_objects_def s_iftable_scalars_def)

lemma agent_scalar_short: "obj \<in> scalars agent_registry \<Longrightarrow> length (mo_oid obj) \<le> 10"
  by (auto simp: agent_registry_def s_mib_ii_objects_def s_mib_wespe_objects_def s_iftable_scalars_def)

lemma agent_cell_long:
  "t \<in> {s_iftable, s_ifxtable, s_sensor_table} \<Longrightarrow> 10 < length (cell_oid t c i)"
  by (auto simp: s_iftable_def s_ifxtable_def s_sensor_table_def)

lemma agent_cell_eq:
  assumes "t \<in> {s_iftable, s_ifxtable, s_sensor_table}" and "u \<in> {s_iftable, s_ifxtable, s_sensor_table}"
    and "cell_oid t c i = cell_oid u e j"
  shows "t = u \<and> c = e \<and> i = j"
  using assms by (auto simp: cell_oid_def s_iftable_def s_ifxtable_def s_sensor_table_def)

lemma agent_column_inj:
  "t \<in> {s_iftable, s_ifxtable, s_sensor_table} \<Longrightarrow> col \<in> set (mt_columns t) \<Longrightarrow> col' \<in> set (mt_columns t) \<Longrightarrow>
   col_number col = col_number col' \<Longrightarrow> col = col'"
  by (auto simp: s_iftable_def s_ifxtable_def s_sensor_table_def)

lemma agent_typed:
  assumes a: "resolved_from agent_registry a" and b: "resolved_from agent_registry b" and eq: "rs_oid a = rs_oid b"
  shows "rs_value_tag a = rs_value_tag b"
  using a
proof (cases rule: agent_resolved_cases)
  case obj: (object x)
  from b show ?thesis
  proof (cases rule: agent_resolved_cases)
    case (object y)
    with obj eq have "x = y"
      using agent_scalars_distinct by (auto simp: distinct_map dest: inj_onD)
    with obj object show ?thesis by simp
  next
    case (cell t col i)
    with obj eq have "mo_oid x = cell_oid t (col_number col) i" by simp
    with agent_scalar_short [OF obj(1)] agent_cell_long [OF cell(1), of "col_number col" i] show ?thesis by simp
  qed
next
  case t: (cell t col i)
  from b show ?thesis
  proof (cases rule: agent_resolved_cases)
    case (object y)
    with t eq have "mo_oid y = cell_oid t (col_number col) i" by simp
    with agent_scalar_short [OF object(1)] agent_cell_long [OF t(1), of "col_number col" i] show ?thesis by simp
  next
    case (cell u col' j)
    with t eq have "cell_oid t (col_number col) i = cell_oid u (col_number col') j" by simp
    from agent_cell_eq [OF t(1) cell(1) this] have "t = u" "col_number col = col_number col'" by simp_all
    moreover have "col' \<in> set (mt_columns t)" using cell(2) \<open>t = u\<close> by (simp only:)
    ultimately have "col = col'" using agent_column_inj [OF t(1,2)] by blast
    then show ?thesis unfolding t(3) cell(3) cell_at_def by (simp only: mib_resolved.select_convs)
  qed
qed

lemma agent_view_small: "card (agent_view d) \<le> 42"
proof -
  have rows: "length (sensor_rows d) \<le> 3" by (simp add: sensor_rows_def)
  have "agent_view d = mo_oid ` scalars agent_registry \<union> (table_cells s_iftable [IF_INDEX_STA] \<union>
      (table_cells s_ifxtable [IF_INDEX_STA] \<union> table_cells s_sensor_table (sensor_rows d)))"
    by (simp add: agent_view_def mib_view_def agent_registry_def)
  moreover have "card (mo_oid ` scalars agent_registry) \<le> 13"
    using card_image_le [of "scalars agent_registry" mo_oid] card_length [of "concat (s_modules agent_registry)"]
    by (simp add: agent_registry_def s_mib_ii_objects_def s_mib_wespe_objects_def s_iftable_scalars_def)
  moreover have "card (table_cells s_iftable [IF_INDEX_STA]) \<le> 11"
    using card_table_cells [of s_iftable "[IF_INDEX_STA]"] by (simp add: s_iftable_def)
  moreover have "card (table_cells s_ifxtable [IF_INDEX_STA]) \<le> 3"
    using card_table_cells [of s_ifxtable "[IF_INDEX_STA]"] by (simp add: s_ifxtable_def)
  moreover have "card (table_cells s_sensor_table (sensor_rows d)) \<le> 15"
    using card_table_cells [of s_sensor_table "sensor_rows d"] rows by (simp add: s_sensor_table_def)
  ultimately have "card (agent_view d) \<le> 13 + (11 + (3 + 15))"
    by (simp only:) (intro order_trans [OF card_Un_le] add_mono; assumption)
  then show ?thesis by simp
qed

lemma agent_few_counter64: "card (agent_view d \<inter> counter64_names agent_registry) < 64"
proof -
  have "card (agent_view d \<inter> counter64_names agent_registry) \<le> card (agent_view d)"
    by (rule card_mono [OF finite_agent_view]) simp
  with agent_view_small [of d] show ?thesis by simp
qed

section \<open>When a getter fails\<close>

text \<open>
  The instances whose read depends on the outside world: a temperature of which there is no reading, the
  signal strength of an access point when the station is not associated, and a MAC address that the driver
  does not have. Every other instance can always be read.
\<close>

definition instance_fails :: "device \<Rightarrow> oid \<Rightarrow> bool" where
  "instance_fails d x \<longleftrightarrow>
     (x = OID_WESPE_TEMPERATURE_mib \<or> x = cell_oid s_sensor_table COL_TEMP 1) \<and> measured d = None \<or>
     x = OID_WESPE_WIFI_RSSI \<and> e_ap_info (dev_env d) (dev_calls d) = None \<or>
     x = cell_oid s_iftable IF_COL_PHYS_ADDRESS IF_INDEX_STA \<and> e_mac (dev_env d) (dev_calls d) = None"

abbreviation answer_of :: "device \<Rightarrow> oid \<Rightarrow> mib_result" where
  "answer_of d x \<equiv> if instance_fails d x then MIB_GEN_ERR else MIB_OK"

lemma scalar_answer:
  assumes "dev_ok d" and obj: "obj \<in> scalars agent_registry" and get: "mo_getter obj vb d = Some ((r, vb'), d')"
  shows "r = answer_of d (mo_oid obj)"
proof -
  obtain d1 where temp: "sensor_read_temperature_decidegrees d = Some (measured d, d1)"
    using assms(1) by (rule sensor_read_measured)
  from obj get show ?thesis
    unfolding agent_scalars
    by (auto simp: s_mib_ii_objects_def s_mib_wespe_objects_def s_iftable_scalars_def temp instance_fails_def cell_oid_def
      s_sensor_table_def s_iftable_def sysinfo_wifi_rssi_dbm_def
      get_sys_descr_def get_sys_object_id_def get_sys_uptime_def get_sys_contact_def get_sys_name_def
      get_sys_location_def get_sys_services_def get_temperature_def get_relay_state_def get_uptime_seconds_def
      get_free_heap_def get_wifi_rssi_def get_if_number_def relay_get_state_def mock_relay_get_state_def
      gpio_relay_get_state_def bind_eq_Some_conv Let_def split_beta split: option.splits if_splits)
qed

text \<open>A cell of the view lies in a row of its table.\<close>

lemma agent_cell_in_view:
  assumes "u \<in> {s_iftable, s_ifxtable, s_sensor_table}" and "cell_oid u c i \<in> agent_view d"
  shows "i \<in> set (agent_rows u d)"
proof -
  have "cell_oid u c i \<noteq> mo_oid obj" if "obj \<in> scalars agent_registry" for obj
    using agent_scalar_short [OF that] agent_cell_long [OF assms(1), of c i]
    by (metis linorder_not_less)
  with assms(2) obtain t where t: "t \<in> {s_iftable, s_ifxtable, s_sensor_table}"
    "cell_oid u c i \<in> table_cells t (agent_rows t d)"
    unfolding agent_view_def mib_view_def agent_tables by blast
  from t(2) [unfolded table_cells_def mem_Collect_eq] obtain col :: mib_column and j where
    j: "cell_oid u c i = cell_oid t (col_number col) j" "j \<in> set (agent_rows t d)" by blast
  with agent_cell_eq [OF assms(1) t(1) j(1)] show ?thesis by auto
qed

lemma agent_sensor_cell_in_view: "cell_oid s_sensor_table c i \<in> agent_view d \<Longrightarrow> i \<in> set (sensor_rows d)"
  using agent_cell_in_view [of s_sensor_table c i d] by simp

lemma row_exists_fixed: "sensor_fixed d \<Longrightarrow> i \<in> set (sensor_rows d) \<Longrightarrow> row_exists i d = (True, d)"
  by (auto simp: sensor_fixed_def sensor_rows_def row_exists_def sensor_count_def mock_count_def
      ds18b20_count_def hal_mock_def split: sensor_backend.splits if_splits)

lemma cell_fails:
  "instance_fails d (cell_oid s_iftable c IF_INDEX_STA) \<longleftrightarrow> c = IF_COL_PHYS_ADDRESS \<and> e_mac (dev_env d) (dev_calls d) = None"
  "instance_fails d (cell_oid s_ifxtable c i) \<longleftrightarrow> False"
  "instance_fails d (cell_oid s_sensor_table c i) \<longleftrightarrow> c = COL_TEMP \<and> i = 1 \<and> measured d = None"
  by (auto simp: instance_fails_def cell_oid_def s_iftable_def s_ifxtable_def s_sensor_table_def)

lemma if_cell_answer:
  "col \<in> set (mt_columns s_iftable) \<Longrightarrow> iftable_get_cell (col_number col) IF_INDEX_STA vb d = Some ((r, vb'), d') \<Longrightarrow>
   r = answer_of d (cell_oid s_iftable (col_number col) IF_INDEX_STA)"
  unfolding cell_fails
  by (auto simp: s_iftable_def iftable_get_cell_def sysinfo_wifi_mac_def bind_eq_Some_conv Let_def split_beta split: option.splits)

lemma ifx_cell_answer:
  "col \<in> set (mt_columns s_ifxtable) \<Longrightarrow> ifxtable_get_cell (col_number col) i vb d = Some ((r, vb'), d') \<Longrightarrow> r = MIB_OK"
  by (auto simp: s_ifxtable_def ifxtable_get_cell_def bind_eq_Some_conv)

text \<open>The reading of a row: row 1 of the DS18B20 is the sensor, the rows of the mock have constants.\<close>

lemma sensor_row_reading:
  assumes "dev_ok d" and "i \<in> set (sensor_rows d)" and "sensor_read_decidegrees_indexed i d = Some (r, d')"
  shows "r = None \<longleftrightarrow> i = 1 \<and> measured d = None"
proof (cases "hal_mock d")
  case True
  have "\<not> (i < 1 \<or> 3 < i)" using assms(2) by (auto simp: sensor_rows_def split: if_splits)
  then have "r \<noteq> None"
    using True assms(3) unfolding sensor_read_decidegrees_indexed_def mock_read_indexed_def by (simp only: if_True if_False) auto
  with True show ?thesis by (simp add: measured_def)
next
  case False
  then have i: "i = 1" using assms(2) by (auto simp: sensor_rows_def hal_mock_def split: if_splits)
  obtain d1 where "sensor_read_temperature_decidegrees d = Some (measured d, d1)"
    using assms(1) by (rule sensor_read_measured)
  with False i assms(3) show ?thesis
    by (simp add: sensor_read_decidegrees_indexed_def ds18b20_read_indexed_def sensor_read_temperature_decidegrees_def)
qed

lemma sensor_cell_answer:
  assumes "dev_ok d" and "sensor_fixed d" and i: "i \<in> set (sensor_rows d)" and "col \<in> set (mt_columns s_sensor_table)"
    and "sensor_get_cell (col_number col) i vb d = Some ((r, vb'), d')"
  shows "r = answer_of d (cell_oid s_sensor_table (col_number col) i)"
proof -
  note get = assms(5) [unfolded sensor_get_cell_def row_exists_fixed [OF assms(2) i] Let_def, simplified]
  consider (temp) "col_number col = COL_TEMP" | (other) "col_number col \<in> {COL_INDEX, COL_LABEL, COL_READ_COUNT, COL_STATUS}"
    using assms(4) by (auto simp: s_sensor_table_def)
  then show ?thesis
  proof cases
    case temp
    with get obtain x d1 where x: "sensor_read_decidegrees_indexed i d = Some (x, d1)"
      by (auto simp: bind_eq_Some_conv)
    with temp get have "r = (if x = None then MIB_GEN_ERR else MIB_OK)"
      by (cases x) (simp_all split: if_splits)
    note x = x this
    from sensor_row_reading [OF assms(1) i x(1)] x(2) temp show ?thesis unfolding cell_fails by simp
  next
    case other
    with get have "r = MIB_OK" by (auto simp: bind_eq_Some_conv split: if_splits)
    with other show ?thesis unfolding cell_fails by auto
  qed
qed

lemma agent_answers:
  assumes out: "resolved_from agent_registry out" and mem: "rs_oid out \<in> agent_view d0" and d: "agent_settled d0 d"
    and get: "mib_resolved_get out vb d = Some ((r, vb'), d')"
  shows "r = answer_of d (rs_oid out)"
proof -
  have ok: "dev_ok d" "sensor_fixed d" using d settled_sensor_fixed [OF d] by (simp_all add: agent_settled_def)
  from out show ?thesis
  proof (cases rule: agent_resolved_cases)
    case (object obj)
    with get scalar_answer [OF ok(1) object(1)] show ?thesis by (simp add: mib_resolved_get_def scalar_at_def)
  next
    case (cell t col i)
    then have g: "mt_get_cell t (col_number col) i vb d = Some ((r, vb'), d')" "rs_oid out = cell_oid t (col_number col) i"
      using get by (simp_all add: mib_resolved_get_def cell_at_def)
    have "cell_oid t (col_number col) i \<in> agent_view d" using mem agent_view_settled [OF d] g(2) by simp
    from agent_cell_in_view [OF cell(1) this] have i: "i \<in> set (agent_rows t d)" .
    consider "t = s_iftable" | "t = s_ifxtable" | "t = s_sensor_table" using cell(1) by blast
    then show ?thesis
    proof cases
      case 1
      have "mt_get_cell s_iftable = iftable_get_cell" by (simp add: s_iftable_def)
      with if_cell_answer [of col vb d r vb' d'] cell(2) g i show ?thesis unfolding 1 by simp
    next
      case 2
      have "mt_get_cell s_ifxtable = ifxtable_get_cell" by (simp add: s_ifxtable_def)
      with ifx_cell_answer [of col i vb d r vb' d'] cell(2) g show ?thesis unfolding 2 by (simp add: cell_fails)
    next
      case 3
      have "mt_get_cell s_sensor_table = sensor_get_cell" by (simp add: s_sensor_table_def)
      with sensor_cell_answer [OF ok, of i col vb r vb' d'] cell(2) g i show ?thesis unfolding 3 by simp
    qed
  qed
qed

interpretation agent_fixed: mib_settled agent_registry "agent_settled d0" agent_rows "agent_view d0"
  instance_fails for d0
proof (intro mib_settled.intro mib_settled_axioms.intro)
  show reads: "mib_reads agent_registry (agent_settled d0)" by (rule agent_settled_reads)
  show "registry_rows (agent_settled d0) agent_rows agent_registry"
    using agent_registry_rows reads settled_sensor_fixed
    unfolding registry_rows_def mib_reads_def table_reads_def by (blast intro: rows_restrict)
  show "mib_view agent_rows agent_registry d = agent_view d0" if "agent_settled d0 d" for d
    using agent_view_settled [OF that] by (simp add: agent_view_def)
qed (use finite_agent_view agent_typed agent_answers agent_few_counter64 in blast)+

section \<open>An agent whose getters succeed\<close>

text \<open>
  The device is associated, its MAC address is known and its sensors are the fixed mock: then no getter
  fails.
\<close>

definition healthy :: "device \<Rightarrow> bool" where
  "healthy d \<longleftrightarrow> c_sensor (dev_env d) = Sensor_Mock \<and>
     (\<forall>n. e_ap_info (dev_env d) n \<noteq> None) \<and> (\<forall>n. e_mac (dev_env d) n \<noteq> None)"

lemma healthy_hal:
  assumes "healthy d"
  shows "sensor_read_temperature_decidegrees d = Some (Some 235, d)"
    and "\<exists>rssi. sysinfo_wifi_rssi_dbm d = (Some rssi, tick d)"
    and "\<exists>mac. sysinfo_wifi_mac d = (Some mac, tick d)"
    and "row_exists i d = (1 \<le> i \<and> i \<le> 3, d)"
    and "1 \<le> i \<Longrightarrow> i \<le> 3 \<Longrightarrow> \<exists>v. sensor_read_decidegrees_indexed i d = Some (Some v, d)"
  using assms
  by (auto simp: healthy_def hal_mock_def sensor_read_temperature_decidegrees_def mock_read_temperature_def
      sysinfo_wifi_rssi_dbm_def sysinfo_wifi_mac_def row_exists_def sensor_count_def mock_count_def
      sensor_read_decidegrees_indexed_def mock_read_indexed_def)

lemma healthy_reads:
  assumes "healthy d"
  shows "\<not> instance_fails d x"
proof -
  have "hal_mock d" using assms by (simp add: healthy_def hal_mock_def)
  with assms show ?thesis by (auto simp: instance_fails_def healthy_def measured_def)
qed

definition agent_healthy :: "device \<Rightarrow> device \<Rightarrow> bool" where
  "agent_healthy d0 d \<longleftrightarrow> agent_settled d0 d \<and> healthy d0"

lemma agent_healthy_reads: "mib_reads agent_registry (agent_healthy d0)"
proof (cases "healthy d0")
  case True
  then have "agent_healthy d0 = agent_settled d0" by (simp add: agent_healthy_def fun_eq_iff)
  then show ?thesis using agent_settled_reads by simp
next
  case False
  then have none: "agent_healthy d0 = (\<lambda>d. False)" by (simp add: agent_healthy_def fun_eq_iff)
  then show ?thesis
    using agent.objects agent.tables unfolding mib_reads_def none
    by (auto simp: object_reads_def table_reads_def getter_ok_def mib_table_walk_def simp del: insert_iff)
qed

interpretation agent_well: mib_settled agent_registry "agent_healthy d0" agent_rows "agent_view d0" "\<lambda>d x. False" for d0
proof (intro mib_settled.intro mib_settled_axioms.intro)
  show reads: "mib_reads agent_registry (agent_healthy d0)" by (rule agent_healthy_reads)
  show "registry_rows (agent_healthy d0) agent_rows agent_registry"
    using agent_registry_rows reads settled_sensor_fixed
    unfolding registry_rows_def mib_reads_def table_reads_def agent_healthy_def by (blast intro: rows_restrict)
  show "mib_view agent_rows agent_registry d = agent_view d0" if "agent_healthy d0 d" for d
    using agent_view_settled [of d0 d] that by (simp add: agent_view_def agent_healthy_def)
  show "r = (if False then MIB_GEN_ERR else MIB_OK)" if "resolved_from agent_registry out" "rs_oid out \<in> agent_view d0"
    "agent_healthy d0 d" "mib_resolved_get out vb d = Some ((r, vb'), d')" for out d vb r vb' d'
  proof -
    have "agent_settled d0 d" "healthy d"
      using that(3) by (auto simp: agent_healthy_def healthy_def agent_settled_def same_settings_def)
    with agent_answers [OF that(1,2) _ that(4)] healthy_reads show ?thesis by simp
  qed
qed (use finite_agent_view agent_typed agent_few_counter64 in \<open>blast+\<close>)

end
