(* ===== verification/Trap_Monitor.thy ===== *)
theory Trap_Monitor
  imports Snmp_Udp Snmp_Trap Device_Hal
begin

text \<open>
  \<open>main/trap_monitor.c\<close>: the task that polls the relay and the temperature and notifies of changes.
  The locals that live across the turns of its loop are the record \<open>monitor\<close>; \<open>config\<close> holds the
  Kconfig values the firmware is built with, the strings as character arrays.
\<close>

record config =
  CONFIG_WESPE_WIFI_SSID :: "u8 list"
  CONFIG_WESPE_WIFI_PASSWORD :: "u8 list"
  CONFIG_WESPE_SNMP_RO_COMMUNITY :: "u8 list"
  CONFIG_WESPE_SNMP_RW_COMMUNITY :: "u8 list"
  CONFIG_WESPE_TRAP_DEST_IP :: "u8 list"
  CONFIG_WESPE_TEMP_THRESHOLD_DECIDEGREES :: i32
  CONFIG_WESPE_TEMP_THRESHOLD_HYSTERESIS_DECIDEGREES :: i32

definition OID_RELAY_CHANGE_TRAP :: oid where "OID_RELAY_CHANGE_TRAP = [1, 3, 6, 1, 4, 1, 99999, 3, 1]"
definition OID_TEMP_THRESHOLD_TRAP :: oid where "OID_TEMP_THRESHOLD_TRAP = [1, 3, 6, 1, 4, 1, 99999, 3, 2]"
definition OID_WESPE_RELAY_STATE :: oid where "OID_WESPE_RELAY_STATE = [1, 3, 6, 1, 4, 1, 99999, 2, 2, 0]"
definition OID_WESPE_TEMPERATURE :: oid where "OID_WESPE_TEMPERATURE = [1, 3, 6, 1, 4, 1, 99999, 2, 1, 0]"

text \<open>\<open>send_trap\<close>; \<open>packet\<close> is what its buffer of 256 bytes holds.\<close>

definition send_trap ::
  "config \<Rightarrow> u8 list \<Rightarrow> oid \<Rightarrow> snmp_varbind list \<Rightarrow> device \<Rightarrow> transport \<Rightarrow> (device \<times> transport) option" where
  "send_trap cfg packet trap_oid extra d tr = do {
     let (ms, d1) = sysinfo_uptime_ms d;
     bytes \<leftarrow> snmp_trap_build SNMP_VERSION_V2C (CONFIG_WESPE_SNMP_RO_COMMUNITY cfg) (ucast (ms div 10))
       trap_oid None extra packet 256;
     if 0 < length bytes then Some (d1, snd (snmp_transport_send_trap bytes tr)) else Some (d1, tr)
   }"

record monitor =
  have_relay_baseline :: bool
  last_relay_on :: bool
  have_temp_baseline :: bool
  over_threshold :: bool

definition monitor_start :: monitor where
  "monitor_start = \<lparr>have_relay_baseline = False, last_relay_on = False,
     have_temp_baseline = False, over_threshold = False\<rparr>"

text \<open>The varbind of a notification: an INTEGER under its name.\<close>

definition trap_varbind :: "oid \<Rightarrow> i32 \<Rightarrow> snmp_varbind" where
  "trap_varbind name v = vb_zero\<lparr>vb_oid := name, vb_tag := BER_TAG_INTEGER, vb_value := UInt v\<rparr>"

text \<open>The first half of a turn: the relay.\<close>

definition monitor_relay ::
  "config \<Rightarrow> u8 list \<Rightarrow> monitor \<Rightarrow> device \<Rightarrow> transport \<Rightarrow> (monitor \<times> device \<times> transport) option" where
  "monitor_relay cfg packet m d tr =
     (let (st, relay_on) = relay_get_state d in
      if st \<noteq> 0 then Some (m, d, tr)
      else if \<not> have_relay_baseline m then
        Some (m\<lparr>last_relay_on := relay_on, have_relay_baseline := True\<rparr>, d, tr)
      else if relay_on \<noteq> last_relay_on m then do {
        (d1, tr1) \<leftarrow> send_trap cfg packet OID_RELAY_CHANGE_TRAP
          [trap_varbind OID_WESPE_RELAY_STATE (if relay_on then 1 else 0)] d tr;
        Some (m\<lparr>last_relay_on := relay_on\<rparr>, d1, tr1)
      }
      else Some (m, d, tr))"

text \<open>The signed subtraction of two 32-bit integers; \<open>None\<close> when it overflows.\<close>

definition sub_i32 :: "i32 \<Rightarrow> i32 \<Rightarrow> i32 option" where
  "sub_i32 a b = (let r = sint a - sint b in if - (2 ^ 31) \<le> r \<and> r < 2 ^ 31 then Some (word_of_int r) else None)"

text \<open>The second half: the temperature. Comparisons are signed.\<close>

definition monitor_temperature ::
  "config \<Rightarrow> u8 list \<Rightarrow> monitor \<Rightarrow> device \<Rightarrow> transport \<Rightarrow> (monitor \<times> device \<times> transport) option" where
  "monitor_temperature cfg packet m d tr = do {
     let threshold = CONFIG_WESPE_TEMP_THRESHOLD_DECIDEGREES cfg;
     let hysteresis = CONFIG_WESPE_TEMP_THRESHOLD_HYSTERESIS_DECIDEGREES cfg;
     (r, d1) \<leftarrow> sensor_read_temperature_decidegrees d;
     case r of
       None \<Rightarrow> Some (m, d1, tr)
     | Some decidegrees \<Rightarrow>
         if \<not> have_temp_baseline m then
           Some (m\<lparr>over_threshold := threshold \<le>s decidegrees, have_temp_baseline := True\<rparr>, d1, tr)
         else if \<not> over_threshold m \<and> threshold \<le>s decidegrees then do {
           (d2, tr2) \<leftarrow> send_trap cfg packet OID_TEMP_THRESHOLD_TRAP
             [trap_varbind OID_WESPE_TEMPERATURE decidegrees] d1 tr;
           Some (m\<lparr>over_threshold := True\<rparr>, d2, tr2)
         }
         else if over_threshold m then do {
           limit \<leftarrow> sub_i32 threshold hysteresis;
           Some (if decidegrees <s limit then m\<lparr>over_threshold := False\<rparr> else m, d1, tr)
         }
         else Some (m, d1, tr)
   }"

text \<open>One turn of \<open>monitor_task\<close>.\<close>

definition monitor_turn ::
  "config \<Rightarrow> u8 list \<Rightarrow> monitor \<Rightarrow> device \<Rightarrow> transport \<Rightarrow> (monitor \<times> device \<times> transport) option" where
  "monitor_turn cfg packet m d tr = do {
     (m1, d1, tr1) \<leftarrow> monitor_relay cfg packet m d tr;
     monitor_temperature cfg packet m1 d1 tr1
   }"

text \<open>
  The loop of \<open>monitor_task\<close>, as many turns as \<open>ws\<close> has entries: each is what a turn finds, the bytes of
  the buffer, the device and the transport, which the other task may have used during \<open>vTaskDelay\<close>. The
  result is what the turns leave.
\<close>

fun monitor_loop ::
  "config \<Rightarrow> (u8 list \<times> device \<times> transport) list \<Rightarrow> monitor \<Rightarrow> (monitor \<times> (device \<times> transport) list) option" where
  "monitor_loop cfg [] m = Some (m, [])"
| "monitor_loop cfg ((packet, d, tr) # ws) m = do {
     (m1, d1, tr1) \<leftarrow> monitor_turn cfg packet m d tr;
     (m2, outs) \<leftarrow> monitor_loop cfg ws m1;
     Some (m2, (d1, tr1) # outs)
   }"

definition trap_monitor_start :: "transport \<Rightarrow> monitor option \<times> transport" where
  "trap_monitor_start tr = (let (ok, tr1) = task_create_call tr in (if ok then Some monitor_start else None, tr1))"

end
