(* ===== verification/Trap_Monitor_Correct.thy ===== *)
theory Trap_Monitor_Correct
  imports Trap_Monitor Sensor_Reading
begin

text \<open>
  What the monitor promises, as a function of the readings alone, and the refinement of the task to it:
  the relay is notified exactly at its changes, the temperature once per crossing, and a reading that
  dithers above the hysteresis band is not notified again.
\<close>

section \<open>The abstract monitor\<close>

text \<open>A notification: the trap, the name of its varbind, the value.\<close>

type_synonym notification = "oid \<times> oid \<times> i32"

definition relay_note :: "bool \<Rightarrow> notification" where
  "relay_note on = (OID_RELAY_CHANGE_TRAP, OID_WESPE_RELAY_STATE, if on then 1 else 0)"

definition temperature_note :: "i32 \<Rightarrow> notification" where
  "temperature_note v = (OID_TEMP_THRESHOLD_TRAP, OID_WESPE_TEMPERATURE, v)"

definition relay_step :: "bool \<Rightarrow> monitor \<Rightarrow> monitor \<times> notification list" where
  "relay_step on m =
     (m\<lparr>have_relay_baseline := True, last_relay_on := on\<rparr>,
      if have_relay_baseline m \<and> on \<noteq> last_relay_on m then [relay_note on] else [])"

text \<open>The limits as integers, without the width of the machine.\<close>

abbreviation threshold_of :: "config \<Rightarrow> int" where
  "threshold_of cfg \<equiv> sint (CONFIG_WESPE_TEMP_THRESHOLD_DECIDEGREES cfg)"

abbreviation clear_below :: "config \<Rightarrow> int" where
  "clear_below cfg \<equiv> threshold_of cfg - sint (CONFIG_WESPE_TEMP_THRESHOLD_HYSTERESIS_DECIDEGREES cfg)"

definition temperature_step :: "config \<Rightarrow> i32 option \<Rightarrow> monitor \<Rightarrow> monitor \<times> notification list" where
  "temperature_step cfg r m =
     (case r of
        None \<Rightarrow> (m, [])
      | Some v \<Rightarrow>
          if \<not> have_temp_baseline m then
            (m\<lparr>have_temp_baseline := True, over_threshold := (threshold_of cfg \<le> sint v)\<rparr>, [])
          else if \<not> over_threshold m then
            (if threshold_of cfg \<le> sint v then (m\<lparr>over_threshold := True\<rparr>, [temperature_note v]) else (m, []))
          else (m\<lparr>over_threshold := \<not> sint v < clear_below cfg\<rparr>, []))"

definition monitor_spec :: "config \<Rightarrow> bool \<times> i32 option \<Rightarrow> monitor \<Rightarrow> monitor \<times> notification list" where
  "monitor_spec cfg reading m =
     (let (m1, a) = relay_step (fst reading) m; (m2, b) = temperature_step cfg (snd reading) m1 in (m2, a @ b))"

fun monitor_run :: "config \<Rightarrow> (bool \<times> i32 option) list \<Rightarrow> monitor \<Rightarrow> monitor \<times> notification list" where
  "monitor_run cfg [] m = (m, [])"
| "monitor_run cfg (r # rs) m =
     (let (m1, a) = monitor_spec cfg r m; (m2, b) = monitor_run cfg rs m1 in (m2, a @ b))"

text \<open>
  The readings are those of the device: a turn that finds the device \<open>d\<close> reads the relay there, and the
  temperature there too, unless it notified of the relay first, which looked at the clock once.
\<close>

definition clocked :: "monitor \<Rightarrow> device \<Rightarrow> device" where
  "clocked m d = (if have_relay_baseline m \<and> s_relay_on d \<noteq> last_relay_on m then tick d else d)"

definition polled :: "monitor \<Rightarrow> device \<Rightarrow> bool \<times> i32 option" where
  "polled m d = (s_relay_on d, measured (clocked m d))"

text \<open>The monitor over the devices that its turns find: turn by turn its notifications, and the readings.\<close>

fun monitor_watch :: "config \<Rightarrow> device list \<Rightarrow> monitor \<Rightarrow> monitor \<times> notification list list" where
  "monitor_watch cfg [] m = (m, [])"
| "monitor_watch cfg (d # ds) m =
     (let (m1, a) = monitor_spec cfg (polled m d) m; (m2, b) = monitor_watch cfg ds m1 in (m2, a # b))"

fun readings :: "config \<Rightarrow> device list \<Rightarrow> monitor \<Rightarrow> (bool \<times> i32 option) list" where
  "readings cfg [] m = []"
| "readings cfg (d # ds) m = polled m d # readings cfg ds (fst (monitor_spec cfg (polled m d) m))"

lemma polled_relay_state [simp]: "fst (polled m d) = s_relay_on d"
  by (simp add: polled_def)

lemma watch_run: "monitor_run cfg (readings cfg ds m) m = (fst (monitor_watch cfg ds m), concat (snd (monitor_watch cfg ds m)))"
  by (induction ds arbitrary: m) (simp_all add: split_beta Let_def)

lemma readings_relay: "map fst (readings cfg ds m) = map s_relay_on ds"
  by (induction ds arbitrary: m) simp_all

section \<open>The refinement\<close>

text \<open>The configured strings are C strings and the limit of the hysteresis does not overflow.\<close>

definition config_ok :: "config \<Rightarrow> bool" where
  "config_ok cfg \<longleftrightarrow>
     0 \<in> set (CONFIG_WESPE_SNMP_RO_COMMUNITY cfg) \<and> 0 \<in> set (CONFIG_WESPE_SNMP_RW_COMMUNITY cfg) \<and>
     0 \<in> set (CONFIG_WESPE_TRAP_DEST_IP cfg) \<and>
     - (2 ^ 31) \<le> clear_below cfg \<and> clear_below cfg < 2 ^ 31"

definition note_packet :: "config \<Rightarrow> u32 \<Rightarrow> notification \<Rightarrow> u8 list option" where
  "note_packet cfg uptime note = (case note of (trap, name, v) \<Rightarrow>
     v2c_trap_packet (CONFIG_WESPE_SNMP_RO_COMMUNITY cfg) uptime trap [trap_varbind name v])"

definition note_sent :: "config \<Rightarrow> u32 \<Rightarrow> notification \<Rightarrow> transport \<Rightarrow> transport" where
  "note_sent cfg uptime note tr =
     (let bytes = fitting 256 (note_packet cfg uptime note) in
      if 0 < length bytes then snd (snmp_transport_send_trap bytes tr) else tr)"

inductive notes_sent :: "config \<Rightarrow> notification list \<Rightarrow> transport \<Rightarrow> transport \<Rightarrow> bool" for cfg where
  notes_Nil: "notes_sent cfg [] tr tr"
| notes_Cons: "notes_sent cfg notes (note_sent cfg uptime note tr) tr' \<Longrightarrow> notes_sent cfg (note # notes) tr tr'"

inductive_simps notes_sent_Nil [simp]: "notes_sent cfg [] tr tr'"
inductive_simps notes_sent_Cons: "notes_sent cfg (note # notes) tr tr'"

lemma notes_sent_append:
  "notes_sent cfg a tr tr1 \<Longrightarrow> notes_sent cfg b tr1 tr2 \<Longrightarrow> notes_sent cfg (a @ b) tr tr2"
  by (induction rule: notes_sent.induct) (auto intro: notes_sent.intros)

lemma notes_sent_single: "notes_sent cfg [note] tr (note_sent cfg uptime note tr)"
  by (rule notes_Cons [OF notes_Nil])

lemma send_trap_note:
  assumes "config_ok cfg" and "length packet = 256" and "length trap \<le> BER_MAX_OID_LEN" and "length name \<le> BER_MAX_OID_LEN"
  obtains uptime where
    "send_trap cfg packet trap [trap_varbind name v] d tr = Some (tick d, note_sent cfg uptime (trap, name, v) tr)"
proof -
  have vb: "\<forall>vb \<in> set [trap_varbind name v]. vb_ok vb"
    using assms(4) by (simp add: trap_varbind_def vb_ok_def value_ok_def vb_zero_def)
  obtain ms where ms: "sysinfo_uptime_ms d = (ms, tick d)" by (simp add: sysinfo_uptime_ms_def)
  have "snmp_trap_build SNMP_VERSION_V2C (CONFIG_WESPE_SNMP_RO_COMMUNITY cfg) (ucast (ms div 10)) trap None
      [trap_varbind name v] packet 256 = Some (fitting 256 (note_packet cfg (ucast (ms div 10)) (trap, name, v)))"
    using assms vb build_v2c_trap_packet [of "CONFIG_WESPE_SNMP_RO_COMMUNITY cfg" 256 packet trap "[trap_varbind name v]"]
    by (simp add: snmp_trap_build_def config_ok_def note_packet_def)
  then have "send_trap cfg packet trap [trap_varbind name v] d tr =
      Some (tick d, note_sent cfg (ucast (ms div 10)) (trap, name, v) tr)"
    by (simp add: send_trap_def ms note_sent_def Let_def)
  then show thesis by (rule that)
qed

text \<open>The relay half of a turn.\<close>

lemma relay_reading: "relay_get_state d = (0, s_relay_on d)"
  by (simp add: relay_get_state_def mock_relay_get_state_def gpio_relay_get_state_def)

lemma monitor_relay_refines:
  assumes "config_ok cfg" and "length packet = 256"
  shows "\<exists>m' tr' notes. monitor_relay cfg packet m d tr = Some (m', clocked m d, tr') \<and>
    relay_step (s_relay_on d) m = (m', notes) \<and> notes_sent cfg notes tr tr'"
proof (cases "have_relay_baseline m \<and> s_relay_on d \<noteq> last_relay_on m")
  case True
  obtain uptime where sent: "send_trap cfg packet OID_RELAY_CHANGE_TRAP
      [trap_varbind OID_WESPE_RELAY_STATE (if s_relay_on d then 1 else 0)] d tr =
      Some (tick d, note_sent cfg uptime (relay_note (s_relay_on d)) tr)"
    using assms by (rule send_trap_note [of cfg packet OID_RELAY_CHANGE_TRAP OID_WESPE_RELAY_STATE])
      (auto simp: OID_RELAY_CHANGE_TRAP_def OID_WESPE_RELAY_STATE_def relay_note_def)
  have "monitor_relay cfg packet m d tr =
      Some (m\<lparr>last_relay_on := s_relay_on d\<rparr>, clocked m d, note_sent cfg uptime (relay_note (s_relay_on d)) tr)"
    using True sent by (cases "s_relay_on d") (auto simp: monitor_relay_def relay_reading clocked_def)
  moreover have "relay_step (s_relay_on d) m = (m\<lparr>last_relay_on := s_relay_on d\<rparr>, [relay_note (s_relay_on d)])"
    using True by (simp add: relay_step_def)
  ultimately show ?thesis using notes_sent_single by blast
next
  case False
  then show ?thesis
    by (cases m) (auto simp: monitor_relay_def relay_reading relay_step_def clocked_def)
qed

lemma sub_i32_eq:
  assumes "- (2 ^ 31) \<le> sint a - sint b" and "sint a - sint b < 2 ^ 31"
  shows "\<exists>r. sub_i32 a b = Some r \<and> sint r = sint a - sint b"
proof -
  have "sint (word_of_int (sint a - sint b) :: i32) = signed_take_bit 31 (sint a - sint b)"
    by (simp only: sint_sbintrunc') simp
  also have "\<dots> = sint a - sint b" using assms by (intro signed_take_bit_int_eq_self) simp_all
  finally show ?thesis using assms by (simp add: sub_i32_def Let_def del: of_int_diff)
qed

lemma monitor_temperature_refines:
  assumes cfg: "config_ok cfg" and "length packet = 256" and dev: "dev_ok d"
  shows "\<exists>m' d' tr' notes. monitor_temperature cfg packet m d tr = Some (m', d', tr') \<and> same_mib d d' \<and>
    temperature_step cfg (measured d) m = (m', notes) \<and> notes_sent cfg notes tr tr'"
proof -
  define r where "r = measured d"
  obtain d1 where read: "sensor_read_temperature_decidegrees d = Some (r, d1)" "same_mib d d1"
    unfolding r_def using dev by (rule sensor_read_measured)
  obtain limit where limit: "sub_i32 (CONFIG_WESPE_TEMP_THRESHOLD_DECIDEGREES cfg)
      (CONFIG_WESPE_TEMP_THRESHOLD_HYSTERESIS_DECIDEGREES cfg) = Some limit" "sint limit = clear_below cfg"
    using cfg sub_i32_eq unfolding config_ok_def by blast
  note unfolded = monitor_temperature_def temperature_step_def Let_def read(1) word_sle_eq word_sless_alt
  show ?thesis
  proof (cases "\<exists>v. r = Some v \<and> have_temp_baseline m \<and> \<not> over_threshold m \<and> threshold_of cfg \<le> sint v")
    case True
    then obtain v where v: "r = Some v" "have_temp_baseline m" "\<not> over_threshold m" "threshold_of cfg \<le> sint v" by blast
    obtain uptime where sent: "send_trap cfg packet OID_TEMP_THRESHOLD_TRAP
        [trap_varbind OID_WESPE_TEMPERATURE v] d1 tr =
        Some (tick d1, note_sent cfg uptime (temperature_note v) tr)"
      using assms(1,2) by (rule send_trap_note [of cfg packet OID_TEMP_THRESHOLD_TRAP OID_WESPE_TEMPERATURE])
        (auto simp: OID_TEMP_THRESHOLD_TRAP_def OID_WESPE_TEMPERATURE_def temperature_note_def)
    have "monitor_temperature cfg packet m d tr =
        Some (m\<lparr>over_threshold := True\<rparr>, tick d1, note_sent cfg uptime (temperature_note v) tr)"
      using v by (simp add: unfolded sent)
    moreover have "temperature_step cfg r m = (m\<lparr>over_threshold := True\<rparr>, [temperature_note v])"
      using v by (simp add: temperature_step_def)
    moreover have "same_mib d (tick d1)" using read(2) same_mib_tick by (rule same_mib_trans)
    ultimately show ?thesis unfolding r_def using notes_sent_single by blast
  next
    case False
    have "\<exists>m'. monitor_temperature cfg packet m d tr = Some (m', d1, tr) \<and> temperature_step cfg r m = (m', [])"
    proof (cases r)
      case None
      then show ?thesis by (simp add: unfolded)
    next
      case (Some v)
      with False show ?thesis by (cases m) (auto simp: unfolded limit)
    qed
    then show ?thesis unfolding r_def using read(2) notes_Nil by blast
  qed
qed

text \<open>A whole turn; \<open>dev_ok\<close> is what the reading of the sensor needs.\<close>

lemma clocked_same [simp]: "same_mib d (clocked m d)"
  by (simp add: clocked_def)

lemma monitor_turn_refines:
  assumes "config_ok cfg" and "length packet = 256" and "dev_ok d"
  shows "\<exists>m' d' tr' notes. monitor_turn cfg packet m d tr = Some (m', d', tr') \<and> same_mib d d' \<and>
    monitor_spec cfg (polled m d) m = (m', notes) \<and> notes_sent cfg notes tr tr'"
proof -
  from monitor_relay_refines [OF assms(1,2)] obtain m1 tr1 a where
    1: "monitor_relay cfg packet m d tr = Some (m1, clocked m d, tr1)"
      "relay_step (s_relay_on d) m = (m1, a)" "notes_sent cfg a tr tr1" by blast
  have "dev_ok (clocked m d)" using clocked_same assms(3) by (rule same_mib_ok)
  from monitor_temperature_refines [OF assms(1,2) this] obtain m2 d2 tr2 b where
    2: "monitor_temperature cfg packet m1 (clocked m d) tr1 = Some (m2, d2, tr2)" "same_mib (clocked m d) d2"
      "temperature_step cfg (measured (clocked m d)) m1 = (m2, b)" "notes_sent cfg b tr1 tr2" by blast
  have "monitor_turn cfg packet m d tr = Some (m2, d2, tr2)" by (simp add: monitor_turn_def 1(1) 2(1))
  moreover have "monitor_spec cfg (polled m d) m = (m2, a @ b)" by (simp add: monitor_spec_def polled_def 1(2) 2(3))
  ultimately show ?thesis
    using same_mib_trans [OF clocked_same 2(2)] notes_sent_append [OF 1(3) 2(4)] by blast
qed

section \<open>The loop\<close>

text \<open>
  What the loop promises over any number of turns: \<open>ws\<close> is what the turns find, \<open>outs\<close> what they leave,
  \<open>notess\<close> what they notify; between two turns the device and the transport belong to the other task.
\<close>

abbreviation found :: "(u8 list \<times> device \<times> transport) list \<Rightarrow> device list" where
  "found ws \<equiv> map (\<lambda>(packet, d, tr). d) ws"

definition loop_notifies ::
  "config \<Rightarrow> (u8 list \<times> device \<times> transport) list \<Rightarrow> monitor \<Rightarrow> monitor \<Rightarrow> (device \<times> transport) list \<Rightarrow>
   notification list list \<Rightarrow> bool" where
  "loop_notifies cfg ws m m' outs notess \<longleftrightarrow>
     monitor_loop cfg ws m = Some (m', outs) \<and> monitor_watch cfg (found ws) m = (m', notess) \<and>
     list_all2 (\<lambda>(packet, d, tr) (d', tr'). same_mib d d') ws outs \<and>
     list_all2 (\<lambda>((packet, d, tr), (d', tr')) notes. notes_sent cfg notes tr tr') (zip ws outs) notess"

lemma monitor_loop_runs:
  assumes "config_ok cfg" and "\<forall>(packet, d, tr) \<in> set ws. length packet = 256 \<and> dev_ok d"
  shows "\<exists>m' outs notess. loop_notifies cfg ws m m' outs notess"
  using assms(2)
proof (induction ws arbitrary: m)
  case (Cons w ws)
  obtain packet d tr where w: "w = (packet, d, tr)" by (cases w)
  with Cons.prems have "length packet = 256" "dev_ok d" by simp_all
  from monitor_turn_refines [OF assms(1) this] obtain m1 d' tr' ns where
    turn: "monitor_turn cfg packet m d tr = Some (m1, d', tr')" "same_mib d d'"
      "monitor_spec cfg (polled m d) m = (m1, ns)" "notes_sent cfg ns tr tr'" by blast
  from Cons.IH [of m1] Cons.prems obtain m' outs notess where "loop_notifies cfg ws m1 m' outs notess" by auto
  with turn have "loop_notifies cfg (w # ws) m m' ((d', tr') # outs) (ns # notess)"
    by (simp add: loop_notifies_def w)
  then show ?case by blast
next
  case Nil
  have "loop_notifies cfg [] m m [] []" by (simp add: loop_notifies_def)
  then show ?case by blast
qed

lemma loop_run:
  "loop_notifies cfg ws m m' outs notess \<Longrightarrow> monitor_run cfg (readings cfg (found ws) m) m = (m', concat notess)"
  using watch_run [of cfg "found ws" m] by (simp add: loop_notifies_def)

section \<open>What the abstract monitor notifies\<close>

definition notes_of :: "oid \<Rightarrow> notification list \<Rightarrow> i32 list" where
  "notes_of trap notes = map (snd \<circ> snd) (filter (\<lambda>n. fst n = trap) notes)"

lemma notes_of_simps [simp]:
  "notes_of trap [] = []" "notes_of trap (a @ b) = notes_of trap a @ notes_of trap b"
  "notes_of OID_RELAY_CHANGE_TRAP (relay_note on # ns) = (if on then 1 else 0) # notes_of OID_RELAY_CHANGE_TRAP ns"
  "notes_of OID_TEMP_THRESHOLD_TRAP (relay_note on # ns) = notes_of OID_TEMP_THRESHOLD_TRAP ns"
  "notes_of OID_TEMP_THRESHOLD_TRAP (temperature_note v # ns) = v # notes_of OID_TEMP_THRESHOLD_TRAP ns"
  "notes_of OID_RELAY_CHANGE_TRAP (temperature_note v # ns) = notes_of OID_RELAY_CHANGE_TRAP ns"
  by (simp_all add: notes_of_def relay_note_def temperature_note_def OID_RELAY_CHANGE_TRAP_def OID_TEMP_THRESHOLD_TRAP_def)

lemma relay_step_notes: "notes_of OID_TEMP_THRESHOLD_TRAP (snd (relay_step on m)) = []"
  by (simp add: relay_step_def)

lemma temperature_step_notes: "notes_of OID_RELAY_CHANGE_TRAP (snd (temperature_step cfg r m)) = []"
  by (simp add: temperature_step_def split: option.split)

lemma temperature_step_relay:
  "last_relay_on (fst (temperature_step cfg r m)) = last_relay_on m"
  "have_relay_baseline (fst (temperature_step cfg r m)) = have_relay_baseline m"
  by (simp_all add: temperature_step_def split: option.split)

lemma relay_step_temperature:
  "over_threshold (fst (relay_step on m)) = over_threshold m"
  "have_temp_baseline (fst (relay_step on m)) = have_temp_baseline m"
  by (simp_all add: relay_step_def)

text \<open>One step of the run, seen from either half.\<close>

lemma monitor_spec_relay:
  "monitor_spec cfg (on, r) m = (m', notes) \<Longrightarrow>
   notes_of OID_RELAY_CHANGE_TRAP notes =
     (if have_relay_baseline m \<and> on \<noteq> last_relay_on m then [if on then 1 else 0] else []) \<and>
   have_relay_baseline m' \<and> last_relay_on m' = on"
  using temperature_step_notes [of cfg r "fst (relay_step on m)"] temperature_step_relay [of cfg r "fst (relay_step on m)"]
  by (auto simp: monitor_spec_def relay_step_def split: prod.splits)

lemma monitor_spec_temperature:
  "monitor_spec cfg (on, r) m = (m', notes) \<Longrightarrow>
   notes_of OID_TEMP_THRESHOLD_TRAP notes =
     (case r of Some v \<Rightarrow> if have_temp_baseline m \<and> \<not> over_threshold m \<and> threshold_of cfg \<le> sint v then [v] else []
      | None \<Rightarrow> []) \<and>
   (have_temp_baseline m \<longrightarrow> have_temp_baseline m') \<and>
   (have_temp_baseline m \<and> over_threshold m' \<longrightarrow> over_threshold m \<or> (\<exists>v. r = Some v \<and> threshold_of cfg \<le> sint v)) \<and>
   (over_threshold m \<and> have_temp_baseline m \<and> (\<forall>v. r = Some v \<longrightarrow> clear_below cfg \<le> sint v) \<longrightarrow> over_threshold m') \<and>
   (notes_of OID_TEMP_THRESHOLD_TRAP notes \<noteq> [] \<longrightarrow> over_threshold m')"
  using relay_step_notes [of on m] relay_step_temperature [of on m]
  by (auto simp: monitor_spec_def temperature_step_def split: prod.splits option.splits if_splits)

lemma monitor_spec_baseline:
  "monitor_spec cfg (on, r) m = (m', notes) \<Longrightarrow> \<not> have_temp_baseline m \<Longrightarrow>
   have_temp_baseline m' = (r \<noteq> None) \<and> (\<forall>v. r = Some v \<longrightarrow> over_threshold m' = (threshold_of cfg \<le> sint v))"
  using relay_step_temperature [of on m]
  by (auto simp: monitor_spec_def temperature_step_def split: prod.splits option.splits)

text \<open>The relay is notified at every change and at nothing else.\<close>

definition as_int :: "bool \<Rightarrow> i32" where
  "as_int on = (if on then 1 else 0)"

lemma relay_run_aux:
  assumes "have_relay_baseline m"
  shows "notes_of OID_RELAY_CHANGE_TRAP (snd (monitor_run cfg rs m)) =
    map as_int (tl (remdups_adj (last_relay_on m # map fst rs)))"
  using assms
proof (induction rs arbitrary: m)
  case (Cons r rs)
  obtain on t where r: "r = (on, t)" by fastforce
  obtain m1 a where s: "monitor_spec cfg (on, t) m = (m1, a)" by fastforce
  note step = monitor_spec_relay [OF s]
  have ne: "remdups_adj (on # map fst rs) \<noteq> []" by simp
  from step have "notes_of OID_RELAY_CHANGE_TRAP (snd (monitor_run cfg rs m1)) =
      map as_int (tl (remdups_adj (on # map fst rs)))"
    using Cons.IH [of m1] by simp
  then have "notes_of OID_RELAY_CHANGE_TRAP (snd (monitor_run cfg (r # rs) m)) =
      (if on \<noteq> last_relay_on m then [as_int on] else []) @ map as_int (tl (remdups_adj (on # map fst rs)))"
    using step Cons.prems by (auto simp: r s as_int_def split: prod.split)
  also have "\<dots> = map as_int (tl (remdups_adj (last_relay_on m # map fst (r # rs))))"
  proof -
    obtain ys where "remdups_adj (on # map fst rs) = on # ys"
      using remdups_adj_Cons' [of on "map fst rs"] by blast
    then show ?thesis by (cases on; cases "last_relay_on m") (simp_all add: r)
  qed
  finally show ?case .
qed simp

lemma relay_run:
  "notes_of OID_RELAY_CHANGE_TRAP (snd (monitor_run cfg rs monitor_start)) =
     map as_int (tl (remdups_adj (map fst rs)))"
proof (cases rs)
  case (Cons r rest)
  obtain on t where r: "r = (on, t)" by fastforce
  obtain m1 a where s: "monitor_spec cfg (on, t) monitor_start = (m1, a)" by fastforce
  from monitor_spec_relay [OF s] have "have_relay_baseline m1" "last_relay_on m1 = on"
    "notes_of OID_RELAY_CHANGE_TRAP a = []" by (simp_all add: monitor_start_def)
  with relay_run_aux [of m1 cfg rest] show ?thesis by (auto simp: Cons r s split: prod.split)
qed simp

text \<open>
  While no reading falls below the hysteresis band: the first reading is the baseline, and if it is below the
  threshold the first later one that reached it is notified, once.
\<close>

definition first_crossing :: "config \<Rightarrow> i32 list \<Rightarrow> i32 list" where
  "first_crossing cfg vs =
     (case vs of [] \<Rightarrow> []
      | v # rest \<Rightarrow> if threshold_of cfg \<le> sint v then [] else take 1 (filter (\<lambda>v. threshold_of cfg \<le> sint v) rest))"

abbreviation temperatures :: "(bool \<times> i32 option) list \<Rightarrow> i32 list" where
  "temperatures rs \<equiv> List.map_filter snd rs"

lemma temperature_run:
  assumes "have_temp_baseline m" and "\<forall>v \<in> set (temperatures rs). clear_below cfg \<le> sint v"
  shows "notes_of OID_TEMP_THRESHOLD_TRAP (snd (monitor_run cfg rs m)) =
    (if over_threshold m then [] else take 1 (filter (\<lambda>v. threshold_of cfg \<le> sint v) (temperatures rs)))"
  using assms
proof (induction rs arbitrary: m)
  case (Cons r rs)
  obtain on t where r: "r = (on, t)" by fastforce
  obtain m1 a where s: "monitor_spec cfg (on, t) m = (m1, a)" by fastforce
  note step = monitor_spec_temperature [OF s]
  have IH: "notes_of OID_TEMP_THRESHOLD_TRAP (snd (monitor_run cfg rs m1)) =
      (if over_threshold m1 then [] else take 1 (filter (\<lambda>v. threshold_of cfg \<le> sint v) (temperatures rs)))"
    using Cons.IH [of m1] Cons.prems step by (auto simp: r List.map_filter_simps split: option.splits)
  have "notes_of OID_TEMP_THRESHOLD_TRAP (snd (monitor_run cfg (r # rs) m)) =
      notes_of OID_TEMP_THRESHOLD_TRAP a @ notes_of OID_TEMP_THRESHOLD_TRAP (snd (monitor_run cfg rs m1))"
    by (simp add: r s split: prod.split)
  with IH step Cons.prems show ?case by (auto simp: r List.map_filter_simps split: option.splits if_splits)
qed (simp add: List.map_filter_simps)

text \<open>From the start of the task, which has no baseline yet.\<close>

lemma temperature_run_start:
  assumes "\<not> have_temp_baseline m" and "\<forall>v \<in> set (temperatures rs). clear_below cfg \<le> sint v"
  shows "notes_of OID_TEMP_THRESHOLD_TRAP (snd (monitor_run cfg rs m)) = first_crossing cfg (temperatures rs)"
  using assms
proof (induction rs arbitrary: m)
  case (Cons r rs)
  obtain on t where r: "r = (on, t)" by fastforce
  obtain m1 a where s: "monitor_spec cfg (on, t) m = (m1, a)" by fastforce
  have run: "notes_of OID_TEMP_THRESHOLD_TRAP (snd (monitor_run cfg (r # rs) m)) =
      notes_of OID_TEMP_THRESHOLD_TRAP a @ notes_of OID_TEMP_THRESHOLD_TRAP (snd (monitor_run cfg rs m1))"
    by (simp add: r s split: prod.split)
  have a: "notes_of OID_TEMP_THRESHOLD_TRAP a = []"
    using monitor_spec_temperature [OF s] Cons.prems(1) by (simp split: option.splits)
  show ?case
  proof (cases t)
    case None
    then have "\<not> have_temp_baseline m1" using monitor_spec_baseline [OF s] Cons.prems(1) by simp
    with Cons.IH [of m1] Cons.prems(2) None show ?thesis unfolding run a by (simp add: r List.map_filter_simps)
  next
    case (Some v)
    then have "have_temp_baseline m1" "over_threshold m1 \<longleftrightarrow> threshold_of cfg \<le> sint v"
      using monitor_spec_baseline [OF s] Cons.prems(1) by simp_all
    with temperature_run [of m1 rs cfg] Cons.prems(2) Some show ?thesis
      unfolding run a by (simp add: r List.map_filter_simps first_crossing_def)
  qed
qed (simp add: List.map_filter_simps first_crossing_def)

end
