(* ===== verification/Wifi_Provisioning.thy ===== *)
theory Wifi_Provisioning
  imports Snmp_Pdu
begin

text \<open>
  \<open>main/wifi_provisioning.c\<close>: the retry policy of the WiFi event handler and the blocking connect. What
  ESP-IDF answers is the record \<open>wifi_env\<close>; the events it delivers are a list, in their order.
\<close>

section \<open>The event handler\<close>

abbreviation MAX_RETRY :: int where "MAX_RETRY \<equiv> 10"

datatype wifi_event = WIFI_EVENT_STA_START | WIFI_EVENT_STA_DISCONNECTED | IP_EVENT_STA_GOT_IP | Other_Event

text \<open>
  The static retry counter, the two bits of the event group, and how often \<open>esp_wifi_connect\<close> was
  called.
\<close>

record wifi =
  s_retry_count :: int
  connected_bit :: bool
  fail_bit :: bool
  connects :: nat

definition esp_wifi_connect :: "wifi \<Rightarrow> wifi" where
  "esp_wifi_connect w = w\<lparr>connects := Suc (connects w)\<rparr>"

definition event_handler :: "wifi_event \<Rightarrow> wifi \<Rightarrow> wifi" where
  "event_handler ev w =
     (case ev of
        WIFI_EVENT_STA_START \<Rightarrow> esp_wifi_connect w
      | WIFI_EVENT_STA_DISCONNECTED \<Rightarrow>
          if s_retry_count w < MAX_RETRY then (esp_wifi_connect w)\<lparr>s_retry_count := s_retry_count w + 1\<rparr>
          else w\<lparr>fail_bit := True\<rparr>
      | IP_EVENT_STA_GOT_IP \<Rightarrow> w\<lparr>s_retry_count := 0, connected_bit := True\<rparr>
      | Other_Event \<Rightarrow> w)"

section \<open>The blocking connect\<close>

datatype esp_err = ESP_OK | ESP_ERR_NVS_NO_FREE_PAGES | ESP_ERR_NVS_NEW_VERSION_FOUND | ESP_FAIL

text \<open>
  The answers of \<open>nvs_flash_init\<close> (first and second call), of \<open>nvs_flash_erase\<close>, and of each other call
  inside an \<open>ESP_ERROR_CHECK\<close>, in their order; the events that follow \<open>esp_wifi_start\<close>.
\<close>

record wifi_env =
  w_nvs_init :: esp_err
  w_nvs_erase :: esp_err
  w_nvs_init_again :: esp_err
  w_checked :: "esp_err list"
  w_events :: "wifi_event list"

text \<open>
  \<open>xEventGroupWaitBits\<close> for any of the two bits, without clearing; \<open>None\<close> while neither is set.
\<close>

fun wait_bits :: "wifi_event list \<Rightarrow> wifi \<Rightarrow> wifi option" where
  "wait_bits evs w =
     (if connected_bit w \<or> fail_bit w then Some w
      else case evs of [] \<Rightarrow> None | ev # evs' \<Rightarrow> wait_bits evs' (event_handler ev w))"

declare wait_bits.simps [simp del]

definition wifi_start :: wifi where
  "wifi_start = \<lparr>s_retry_count = 0, connected_bit = False, fail_bit = False, connects = 0\<rparr>"

text \<open>
  \<open>strncpy\<close> of at most \<open>n - 1\<close> characters of a C string into a zeroed array of \<open>n\<close> characters.
\<close>

definition wifi_field :: "nat \<Rightarrow> u8 list \<Rightarrow> u8 list" where
  "wifi_field n src = (let cs = take (n - 1) (c_string src) in cs @ replicate (n - length cs) 0)"

text \<open>The members of \<open>wifi_sta_config_t\<close> that are set: 32 octets of SSID and 64 of passphrase.\<close>

record wifi_config =
  sta_ssid :: "u8 list"
  sta_password :: "u8 list"

datatype wifi_outcome =
    Wifi_Abort
  | Wifi_Waiting
  | Wifi_Returns int

text \<open>
  \<open>Wifi_Abort\<close> is a failed \<open>ESP_ERROR_CHECK\<close>, \<open>Wifi_Waiting\<close> a call that has not returned after the
  given events.
\<close>

definition wifi_provisioning_connect_blocking ::
  "u8 list \<Rightarrow> u8 list \<Rightarrow> wifi_env \<Rightarrow> wifi_config \<times> wifi_outcome" where
  "wifi_provisioning_connect_blocking ssid password env =
     (let no_pages = w_nvs_init env = ESP_ERR_NVS_NO_FREE_PAGES \<or> w_nvs_init env = ESP_ERR_NVS_NEW_VERSION_FOUND;
          err = (if no_pages then w_nvs_init_again env else w_nvs_init env);
          wc = \<lparr>sta_ssid = wifi_field 32 ssid, sta_password = wifi_field 64 password\<rparr>
      in if no_pages \<and> w_nvs_erase env \<noteq> ESP_OK then (wc, Wifi_Abort)
         else if err \<noteq> ESP_OK then (wc, Wifi_Abort)
         else if \<exists>r \<in> set (w_checked env). r \<noteq> ESP_OK then (wc, Wifi_Abort)
         else case wait_bits (w_events env) wifi_start of
             None \<Rightarrow> (wc, Wifi_Waiting)
           | Some w \<Rightarrow> (wc, Wifi_Returns (if connected_bit w then 0 else - 1)))"

section \<open>The retry policy\<close>

text \<open>The counter stays in its range, and it is what bounds the attempts since the last address.\<close>

definition wifi_inv :: "wifi \<Rightarrow> bool" where
  "wifi_inv w \<longleftrightarrow> 0 \<le> s_retry_count w \<and> s_retry_count w \<le> MAX_RETRY"

lemma event_handler_inv: "wifi_inv w \<Longrightarrow> wifi_inv (event_handler ev w)"
  by (auto simp: wifi_inv_def event_handler_def esp_wifi_connect_def split: wifi_event.split)

lemma wifi_inv_run: "wifi_inv w \<Longrightarrow> wifi_inv (foldl (\<lambda>w ev. event_handler ev w) w evs)"
  by (induction evs arbitrary: w) (simp_all add: event_handler_inv)

lemma wait_bits_foldl:
  "wait_bits evs w = Some w' \<Longrightarrow>
   \<exists>seen rest. evs = seen @ rest \<and> w' = foldl (\<lambda>w ev. event_handler ev w) w seen \<and> (connected_bit w' \<or> fail_bit w')"
proof (induction evs arbitrary: w)
  case Nil
  then show ?case by (subst (asm) wait_bits.simps) (auto split: if_splits)
next
  case (Cons ev evs)
  show ?case
  proof (cases "connected_bit w \<or> fail_bit w")
    case True
    with Cons.prems have "w' = w" by (subst (asm) wait_bits.simps) auto
    with True have "ev # evs = [] @ ev # evs \<and> w' = foldl (\<lambda>w ev. event_handler ev w) w [] \<and>
        (connected_bit w' \<or> fail_bit w')" by simp
    then show ?thesis by blast
  next
    case False
    with Cons.prems have "wait_bits evs (event_handler ev w) = Some w'"
      by (subst (asm) wait_bits.simps) auto
    from Cons.IH [OF this] obtain seen rest where
      "evs = seen @ rest" "w' = foldl (\<lambda>w ev. event_handler ev w) (event_handler ev w) seen"
      "connected_bit w' \<or> fail_bit w'" by blast
    then have "ev # evs = (ev # seen) @ rest \<and> w' = foldl (\<lambda>w ev. event_handler ev w) w (ev # seen) \<and>
        (connected_bit w' \<or> fail_bit w')" by simp
    then show ?thesis by blast
  qed
qed

text \<open>How many disconnections a wait can still see before it ends.\<close>

definition retries_left :: "wifi \<Rightarrow> nat" where
  "retries_left w = nat (MAX_RETRY + 1 - s_retry_count w)"

lemma wait_bits_ends:
  assumes "wifi_inv w" and "retries_left w \<le> length (filter ((=) WIFI_EVENT_STA_DISCONNECTED) evs)"
  shows "wait_bits evs w \<noteq> None"
  using assms
proof (induction evs arbitrary: w)
  case Nil
  then show ?case by (simp add: wifi_inv_def retries_left_def)
next
  case (Cons ev evs)
  show ?case
  proof (cases "connected_bit w \<or> fail_bit w")
    case True
    then show ?thesis by (simp add: wait_bits.simps)
  next
    case False
    have step: "wait_bits (ev # evs) w = wait_bits evs (event_handler ev w)"
      using False by (simp add: wait_bits.simps [of "ev # evs"])
    show ?thesis
    proof (cases "connected_bit (event_handler ev w) \<or> fail_bit (event_handler ev w)")
      case True
      then show ?thesis unfolding step by (simp add: wait_bits.simps [of evs])
    next
      case no: False
      then have "retries_left (event_handler ev w) \<le> length (filter ((=) WIFI_EVENT_STA_DISCONNECTED) evs)"
        using Cons.prems False
        by (cases ev) (auto simp: event_handler_def esp_wifi_connect_def retries_left_def wifi_inv_def
            split: if_splits)
      with Cons.IH event_handler_inv [OF Cons.prems(1)] show ?thesis unfolding step by blast
    qed
  qed
qed

text \<open>Once the retries are used up, disconnections alone never make it try again.\<close>

lemma no_more_connects:
  "s_retry_count w = MAX_RETRY \<Longrightarrow>
   connects (foldl (\<lambda>w ev. event_handler ev w) w (replicate n WIFI_EVENT_STA_DISCONNECTED)) = connects w"
proof (induction n arbitrary: w)
  case (Suc n)
  have "event_handler WIFI_EVENT_STA_DISCONNECTED w = w\<lparr>fail_bit := True\<rparr>"
    using Suc.prems by (simp add: event_handler_def)
  with Suc show ?case by simp
qed simp

end
