(* ===== verification/App_System.thy ===== *)
theory App_System
  imports App_Main Trap_Monitor_Correct Wifi_Provisioning
begin

text \<open>
  \<open>main/app_main.c\<close> as a whole, and the system it starts: the SNMP task and the monitor task over one
  device, turn by turn in any order. The invariant of the system and its security.
\<close>

section \<open>The boot sequence\<close>

definition OID_COLD_START :: oid where "OID_COLD_START = [1, 3, 6, 1, 6, 3, 1, 1, 5, 1]"

datatype udp_state = Udp_Created | Udp_Running udp_task | Udp_Deleted

record system =
  sys_dev :: device
  sys_tr :: transport
  sys_udp :: udp_state
  sys_monitor :: "monitor option"

text \<open>Where \<open>app_main\<close> ends: halted before any task runs, or with the agent running.\<close>

datatype boot =
    Boot_Halted
  | Boot_Running security "device registry" system

text \<open>
  From the trap destination on. \<open>packet\<close> is what the buffer of the coldStart notification holds.
\<close>

definition app_main_start ::
  "config \<Rightarrow> u8 list \<Rightarrow> security \<Rightarrow> device registry \<Rightarrow> device \<Rightarrow> transport \<Rightarrow> boot option" where
  "app_main_start cfg packet sec reg d tr = do {
     n \<leftarrow> c_strlen (CONFIG_WESPE_TRAP_DEST_IP cfg);
     let tr1 = (if 0 < n then snd (snmp_transport_set_trap_destination (CONFIG_WESPE_TRAP_DEST_IP cfg) tr) else tr);
     let (started, tr2) = snmp_transport_start tr1;
     if started \<noteq> 0 then Some Boot_Halted
     else do {
       let (ms, d1) = sysinfo_uptime_ms d;
       bytes \<leftarrow> snmp_trap_build SNMP_VERSION_V2C (CONFIG_WESPE_SNMP_RO_COMMUNITY cfg) (ucast (ms div 10))
         OID_COLD_START None [] packet 128;
       let tr3 = (if 0 < length bytes then snd (snmp_transport_send_trap bytes tr2) else tr2);
       let (mon, tr4) = trap_monitor_start tr3;
       Some (Boot_Running sec reg
         \<lparr>sys_dev = d1, sys_tr = tr4, sys_udp = Udp_Created, sys_monitor = mon\<rparr>)
     }
   }"

definition app_main ::
  "config \<Rightarrow> wifi_env \<Rightarrow> u8 list \<Rightarrow> security \<Rightarrow> device registry \<Rightarrow> device \<Rightarrow> transport \<Rightarrow> boot option" where
  "app_main cfg wifi packet sec reg d tr =
     (case snd (wifi_provisioning_connect_blocking (CONFIG_WESPE_WIFI_SSID cfg) (CONFIG_WESPE_WIFI_PASSWORD cfg) wifi) of
        Wifi_Returns st \<Rightarrow>
          if st \<noteq> 0 then Some Boot_Halted
          else do {
            (sec1, reg1, d1) \<leftarrow> app_main_register (CONFIG_WESPE_SNMP_RO_COMMUNITY cfg)
              (CONFIG_WESPE_SNMP_RW_COMMUNITY cfg) sec reg d;
            app_main_start cfg packet sec1 reg1 d1 tr
          }
      | _ \<Rightarrow> Some Boot_Halted)"

section \<open>The running system\<close>

text \<open>
  A turn of one of the tasks: the SNMP task opens its socket or receives, the monitor polls. The
  buffers are what the arrays on the stack hold.
\<close>

datatype turn =
    Udp_Open
  | Udp_Receive "(sockaddr_in \<times> u8 list) option" "u8 list"
  | Monitor_Poll "u8 list"

definition agent_turn ::
  "config \<Rightarrow> security \<Rightarrow> device registry \<Rightarrow> turn \<Rightarrow> system \<Rightarrow> system option" where
  "agent_turn cfg sec reg e s =
     (case e of
        Udp_Open \<Rightarrow>
          (case snmp_udp_open (sys_tr s) of
             (None, tr) \<Rightarrow> Some (s\<lparr>sys_tr := tr, sys_udp := Udp_Deleted\<rparr>)
           | (Some task, tr) \<Rightarrow> Some (s\<lparr>sys_tr := tr, sys_udp := Udp_Running task\<rparr>))
      | Udp_Receive received out \<Rightarrow>
          (case sys_udp s of
             Udp_Running task \<Rightarrow> do {
               (task1, d1, tr1) \<leftarrow> snmp_udp_turn reg sec received out task (sys_dev s) (sys_tr s);
               Some (s\<lparr>sys_dev := d1, sys_tr := tr1, sys_udp := Udp_Running task1\<rparr>)
             }
           | _ \<Rightarrow> Some s)
      | Monitor_Poll packet \<Rightarrow>
          (case sys_monitor s of
             None \<Rightarrow> Some s
           | Some m \<Rightarrow> do {
               (m1, d1, tr1) \<leftarrow> monitor_turn cfg packet m (sys_dev s) (sys_tr s);
               Some (s\<lparr>sys_dev := d1, sys_tr := tr1, sys_monitor := Some m1\<rparr>)
             }))"

text \<open>The buffers have their declared sizes, and the SNMP task opens its socket once.\<close>

fun turn_ok :: "turn \<Rightarrow> system \<Rightarrow> bool" where
  "turn_ok Udp_Open s \<longleftrightarrow> sys_udp s = Udp_Created"
| "turn_ok (Udp_Receive received out) s \<longleftrightarrow> length out = SNMP_MAX_PACKET_LEN"
| "turn_ok (Monitor_Poll packet) s \<longleftrightarrow> length packet = 256"

inductive agent_reaches ::
  "config \<Rightarrow> security \<Rightarrow> device registry \<Rightarrow> system \<Rightarrow> turn list \<Rightarrow> system \<Rightarrow> bool"
  for cfg sec reg s0 where
  reach_start: "agent_reaches cfg sec reg s0 [] s0"
| reach_turn: "agent_reaches cfg sec reg s0 es s \<Longrightarrow> turn_ok e s \<Longrightarrow> agent_turn cfg sec reg e s = Some s' \<Longrightarrow>
    agent_reaches cfg sec reg s0 (es @ [e]) s'"

inductive_cases reach_snocE: "agent_reaches cfg sec reg s0 (es @ [e]) s"

section \<open>The invariant\<close>

definition system_ok :: "system \<Rightarrow> bool" where
  "system_ok s \<longleftrightarrow> dev_ok (sys_dev s) \<and>
     (\<forall>task. sys_udp s = Udp_Running task \<longrightarrow> length (in_buf task) = SNMP_MAX_PACKET_LEN \<and> 0 \<le> udp_sock task)"

lemma snmp_udp_open_ok:
  "snmp_udp_open tr = (Some task, tr') \<Longrightarrow> length (in_buf task) = SNMP_MAX_PACKET_LEN \<and> 0 \<le> udp_sock task"
  by (auto simp: snmp_udp_open_def Let_def split: prod.splits if_splits)

lemma agent_turn_total:
  assumes "config_ok cfg" and "security_ok sec" and "system_ok s" and "turn_ok e s"
  shows "\<exists>s'. agent_turn cfg sec agent_registry e s = Some s' \<and> system_ok s'"
proof (cases e)
  case Udp_Open
  obtain task tr where "snmp_udp_open (sys_tr s) = (task, tr)" by fastforce
  with Udp_Open assms(3) snmp_udp_open_ok show ?thesis
    by (cases task) (fastforce simp: agent_turn_def system_ok_def)+
next
  case (Udp_Receive received out)
  show ?thesis
  proof (cases "sys_udp s")
    case (Udp_Running task)
    with agent.udp_turn_total [OF assms(2), of task out "sys_dev s" received "sys_tr s"] Udp_Receive assms(3,4)
    show ?thesis by (auto simp: agent_turn_def system_ok_def)
  qed (use Udp_Receive assms(3) in \<open>simp_all add: agent_turn_def\<close>)
next
  case (Monitor_Poll packet)
  show ?thesis
  proof (cases "sys_monitor s")
    case (Some m)
    have dev: "dev_ok (sys_dev s)" using assms(3) by (simp add: system_ok_def)
    from Monitor_Poll assms(4) have "length packet = 256" by simp
    from monitor_turn_refines [OF assms(1) this dev, of m "sys_tr s"] obtain m' d' tr' where
      "monitor_turn cfg packet m (sys_dev s) (sys_tr s) = Some (m', d', tr')" "same_mib (sys_dev s) d'" by blast
    with Some Monitor_Poll assms(3) same_mib_ok [OF _ dev] show ?thesis by (simp add: agent_turn_def system_ok_def)
  qed (use Monitor_Poll assms(3) in \<open>simp add: agent_turn_def\<close>)
qed

lemma system_ok_reach:
  assumes "config_ok cfg" and "security_ok sec" and "system_ok s0" and "agent_reaches cfg sec agent_registry s0 es s"
  shows "system_ok s"
  using assms(4)
proof (induction rule: agent_reaches.induct)
  case reach_start
  show ?case by (rule assms(3))
next
  case (reach_turn es s e s')
  with agent_turn_total [OF assms(1,2) reach_turn.IH reach_turn.hyps(2)] show ?case by simp
qed

end
