(* ===== verification/App_Security.thy ===== *)
theory App_Security
  imports App_System "HOL-Library.Sublist"
begin

text \<open>
  Boot and access control of the whole firmware: what \<open>app_main\<close> leaves behind, who answers which
  version, and why nobody changes a setting without knowing the read-write community.
\<close>

section \<open>What \<open>app_main\<close> leaves behind\<close>

text \<open>A community as \<open>snmp_security_community_init\<close> stores it.\<close>

definition stored_community :: "u8 list \<Rightarrow> u8 list" where
  "stored_community src = take (SNMP_MAX_PRINCIPAL_LEN - 1) (c_string src) @
     replicate (SNMP_MAX_PRINCIPAL_LEN - min (SNMP_MAX_PRINCIPAL_LEN - 1) (length (c_string src))) 0"

definition agent_security :: "config \<Rightarrow> security" where
  "agent_security cfg =
     \<lparr>s_slots = [(0, s_community_model), (1, s_community_model), (3, s_usm_stub_model)],
      s_communities = \<lparr>s_ro_community = stored_community (CONFIG_WESPE_SNMP_RO_COMMUNITY cfg),
                       s_rw_community = stored_community (CONFIG_WESPE_SNMP_RW_COMMUNITY cfg)\<rparr>\<rparr>"

lemma c_string_stored: "c_string (stored_community src) = take (SNMP_MAX_PRINCIPAL_LEN - 1) (c_string src)"
proof -
  define cs where "cs = take (SNMP_MAX_PRINCIPAL_LEN - 1) (c_string src)"
  define k where "k = SNMP_MAX_PRINCIPAL_LEN - min (SNMP_MAX_PRINCIPAL_LEN - 1) (length (c_string src))"
  have "takeWhile (\<lambda>c. c \<noteq> 0) cs = cs"
    by (auto simp: cs_def c_string_def takeWhile_eq_all_conv dest!: in_set_takeD set_takeWhileD)
  moreover have "\<exists>j. k = Suc j" by (rule gr0_implies_Suc) (simp add: k_def)
  ultimately have "takeWhile (\<lambda>c. c \<noteq> 0) (cs @ replicate k 0) = cs" by (auto simp: takeWhile_tail)
  then have "c_string (cs @ replicate k 0) = cs" by (subst c_string_def)
  then show ?thesis by (simp only: stored_community_def k_def cs_def)
qed

lemma copy_stored: "0 \<in> set src \<Longrightarrow> copy_community src = Some (stored_community src)"
  by (simp add: copy_community_def stored_community_def Let_def min.commute)

lemma community_init_agent:
  assumes "0 \<in> set ro" and "0 \<in> set rw"
  shows "map_option snmp_security_usm_stub_init (snmp_security_community_init ro rw security_start) =
    Some \<lparr>s_slots = [(0, s_community_model), (1, s_community_model), (3, s_usm_stub_model)],
      s_communities = \<lparr>s_ro_community = stored_community ro, s_rw_community = stored_community rw\<rparr>\<rparr>"
  by (simp add: snmp_security_community_init_def snmp_security_usm_stub_init_def snmp_security_register_def
      copy_stored assms security_start_def)

lemma app_main_register_security:
  assumes "config_ok cfg"
  shows "\<exists>d'. app_main_register (CONFIG_WESPE_SNMP_RO_COMMUNITY cfg) (CONFIG_WESPE_SNMP_RW_COMMUNITY cfg)
    security_start registry_empty d = Some (agent_security cfg, agent_registry, d')"
proof -
  obtain sec1 where sec1: "snmp_security_community_init (CONFIG_WESPE_SNMP_RO_COMMUNITY cfg)
      (CONFIG_WESPE_SNMP_RW_COMMUNITY cfg) security_start = Some sec1"
    "snmp_security_usm_stub_init sec1 = agent_security cfg"
    using community_init_agent [of "CONFIG_WESPE_SNMP_RO_COMMUNITY cfg" "CONFIG_WESPE_SNMP_RW_COMMUNITY cfg"] assms
    by (auto simp: config_ok_def agent_security_def)
  then have "\<exists>sec' reg' d'. app_main_register (CONFIG_WESPE_SNMP_RO_COMMUNITY cfg) (CONFIG_WESPE_SNMP_RW_COMMUNITY cfg)
    security_start registry_empty d = Some (sec', reg', d') \<and> sec' = agent_security cfg"
    by (simp add: app_main_register_def Let_def split: prod.split)
  with app_main_registry show ?thesis by blast
qed

lemma agent_security_ok: "security_ok (agent_security cfg)"
proof -
  have "0 \<in> set (stored_community src)" for src by (auto simp: stored_community_def)
  then show ?thesis
    using community.security_model_axioms usm_stub.security_model_axioms
    by (simp add: security_ok_def communities_ok_def agent_security_def)
qed

text \<open>When WiFi comes up, the firmware boots into a system that keeps its invariant.\<close>

lemma app_main_start_total:
  assumes "config_ok cfg" and "length packet = 128" and "dev_ok d"
  shows "\<exists>b. app_main_start cfg packet sec reg d tr = Some b \<and>
    (case b of Boot_Halted \<Rightarrow> True
     | Boot_Running sec' reg' s \<Rightarrow> sec' = sec \<and> reg' = reg \<and> system_ok s \<and> same_mib d (sys_dev s) \<and>
         sys_udp s = Udp_Created \<and> (sys_monitor s = None \<or> sys_monitor s = Some monitor_start))"
proof -
  obtain ms d1 where ms: "sysinfo_uptime_ms d = (ms, d1)" by fastforce
  have d1: "same_mib d d1" using sysinfo_same(1) [of d] ms by simp
  then have ok: "dev_ok d1" using assms(3) by (rule same_mib_ok)
  have "snmp_trap_build SNMP_VERSION_V2C (CONFIG_WESPE_SNMP_RO_COMMUNITY cfg) (ucast (ms div 10)) OID_COLD_START None
      [] packet 128 = Some (fitting 128 (v2c_trap_packet (CONFIG_WESPE_SNMP_RO_COMMUNITY cfg) (ucast (ms div 10)) OID_COLD_START []))"
    using assms by (simp add: snmp_trap_build_def build_v2c_trap_packet config_ok_def OID_COLD_START_def)
  moreover obtain n where "c_strlen (CONFIG_WESPE_TRAP_DEST_IP cfg) = Some n"
    using assms(1) by (simp add: config_ok_def c_strlen_Some)
  ultimately show ?thesis
    using d1 ok by (auto simp: app_main_start_def ms Let_def system_ok_def trap_monitor_start_def split: prod.splits)
qed

lemma app_main_boots:
  assumes "config_ok cfg" and "init_answers env" and "length packet = 128"
  shows "\<exists>b. app_main cfg wifi packet security_start registry_empty (power_on env level) tr = Some b \<and>
    (case b of Boot_Halted \<Rightarrow> True
     | Boot_Running sec reg s \<Rightarrow> sec = agent_security cfg \<and> reg = agent_registry \<and> system_ok s \<and>
         \<not> s_relay_on (sys_dev s) \<and> sys_udp s = Udp_Created \<and>
         (sys_monitor s = None \<or> sys_monitor s = Some monitor_start))"
proof -
  from app_main_register_security [OF assms(1)] obtain d where
    reg: "app_main_register (CONFIG_WESPE_SNMP_RO_COMMUNITY cfg) (CONFIG_WESPE_SNMP_RW_COMMUNITY cfg)
      security_start registry_empty (power_on env level) = Some (agent_security cfg, agent_registry, d)" by blast
  from app_main_device [OF assms(2) reg] have d: "dev_ok d" "\<not> s_relay_on d" by simp_all
  from app_main_start_total [OF assms(1,3) d(1), of "agent_security cfg" agent_registry tr] obtain b where
    b: "app_main_start cfg packet (agent_security cfg) agent_registry d tr = Some b"
    "case b of Boot_Halted \<Rightarrow> True
     | Boot_Running sec' reg' s \<Rightarrow> sec' = agent_security cfg \<and> reg' = agent_registry \<and> system_ok s \<and> same_mib d (sys_dev s) \<and>
         sys_udp s = Udp_Created \<and> (sys_monitor s = None \<or> sys_monitor s = Some monitor_start)" by blast
  show ?thesis
    using b d(2) by (auto simp: app_main_def reg same_mib_def split: wifi_outcome.split boot.splits)
qed

section \<open>Access control\<close>

text \<open>The community string occurs in the bytes.\<close>

definition mentions :: "u8 list \<Rightarrow> u8 list \<Rightarrow> bool" where
  "mentions community bytes \<longleftrightarrow> sublist (c_string community) bytes"

lemma rd_bytes_sublist:
  assumes "rd_bytes msg p n = Some bs" and "p + n \<le> len"
  shows "sublist bs (take len msg)"
proof -
  from assms have "bs = take n (drop p (take len msg))"
    by (auto simp: rd_bytes_def drop_take split: if_splits)
  then show ?thesis
    by (metis sublist_drop sublist_order.order_trans sublist_take)
qed

lemma expect_tag_within:
  "ber_expect_tag mem p len depth tag = Some (Inr t) \<Longrightarrow> p + len \<le> length mem \<Longrightarrow> tlv_within p (p + len) t"
  using ber_expect_tag_safe [of p len mem depth tag] by (auto simp: returns_def)

lemma request_pdu_mode:
  "snmp_decode_request_pdu mem p len depth ctx = Some (Inr ctx') \<Longrightarrow> ctx_access_mode ctx' = ctx_access_mode ctx"
  by (auto simp: snmp_decode_request_pdu_def chk_Inr_iff Let_def split: if_splits)

lemma c_string_snoc_sublist: "sublist (c_string (bs @ [0])) bs"
proof -
  have "c_string (bs @ [0]) = takeWhile (\<lambda>c. c \<noteq> 0) bs" by (induction bs) (auto simp: c_string_def)
  then show ?thesis by (metis sublist_takeWhile)
qed

lemma community_write_mentions:
  assumes "community_process_incoming cs msg len depth ctx = Some (Inr ctx')" and "len \<le> length msg"
    and "ctx_access_mode ctx' = SNMP_ACCESS_READWRITE"
  shows "mentions (s_rw_community cs) (take len msg)"
proof -
  from assms(1) obtain top version_tlv version_raw community_tlv community where
    top: "ber_expect_tag msg 0 len depth BER_TAG_SEQUENCE = Some (Inr top)" and
    v: "ber_expect_tag msg (tlv_value top) (tlv_length top) (depth + 1) BER_TAG_INTEGER = Some (Inr version_tlv)" and
    c: "ber_expect_tag msg (tlv_next version_tlv) (tlv_length top - (tlv_next version_tlv - tlv_value top)) (depth + 1)
      BER_TAG_OCTET_STRING = Some (Inr community_tlv)" and
    bs: "ber_decode_octet_string msg community_tlv (SNMP_MAX_PRINCIPAL_LEN - 1) = Some (Inr community)" and
    rest: "(\<exists>is_rw is_ro. c_streq (community @ [0]) (s_rw_community cs) = Some is_rw \<and>
       (is_rw \<or> (\<exists>p n ctx1. ctx_access_mode ctx1 = SNMP_ACCESS_READ \<and>
          snmp_decode_request_pdu msg p n (depth + 1) ctx1 = Some (Inr ctx'))))"
    unfolding community_process_incoming_def
    by (fastforce simp: chk_Inr_iff Let_def bind_eq_Some_conv split: if_splits)
  from rest assms(3) request_pdu_mode have "c_streq (community @ [0]) (s_rw_community cs) = Some True"
    by fastforce
  then have eq: "c_string (s_rw_community cs) = c_string (community @ [0])"
    by (auto simp: c_streq_def split: if_splits)
  have t: "tlv_within 0 len top" using expect_tag_within [OF top] assms(2) by simp
  then have w: "tlv_value top + tlv_length top \<le> len" by (simp add: tlv_within_def)
  have "tlv_within (tlv_value top) (tlv_value top + tlv_length top) version_tlv"
    using expect_tag_within [OF v] w assms(2) by simp
  then have nx: "tlv_next version_tlv + (tlv_length top - (tlv_next version_tlv - tlv_value top)) =
      tlv_value top + tlv_length top" by (auto simp: tlv_within_def)
  have "tlv_within (tlv_next version_tlv) (tlv_value top + tlv_length top) community_tlv"
    using expect_tag_within [OF c] nx w assms(2) by (simp add: add.commute)
  then have "tlv_value community_tlv + tlv_length community_tlv \<le> len"
    using w by (auto simp: tlv_within_def)
  moreover have "rd_bytes msg (tlv_value community_tlv) (tlv_length community_tlv) = Some community"
    using bs by (auto simp: ber_decode_octet_string_def bind_eq_Some_conv split: if_splits)
  ultimately have "sublist community (take len msg)" using rd_bytes_sublist by blast
  with c_string_snoc_sublist [of community] show ?thesis
    unfolding mentions_def eq by (blast intro: sublist_order.order_trans)
qed

lemma agent_accept_mentions:
  assumes "message_accept (agent_security cfg) msg in_len = Some (Inr (model, ctx))" and "in_len \<le> length msg"
    and "ctx_access_mode ctx = SNMP_ACCESS_READWRITE"
  shows "mentions (s_rw_community (s_communities (agent_security cfg))) (take in_len msg)"
proof -
  from assms(1) obtain version where
    look: "snmp_security_lookup (agent_security cfg) version = Some model" and
    inc: "process_incoming model (s_communities (agent_security cfg)) msg in_len 0 ctx_zero = Some (Inr ctx)"
    by (auto simp: message_accept_def chk_Inr_iff split: if_splits option.splits)
  from look have "model = s_community_model \<or> model = s_usm_stub_model"
    by (auto simp: security_lookup_map agent_security_def split: if_splits)
  then show ?thesis
  proof
    assume "model = s_community_model"
    with inc assms(2,3) show ?thesis
      using community_write_mentions by (simp add: s_community_model_def)
  next
    assume "model = s_usm_stub_model"
    with inc have "usm_process_incoming (s_communities (agent_security cfg)) msg in_len 0 ctx_zero = Some (Inr ctx)"
      by (simp add: s_usm_stub_model_def)
    with usm_incoming_safe [OF assms(2)] show ?thesis by (blast dest: returnsD)
  qed
qed

text \<open>A datagram that does not mention the read-write community changes no setting.\<close>

lemma message_keeps_settings:
  assumes run: "snmp_message_process agent_registry (agent_security cfg) msg in_len out out_cap d = Some (r, d')"
    and len: "in_len \<le> length msg" and d: "dev_ok d" "same_settings d0 d"
    and quiet: "\<not> mentions (s_rw_community (s_communities (agent_security cfg))) (take in_len msg)"
  shows "same_settings d0 d'"
proof (cases "in_len = 0 \<or> out_cap = 0")
  case True
  with run d show ?thesis by (simp add: snmp_message_process_def)
next
  case False
  from message_accept_safe [OF agent_security_ok [of cfg] len] show ?thesis
  proof (cases rule: returns_cases)
    case (1 e)
    with False run d show ?thesis by (simp add: snmp_message_process_def)
  next
    case (2 x)
    then obtain model ctx where acc: "message_accept (agent_security cfg) msg in_len = Some (Inr (model, ctx))" "ctx_ok ctx"
      by (cases x) auto
    have "ctx_access_mode ctx \<noteq> SNMP_ACCESS_READWRITE"
      using agent_accept_mentions [OF acc(1) len] quiet by blast
    then obtain st ctx' s' where disp: "snmp_dispatch_pdu agent_registry ctx d = Some ((st, ctx'), s')" "same_settings d0 s'"
      using agent_reads.dispatch_reads [of d d0 ctx] d acc(2) by blast
    then have "d' = s'"
      using run False acc
      by (auto simp: snmp_message_process_def bind_eq_Some_conv split: if_splits)
        (auto split: sum.splits)
    with disp(2) show ?thesis by simp
  qed
qed

lemma snmp_udp_turn_device:
  "snmp_udp_turn reg sec (Some (peer, payload)) out task d tr = Some (task', d', tr') \<Longrightarrow>
   d' = d \<or> (\<exists>r. snmp_message_process reg sec (take SNMP_MAX_PACKET_LEN payload @
       drop (length (take SNMP_MAX_PACKET_LEN payload)) (in_buf task)) (length (take SNMP_MAX_PACKET_LEN payload))
       out SNMP_MAX_PACKET_LEN d = Some (r, d'))"
  by (auto simp: snmp_udp_turn_def Let_def bind_eq_Some_conv split: if_splits prod.splits)

definition turn_quiet :: "config \<Rightarrow> turn \<Rightarrow> bool" where
  "turn_quiet cfg e \<longleftrightarrow>
     (\<forall>peer payload out. e = Udp_Receive (Some (peer, payload)) out \<longrightarrow>
        \<not> mentions (stored_community (CONFIG_WESPE_SNMP_RW_COMMUNITY cfg)) payload)"

lemma monitor_turn_keeps_settings:
  assumes "config_ok cfg" and "length packet = 256" and "dev_ok d" and "same_settings d0 d"
    and run: "monitor_turn cfg packet m d tr = Some (m', d', tr')"
  shows "same_settings d0 d'"
proof -
  from monitor_turn_refines [OF assms(1,2,3), of m tr] run have "same_mib d d'" by auto
  then have "same_settings d d'" by (rule same_mib_settings)
  with assms(4) show ?thesis using same_settings_transp by (blast dest: transpD)
qed

lemma udp_turn_keeps_settings:
  assumes "dev_ok d" and "same_settings d0 d"
    and quiet: "\<not> mentions (stored_community (CONFIG_WESPE_SNMP_RW_COMMUNITY cfg)) payload"
    and turn: "snmp_udp_turn agent_registry (agent_security cfg) (Some (peer, payload)) out task d tr = Some (task', d', tr')"
  shows "same_settings d0 d'"
proof -
  let ?bytes = "take SNMP_MAX_PACKET_LEN payload"
  let ?buf = "?bytes @ drop (length ?bytes) (in_buf task)"
  have quiet': "\<not> mentions (s_rw_community (s_communities (agent_security cfg))) (take (length ?bytes) ?buf)"
    using quiet unfolding mentions_def agent_security_def
    by (auto dest: sublist_order.order_trans [OF _ sublist_take])
  from snmp_udp_turn_device [OF turn] show ?thesis
  proof
    assume "d' = d"
    with assms(2) show ?thesis by simp
  next
    assume "\<exists>r. snmp_message_process agent_registry (agent_security cfg) ?buf (length ?bytes) out SNMP_MAX_PACKET_LEN d =
      Some (r, d')"
    then obtain r where msg: "snmp_message_process agent_registry (agent_security cfg) ?buf (length ?bytes) out
      SNMP_MAX_PACKET_LEN d = Some (r, d')" by blast
    have "length ?bytes \<le> length ?buf" by simp
    from message_keeps_settings [OF msg this assms(1,2) quiet'] show ?thesis .
  qed
qed

lemma agent_turn_keeps_settings:
  assumes "config_ok cfg" and "system_ok s" and "turn_ok e s" and "turn_quiet cfg e"
    and run: "agent_turn cfg (agent_security cfg) agent_registry e s = Some s'" and d0: "same_settings d0 (sys_dev s)"
  shows "same_settings d0 (sys_dev s')"
proof (cases e)
  case Udp_Open
  with run d0 show ?thesis by (auto simp: agent_turn_def split: prod.splits option.splits)
next
  case (Monitor_Poll packet)
  with run d0 assms(2,3) monitor_turn_keeps_settings [OF assms(1)] show ?thesis
    by (auto simp: agent_turn_def system_ok_def bind_eq_Some_conv split: option.splits)
next
  case (Udp_Receive received out)
  show ?thesis
  proof (cases "\<exists>task peer payload. sys_udp s = Udp_Running task \<and> received = Some (peer, payload)")
    case True
    with run Udp_Receive d0 assms(2,4) udp_turn_keeps_settings show ?thesis
      by (auto simp: agent_turn_def system_ok_def turn_quiet_def bind_eq_Some_conv)
  next
    case False
    then show ?thesis
      using run Udp_Receive d0
      by (cases "sys_udp s"; cases received) (auto simp: agent_turn_def snmp_udp_turn_def)
  qed
qed

lemma reach_keeps_settings:
  assumes "config_ok cfg" and "system_ok s0" and "agent_reaches cfg (agent_security cfg) agent_registry s0 es s"
    and "\<forall>e \<in> set es. turn_quiet cfg e"
  shows "same_settings (sys_dev s0) (sys_dev s)"
  using assms(3,4)
proof (induction rule: agent_reaches.induct)
  case reach_start
  then show ?case by simp
next
  case (reach_turn es s e s')
  have "system_ok s" using assms(1) agent_security_ok assms(2) reach_turn.hyps(1) by (rule system_ok_reach)
  with reach_turn assms(1) show ?case by (auto intro: agent_turn_keeps_settings)
qed

end
