(* ===== verification/Snmp_Message_Roundtrip.thy ===== *)
theory Snmp_Message_Roundtrip
  imports Snmp_Message_Correct Mib_Backend
begin

text \<open>
  A request that follows the grammar is understood: what a manager wrote into the datagram is what the
  handler finds in its context. With the grammar of the responses this gives the agent end to end.
\<close>

section \<open>What a request becomes\<close>

definition access_of :: "communities \<Rightarrow> u8 list \<Rightarrow> snmp_access_mode" where
  "access_of cs community =
     (if c_string (community @ [0]) = c_string (s_rw_community cs) then SNMP_ACCESS_READWRITE
      else if c_string (community @ [0]) = c_string (s_ro_community cs) then SNMP_ACCESS_READ
      else SNMP_ACCESS_NONE)"

definition request_ctx ::
  "snmp_version \<Rightarrow> u8 list \<Rightarrow> snmp_access_mode \<Rightarrow> u8 \<Rightarrow> i32 \<Rightarrow> i32 \<Rightarrow> i32 \<Rightarrow> snmp_varbind list \<Rightarrow> snmp_pdu_ctx" where
  "request_ctx version community mode tag rid es ei vbs =
     \<lparr>ctx_version = version, ctx_pdu_tag = tag, ctx_request_id = rid, ctx_error_status = es,
      ctx_error_index = ei, ctx_varbinds = vbs @ replicate (SNMP_MAX_VARBINDS - length vbs) vb_zero,
      ctx_varbind_count = length vbs, ctx_access_mode = mode,
      ctx_principal = (community @ [0]) @ replicate (SNMP_MAX_PRINCIPAL_LEN - length (community @ [0])) 0\<rparr>"

lemma request_ctx_simps [simp]:
  "ctx_version (request_ctx version community mode tag rid es ei vbs) = version"
  "ctx_pdu_tag (request_ctx version community mode tag rid es ei vbs) = tag"
  "ctx_request_id (request_ctx version community mode tag rid es ei vbs) = rid"
  "ctx_access_mode (request_ctx version community mode tag rid es ei vbs) = mode"
  "ctx_varbind_count (request_ctx version community mode tag rid es ei vbs) = length vbs"
  "i < length vbs \<Longrightarrow> ctx_varbinds (request_ctx version community mode tag rid es ei vbs) ! i = vbs ! i"
  "c_string (ctx_principal (request_ctx version community mode tag rid es ei vbs)) = c_string (community @ [0])"
  by (simp_all add: request_ctx_def nth_append)

lemma request_ctx_ok:
  assumes "\<forall>vb \<in> set vbs. wire_ok vb" and "length vbs \<le> SNMP_MAX_VARBINDS" and "length community < SNMP_MAX_PRINCIPAL_LEN"
  shows "ctx_ok (request_ctx version community mode tag rid es ei vbs)"
  using assms by (auto simp: ctx_ok_def request_ctx_def wire_ok_vb_ok)

section \<open>The envelope\<close>

lemma length_message_fields:
  "length (int_bytes v) \<le> length (message_bytes version community pdu)" if "v = version_code version"
  using that by (simp add: message_bytes_def ber_tlv_bytes_def)

lemma message_bytes_content:
  assumes h: "holds_at msg 0 (message_bytes version community pdu)" and mem: "length msg < 2 ^ 32"
  obtains p where
    "ber_decode_tlv msg 0 (length (message_bytes version community pdu)) 0 =
       Some (Inr (tlv_at BER_TAG_SEQUENCE 0 (int_bytes (version_code version) @
         ber_tlv_bytes BER_TAG_OCTET_STRING community @ pdu)))"
    "p = tlv_value (tlv_at BER_TAG_SEQUENCE 0 (int_bytes (version_code version) @
         ber_tlv_bytes BER_TAG_OCTET_STRING community @ pdu))"
    "holds_at msg p (int_bytes (version_code version))"
    "holds_at msg (p + length (int_bytes (version_code version))) (ber_tlv_bytes BER_TAG_OCTET_STRING community)"
    "holds_at msg (p + length (int_bytes (version_code version)) + length (ber_tlv_bytes BER_TAG_OCTET_STRING community)) pdu"
    "length community < 2 ^ 32"
proof -
  let ?c = "int_bytes (version_code version) @ ber_tlv_bytes BER_TAG_OCTET_STRING community @ pdu"
  have bs: "message_bytes version community pdu = ber_tlv_bytes BER_TAG_SEQUENCE ?c" by (simp add: message_bytes_def)
  have lt: "length ?c < 2 ^ 32"
    by (rule le_less_trans [OF length_content_lt holds_at_length [OF h [unfolded bs] mem]])
  have top: "ber_decode_tlv msg 0 (length (message_bytes version community pdu)) 0 = Some (Inr (tlv_at BER_TAG_SEQUENCE 0 ?c))"
    unfolding bs using h lt by (intro ber_decode_tlv_bytes) (simp_all add: bs)
  have c: "holds_at msg (tlv_value (tlv_at BER_TAG_SEQUENCE 0 ?c)) ?c"
    using h unfolding bs by (rule holds_at_content)
  have "length community \<le> length (ber_tlv_bytes BER_TAG_OCTET_STRING community)" by (simp add: ber_tlv_bytes_def)
  then have "length community < 2 ^ 32" using lt by simp
  with c show thesis by (intro that [OF top refl]) (simp_all add: holds_at_append add.assoc)
qed

lemma community_incoming_bytes:
  assumes vbs: "\<forall>vb \<in> set vbs. wire_ok vb" "length vbs \<le> SNMP_MAX_VARBINDS"
    and tag: "tag \<in> request_tags" and pdu: "pdu_bytes tag rid es ei vbs = Some pdu"
    and h: "holds_at msg 0 (message_bytes version community pdu)" and mem: "length msg < 2 ^ 32"
    and version: "version \<noteq> SNMP_VERSION_V3" and community: "length community < SNMP_MAX_PRINCIPAL_LEN"
    and cs: "communities_ok cs"
  shows "community_process_incoming cs msg (length (message_bytes version community pdu)) 0 ctx_zero =
    Some (if access_of cs community = SNMP_ACCESS_NONE then Inl BER_ERR_BAD_ARGS
      else Inr (request_ctx version community (access_of cs community) tag rid es ei vbs))"
proof -
  let ?v = "int_bytes (version_code version)" and ?o = "ber_tlv_bytes BER_TAG_OCTET_STRING community"
  let ?c = "?v @ ?o @ pdu"
  from message_bytes_content [OF h mem] obtain p where
    top: "ber_decode_tlv msg 0 (length (message_bytes version community pdu)) 0 = Some (Inr (tlv_at BER_TAG_SEQUENCE 0 ?c))"
    and p: "p = tlv_value (tlv_at BER_TAG_SEQUENCE 0 ?c)"
    and f: "holds_at msg p ?v" "holds_at msg (p + length ?v) ?o" "holds_at msg (p + length ?v + length ?o) pdu"
    and lt: "length community < 2 ^ 32" by blast
  have seq: "ber_expect_tag msg 0 (length (message_bytes version community pdu)) 0 BER_TAG_SEQUENCE =
      Some (Inr (tlv_at BER_TAG_SEQUENCE 0 ?c))" using top by (simp add: ber_expect_tag_def)
  have v: "ber_expect_tag msg p (length ?c) 1 BER_TAG_INTEGER = Some (Inr (tlv_at BER_TAG_INTEGER p (int_content (version_code version))))"
    "ber_decode_integer msg (tlv_at BER_TAG_INTEGER p (int_content (version_code version))) = Some (Inr (version_code version))"
    using integer_field [OF f(1), of "length ?c" 1] by simp_all
  have oct: "ber_expect_tag msg (p + length ?v) (length ?o + length pdu) 1 BER_TAG_OCTET_STRING =
      Some (Inr (tlv_at BER_TAG_OCTET_STRING (p + length ?v) community))"
    by (rule ber_expect_tag_bytes [OF f(2) lt]) simp_all
  have dec: "ber_decode_octet_string msg (tlv_at BER_TAG_OCTET_STRING (p + length ?v) community) (SNMP_MAX_PRINCIPAL_LEN - 1) =
      Some (Inr community)"
    using community by (intro decode_octet_string_content holds_at_content [OF f(2)]) simp_all
  define ctx1 where "ctx1 mode = ctx_zero\<lparr>ctx_version := version,
      ctx_principal := (community @ [0]) @ drop (length (community @ [0])) (ctx_principal ctx_zero),
      ctx_access_mode := mode\<rparr>" for mode
  have req: "snmp_decode_request_pdu msg (p + length ?v + length ?o) (length pdu) 1 (ctx1 mode) =
      Some (Inr (request_ctx version community mode tag rid es ei vbs))" for mode
    using snmp_decode_request_pdu_bytes [OF vbs tag pdu f(3) _ mem, of "length pdu" "ctx1 mode" 1]
    by (simp add: ctx1_def request_ctx_def ctx_zero_def vb_zero_def)
  have eqs: "c_streq (community @ [0]) (s_rw_community cs) = Some (c_string (community @ [0]) = c_string (s_rw_community cs))"
    "c_streq (community @ [0]) (s_ro_community cs) = Some (c_string (community @ [0]) = c_string (s_ro_community cs))"
    using cs by (simp_all add: c_streq_def communities_ok_def)
  have ver: "(if version_code version = version_code SNMP_VERSION_V2C then SNMP_VERSION_V2C else SNMP_VERSION_V1) = version"
    using version by (cases version) simp_all
  have arith: "length ?c - (p + length ?v - p) = length ?o + length pdu"
    "length ?o + length pdu - (p + length ?v + length ?o - (p + length ?v)) = length pdu" "0 + 1 = (1 :: nat)" by simp_all
  have "community_process_incoming cs msg (length (message_bytes version community pdu)) 0 ctx_zero = do {
       is_rw \<leftarrow> c_streq (community @ [0]) (s_rw_community cs);
       is_ro \<leftarrow> (if is_rw then Some False else c_streq (community @ [0]) (s_ro_community cs));
       if is_rw then Some (Inr (request_ctx version community SNMP_ACCESS_READWRITE tag rid es ei vbs))
       else if is_ro then Some (Inr (request_ctx version community SNMP_ACCESS_READ tag rid es ei vbs))
       else Some (Inl BER_ERR_BAD_ARGS)
     }"
    unfolding req [symmetric] ctx1_def
    by (simp only: community_process_incoming_def Let_def seq chk_simps tlv_at_simps p [symmetric] arith v oct dec ver)
  then show ?thesis by (simp add: eqs access_of_def)
qed

section \<open>Acceptance\<close>

lemma message_accept_bytes:
  assumes vbs: "\<forall>vb \<in> set vbs. wire_ok vb" "length vbs \<le> SNMP_MAX_VARBINDS"
    and tag: "tag \<in> request_tags" and pdu: "pdu_bytes tag rid es ei vbs = Some pdu"
    and h: "holds_at msg 0 (message_bytes version community pdu)" and mem: "length msg < 2 ^ 32"
    and version: "version \<noteq> SNMP_VERSION_V3" and community: "length community < SNMP_MAX_PRINCIPAL_LEN"
    and cs: "communities_ok (s_communities sec)"
    and look: "snmp_security_lookup sec (version_code version) = Some s_community_model"
  shows "message_accept sec msg (length (message_bytes version community pdu)) =
    Some (if access_of (s_communities sec) community = SNMP_ACCESS_NONE then Inl BER_ERR_BAD_ARGS
      else Inr (s_community_model, request_ctx version community (access_of (s_communities sec) community) tag rid es ei vbs))"
proof -
  let ?v = "int_bytes (version_code version)" and ?o = "ber_tlv_bytes BER_TAG_OCTET_STRING community"
  let ?c = "?v @ ?o @ pdu"
  from message_bytes_content [OF h mem] obtain p where
    top: "ber_decode_tlv msg 0 (length (message_bytes version community pdu)) 0 = Some (Inr (tlv_at BER_TAG_SEQUENCE 0 ?c))"
    and p: "p = tlv_value (tlv_at BER_TAG_SEQUENCE 0 ?c)" and f: "holds_at msg p ?v" by blast
  have v: "ber_expect_tag msg p (length ?c) 1 BER_TAG_INTEGER = Some (Inr (tlv_at BER_TAG_INTEGER p (int_content (version_code version))))"
    "ber_decode_integer msg (tlv_at BER_TAG_INTEGER p (int_content (version_code version))) = Some (Inr (version_code version))"
    using integer_field [OF f, of "length ?c" 1] by simp_all
  show ?thesis
    using community_incoming_bytes [OF vbs tag pdu h mem version community cs]
    by (simp add: message_accept_def top v [unfolded length_append One_nat_def] p [symmetric] look s_community_model_def)
qed

end
