(* ===== verification/Agent_Walk.thy ===== *)
theory Agent_Walk
  imports App_Main Snmp_Message_Roundtrip
begin

text \<open>
  A manager that walks the agent: GetNextRequests one after the other, and one GetBulkRequest, against
  the ascending list of the agent's instances.
\<close>

section \<open>The walk with GetNextRequest\<close>

definition null_varbind :: "oid \<Rightarrow> snmp_varbind" where
  "null_varbind q = vb_zero\<lparr>vb_oid := q, vb_tag := BER_TAG_NULL\<rparr>"

definition walk_request :: "u8 \<Rightarrow> i32 \<Rightarrow> i32 \<Rightarrow> oid \<Rightarrow> snmp_pdu_ctx" where
  "walk_request tag es ei q = request_ctx SNMP_VERSION_V2C [] SNMP_ACCESS_READ tag 0 es ei [null_varbind q]"

text \<open>
  \<open>snmpwalk reg n q\<close>: at most \<open>n\<close> requests starting behind \<open>q\<close>; the names of the values received, until
  an error or an exception.
\<close>

fun snmpwalk :: "'s registry \<Rightarrow> nat \<Rightarrow> oid \<Rightarrow> 's \<Rightarrow> (oid list \<times> 's) option" where
  "snmpwalk reg 0 q d = Some ([], d)"
| "snmpwalk reg (Suc n) q d = do {
     ((st, ctx), d1) \<leftarrow> snmp_pdu_handle_getnext reg (walk_request SNMP_PDU_GET_NEXT_REQUEST 0 0 q) d;
     let vb = ctx_varbinds ctx ! 0;
     if st \<noteq> BER_OK \<or> ctx_error_status ctx \<noteq> 0 \<or> vb_tag vb \<in> exception_tags then Some ([], d1)
     else do {
       (names, d2) \<leftarrow> snmpwalk reg n (vb_oid vb) d1;
       Some (vb_oid vb # names, d2)
     }
   }"

abbreviation later :: "oid set \<Rightarrow> oid \<Rightarrow> oid list" where
  "later V q \<equiv> sorted_list_of_set {x \<in> V. q < x}"

lemma later_next:
  assumes "finite V" and "is_next q V r"
  shows "later V q = (case r of None \<Rightarrow> [] | Some x \<Rightarrow> x # later V x)"
proof (cases r)
  case None
  with assms have "{x \<in> V. q < x} = {}" by (auto simp: is_next_def)
  then have "later V q = sorted_list_of_set {}" by (simp only:)
  with None show ?thesis by simp
next
  case (Some x)
  let ?S = "{x \<in> V. q < x}"
  have x: "x \<in> ?S" "\<forall>y \<in> ?S. x \<le> y" using assms(2) Some by (auto simp: is_next_def)
  have fin: "finite ?S" using assms(1) by simp
  have "Min ?S = x" using fin x by (intro Min_eqI) auto
  moreover have "?S - {x} = {y \<in> V. x < y}" using x by force
  moreover have "?S \<noteq> {}" using x by blast
  ultimately show ?thesis using sorted_list_of_set_nonempty [OF fin] Some by simp
qed

lemma walk_request_ok:
  assumes "length q \<le> BER_MAX_OID_LEN"
  shows "ctx_ok (walk_request tag es ei q)"
  using assms by (auto simp: ctx_ok_def walk_request_def request_ctx_def null_varbind_def vb_ok_def value_ok_def vb_zero_def)

lemma walk_request_simps [simp]:
  "ctx_varbinds (walk_request tag es ei q) ! 0 = null_varbind q"
  "ctx_varbind_count (walk_request tag es ei q) = 1"
  "ctx_version (walk_request tag es ei q) = SNMP_VERSION_V2C"
  "vb_oid (null_varbind q) = q"
  "ctx_error_status (walk_request tag es ei q) = es"
  "ctx_error_index (walk_request tag es ei q) = ei"
  by (simp_all add: walk_request_def request_ctx_def null_varbind_def)

lemma walk_request_live: "live_varbinds (walk_request tag es ei q) = [null_varbind q]"
  by (simp add: live_varbinds_def walk_request_def request_ctx_def)

text \<open>One request, in an agent whose getters succeed.\<close>

lemma walk_step:
  assumes "agent_healthy d0 d" and "length q \<le> BER_MAX_OID_LEN"
  shows "\<exists>ctx d'. snmp_pdu_handle_getnext agent_registry (walk_request SNMP_PDU_GET_NEXT_REQUEST 0 0 q) d =
      Some ((BER_OK, ctx), d') \<and> agent_healthy d0 d' \<and> ctx_error_status ctx = 0 \<and>
      (if vb_tag (ctx_varbinds ctx ! 0) \<in> exception_tags then is_next q (agent_view d0) None \<and>
         vb_tag (ctx_varbinds ctx ! 0) = SNMP_TAG_END_OF_MIB_VIEW
       else is_next q (agent_view d0) (Some (vb_oid (ctx_varbinds ctx ! 0))))"
proof -
  let ?req = "walk_request SNMP_PDU_GET_NEXT_REQUEST 0 0 q"
  from agent_well.process_read_settled [OF assms(1) walk_request_ok [OF assms(2)], of SNMP_PDU_GET_NEXT_REQUEST 0 0 LOOKUP_NEXT]
  obtain ctx d' as where run: "process_read_pdu agent_registry ?req LOOKUP_NEXT d = Some ((BER_OK, ctx), d')"
    "agent_healthy d0 d'" and
    as: "reads agent_registry (agent_view d0) (\<lambda>d x. False) LOOKUP_NEXT is_failed (\<lambda>q. vb_zero) [null_varbind q] d as d'"
      "ctx = (let vbs = map2 (v2c_varbind agent_registry LOOKUP_NEXT) [null_varbind q] as in
        case v2c_error 0 as of None \<Rightarrow> respond ?req vbs 0 0 | Some (status, index) \<Rightarrow> respond ?req vbs status index)"
    by (auto simp: read_response_def v2c_response_def walk_request_live)
  from as(1) obtain a where a: "as = [a]" "reads_one agent_registry (agent_view d0) (\<lambda>d x. False) LOOKUP_NEXT q vb_zero d a d'"
    by (auto elim!: reads_single)
  from a(2) have "ctx_error_status ctx = 0 \<and> (if vb_tag (ctx_varbinds ctx ! 0) \<in> exception_tags
      then is_next q (agent_view d0) None \<and> vb_tag (ctx_varbinds ctx ! 0) = SNMP_TAG_END_OF_MIB_VIEW
      else is_next q (agent_view d0) (Some (vb_oid (ctx_varbinds ctx ! 0))))"
  proof cases
    case read_missing
    then show ?thesis using as(2) by (simp add: a(1) v2c_error_def v2c_varbind_def exception_of_def respond_def)
  next
    case (read_fetched out vb)
    then show ?thesis using as(2) by (auto simp: a(1) v2c_error_def v2c_varbind_def respond_def)
  qed simp
  with run show ?thesis by (simp add: snmp_pdu_handle_getnext_def)
qed

lemma agent_view_short: "x \<in> agent_view d \<Longrightarrow> length x \<le> BER_MAX_OID_LEN"
  unfolding agent_view_def mib_view_def table_cells_def
  by (auto simp: agent_registry_def s_mib_ii_objects_def s_mib_wespe_objects_def s_iftable_scalars_def
      s_iftable_def s_ifxtable_def s_sensor_table_def)

lemma snmpwalk_later:
  assumes "agent_healthy d0 d" and "length q \<le> BER_MAX_OID_LEN" and "length (later (agent_view d0) q) < n"
  shows "\<exists>d'. snmpwalk agent_registry n q d = Some (later (agent_view d0) q, d') \<and> agent_healthy d0 d'"
  using assms
proof (induction n arbitrary: q d)
  case 0
  then show ?case by simp
next
  case (Suc n)
  let ?V = "agent_view d0"
  from walk_step [OF Suc.prems(1,2)] obtain ctx d1 where
    run: "snmp_pdu_handle_getnext agent_registry (walk_request SNMP_PDU_GET_NEXT_REQUEST 0 0 q) d = Some ((BER_OK, ctx), d1)"
      "agent_healthy d0 d1" "ctx_error_status ctx = 0" and
    ans: "if vb_tag (ctx_varbinds ctx ! 0) \<in> exception_tags then is_next q ?V None \<and>
         vb_tag (ctx_varbinds ctx ! 0) = SNMP_TAG_END_OF_MIB_VIEW
       else is_next q ?V (Some (vb_oid (ctx_varbinds ctx ! 0)))" by blast
  show ?case
  proof (cases "vb_tag (ctx_varbinds ctx ! 0) \<in> exception_tags")
    case True
    with ans have "is_next q ?V None" by simp
    then have "later ?V q = []" using later_next [OF finite_agent_view] by fastforce
    with run True show ?thesis by (simp add: Let_def)
  next
    case False
    let ?x = "vb_oid (ctx_varbinds ctx ! 0)"
    have nx: "is_next q ?V (Some ?x)" using ans False by simp
    then have lat: "later ?V q = ?x # later ?V ?x" using later_next [OF finite_agent_view] by fastforce
    have "?x \<in> ?V" using nx by (simp add: is_next_def)
    then have "length ?x \<le> BER_MAX_OID_LEN" by (rule agent_view_short)
    moreover have "length (later ?V ?x) < n" using Suc.prems(3) lat by simp
    ultimately obtain d' where rec: "snmpwalk agent_registry n ?x d1 = Some (later ?V ?x, d')" "agent_healthy d0 d'"
      using Suc.IH run(2) by blast
    from run rec lat False show ?thesis by (simp add: Let_def)
  qed
qed

section \<open>One GetBulkRequest\<close>

lemma getnext_healthy:
  assumes "agent_healthy d0 d"
  shows "\<exists>r vb d'. getnext_into agent_registry cur vb_zero d = Some ((r, vb), d') \<and> agent_healthy d0 d' \<and>
    (if r = MIB_OK then is_next (vb_oid cur) (agent_view d0) (Some (vb_oid vb)) \<and> vb_tag vb \<in> smi_tags
     else r = MIB_END_OF_VIEW \<and> is_next (vb_oid cur) (agent_view d0) None)"
proof -
  obtain r where r: "mib_registry_resolve_next agent_registry (vb_oid cur) d = Some (r, d)"
    "case r of Inl e \<Rightarrow> e = MIB_END_OF_VIEW \<and> is_next (vb_oid cur) (agent_view d0) None
      | Inr out \<Rightarrow> is_next (vb_oid cur) (agent_view d0) (Some (rs_oid out)) \<and> resolved_from agent_registry out"
    using agent_well.next_in_view [OF assms] by blast
  show ?thesis
  proof (cases r)
    case (Inl e)
    with r assms show ?thesis by (simp add: getnext_into_def)
  next
    case (Inr out)
    with r(2) have out: "is_next (vb_oid cur) (agent_view d0) (Some (rs_oid out))" "resolved_from agent_registry out" by auto
    then have "rs_oid out \<in> agent_view d0" by (simp add: is_next_def)
    moreover have "hit LOOKUP_NEXT (agent_view d0) (vb_oid cur) (Some (rs_oid out))" using out(1) by simp
    ultimately obtain x vb d' a where get: "mib_resolved_get out (vb_zero\<lparr>vb_oid := rs_oid out\<rparr>) d = Some ((x, vb), d')"
      "agent_healthy d0 d'"
      "reads_one agent_registry (agent_view d0) (\<lambda>d x. False) LOOKUP_NEXT (vb_oid cur) vb_zero d a d'"
      "returned agent_registry SNMP_VERSION_V2C LOOKUP_NEXT (vb_oid cur) vb_zero a x vb"
      using agent_well.fetch_reads [OF out(2) _ assms vb_ok_zero] by blast
    from get(3) show ?thesis
    proof cases
      case read_missing
      with out(1) have False by (auto simp: is_next_def)
      then show ?thesis ..
    next
      case (read_fetched out' vb')
      with get r(1) Inr show ?thesis by (auto simp: getnext_into_def returned_def)
    qed simp
  qed
qed

text \<open>The names and the exception that a column adds to a response with \<open>room\<close> free slots.\<close>

definition bulk_column :: "oid set \<Rightarrow> nat \<Rightarrow> oid \<Rightarrow> snmp_varbind list \<Rightarrow> bool" where
  "bulk_column V room q vbs \<longleftrightarrow>
     (let names = take room (later V q) in
      length vbs = min room (length names + 1) \<and>
      (\<forall>i < length names. vb_oid (vbs ! i) = names ! i \<and> vb_tag (vbs ! i) \<in> smi_tags) \<and>
      (length names < room \<longrightarrow> vb_tag (last vbs) = SNMP_TAG_END_OF_MIB_VIEW))"

lemma bulk_column_end: "is_next q V None \<Longrightarrow> finite V \<Longrightarrow> 0 < room \<Longrightarrow> vb_tag vb = SNMP_TAG_END_OF_MIB_VIEW \<Longrightarrow>
    bulk_column V room q [vb]"
  (is "?nx \<Longrightarrow> _ \<Longrightarrow> _ \<Longrightarrow> _ \<Longrightarrow> _")
proof -
  assume "?nx" "finite V" and room: "0 < room" and tag: "vb_tag vb = SNMP_TAG_END_OF_MIB_VIEW"
  then have "later V q = []" using later_next [of V q None] by simp
  with room tag show "bulk_column V room q [vb]" unfolding bulk_column_def by (simp only:) (simp add: Suc_leI)
qed

lemma bulk_column_Cons:
  assumes "is_next q V (Some (vb_oid vb))" and "finite V" and "vb_tag vb \<in> smi_tags" and "bulk_column V room (vb_oid vb) vbs"
  shows "bulk_column V (Suc room) q (vb # vbs)"
proof -
  have "later V q = vb_oid vb # later V (vb_oid vb)" using later_next [OF assms(2,1)] by simp
  with assms(3,4) show ?thesis by (auto simp: bulk_column_def Let_def nth_Cons split: nat.split)
qed

lemma bulk_column_full: "bulk_column V 0 q []"
  by (simp add: bulk_column_def)

text \<open>Results \<open>ys\<close> that grew from \<open>xs\<close> by \<open>v\<close> in slot \<open>c\<close> and then more.\<close>

lemma results_grown:
  assumes "length xs = N" and "length ys = N" and "c < N" and "c < n" and "take (Suc c) ys = take (Suc c) (xs[c := v])"
  shows "take c ys = take c xs" and "drop c (take n ys) = v # drop (Suc c) (take n ys)"
proof -
  have "take (Suc c) ys = take c xs @ [v]" "take (Suc c) ys = take c ys @ [ys ! c]"
    using assms by (simp_all add: take_Suc_conv_app_nth)
  then show "take c ys = take c xs" "drop c (take n ys) = v # drop (Suc c) (take n ys)"
    using assms(2,3,4) Cons_nth_drop_Suc [of c "take n ys"] by simp_all
qed

text \<open>The round that finds the end of the view, and the last.\<close>

definition end_of_view :: "snmp_varbind \<Rightarrow> snmp_varbind" where
  "end_of_view cur = cur\<lparr>vb_tag := SNMP_TAG_END_OF_MIB_VIEW, vb_value := UOctets []\<rparr>"

lemma bulk_rounds_end:
  assumes "getnext_into agent_registry cur vb_zero d = Some ((MIB_END_OF_VIEW, vb), d1)"
    and "length (bk_varbinds b) = SNMP_MAX_VARBINDS" and "bk_count b < SNMP_MAX_VARBINDS"
    and "bk_cursor b = [cur]" and "bk_exhausted b = False # es"
  shows "bulk_rounds agent_registry (Suc m) 1 b d = Some (b\<lparr>bk_active := False, bk_exhausted := True # es,
      bk_varbinds := (bk_varbinds b)[bk_count b := end_of_view cur], bk_count := bk_count b + 1\<rparr>, d1)"
  using assms by (simp add: append_result_def Let_def snmp_error_translate_def end_of_view_def)

text \<open>The round that finds the next instance.\<close>

lemma bulk_rounds_more:
  assumes "getnext_into agent_registry cur vb_zero d = Some ((MIB_OK, vb), d1)"
    and "length (bk_varbinds b) = SNMP_MAX_VARBINDS" and "bk_count b < SNMP_MAX_VARBINDS"
    and "bk_cursor b = [cur]" and "bk_exhausted b = False # es"
  shows "bulk_rounds agent_registry (Suc m) 1 b d = bulk_rounds agent_registry m 1
      (b\<lparr>bk_cursor := [vb], bk_active := True, bk_varbinds := (bk_varbinds b)[bk_count b := vb], bk_count := bk_count b + 1\<rparr>) d1"
  using assms by (simp add: append_result_def Let_def translate_OK)

text \<open>A column that is filled in from \<open>b\<close> to \<open>b'\<close> by at most \<open>m\<close> rounds.\<close>

definition column_filled :: "oid set \<Rightarrow> nat \<Rightarrow> oid \<Rightarrow> bulk \<Rightarrow> bulk \<Rightarrow> bool" where
  "column_filled V m q b b' \<longleftrightarrow>
     length (bk_varbinds b') = SNMP_MAX_VARBINDS \<and> bk_count b \<le> bk_count b' \<and> bk_count b' \<le> SNMP_MAX_VARBINDS \<and>
     take (bk_count b) (bk_varbinds b') = take (bk_count b) (bk_varbinds b) \<and>
     bulk_column V (min m (SNMP_MAX_VARBINDS - bk_count b)) q (drop (bk_count b) (take (bk_count b') (bk_varbinds b')))"

lemma column_filled_same:
  "m = 0 \<or> bk_count b = SNMP_MAX_VARBINDS \<Longrightarrow> length (bk_varbinds b) = SNMP_MAX_VARBINDS \<Longrightarrow> bk_count b \<le> SNMP_MAX_VARBINDS \<Longrightarrow>
   bk_varbinds b' = bk_varbinds b \<Longrightarrow> bk_count b' = bk_count b \<Longrightarrow> column_filled V m q b b'"
  by (auto simp: column_filled_def bulk_column_full)

lemma column_filled_end:
  assumes "is_next q V None" and "finite V" and "vb_tag vb = SNMP_TAG_END_OF_MIB_VIEW"
    and "length (bk_varbinds b) = SNMP_MAX_VARBINDS" and "bk_count b < SNMP_MAX_VARBINDS"
    and b': "bk_varbinds b' = (bk_varbinds b)[bk_count b := vb]" "bk_count b' = bk_count b + 1"
  shows "column_filled V (Suc m) q b b'"
proof -
  have "drop (bk_count b) (take (bk_count b') (bk_varbinds b')) = [vb]"
    using assms(4,5) by (simp add: b' take_Suc_conv_app_nth)
  moreover have "bulk_column V (min (Suc m) (SNMP_MAX_VARBINDS - bk_count b)) q [vb]"
    using assms(5) by (intro bulk_column_end [OF assms(1,2) _ assms(3)]) simp
  ultimately show ?thesis using assms(4,5) by (simp add: column_filled_def b')
qed

lemma column_filled_more:
  assumes "is_next q V (Some (vb_oid vb))" and "finite V" and "vb_tag vb \<in> smi_tags"
    and "length (bk_varbinds b) = SNMP_MAX_VARBINDS" and room: "bk_count b < SNMP_MAX_VARBINDS"
    and b1: "bk_varbinds b1 = (bk_varbinds b)[bk_count b := vb]" "bk_count b1 = bk_count b + 1"
    and rec: "column_filled V m (vb_oid vb) b1 b'"
  shows "column_filled V (Suc m) q b b'"
proof -
  let ?c = "bk_count b"
  note rec = rec [unfolded column_filled_def b1, simplified]
  have "min (Suc m) (SNMP_MAX_VARBINDS - ?c) = Suc (min m (SNMP_MAX_VARBINDS - Suc ?c))" using room by auto
  moreover have grown: "take ?c (bk_varbinds b') = take ?c (bk_varbinds b)"
    "drop ?c (take (bk_count b') (bk_varbinds b')) = vb # drop (Suc ?c) (take (bk_count b') (bk_varbinds b'))"
    using results_grown [of "bk_varbinds b" _ "bk_varbinds b'" ?c "bk_count b'" vb] assms(4) room rec by simp_all
  moreover have "bulk_column V (Suc (min m (SNMP_MAX_VARBINDS - Suc ?c))) q
      (vb # drop (Suc ?c) (take (bk_count b') (bk_varbinds b')))"
    using rec by (intro bulk_column_Cons [OF assms(1-3)]) simp
  ultimately show ?thesis using rec by (simp add: column_filled_def)
qed

lemma bulk_rounds_column:
  assumes "agent_healthy d0 d" and "length (bk_varbinds b) = SNMP_MAX_VARBINDS" and "bk_count b \<le> SNMP_MAX_VARBINDS"
    and "bk_cursor b = [cur]" and "bk_exhausted b = False # es"
  shows "\<exists>b' d'. bulk_rounds agent_registry m 1 b d = Some (b', d') \<and> agent_healthy d0 d' \<and>
    column_filled (agent_view d0) m (vb_oid cur) b b'"
  using assms
proof (induction m arbitrary: b d cur)
  case 0
  then show ?case by (simp add: column_filled_same)
next
  case (Suc m)
  obtain r vb d1 where get: "getnext_into agent_registry cur vb_zero d = Some ((r, vb), d1)" "agent_healthy d0 d1"
    "if r = MIB_OK then is_next (vb_oid cur) (agent_view d0) (Some (vb_oid vb)) \<and> vb_tag vb \<in> smi_tags
     else r = MIB_END_OF_VIEW \<and> is_next (vb_oid cur) (agent_view d0) None"
    using getnext_healthy [OF Suc.prems(1)] by blast
  consider (full) "bk_count b = SNMP_MAX_VARBINDS" | (last) "bk_count b < SNMP_MAX_VARBINDS" "r = MIB_END_OF_VIEW"
    | (more) "bk_count b < SNMP_MAX_VARBINDS" "r = MIB_OK" using Suc.prems(3) get(3) by (cases "r = MIB_OK") fastforce+
  then show ?case
  proof cases
    case full
    with get(1,2) Suc.prems show ?thesis
      by (cases "r = MIB_OK") (simp_all add: append_result_def Let_def column_filled_same)
  next
    case last
    note run = bulk_rounds_end [OF get(1) [unfolded last(2)] Suc.prems(2) last(1) Suc.prems(4,5)]
    have "is_next (vb_oid cur) (agent_view d0) None" using get(3) last(2) by simp
    then have "column_filled (agent_view d0) (Suc m) (vb_oid cur) b (b\<lparr>bk_active := False, bk_exhausted := True # es,
        bk_varbinds := (bk_varbinds b)[bk_count b := end_of_view cur], bk_count := bk_count b + 1\<rparr>)"
      using Suc.prems(2) last(1) finite_agent_view
      by (intro column_filled_end [where vb = "end_of_view cur"]) (simp_all add: end_of_view_def)
    with get(2) show ?thesis unfolding run by simp
  next
    case more
    note run = bulk_rounds_more [OF get(1) [unfolded more(2)] Suc.prems(2) more(1) Suc.prems(4,5)]
    let ?b1 = "b\<lparr>bk_cursor := [vb], bk_active := True, bk_varbinds := (bk_varbinds b)[bk_count b := vb], bk_count := bk_count b + 1\<rparr>"
    from Suc.IH [OF get(2), of ?b1 vb] Suc.prems(2,5) more(1) obtain b' d' where
      rec: "bulk_rounds agent_registry m 1 ?b1 d1 = Some (b', d')" "agent_healthy d0 d'"
        "column_filled (agent_view d0) m (vb_oid vb) ?b1 b'" by auto
    have "is_next (vb_oid cur) (agent_view d0) (Some (vb_oid vb))" "vb_tag vb \<in> smi_tags" using get(3) more(2) by simp_all
    from column_filled_more [OF this(1) finite_agent_view this(2) Suc.prems(2) more(1) _ _ rec(3)] rec(1,2) run
    show ?thesis by simp
  qed
qed

lemma getbulk_column:
  assumes "agent_healthy d0 d" and "length q \<le> BER_MAX_OID_LEN" and "0 \<le>s m"
  shows "\<exists>ctx d'. snmp_pdu_handle_getbulk agent_registry (walk_request SNMP_PDU_GET_BULK_REQUEST 0 m q) d =
      Some ((BER_OK, ctx), d') \<and> agent_healthy d0 d' \<and> ctx_error_status ctx = 0 \<and>
      bulk_column (agent_view d0) (min (unat m) SNMP_MAX_VARBINDS) q (live_varbinds ctx)"
proof -
  let ?req = "walk_request SNMP_PDU_GET_BULK_REQUEST 0 m q"
  let ?b0 = "\<lparr>bk_varbinds = ctx_varbinds ?req, bk_count = 0, bk_cursor = [], bk_exhausted = [], bk_active = False\<rparr>"
  define b1 where "b1 = ?b0\<lparr>bk_cursor := [null_varbind q], bk_exhausted := replicate SNMP_MAX_REPEATING_COLUMNS False\<rparr>"
  have len: "length (ctx_varbinds ?req) = SNMP_MAX_VARBINDS" by (simp add: walk_request_def request_ctx_def)
  have cur: "take 1 (drop 0 (ctx_varbinds ?req)) = [null_varbind q]" by (simp add: walk_request_def request_ctx_def)
  have ex: "replicate SNMP_MAX_REPEATING_COLUMNS False = False # replicate 15 False" by (simp add: eval_nat_numeral)
  have "\<not> m <s 0" using assms(3) by (simp add: word_sless_alt word_sle_eq)
  then have run: "snmp_pdu_handle_getbulk agent_registry ?req d = do {
      (b2, s2) \<leftarrow> (if 0 < unat m then bulk_rounds agent_registry (unat m) 1 b1 d else Some (?b0, d));
      Some ((BER_OK, ?req\<lparr>ctx_varbinds := bk_varbinds b2, ctx_varbind_count := bk_count b2,
         ctx_pdu_tag := SNMP_PDU_GET_RESPONSE, ctx_error_status := 0, ctx_error_index := 0\<rparr>), s2)
    }"
    using cur len by (simp add: snmp_pdu_handle_getbulk_def b1_def Let_def)
  show ?thesis
  proof (cases "0 < unat m")
    case False
    with run assms(1) show ?thesis by (simp add: live_varbinds_def bulk_column_full)
  next
    case True
    obtain b' d' where "bulk_rounds agent_registry (unat m) 1 b1 d = Some (b', d')" "agent_healthy d0 d'"
      "bulk_column (agent_view d0) (min (unat m) SNMP_MAX_VARBINDS) q (take (bk_count b') (bk_varbinds b'))"
      using bulk_rounds_column [OF assms(1), of b1 "null_varbind q" "replicate 15 False" "unat m"] len ex
      by (auto simp: b1_def column_filled_def)
    with run True show ?thesis by (simp add: live_varbinds_def)
  qed
qed

end
