(* ===== verification/Agent_Samples.thy ===== *)
theory Agent_Samples
  imports App_Security Agent_Walk
begin

text \<open>
  A concrete build, environment and request, at which the properties of the whole agent are applied.
\<close>

definition sample_env :: env where
  "sample_env =
     \<lparr>c_sensor = Sensor_Mock, e_timer = (\<lambda>_. 5000000), e_heap = (\<lambda>_. 180000), e_ap_info = (\<lambda>_. Some 0xC4),
      e_mac = (\<lambda>_. Some [0xAA, 0xBB, 0xCC, 0xDD, 0xEE, 0x01]), e_polls = (\<lambda>_. []),
      e_gpio_config = True, e_relay_config = True, e_mutex_create = True, e_task_create = True\<rparr>"

definition sample_device :: device where
  "sample_device = power_on sample_env False"

definition sample_config :: config where
  "sample_config =
     \<lparr>CONFIG_WESPE_WIFI_SSID = c_lit ''lab'' @ [0], CONFIG_WESPE_WIFI_PASSWORD = [0],
      CONFIG_WESPE_SNMP_RO_COMMUNITY = c_lit ''public'' @ [0], CONFIG_WESPE_SNMP_RW_COMMUNITY = c_lit ''private'' @ [0],
      CONFIG_WESPE_TRAP_DEST_IP = c_lit ''192.168.1.10'' @ [0],
      CONFIG_WESPE_TEMP_THRESHOLD_DECIDEGREES = 300,
      CONFIG_WESPE_TEMP_THRESHOLD_HYSTERESIS_DECIDEGREES = 5\<rparr>"

definition sample_net :: net_env where
  "sample_net = \<lparr>n_socket = (\<lambda>_. 54), n_bind = (\<lambda>_. 0), n_sendto = (\<lambda>_. 0),
     n_inet_pton = (\<lambda>_. Some [192, 168, 1, 10]), n_task_create = (\<lambda>_. True)\<rparr>"

definition sample_wifi :: wifi_env where
  "sample_wifi = \<lparr>w_nvs_init = ESP_OK, w_nvs_erase = ESP_OK, w_nvs_init_again = ESP_OK, w_checked = [ESP_OK],
     w_events = [WIFI_EVENT_STA_START, IP_EVENT_STA_GOT_IP]\<rparr>"

definition sample_system :: system where
  "sample_system =
     \<lparr>sys_dev = sample_device, sys_tr = transport_start sample_net,
      sys_udp = Udp_Running \<lparr>udp_sock = 54, in_buf = replicate SNMP_MAX_PACKET_LEN 0\<rparr>, sys_monitor = Some monitor_start\<rparr>"

text \<open>A GetNextRequest for \<open>sysName\<close> with the community \<open>public\<close>: the PDU and the datagram.\<close>

definition sample_pdu :: "u8 list" where
  "sample_pdu = [0xA1, 24, 2, 1, 1, 2, 1, 0, 2, 1, 0, 0x30, 13, 0x30, 11, 6, 7, 43, 6, 1, 2, 1, 1, 5, 5, 0]"

definition sample_varbinds :: "snmp_varbind list" where
  "sample_varbinds = [null_varbind [1, 3, 6, 1, 2, 1, 1, 5]]"

definition sample_request :: "u8 list" where
  "sample_request = message_bytes SNMP_VERSION_V2C (c_lit ''public'') sample_pdu"

lemma sample_env_ok: "init_answers sample_env" "healthy sample_device" "sensor_fixed sample_device"
  by (simp_all add: init_answers_def sample_env_def healthy_def sample_device_def power_on_def sensor_fixed_def)

lemma sample_device_ok: "dev_ok sample_device"
  by (simp add: sample_device_def sample_env_def power_on_def dev_ok_def c_array_def hal_mock_def c_lit_def)

lemma sample_healthy: "agent_healthy sample_device sample_device"
  by (simp add: agent_healthy_def agent_settled_def sample_device_ok sample_env_ok)

lemma sample_settled: "agent_settled sample_device sample_device"
  using sample_healthy by (simp add: agent_healthy_def)

lemma sample_config_ok: "config_ok sample_config"
  by (simp add: config_ok_def sample_config_def)

lemma sample_system_ok: "system_ok sample_system"
  by (simp add: system_ok_def sample_system_def sample_device_ok)

lemma sample_pdu_bytes: "pdu_bytes SNMP_PDU_GET_NEXT_REQUEST 1 0 0 sample_varbinds = Some sample_pdu"
  unfolding sample_varbinds_def sample_pdu_def null_varbind_def by code_simp

lemma sample_varbinds_ok: "\<forall>vb \<in> set sample_varbinds. wire_ok vb" "length sample_varbinds = 1"
  by (simp_all add: sample_varbinds_def wire_ok_def null_varbind_def vb_zero_def oid_ok_def)

lemma sample_request_bytes: "sample_request = [0x30, 37, 2, 1, 1, 4, 6, 112, 117, 98, 108, 105, 99] @ sample_pdu"
  unfolding sample_request_def sample_pdu_def by code_simp

lemma sample_request_length: "length sample_request = 39"
  by (simp add: sample_request_bytes sample_pdu_def)

lemma sample_stored_rw: "c_string (stored_community (CONFIG_WESPE_SNMP_RW_COMMUNITY sample_config)) = c_lit ''private''"
  unfolding sample_config_def by code_simp

lemma sample_quiet: "\<not> mentions (stored_community (CONFIG_WESPE_SNMP_RW_COMMUNITY sample_config)) sample_request"
  unfolding mentions_def sample_stored_rw sample_request_bytes sample_pdu_def by code_simp

lemma sample_access: "access_of (s_communities (agent_security sample_config)) (c_lit ''public'') = SNMP_ACCESS_READ"
  unfolding sample_config_def by code_simp

text \<open>The system receives the sample request.\<close>

definition sample_turn :: turn where
  "sample_turn = Udp_Receive (Some (\<lparr>sin_addr = [192, 168, 1, 2], sin_port = 50000\<rparr>, sample_request))
     (replicate SNMP_MAX_PACKET_LEN 0)"

lemma sample_turn_ok: "turn_ok sample_turn sample_system" "turn_quiet sample_config sample_turn"
  using sample_quiet by (simp_all add: sample_turn_def turn_quiet_def)

lemma sample_reaches:
  obtains s where "agent_reaches sample_config (agent_security sample_config) agent_registry sample_system [sample_turn] s"
proof -
  obtain s where "agent_turn sample_config (agent_security sample_config) agent_registry sample_turn sample_system = Some s"
    using agent_turn_total [OF sample_config_ok agent_security_ok sample_system_ok sample_turn_ok(1)] by blast
  from reach_turn [OF reach_start sample_turn_ok(1) this] show thesis by (intro that) simp
qed

end
