(* ===== verification/Registry_Properties.thy ===== *)
theory Registry_Properties
  imports Agent_Samples
begin

text \<open>
  The properties of the MIB registry: the binary searches against linear ones, the resolution of names
  against the set of instances that exist, and the bounds of its arrays.
\<close>

text \<open>
  C23. The binary searches over the modules are what linear searches would be: an exact lookup finds the
  first object of that name, and the lookup of the successor finds the least name above the one asked for.
\<close>

theorem mib_registry_searches_linear:
  assumes "\<forall>m \<in> set (s_modules reg). module_sorted m"
  shows "mib_registry_find reg oid = List.find (\<lambda>x. mo_oid x = oid) (concat (s_modules reg)) \<and>
    is_next oid (mo_oid ` set (concat (s_modules reg))) (map_option mo_oid (mib_registry_find_next reg oid))"
  using mib_registry_find_is_find [OF assms] mib_registry_find_next_is_next [OF assms] by simp

lemma agent_modules_sorted: "\<forall>m \<in> set (s_modules agent_registry). module_sorted m"
  using agent_registry_rows by (simp add: registry_rows_def)

theorem mib_registry_searches_linear_witness:
  "mib_registry_find agent_registry OID_SYS_NAME =
     List.find (\<lambda>x. mo_oid x = OID_SYS_NAME) (concat (s_modules agent_registry)) \<and>
   is_next OID_SYS_NAME (mo_oid ` set (concat (s_modules agent_registry)))
     (map_option mo_oid (mib_registry_find_next agent_registry OID_SYS_NAME))"
  by (rule mib_registry_searches_linear [OF agent_modules_sorted])

text \<open>
  C16. Resolution implements the view: with settled rows, an exact resolve succeeds just for the instances
  that exist and says which kind of absence it met, a resolve of the successor answers with the least
  instance above the name or the end of the view, and neither changes the state.
\<close>

theorem mib_registry_resolves_view:
  assumes "registry_rows I rows reg" and "I s"
  shows "\<exists>r q. mib_registry_resolve reg oid s = Some (r, s) \<and> mib_registry_resolve_next reg oid s = Some (q, s) \<and>
     (case r of
        Inl e \<Rightarrow> oid \<notin> mib_view rows reg s \<and>
          e = (if \<exists>t \<in> set (s_tables reg). cell_shaped t oid then MIB_NO_SUCH_INSTANCE else MIB_NO_SUCH_OBJECT)
      | Inr out \<Rightarrow> rs_oid out = oid \<and> oid \<in> mib_view rows reg s) \<and>
     is_next oid (mib_view rows reg s) (case q of Inl _ \<Rightarrow> None | Inr out \<Rightarrow> Some (rs_oid out))"
  using resolve_rows [OF assms, of oid] resolve_next_rows [OF assms, of oid] by blast

theorem mib_registry_resolves_view_witness:
  "\<exists>r q. mib_registry_resolve agent_registry [1, 3, 6, 1, 2, 1, 31] sample_device = Some (r, sample_device) \<and>
     mib_registry_resolve_next agent_registry [1, 3, 6, 1, 2, 1, 31] sample_device = Some (q, sample_device) \<and>
     (case r of
        Inl e \<Rightarrow> [1, 3, 6, 1, 2, 1, 31] \<notin> mib_view agent_rows agent_registry sample_device \<and>
          e = (if \<exists>t \<in> set (s_tables agent_registry). cell_shaped t [1, 3, 6, 1, 2, 1, 31]
               then MIB_NO_SUCH_INSTANCE else MIB_NO_SUCH_OBJECT)
      | Inr out \<Rightarrow> rs_oid out = [1, 3, 6, 1, 2, 1, 31] \<and>
          [1, 3, 6, 1, 2, 1, 31] \<in> mib_view agent_rows agent_registry sample_device) \<and>
     is_next [1, 3, 6, 1, 2, 1, 31] (mib_view agent_rows agent_registry sample_device)
       (case q of Inl _ \<Rightarrow> None | Inr out \<Rightarrow> Some (rs_oid out))"
  by (rule mib_registry_resolves_view [OF agent_registry_rows]) (simp add: sample_device_ok sample_env_ok)

section \<open>The bounds of the arrays\<close>

text \<open>What a registration can have put into the registry.\<close>

inductive registry_built :: "'s registry \<Rightarrow> bool" where
  built_reset: "registry_built (mib_registry_reset reg)"
| built_module: "registry_built reg \<Longrightarrow> registry_built (snd (mib_registry_register_module objects reg))"
| built_table: "registry_built reg \<Longrightarrow> registry_built (snd (mib_registry_register_table table reg))"

lemma registry_built_bounds:
  "registry_built reg \<Longrightarrow> length (s_modules reg) \<le> MIB_MAX_MODULES \<and> length (s_tables reg) \<le> MIB_MAX_TABLES"
  by (induction rule: registry_built.induct)
    (auto simp: mib_registry_reset_def mib_registry_register_module_def mib_registry_register_table_def)

lemma registry_count: "mib_registry_count reg = length (concat (s_modules reg))"
proof -
  have "foldl (\<lambda>total objs. total + length objs) n ms = n + length (concat ms)" for n :: nat and ms :: "'a mib_object list list"
    by (induction ms arbitrary: n) simp_all
  then show ?thesis by (simp add: mib_registry_count_def)
qed

text \<open>
  The static arrays of the registry are never overrun: after any sequence of resets and
  registrations at most four modules and four tables are stored, a registration fails exactly when its array
  is full, then changes nothing, and otherwise makes the objects of the module count.
\<close>

lemma mib_registry_bounds:
  assumes "registry_built reg"
  shows "length (s_modules reg) \<le> MIB_MAX_MODULES \<and> length (s_tables reg) \<le> MIB_MAX_TABLES \<and>
    (case mib_registry_register_module objects reg of (st, reg') \<Rightarrow>
       (st = - 1 \<longleftrightarrow> length (s_modules reg) = MIB_MAX_MODULES) \<and> (st = - 1 \<longrightarrow> reg' = reg) \<and>
       (st \<noteq> - 1 \<longrightarrow> st = 0 \<and> mib_registry_count reg' = mib_registry_count reg + length objects)) \<and>
    (case mib_registry_register_table table reg of (st, reg') \<Rightarrow>
       (st = - 1 \<longleftrightarrow> length (s_tables reg) = MIB_MAX_TABLES) \<and> (st = - 1 \<longrightarrow> reg' = reg) \<and>
       (st \<noteq> - 1 \<longrightarrow> st = 0 \<and> mib_registry_count reg' = mib_registry_count reg))"
  using registry_built_bounds [OF assms]
  by (auto simp: registry_count mib_registry_register_module_def mib_registry_register_table_def)

lemma mib_registry_bounds_witness:
  "length (s_modules (mib_registry_reset agent_registry)) \<le> MIB_MAX_MODULES \<and>
    mib_registry_register_module s_mib_ii_objects (mib_registry_reset agent_registry) =
      (0, \<lparr>s_modules = [s_mib_ii_objects], s_tables = []\<rparr>)"
  using mib_registry_bounds [OF built_reset, of agent_registry s_mib_ii_objects s_iftable]
  by (simp add: mib_registry_reset_def mib_registry_register_module_def agent_registry_def)

end
