(* ===== verification/Device_Properties.thy ===== *)
theory Device_Properties
  imports Agent_Samples
begin

text \<open>
  The properties of the drivers: the bytes and the temperatures of the 1-Wire bus (its timing is in
  \<open>One_Wire_Properties\<close>), which reading is answered, and what a failed initialisation leads to.
\<close>

section \<open>The 1-Wire bytes\<close>

lemma length_ow_write_bits: "length (ow_write_bits n b) = n"
  by (induction n arbitrary: b) simp_all

lemma ow_write_bits_nth: "i < n \<Longrightarrow> ow_write_bits n b ! i \<longleftrightarrow> bit b i"
proof (induction n arbitrary: b i)
  case (Suc n)
  have "b AND 1 \<noteq> 0 \<longleftrightarrow> bit b 0" by (simp add: and_one_eq bit_0 odd_iff_mod_2_eq_one)
  then show ?case using Suc by (cases i) (simp_all add: bit_drop_bit_eq)
qed simp

lemma bit_ow_read_bits:
  "k < 8 \<Longrightarrow> bit (ow_read_bits levels n i b) k \<longleftrightarrow> bit b k \<or> (i \<le> k \<and> k < i + n \<and> levels k)"
proof (induction n arbitrary: i b)
  case (Suc n)
  have "bit (b OR push_bit i (if levels i then 1 else 0)) k \<longleftrightarrow> bit b k \<or> (i = k \<and> levels k)"
    using Suc.prems by (auto simp: bit_or_iff bit_push_bit_iff bit_1_iff)
  with Suc show ?case by auto
qed auto

text \<open>
  A byte written to the bus is the byte that is read from it: eight slots, least significant bit first,
  in both directions.
\<close>

lemma one_wire_byte_roundtrip:
  "length (ow_write_byte b) = 8 \<and> ow_read_byte ((!) (ow_write_byte b)) = b"
proof -
  have "bit (ow_read_byte ((!) (ow_write_byte b))) k \<longleftrightarrow> bit b k" if "k < 8" for k
    using that by (simp add: ow_read_byte_def ow_write_byte_def bit_ow_read_bits ow_write_bits_nth)
  then show ?thesis by (auto simp: ow_write_byte_def length_ow_write_bits intro: bit_word_eqI)
qed

section \<open>The conversion\<close>

lemma sint_16_bounds: "- 32768 \<le> sint (w :: 16 word)" "sint (w :: 16 word) < 32768"
  using sint_greater_eq [of w] sint_less [of w] by simp_all

text \<open>
  The temperature in tenths of a degree is the raw value of the sensor, in sixteenths, rounded
  towards zero without overflow, so the error is less than a tenth of a degree and the result stays between
  -2048.0 and 2048.0 degrees.
\<close>

lemma raw_to_decidegrees_exact:
  assumes "raw = sint (push_bit 8 (ucast msb) OR ucast lsb :: 16 word)"
  shows "\<bar>16 * sint (raw_to_decidegrees msb lsb) - 10 * raw\<bar> < 16 \<and> \<bar>16 * sint (raw_to_decidegrees msb lsb)\<bar> \<le> \<bar>10 * raw\<bar> \<and>
    - 20480 \<le> sint (raw_to_decidegrees msb lsb) \<and> sint (raw_to_decidegrees msb lsb) < 20480"
proof -
  let ?q = "if raw * 10 < 0 then - ((- (raw * 10)) div 16) else raw * 10 div 16"
  have raw: "- 32768 \<le> raw" "raw < 32768" using sint_16_bounds assms by simp_all
  have q: "- 20480 \<le> ?q" "?q < 20480" using raw by auto
  have "sint (word_of_int ?q :: i32) = signed_take_bit 31 ?q" by (simp only: sint_sbintrunc') simp
  also have "\<dots> = ?q" using q by (intro signed_take_bit_int_eq_self) auto
  finally have "sint (word_of_int ?q :: i32) = ?q" .
  moreover have "raw_to_decidegrees msb lsb = word_of_int ?q" by (simp only: raw_to_decidegrees_def Let_def assms)
  ultimately have eq: "sint (raw_to_decidegrees msb lsb) = ?q" by (simp only:)
  have "\<bar>16 * ?q - 10 * raw\<bar> < 16" "\<bar>16 * ?q\<bar> \<le> \<bar>10 * raw\<bar>" by auto
  with q show ?thesis unfolding eq by blast
qed

lemma raw_to_decidegrees_exact_witness:
  "\<bar>16 * sint (raw_to_decidegrees 0xFF 0x5E) - 10 * (- 162)\<bar> < 16 \<and>
    \<bar>16 * sint (raw_to_decidegrees 0xFF 0x5E)\<bar> \<le> \<bar>10 * (- 162)\<bar> \<and>
    - 20480 \<le> sint (raw_to_decidegrees 0xFF 0x5E) \<and> sint (raw_to_decidegrees 0xFF 0x5E) < 20480"
proof (rule raw_to_decidegrees_exact)
  show "- 162 = sint (push_bit 8 (ucast (0xFF :: u8)) OR ucast (0x5E :: u8) :: 16 word)" by code_simp
qed

section \<open>The answered reading\<close>

text \<open>
  C27. With the DS18B20 a read answers with the last successful poll, whatever failed since: it reports a
  failure only as long as no poll has ever succeeded, so a sensor that was unplugged keeps its last value.
\<close>

theorem ds18b20_answers_last_successful_poll:
  assumes "\<not> hal_mock d" and "s_lock d"
  shows "\<exists>d'. sensor_read_temperature_decidegrees d =
      Some (last_reading (cached_reading d) (e_polls (dev_env d) (dev_calls d)), d') \<and>
    (s_have_reading d \<longrightarrow> (\<forall>w \<in> set (e_polls (dev_env d) (dev_calls d)). read_once w = None) \<longrightarrow>
       sensor_read_temperature_decidegrees d = Some (Some (s_last_decidegrees d), d'))"
proof -
  have "last_reading r ws = r" if "\<forall>w \<in> set ws. read_once w = None" for r ws
    using that by (induction ws arbitrary: r) (simp_all add: last_reading_Cons, simp add: last_reading_def List.map_filter_simps)
  then show ?thesis using read_cached [OF assms] by (auto simp: cached_reading_def)
qed

definition unplugged_device :: device where
  "unplugged_device = (power_on (sample_env\<lparr>c_sensor := Sensor_DS18B20,
      e_polls := \<lambda>_. [\<lparr>ow_presence1 = False, ow_presence2 = False, ow_levels = \<lambda>_. True\<rparr>]\<rparr>) False)
    \<lparr>s_lock := True, s_have_reading := True, s_last_decidegrees := 215\<rparr>"

theorem ds18b20_answers_last_successful_poll_witness:
  "\<exists>d'. sensor_read_temperature_decidegrees unplugged_device = Some (Some 215, d')"
proof -
  have "\<not> hal_mock unplugged_device" "s_lock unplugged_device" "s_have_reading unplugged_device"
    "s_last_decidegrees unplugged_device = 215"
    "\<forall>w \<in> set (e_polls (dev_env unplugged_device) (dev_calls unplugged_device)). read_once w = None"
    by (simp_all add: unplugged_device_def power_on_def hal_mock_def read_once_def)
  with ds18b20_answers_last_successful_poll [of unplugged_device] show ?thesis by auto
qed

section \<open>A failed initialisation\<close>

text \<open>
  C32. When the GPIO configuration of the sensor fails, the agent boots all the same, but the first
  GetRequest for the temperature takes a lock that was never created, which is undefined.
\<close>

theorem sensor_init_failure_undefined:
  assumes "c_sensor env = Sensor_DS18B20" and "\<not> e_gpio_config env" and "config_ok cfg"
  shows "\<exists>d. app_main_register (CONFIG_WESPE_SNMP_RO_COMMUNITY cfg) (CONFIG_WESPE_SNMP_RW_COMMUNITY cfg)
      security_start registry_empty (power_on env level) = Some (agent_security cfg, agent_registry, d) \<and>
    get_temperature vb d = None"
proof -
  obtain d where d: "app_main_register (CONFIG_WESPE_SNMP_RO_COMMUNITY cfg) (CONFIG_WESPE_SNMP_RW_COMMUNITY cfg)
      security_start registry_empty (power_on env level) = Some (agent_security cfg, agent_registry, d)"
    using app_main_register_security [OF assms(3)] by blast
  then have "\<not> hal_mock d \<and> \<not> s_lock d"
    using assms(1,2)
    by (auto simp: app_main_register_def mib_sensor_table_register_def power_on_def sensor_init_def relay_init_def
        ds18b20_sensor_init_def mock_relay_init_def gpio_relay_init_def hal_mock_def Let_def bind_eq_Some_conv
        split: prod.splits if_splits)
  then have "get_temperature vb d = None"
    by (simp add: get_temperature_def sensor_read_temperature_decidegrees_def ds18b20_read_temperature_def take_lock_def)
  with d show ?thesis by blast
qed

theorem sensor_init_failure_undefined_witness:
  "\<exists>d. app_main_register (CONFIG_WESPE_SNMP_RO_COMMUNITY sample_config) (CONFIG_WESPE_SNMP_RW_COMMUNITY sample_config)
      security_start registry_empty (power_on (sample_env\<lparr>c_sensor := Sensor_DS18B20, e_gpio_config := False\<rparr>) False) =
      Some (agent_security sample_config, agent_registry, d) \<and>
    get_temperature vb_zero d = None"
  by (rule sensor_init_failure_undefined [OF _ _ sample_config_ok]) simp_all

end
