(* ===== verification/One_Wire.thy ===== *)
theory One_Wire
  imports Device_Hal
begin

text \<open>
  The bit-banging half of \<open>sensor_ds18b20.c\<close>, on the pin: direction, level, delays and samples, one
  definition per routine. The bus records what the master does to the line; what \<open>gpio_get_level\<close> finds is
  a parameter. The routines of \<open>Device_Hal\<close> that answer the same questions on bytes and presence bits are
  their abstraction, and the slots they produce are legal 1-Wire slots.
\<close>

section \<open>The pin\<close>

datatype gpio_mode = GPIO_MODE_INPUT | GPIO_MODE_OUTPUT | GPIO_MODE_INPUT_OUTPUT_OD

text \<open>
  What happens on the line: for a number of microseconds the master drives it low, drives it high, or lets it
  go (\<open>None\<close>); or the master samples it.
\<close>

datatype ow_event =
    Ow_Drive "bool option" nat
  | Ow_Sample bool

text \<open>
  \<open>ow_answers k\<close> is the level that the sample number \<open>k\<close> finds. FreeRTOS is not code of this repository:
  \<open>ow_ticks ms\<close> is what \<open>pdMS_TO_TICKS(ms)\<close> is, and \<open>ow_sleep n\<close> the microseconds that pass in
  \<open>vTaskDelay(n)\<close>. The short delays, by \<open>esp_rom_delay_us\<close>, are busy waits.
\<close>

record ow_bus =
  ow_answers :: "nat \<Rightarrow> bool"
  ow_ticks :: "nat \<Rightarrow> nat"
  ow_sleep :: "nat \<Rightarrow> nat"
  ow_samples :: nat
  ow_mode :: gpio_mode
  ow_level :: bool
  ow_trace :: "ow_event list"

text \<open>A pin in a push-pull mode drives its level, an open drain only drives low.\<close>

definition ow_driven :: "ow_bus \<Rightarrow> bool option" where
  "ow_driven bus =
     (case ow_mode bus of
        GPIO_MODE_INPUT \<Rightarrow> None
      | GPIO_MODE_OUTPUT \<Rightarrow> Some (ow_level bus)
      | GPIO_MODE_INPUT_OUTPUT_OD \<Rightarrow> if ow_level bus then None else Some False)"

definition gpio_set_direction :: "gpio_mode \<Rightarrow> ow_bus \<Rightarrow> ow_bus" where
  "gpio_set_direction mode bus = bus\<lparr>ow_mode := mode\<rparr>"

definition gpio_set_level :: "bool \<Rightarrow> ow_bus \<Rightarrow> ow_bus" where
  "gpio_set_level l bus = bus\<lparr>ow_level := l\<rparr>"

definition esp_rom_delay_us :: "nat \<Rightarrow> ow_bus \<Rightarrow> ow_bus" where
  "esp_rom_delay_us us bus = bus\<lparr>ow_trace := ow_trace bus @ [Ow_Drive (ow_driven bus) us]\<rparr>"

definition gpio_get_level :: "ow_bus \<Rightarrow> bool \<times> ow_bus" where
  "gpio_get_level bus =
     (let l = ow_answers bus (ow_samples bus)
      in (l, bus\<lparr>ow_samples := Suc (ow_samples bus), ow_trace := ow_trace bus @ [Ow_Sample l]\<rparr>))"

definition vTaskDelay :: "nat \<Rightarrow> ow_bus \<Rightarrow> ow_bus" where
  "vTaskDelay n bus = esp_rom_delay_us (ow_sleep bus n) bus"

text \<open>
  What the documentation of FreeRTOS says of them, at \<open>hz\<close> ticks per second: the conversion rounds down to
  whole ticks, and a delay of \<open>n\<close> ticks ends with a tick interrupt, the first of which may come at once; so it
  lasts at least \<open>n - 1\<close> periods.
\<close>

definition freertos_delays :: "nat \<Rightarrow> ow_bus \<Rightarrow> bool" where
  "freertos_delays hz bus \<longleftrightarrow> 0 < hz \<and> (\<forall>ms. ow_ticks bus ms = ms * hz div 1000) \<and>
     (\<forall>n. (n - 1) * 1000000 \<le> ow_sleep bus n * hz)"

section \<open>The routines\<close>

definition ow_write_bit :: "bool \<Rightarrow> ow_bus \<Rightarrow> ow_bus" where
  "ow_write_bit b bus =
     (let bus1 = gpio_set_direction GPIO_MODE_OUTPUT bus;
          bus2 = gpio_set_level False bus1;
          bus3 = esp_rom_delay_us (if b then 6 else 60) bus2;
          bus4 = gpio_set_level True bus3
      in esp_rom_delay_us (if b then 64 else 10) bus4)"

definition ow_read_bit :: "ow_bus \<Rightarrow> bool \<times> ow_bus" where
  "ow_read_bit bus =
     (let bus1 = gpio_set_direction GPIO_MODE_OUTPUT bus;
          bus2 = gpio_set_level False bus1;
          bus3 = esp_rom_delay_us 2 bus2;
          bus4 = gpio_set_direction GPIO_MODE_INPUT bus3;
          bus5 = esp_rom_delay_us 10 bus4;
          (b, bus6) = gpio_get_level bus5
      in (b, esp_rom_delay_us 50 bus6))"

fun ow_write_loop :: "nat \<Rightarrow> u8 \<Rightarrow> ow_bus \<Rightarrow> ow_bus" where
  "ow_write_loop 0 b bus = bus"
| "ow_write_loop (Suc n) b bus = ow_write_loop n (drop_bit 1 b) (ow_write_bit (b AND 0x01 \<noteq> 0) bus)"

definition ow_write_byte_bus :: "u8 \<Rightarrow> ow_bus \<Rightarrow> ow_bus" where
  "ow_write_byte_bus b bus = ow_write_loop 8 b bus"

fun ow_read_loop :: "nat \<Rightarrow> nat \<Rightarrow> u8 \<Rightarrow> ow_bus \<Rightarrow> u8 \<times> ow_bus" where
  "ow_read_loop 0 i b bus = (b, bus)"
| "ow_read_loop (Suc n) i b bus =
     (let (r, bus1) = ow_read_bit bus in ow_read_loop n (i + 1) (b OR push_bit i (if r then 1 else 0)) bus1)"

definition ow_read_byte_bus :: "ow_bus \<Rightarrow> u8 \<times> ow_bus" where
  "ow_read_byte_bus bus = ow_read_loop 8 0 0 bus"

definition ow_reset :: "ow_bus \<Rightarrow> bool \<times> ow_bus" where
  "ow_reset bus =
     (let bus1 = gpio_set_direction GPIO_MODE_OUTPUT bus;
          bus2 = gpio_set_level False bus1;
          bus3 = esp_rom_delay_us 480 bus2;
          bus4 = gpio_set_direction GPIO_MODE_INPUT bus3;
          bus5 = esp_rom_delay_us 70 bus4;
          (l, bus6) = gpio_get_level bus5
      in (\<not> l, esp_rom_delay_us 410 bus6))"

text \<open>\<open>None\<close> is the return value -1.\<close>

definition read_once_bus :: "ow_bus \<Rightarrow> i32 option \<times> ow_bus" where
  "read_once_bus bus =
     (let (presence1, bus1) = ow_reset bus in
      if \<not> presence1 then (None, bus1)
      else
        let bus2 = ow_write_byte_bus 0x44 (ow_write_byte_bus 0xCC bus1);
            bus3 = vTaskDelay (ow_ticks bus2 750) bus2;
            (presence2, bus4) = ow_reset bus3
        in if \<not> presence2 then (None, bus4)
           else
             let bus5 = ow_write_byte_bus 0xBE (ow_write_byte_bus 0xCC bus4);
                 (lsb, bus6) = ow_read_byte_bus bus5;
                 (msb, bus7) = ow_read_byte_bus bus6
             in (Some (raw_to_decidegrees msb lsb), bus7))"

text \<open>
  What \<open>sensor_init\<close> does to the pin when \<open>gpio_config\<close> has accepted its configuration: an open drain, with
  the line released.
\<close>

definition sensor_init_bus :: "ow_bus \<Rightarrow> ow_bus" where
  "sensor_init_bus bus = gpio_set_level True (gpio_set_direction GPIO_MODE_INPUT_OUTPUT_OD bus)"

lemma sensor_init_releases: "ow_driven (sensor_init_bus bus) = None"
  by (simp add: sensor_init_bus_def ow_driven_def gpio_set_direction_def gpio_set_level_def)

section \<open>What the routines do to the line\<close>

text \<open>\<open>on_line bus k evs bus'\<close>: with \<open>k\<close> samples, the line saw the events \<open>evs\<close>.\<close>

definition on_line :: "ow_bus \<Rightarrow> nat \<Rightarrow> ow_event list \<Rightarrow> ow_bus \<Rightarrow> bool" where
  "on_line bus k evs bus' \<longleftrightarrow> ow_answers bus' = ow_answers bus \<and> ow_ticks bus' = ow_ticks bus \<and>
     ow_sleep bus' = ow_sleep bus \<and> ow_samples bus' = ow_samples bus + k \<and>
     ow_trace bus' = ow_trace bus @ evs"

lemma on_line_trans: "on_line a k xs b \<Longrightarrow> on_line b l ys c \<Longrightarrow> on_line a (k + l) (xs @ ys) c"
  by (simp add: on_line_def)

lemma on_line_refl: "on_line bus 0 [] bus"
  by (simp add: on_line_def)

lemmas gpio_defs = gpio_set_direction_def gpio_set_level_def esp_rom_delay_us_def gpio_get_level_def
  vTaskDelay_def ow_driven_def Let_def

abbreviation write_events :: "bool \<Rightarrow> ow_event list" where
  "write_events b \<equiv> [Ow_Drive (Some False) (if b then 6 else 60), Ow_Drive (Some True) (if b then 64 else 10)]"

abbreviation read_events :: "bool \<Rightarrow> ow_event list" where
  "read_events l \<equiv> [Ow_Drive (Some False) 2, Ow_Drive None 10, Ow_Sample l, Ow_Drive None 50]"

abbreviation reset_events :: "bool \<Rightarrow> ow_event list" where
  "reset_events l \<equiv> [Ow_Drive (Some False) 480, Ow_Drive None 70, Ow_Sample l, Ow_Drive None 410]"

lemma ow_write_bit_line: "on_line bus 0 (write_events b) (ow_write_bit b bus)"
  by (simp add: on_line_def ow_write_bit_def gpio_defs)

lemma ow_write_bit_pin: "ow_mode (ow_write_bit b bus) = GPIO_MODE_OUTPUT \<and> ow_level (ow_write_bit b bus)"
  by (simp add: ow_write_bit_def gpio_defs)

lemma ow_read_bit_line:
  "fst (ow_read_bit bus) = ow_answers bus (ow_samples bus)"
  "on_line bus 1 (read_events (ow_answers bus (ow_samples bus))) (snd (ow_read_bit bus))"
  by (simp_all add: on_line_def ow_read_bit_def gpio_defs)

lemma ow_reset_line:
  "fst (ow_reset bus) \<longleftrightarrow> \<not> ow_answers bus (ow_samples bus)"
  "on_line bus 1 (reset_events (ow_answers bus (ow_samples bus))) (snd (ow_reset bus))"
  by (simp_all add: on_line_def ow_reset_def gpio_defs)

lemma ow_write_loop_line: "on_line bus 0 (concat (map write_events (ow_write_bits n b))) (ow_write_loop n b bus)"
proof (induction n arbitrary: b bus)
  case 0
  show ?case by (simp add: on_line_refl)
next
  case (Suc n)
  from on_line_trans [OF ow_write_bit_line Suc] show ?case by simp
qed

lemma ow_write_byte_line: "on_line bus 0 (concat (map write_events (ow_write_byte b))) (ow_write_byte_bus b bus)"
  unfolding ow_write_byte_bus_def ow_write_byte_def by (rule ow_write_loop_line)

lemma ow_write_loop_pin:
  "0 < n \<Longrightarrow> ow_mode (ow_write_loop n b bus) = GPIO_MODE_OUTPUT \<and> ow_level (ow_write_loop n b bus)"
proof (induction n arbitrary: b bus)
  case (Suc n)
  then show ?case by (cases "n = 0") (simp_all add: ow_write_bit_pin)
qed simp

lemma ow_read_loop_line:
  "ow_read_loop n i b bus = (r, bus') \<Longrightarrow>
   on_line bus n (concat (map read_events (map (\<lambda>j. ow_answers bus (ow_samples bus + j)) [0..<n]))) bus' \<and>
   r = ow_read_bits (\<lambda>j. ow_answers bus (ow_samples bus + (j - i))) n i b"
proof (induction n arbitrary: i b bus)
  case 0
  then show ?case by (simp add: on_line_refl)
next
  case (Suc n)
  let ?l = "ow_answers bus (ow_samples bus)"
  let ?bus1 = "snd (ow_read_bit bus)"
  note bit = ow_read_bit_line [of bus]
  have same: "ow_answers ?bus1 = ow_answers bus" "ow_samples ?bus1 = Suc (ow_samples bus)"
    using bit(2) by (simp_all add: on_line_def)
  from Suc.prems have "ow_read_loop n (i + 1) (b OR push_bit i (if ?l then 1 else 0)) ?bus1 = (r, bus')"
    by (simp add: bit(1) split_beta)
  from Suc.IH [OF this] have
    line: "on_line ?bus1 n (concat (map read_events (map (\<lambda>j. ow_answers bus (Suc (ow_samples bus) + j)) [0..<n]))) bus'" and
    r: "r = ow_read_bits (\<lambda>j. ow_answers bus (Suc (ow_samples bus) + (j - (i + 1)))) n (i + 1) (b OR push_bit i (if ?l then 1 else 0))"
    by (simp_all add: same)
  have upt: "map (\<lambda>j. ow_answers bus (ow_samples bus + j)) [0..<Suc n] =
      ?l # map (\<lambda>j. ow_answers bus (Suc (ow_samples bus) + j)) [0..<n]"
    by (simp add: upt_conv_Cons map_Suc_upt [symmetric] del: upt_Suc)
  have "ow_read_bits (\<lambda>j. ow_answers bus (Suc (ow_samples bus) + (j - (i + 1)))) n (i + 1) c =
      ow_read_bits (\<lambda>j. ow_answers bus (ow_samples bus + (j - i))) n (i + 1) c" for c
  proof -
    have "ow_read_bits f n k c = ow_read_bits g n k c" if "\<And>j. k \<le> j \<Longrightarrow> f j = g j" for f g k
      using that by (induction n arbitrary: k c) simp_all
    note gen = this
    show ?thesis by (intro gen arg_cong [of _ _ "ow_answers bus"]) simp
  qed
  with r have "r = ow_read_bits (\<lambda>j. ow_answers bus (ow_samples bus + (j - i))) (Suc n) i b" by simp
  with on_line_trans [OF bit(2) line] show ?case unfolding upt by simp
qed

section \<open>The abstraction\<close>

text \<open>The transaction that the answers of the line amount to.\<close>

definition transaction_of :: "ow_bus \<Rightarrow> ow_transaction" where
  "transaction_of bus =
     \<lparr>ow_presence1 = (\<not> ow_answers bus (ow_samples bus)), ow_presence2 = (\<not> ow_answers bus (ow_samples bus + 1)),
      ow_levels = (\<lambda>i. ow_answers bus (ow_samples bus + 2 + i))\<rparr>"

text \<open>What happens on the line, when the conversion is given \<open>us\<close> microseconds.\<close>

definition read_once_events :: "nat \<Rightarrow> ow_transaction \<Rightarrow> ow_event list" where
  "read_once_events us w =
     reset_events (\<not> ow_presence1 w) @
     (if \<not> ow_presence1 w then []
      else concat (map write_events (ow_write_byte 0xCC)) @ concat (map write_events (ow_write_byte 0x44)) @
        [Ow_Drive (Some True) us] @ reset_events (\<not> ow_presence2 w) @
        (if \<not> ow_presence2 w then []
         else concat (map write_events (ow_write_byte 0xCC)) @ concat (map write_events (ow_write_byte 0xBE)) @
           concat (map read_events (map (ow_levels w) [0..<16]))))"

lemma ow_read_byte_line:
  "on_line bus 8 (concat (map read_events (map (\<lambda>j. ow_answers bus (ow_samples bus + j)) [0..<8]))) (snd (ow_read_byte_bus bus))"
  "fst (ow_read_byte_bus bus) = ow_read_byte (\<lambda>j. ow_answers bus (ow_samples bus + j))"
proof -
  obtain r bus' where "ow_read_loop 8 0 0 bus = (r, bus')" by fastforce
  with ow_read_loop_line [OF this]
  show "on_line bus 8 (concat (map read_events (map (\<lambda>j. ow_answers bus (ow_samples bus + j)) [0..<8]))) (snd (ow_read_byte_bus bus))"
    "fst (ow_read_byte_bus bus) = ow_read_byte (\<lambda>j. ow_answers bus (ow_samples bus + j))"
    by (simp_all add: ow_read_byte_bus_def ow_read_byte_def)
qed

lemma vTaskDelay_line:
  "ow_mode bus = GPIO_MODE_OUTPUT \<and> ow_level bus \<Longrightarrow> on_line bus 0 [Ow_Drive (Some True) (ow_sleep bus n)] (vTaskDelay n bus)"
  by (simp add: on_line_def gpio_defs)

lemma write_two_line:
  "on_line bus 0 (concat (map write_events (ow_write_byte b)) @ concat (map write_events (ow_write_byte c)))
     (ow_write_byte_bus c (ow_write_byte_bus b bus))"
  using on_line_trans [OF ow_write_byte_line ow_write_byte_line] by fastforce

text \<open>The last phase: Skip ROM, Read Scratchpad and two bytes.\<close>

definition scratchpad_lsb :: "ow_bus \<Rightarrow> u8 \<times> ow_bus" where
  "scratchpad_lsb bus = ow_read_byte_bus (ow_write_byte_bus 0xBE (ow_write_byte_bus 0xCC bus))"

definition scratchpad_msb :: "ow_bus \<Rightarrow> u8 \<times> ow_bus" where
  "scratchpad_msb bus = ow_read_byte_bus (snd (scratchpad_lsb bus))"

lemma scratchpad_line:
  fixes bus :: ow_bus
  defines "level \<equiv> \<lambda>j. ow_answers bus (ow_samples bus + j)"
  shows "on_line bus 16 ((concat (map write_events (ow_write_byte 0xCC)) @ concat (map write_events (ow_write_byte 0xBE))) @
      concat (map read_events (map level [0..<16]))) (snd (scratchpad_msb bus))"
    and "fst (scratchpad_lsb bus) = ow_read_byte level"
    and "fst (scratchpad_msb bus) = ow_read_byte (\<lambda>i. level (8 + i))"
proof -
  define bus1 where "bus1 = ow_write_byte_bus 0xBE (ow_write_byte_bus 0xCC bus)"
  define bus2 where "bus2 = snd (ow_read_byte_bus bus1)"
  note l1 = write_two_line [of bus "0xCC" "0xBE", folded bus1_def]
  have s1: "ow_answers bus1 = ow_answers bus" "ow_samples bus1 = ow_samples bus"
    using l1 by (simp_all add: on_line_def)
  note l2 = on_line_trans [OF l1 ow_read_byte_line(1) [of bus1, folded bus2_def]]
  have s2: "ow_answers bus2 = ow_answers bus" "ow_samples bus2 = ow_samples bus + 8"
    using l2 by (simp_all add: on_line_def)
  have "[0..<16] = [0..<8] @ map (\<lambda>j. 8 + j) [0..<8 :: nat]" by code_simp
  then have "map level [0..<16] = map (\<lambda>j. ow_answers bus1 (ow_samples bus1 + j)) [0..<8] @
      map (\<lambda>j. ow_answers bus2 (ow_samples bus2 + j)) [0..<8]"
    by (simp add: s1 s2 level_def ac_simps)
  then show "on_line bus 16 ((concat (map write_events (ow_write_byte 0xCC)) @ concat (map write_events (ow_write_byte 0xBE))) @
      concat (map read_events (map level [0..<16]))) (snd (scratchpad_msb bus))"
    using on_line_trans [OF l2 ow_read_byte_line(1) [of bus2]]
    by (simp add: scratchpad_msb_def scratchpad_lsb_def bus1_def bus2_def on_line_def)
  show "fst (scratchpad_lsb bus) = ow_read_byte level" "fst (scratchpad_msb bus) = ow_read_byte (\<lambda>i. level (8 + i))"
    using ow_read_byte_line(2) [of bus1] ow_read_byte_line(2) [of bus2]
    by (simp_all add: scratchpad_msb_def scratchpad_lsb_def bus1_def [symmetric] bus2_def [symmetric] s1 s2 level_def ac_simps)
qed

lemma read_once_bus_line:
  "fst (read_once_bus bus) = read_once (transaction_of bus) \<and>
   ow_trace (snd (read_once_bus bus)) = ow_trace bus @ read_once_events (ow_sleep bus (ow_ticks bus 750)) (transaction_of bus)"
proof -
  let ?w = "transaction_of bus"
  define us where "us = ow_sleep bus (ow_ticks bus 750)"
  define bus1 where "bus1 = snd (ow_reset bus)"
  have r1: "fst (ow_reset bus) \<longleftrightarrow> ow_presence1 ?w" "on_line bus 1 (reset_events (\<not> ow_presence1 ?w)) bus1"
    using ow_reset_line [of bus] by (simp_all add: transaction_of_def bus1_def)
  show ?thesis
  proof (cases "ow_presence1 ?w")
    case False
    with r1 show ?thesis
      by (simp add: read_once_bus_def read_once_def read_once_events_def bus1_def split_beta on_line_def)
  next
    case p1: True
    define bus2 where "bus2 = ow_write_byte_bus 0x44 (ow_write_byte_bus 0xCC bus1)"
    define bus3 where "bus3 = vTaskDelay (ow_ticks bus2 750) bus2"
    define bus4 where "bus4 = snd (ow_reset bus3)"
    have pin: "ow_mode bus2 = GPIO_MODE_OUTPUT \<and> ow_level bus2"
      unfolding bus2_def ow_write_byte_bus_def by (rule ow_write_loop_pin) simp
    have l2: "on_line bus 1 (reset_events (\<not> ow_presence1 ?w) @ concat (map write_events (ow_write_byte 0xCC)) @
        concat (map write_events (ow_write_byte 0x44))) bus2"
      using on_line_trans [OF r1(2) write_two_line] by (simp add: bus2_def)
    have "ow_sleep bus2 (ow_ticks bus2 750) = us" using l2 by (simp add: on_line_def us_def)
    with on_line_trans [OF l2 vTaskDelay_line [OF pin, of "ow_ticks bus2 750"]]
    have l3: "on_line bus 1 (reset_events (\<not> ow_presence1 ?w) @ (concat (map write_events (ow_write_byte 0xCC)) @
        concat (map write_events (ow_write_byte 0x44))) @ [Ow_Drive (Some True) us]) bus3"
      by (simp add: bus3_def)
    have r2: "fst (ow_reset bus3) \<longleftrightarrow> ow_presence2 ?w" "on_line bus3 1 (reset_events (\<not> ow_presence2 ?w)) bus4"
      using ow_reset_line [of bus3] l3 by (simp_all add: transaction_of_def bus4_def on_line_def)
    note l4 = on_line_trans [OF l3 r2(2)]
    show ?thesis
    proof (cases "ow_presence2 ?w")
      case False
      with p1 r1(1) r2(1) l4 show ?thesis
        by (simp add: us_def [symmetric] read_once_bus_def read_once_def read_once_events_def bus1_def [symmetric] bus2_def [symmetric]
            bus3_def [symmetric] bus4_def [symmetric] split_beta Let_def on_line_def)
    next
      case p2: True
      note pad = scratchpad_line [of bus4]
      have s4: "ow_answers bus4 = ow_answers bus" "ow_samples bus4 = ow_samples bus + 2"
        using l4 by (simp_all add: on_line_def)
      have levels: "(\<lambda>j. ow_answers bus4 (ow_samples bus4 + j)) = ow_levels ?w"
        "(\<lambda>i. ow_answers bus4 (ow_samples bus4 + (8 + i))) = (\<lambda>i. ow_levels ?w (8 + i))"
        by (simp_all add: s4 transaction_of_def)
      have "read_once_bus bus = (Some (raw_to_decidegrees (fst (scratchpad_msb bus4)) (fst (scratchpad_lsb bus4))),
          snd (scratchpad_msb bus4))"
        using p1 p2 r1(1) r2(1)
        by (simp add: read_once_bus_def bus1_def [symmetric] bus2_def [symmetric] bus3_def [symmetric]
            bus4_def [symmetric] scratchpad_lsb_def scratchpad_msb_def split_beta Let_def)
      moreover have "ow_trace (snd (scratchpad_msb bus4)) = ow_trace bus @ read_once_events us ?w"
        using on_line_trans [OF l4 pad(1)] p1 p2 unfolding read_once_events_def levels by (simp add: on_line_def)
      ultimately show ?thesis using p1 p2 pad(2,3) by (simp add: read_once_def Let_def levels us_def)
    qed
  qed
qed

end
