(* ===== verification/One_Wire_Properties.thy ===== *)
theory One_Wire_Properties
  imports One_Wire
begin

text \<open>
  The timing of the 1-Wire bus: the events on the line, cut into slots at the falling edges that the master
  makes, are the slots that the data sheet of the sensor asks for.
\<close>

section \<open>Slots\<close>

text \<open>
  A slot: how long the line is held low, how long it is left after that, and what was sampled how long after
  the falling edge.
\<close>

record ow_slot =
  slot_low :: nat
  slot_rest :: nat
  slot_sample :: "(nat \<times> bool) option"

fun ow_cut :: "ow_slot list \<Rightarrow> ow_event \<Rightarrow> ow_slot list" where
  "ow_cut ss (Ow_Drive (Some False) us) = \<lparr>slot_low = us, slot_rest = 0, slot_sample = None\<rparr> # ss"
| "ow_cut (s # ss) (Ow_Drive _ us) = s\<lparr>slot_rest := slot_rest s + us\<rparr> # ss"
| "ow_cut (s # ss) (Ow_Sample l) = s\<lparr>slot_sample := Some (slot_low s + slot_rest s, l)\<rparr> # ss"
| "ow_cut [] e = []"

definition ow_slots :: "ow_event list \<Rightarrow> ow_slot list" where
  "ow_slots evs = rev (foldl ow_cut [] evs)"

text \<open>
  The data sheet: a reset holds the line low for at least 480 us; the sensor answers 15 to 60 us after the
  release and holds the line low for 60 to 240 us, so a sample between 60 and 75 us sees every sensor; at
  least 480 us pass before the next slot. A written 0 is 60 to 120 us low, a written 1 is 1 to 15 us low; a
  read starts with at least 1 us low and is sampled within 15 us; a slot takes at least 60 us, and at least
  1 us passes before the next.
\<close>

datatype ow_kind = Ow_Reset | Ow_Write bool | Ow_Read bool

fun slot_legal :: "ow_kind \<Rightarrow> ow_slot \<Rightarrow> bool" where
  "slot_legal Ow_Reset s \<longleftrightarrow> 480 \<le> slot_low s \<and> 480 \<le> slot_rest s \<and>
     (case slot_sample s of None \<Rightarrow> False | Some (t, _) \<Rightarrow> slot_low s + 60 \<le> t \<and> t \<le> slot_low s + 75)"
| "slot_legal (Ow_Write b) s \<longleftrightarrow> slot_sample s = None \<and> 61 \<le> slot_low s + slot_rest s \<and>
     (if b then 1 \<le> slot_low s \<and> slot_low s \<le> 15 else 60 \<le> slot_low s \<and> slot_low s \<le> 120)"
| "slot_legal (Ow_Read b) s \<longleftrightarrow> 1 \<le> slot_low s \<and> 61 \<le> slot_low s + slot_rest s \<and>
     (case slot_sample s of None \<Rightarrow> False | Some (t, l) \<Rightarrow> slot_low s < t \<and> t \<le> 15 \<and> l = b)"

text \<open>
  The slots of one reading: reset, Skip ROM, Convert T; reset, Skip ROM, Read Scratchpad and two bytes; each
  byte with its least significant bit first.
\<close>

definition ow_byte :: "u8 \<Rightarrow> ow_kind list" where
  "ow_byte b = map (\<lambda>i. Ow_Write (bit b i)) [0..<8]"

definition ow_protocol :: "ow_transaction \<Rightarrow> ow_kind list" where
  "ow_protocol w = Ow_Reset #
     (if \<not> ow_presence1 w then []
      else ow_byte 0xCC @ ow_byte 0x44 @ Ow_Reset #
        (if \<not> ow_presence2 w then []
         else ow_byte 0xCC @ ow_byte 0xBE @ map Ow_Read (map (ow_levels w) [0..<16])))"

lemma cut_writes:
  "foldl ow_cut ss (concat (map write_events bs)) =
   rev (map (\<lambda>b. \<lparr>slot_low = if b then 6 else 60, slot_rest = if b then 64 else 10, slot_sample = None\<rparr>) bs) @ ss"
  by (induction bs arbitrary: ss) simp_all

lemma cut_reads:
  "foldl ow_cut ss (concat (map read_events ls)) =
   rev (map (\<lambda>l. \<lparr>slot_low = 2, slot_rest = 60, slot_sample = Some (12, l)\<rparr>) ls) @ ss"
  by (induction ls arbitrary: ss) simp_all

lemma cut_reset:
  "foldl ow_cut ss (reset_events l) = \<lparr>slot_low = 480, slot_rest = 480, slot_sample = Some (550, l)\<rparr> # ss"
  by simp

lemma ow_command_bits:
  "ow_write_byte 0xCC = [False, False, True, True, False, False, True, True]"
  "ow_write_byte 0x44 = [False, False, True, False, False, False, True, False]"
  "ow_write_byte 0xBE = [False, True, True, True, True, True, False, True]"
  by code_simp+

lemma ow_command_kinds:
  "ow_byte 0xCC = map Ow_Write [False, False, True, True, False, False, True, True]"
  "ow_byte 0x44 = map Ow_Write [False, False, True, False, False, False, True, False]"
  "ow_byte 0xBE = map Ow_Write [False, True, True, True, True, True, False, True]"
  by code_simp+

lemma reads_legal:
  "list_all2 slot_legal (map Ow_Read ls) (map (\<lambda>l. \<lparr>slot_low = 2, slot_rest = 60, slot_sample = Some (12, l)\<rparr>) ls)"
  by (simp add: list_all2_map1 list_all2_map2 list_all2_refl)

lemma read_once_slots:
  "list_all2 slot_legal (ow_protocol w) (ow_slots (read_once_events us w))"
proof (cases "ow_presence1 w")
  case False
  then show ?thesis by (simp add: ow_protocol_def read_once_events_def ow_slots_def)
next
  case p1: True
  show ?thesis
  proof (cases "ow_presence2 w")
    case False
    with p1 show ?thesis
      by (simp add: ow_protocol_def read_once_events_def ow_slots_def ow_command_bits ow_command_kinds)
  next
    case True
    with p1 reads_legal [of "map (ow_levels w) [0..<16]"] show ?thesis
      by (simp add: ow_protocol_def read_once_events_def ow_slots_def ow_command_bits ow_command_kinds cut_reads
          list_all2_append del: map_map upt_Suc)
  qed
qed

text \<open>
  The time that a conversion of the DS18B20 is given, at \<open>hz\<close> ticks per second: less than two ticks short of
  750 ms, one for the rounding to whole ticks and one for the delay that starts between two interrupts.
\<close>

lemma conversion_time:
  assumes "freertos_delays hz bus"
  shows "750000 * hz < ow_sleep bus (ow_ticks bus 750) * hz + 2000000"
proof -
  define t where "t = 750 * hz div 1000"
  have "(t - 1) * 1000000 \<le> ow_sleep bus (ow_ticks bus 750) * hz" "750 * hz < 1000 * t + 1000"
    using assms unfolding freertos_delays_def t_def by simp_all
  then show ?thesis by linarith
qed

lemma conversion_slot:
  assumes "ow_presence1 w"
  shows "slot_rest (ow_slots (read_once_events us w) ! 16) = us + 10"
    and "Ow_Drive (Some True) us \<in> set (read_once_events us w)"
proof -
  show "slot_rest (ow_slots (read_once_events us w) ! 16) = us + 10"
  proof (cases "ow_presence2 w")
    case False
    with assms show ?thesis by (simp add: read_once_events_def ow_slots_def ow_command_bits)
  next
    case True
    with assms show ?thesis
      by (simp add: read_once_events_def ow_slots_def ow_command_bits cut_reads del: map_map upt_Suc)
  qed
  show "Ow_Drive (Some True) us \<in> set (read_once_events us w)" using assms by (simp add: read_once_events_def)
qed

text \<open>
  C25. One reading of the sensor on the pin: the routine returns what its abstraction returns for the presence
  pulses and the levels that the samples find, and what it does to the line is the protocol of the data
  sheet, slot by slot: the kinds and the bits in their order, every low time, sampling point and slot length
  within the limits. Between the conversion command and the next reset the pin drives the line high for as long
  as \<open>vTaskDelay\<close> lasts on the ticks that 750 ms are; by what FreeRTOS documents that may be less than
  750 ms, but by less than two ticks.
\<close>

theorem ds18b20_read_keeps_protocol:
  "\<exists>evs. fst (read_once_bus bus) = read_once (transaction_of bus) \<and>
     ow_trace (snd (read_once_bus bus)) = ow_trace bus @ evs \<and>
     list_all2 slot_legal (ow_protocol (transaction_of bus)) (ow_slots evs) \<and>
     (ow_presence1 (transaction_of bus) \<longrightarrow>
        slot_rest (ow_slots evs ! 16) = ow_sleep bus (ow_ticks bus 750) + 10 \<and>
        Ow_Drive (Some True) (ow_sleep bus (ow_ticks bus 750)) \<in> set evs \<and>
        (\<forall>hz. freertos_delays hz bus \<longrightarrow> 750000 * hz < ow_sleep bus (ow_ticks bus 750) * hz + 2000000))"
  using read_once_bus_line [of bus] read_once_slots [of "transaction_of bus" "ow_sleep bus (ow_ticks bus 750)"]
    conversion_slot [of "transaction_of bus" "ow_sleep bus (ow_ticks bus 750)"] conversion_time [of _ bus] by blast

text \<open>
  A sensor that answers both resets and reports the raw value 0x0191, 25.0625 degrees; at 100 ticks per second,
  with the shortest delay that FreeRTOS documents, its conversion is given 740 ms.
\<close>

definition sample_bus :: ow_bus where
  "sample_bus = \<lparr>ow_answers = (\<lambda>k. 2 \<le> k \<and> bit (0x0191 :: u32) (k - 2)),
     ow_ticks = (\<lambda>ms. ms * 100 div 1000), ow_sleep = (\<lambda>n. (n - 1) * 10000), ow_samples = 0,
     ow_mode = GPIO_MODE_INPUT, ow_level = True, ow_trace = []\<rparr>"

lemma sample_bus_delays: "freertos_delays 100 sample_bus" "ow_sleep sample_bus (ow_ticks sample_bus 750) = 740000"
  by (simp_all add: freertos_delays_def sample_bus_def)

theorem ds18b20_read_keeps_protocol_witness:
  "\<exists>evs. fst (read_once_bus sample_bus) = Some 250 \<and> ow_trace (snd (read_once_bus sample_bus)) = evs \<and>
     list_all2 slot_legal (ow_protocol (transaction_of sample_bus)) (ow_slots evs) \<and>
     slot_rest (ow_slots evs ! 16) = 740010 \<and> Ow_Drive (Some True) 740000 \<in> set evs \<and>
     freertos_delays 100 sample_bus \<and> (750000 :: nat) * 100 < 740000 * 100 + 2000000"
proof -
  have "read_once (transaction_of sample_bus) = Some 250" "ow_presence1 (transaction_of sample_bus)"
    "ow_trace sample_bus = []"
    by code_simp+
  with ds18b20_read_keeps_protocol [of sample_bus] sample_bus_delays(1) show ?thesis
    unfolding sample_bus_delays(2) by fastforce
qed

end
