(* ===== verification/Wifi_Properties.thy ===== *)
theory Wifi_Properties
  imports Wifi_Provisioning
begin

text \<open>
  The properties of the WiFi bring-up: when the blocking connect ends, how often it tries, and what of the
  configured credentials reaches the driver.
\<close>

lemma got_ip_bit:
  "connected_bit (foldl (\<lambda>w ev. event_handler ev w) w evs) \<Longrightarrow> connected_bit w \<or> IP_EVENT_STA_GOT_IP \<in> set evs"
proof (induction evs arbitrary: w)
  case (Cons ev evs)
  have "connected_bit (event_handler ev w) \<Longrightarrow> connected_bit w \<or> ev = IP_EVENT_STA_GOT_IP"
    by (auto simp: event_handler_def esp_wifi_connect_def split: wifi_event.splits if_splits)
  with Cons show ?case by auto
qed simp

text \<open>
  C28. The blocking connect ends: when the driver comes up and reports eleven disconnections, it returns,
  and it returns success only if an address was assigned.
\<close>

theorem wifi_connect_ends:
  assumes "w_nvs_init env = ESP_OK" and "\<forall>r \<in> set (w_checked env). r = ESP_OK"
    and "11 \<le> length (filter ((=) WIFI_EVENT_STA_DISCONNECTED) (w_events env))"
  shows "\<exists>r \<in> {0, - 1}. snd (wifi_provisioning_connect_blocking ssid password env) = Wifi_Returns r \<and>
    (r = 0 \<longrightarrow> IP_EVENT_STA_GOT_IP \<in> set (w_events env))"
proof -
  have "wifi_inv wifi_start" "retries_left wifi_start = 11" by (simp_all add: wifi_inv_def wifi_start_def retries_left_def)
  with wait_bits_ends [of wifi_start "w_events env"] assms(3) obtain w where w: "wait_bits (w_events env) wifi_start = Some w" by auto
  from wait_bits_foldl [OF w] obtain seen rest where
    "w_events env = seen @ rest" "w = foldl (\<lambda>w ev. event_handler ev w) wifi_start seen" by blast
  then have "connected_bit w \<longrightarrow> IP_EVENT_STA_GOT_IP \<in> set (w_events env)"
    using got_ip_bit [of wifi_start seen] by (auto simp: wifi_start_def)
  with assms(1,2) w show ?thesis by (auto simp: wifi_provisioning_connect_blocking_def Let_def)
qed

theorem wifi_connect_ends_witness:
  "\<exists>r \<in> {0, - 1}. snd (wifi_provisioning_connect_blocking [76, 0] [0] \<lparr>w_nvs_init = ESP_OK, w_nvs_erase = ESP_OK,
      w_nvs_init_again = ESP_OK, w_checked = [ESP_OK], w_events = replicate 11 WIFI_EVENT_STA_DISCONNECTED\<rparr>) = Wifi_Returns r \<and>
    (r = 0 \<longrightarrow> IP_EVENT_STA_GOT_IP \<in> set (replicate 11 WIFI_EVENT_STA_DISCONNECTED))"
  using wifi_connect_ends [of "\<lparr>w_nvs_init = ESP_OK, w_nvs_erase = ESP_OK, w_nvs_init_again = ESP_OK,
      w_checked = [ESP_OK], w_events = replicate 11 WIFI_EVENT_STA_DISCONNECTED\<rparr>" "[76, 0]" "[0]"]
  by simp

text \<open>
  C29. The retries are bounded between two addresses: whatever the driver reports, as long as no
  address is assigned and the station is not restarted, at most ten further attempts are made, and after
  them none, however many disconnections follow.
\<close>

theorem wifi_attempts_bounded:
  assumes "wifi_inv w" and "IP_EVENT_STA_GOT_IP \<notin> set evs" and "WIFI_EVENT_STA_START \<notin> set evs"
  shows "int (connects (foldl (\<lambda>w ev. event_handler ev w) w evs)) + s_retry_count w =
      int (connects w) + s_retry_count (foldl (\<lambda>w ev. event_handler ev w) w evs) \<and>
    int (connects (foldl (\<lambda>w ev. event_handler ev w) w evs)) \<le> int (connects w) + (MAX_RETRY - s_retry_count w)"
proof -
  have "int (connects (foldl (\<lambda>w ev. event_handler ev w) w evs)) + s_retry_count w =
      int (connects w) + s_retry_count (foldl (\<lambda>w ev. event_handler ev w) w evs)"
    using assms
  proof (induction evs arbitrary: w)
    case (Cons ev evs)
    have "int (connects (event_handler ev w)) + s_retry_count w = int (connects w) + s_retry_count (event_handler ev w)"
      using Cons.prems(2,3) by (auto simp: event_handler_def esp_wifi_connect_def split: wifi_event.split)
    moreover have "int (connects (foldl (\<lambda>w ev. event_handler ev w) (event_handler ev w) evs)) + s_retry_count (event_handler ev w) =
        int (connects (event_handler ev w)) + s_retry_count (foldl (\<lambda>w ev. event_handler ev w) (event_handler ev w) evs)"
      using Cons.prems by (intro Cons.IH event_handler_inv) simp_all
    ultimately show ?case by simp
  qed simp
  with wifi_inv_run [OF assms(1), of evs] show ?thesis by (simp add: wifi_inv_def)
qed

theorem wifi_attempts_bounded_witness:
  "int (connects (foldl (\<lambda>w ev. event_handler ev w) wifi_start (replicate 20 WIFI_EVENT_STA_DISCONNECTED))) \<le> 10"
  using wifi_attempts_bounded [of wifi_start "replicate 20 WIFI_EVENT_STA_DISCONNECTED"]
  by (simp add: wifi_inv_def wifi_start_def)

lemma c_string_padded: "0 \<notin> set cs \<Longrightarrow> c_string (cs @ replicate n 0) = cs"
  by (induction cs) (auto simp: c_string_def takeWhile_replicate)

text \<open>
  The credentials are copied into the fields of the driver within their bounds, as strings of at most
  31 and 63 octets: an SSID of 32 octets, which 802.11 allows, loses its last one.
\<close>

lemma wifi_credentials_truncated:
  "length (sta_ssid (fst (wifi_provisioning_connect_blocking ssid password env))) = 32 \<and>
   c_string (sta_ssid (fst (wifi_provisioning_connect_blocking ssid password env))) = take 31 (c_string ssid) \<and>
   length (sta_password (fst (wifi_provisioning_connect_blocking ssid password env))) = 64 \<and>
   c_string (sta_password (fst (wifi_provisioning_connect_blocking ssid password env))) = take 63 (c_string password)"
proof -
  have "0 \<notin> set (take n (c_string cs))" for n cs
    using set_takeWhileD [of 0 _ cs] by (auto simp: c_string_def dest!: in_set_takeD)
  then have "length (wifi_field (Suc n) cs) = Suc n" "c_string (wifi_field (Suc n) cs) = take n (c_string cs)" for n cs
    by (simp_all add: wifi_field_def Let_def c_string_padded)
  from this [of 31] this [of 63] show ?thesis
    by (simp add: wifi_provisioning_connect_blocking_def Let_def split: option.split)
qed

end
