(* ===== verification/Monitor_Properties.thy ===== *)
theory Monitor_Properties
  imports Trap_Monitor_Correct Agent_Samples
begin

text \<open>
  The properties of the notifications: what the monitor task notifies over any number of turns, and the
  datagrams it sends.
\<close>

section \<open>The monitor task\<close>

text \<open>
  C15. The monitor task implements its specification: over any number of turns, whatever the other task does
  to the device and the network in between, each turn sends exactly the notifications of the abstract monitor,
  as the v2c trap packet of each value when it is due, and ends in its state. The abstract monitor is a
  function of the devices that the turns find: of the state of the relay, and of the temperature that the
  sensor answers at that very moment, which for the DS18B20 is the last successful poll. A reading that fails
  changes nothing, and nothing of the MIB is changed by the task.
\<close>

theorem monitor_loop_refines:
  assumes "config_ok cfg" and "\<forall>(packet, d, tr) \<in> set ws. length packet = 256 \<and> dev_ok d"
  shows "\<exists>m' outs notess. loop_notifies cfg ws m m' outs notess"
  by (rule monitor_loop_runs [OF assms])

text \<open>
  Turns that find the relay in a state and the DS18B20 with a cached reading, or without one as long as every
  poll has failed.
\<close>

definition sample_poll :: "bool \<Rightarrow> i32 option \<Rightarrow> u8 list \<times> device \<times> transport" where
  "sample_poll on r =
     (replicate 256 0,
      sample_device\<lparr>dev_env := sample_env\<lparr>c_sensor := Sensor_DS18B20\<rparr>, s_lock := True, s_relay_on := on,
        s_have_reading := (r \<noteq> None), s_last_decidegrees := (case r of None \<Rightarrow> 0 | Some v \<Rightarrow> v)\<rparr>,
      transport_start sample_net)"

definition sample_polls :: "(u8 list \<times> device \<times> transport) list" where
  "sample_polls = [sample_poll False None, sample_poll True (Some 297), sample_poll True (Some 301),
     sample_poll True (Some 296), sample_poll False (Some 302)]"

lemma sample_poll_ok: "fst (sample_poll on r) = replicate 256 0" "dev_ok (fst (snd (sample_poll on r)))"
  using sample_device_ok by (simp_all add: sample_poll_def dev_ok_def hal_mock_def sample_env_def)

lemma sample_polls_ok: "\<forall>(packet, d, tr) \<in> set sample_polls. length packet = 256 \<and> dev_ok d"
proof -
  have "length (fst (sample_poll on r)) = 256 \<and> dev_ok (fst (snd (sample_poll on r)))" for on r
    by (simp add: sample_poll_ok)
  then show ?thesis unfolding sample_polls_def by (simp add: case_prod_beta)
qed

lemma sample_polled: "polled m (fst (snd (sample_poll on r))) = (on, r)"
  by (cases r) (simp_all add: polled_def clocked_def measured_def sample_poll_def hal_mock_def cached_reading_def
      last_reading_def List.map_filter_simps tick_def sample_env_def)

lemma sample_readings:
  "readings cfg (found sample_polls) m =
     [(False, None), (True, Some 297), (True, Some 301), (True, Some 296), (False, Some 302)]"
  by (simp add: sample_polls_def case_prod_beta sample_polled)

text \<open>The failed reading counts for nothing; the relay goes on and off; the temperature is notified once.\<close>

theorem monitor_loop_refines_witness:
  "\<exists>m' outs notess. loop_notifies sample_config sample_polls monitor_start m' outs notess \<and>
     concat notess = [relay_note True, temperature_note 301, relay_note False]"
proof -
  obtain m' outs notess where l: "loop_notifies sample_config sample_polls monitor_start m' outs notess"
    using monitor_loop_refines [OF sample_config_ok sample_polls_ok] by blast
  from loop_run [OF l] have "concat notess = [relay_note True, temperature_note 301, relay_note False]"
    by (simp add: sample_readings monitor_spec_def relay_step_def temperature_step_def monitor_start_def
        sample_config_def split: prod.splits)
  with l show ?thesis by blast
qed

text \<open>
  The relay is notified exactly at its changes: over any number of turns of the task from its start, the
  values notified for the relay are the readings without their repetitions and without the first.
\<close>

lemma monitor_notifies_relay_changes:
  assumes "config_ok cfg" and "\<forall>(packet, d, tr) \<in> set ws. length packet = 256 \<and> dev_ok d"
  shows "\<exists>m' outs notess. loop_notifies cfg ws monitor_start m' outs notess \<and>
    notes_of OID_RELAY_CHANGE_TRAP (concat notess) = map as_int (tl (remdups_adj (map s_relay_on (found ws))))"
proof -
  obtain m' outs notess where l: "loop_notifies cfg ws monitor_start m' outs notess"
    using monitor_loop_runs [OF assms] by blast
  from relay_run [of cfg "readings cfg (found ws) monitor_start"] loop_run [OF l] l show ?thesis
    unfolding readings_relay by auto
qed

text \<open>
  C21. The hysteresis: as long as no reading of the temperature falls below the threshold less the
  hysteresis, the task notifies of the temperature at most once, however often the readings cross the
  threshold: the first reading is only the baseline, and if that is below the threshold, the first later
  reading that has reached it is notified. The readings are what the sensor answers in the device of each
  turn; those that fail do not count.
\<close>

theorem monitor_temperature_hysteresis:
  assumes "config_ok cfg" and "\<forall>(packet, d, tr) \<in> set ws. length packet = 256 \<and> dev_ok d"
    and "\<forall>v \<in> set (temperatures (readings cfg (found ws) monitor_start)). clear_below cfg \<le> sint v"
  shows "\<exists>m' outs notess. loop_notifies cfg ws monitor_start m' outs notess \<and>
    notes_of OID_TEMP_THRESHOLD_TRAP (concat notess) =
      first_crossing cfg (temperatures (readings cfg (found ws) monitor_start))"
proof -
  obtain m' outs notess where l: "loop_notifies cfg ws monitor_start m' outs notess"
    using monitor_loop_runs [OF assms(1,2)] by blast
  have "\<not> have_temp_baseline monitor_start" by (simp add: monitor_start_def)
  from temperature_run_start [OF this assms(3)] loop_run [OF l] l show ?thesis by auto
qed

text \<open>The sample polls dither about the threshold of 30.0 degrees, never below 29.5.\<close>

lemma sample_temperatures: "temperatures (readings cfg (found sample_polls) m) = [297, 301, 296, 302]"
  by (simp add: sample_readings List.map_filter_simps)

theorem monitor_temperature_hysteresis_witness:
  "\<exists>m' outs notess. loop_notifies sample_config sample_polls monitor_start m' outs notess \<and>
    notes_of OID_TEMP_THRESHOLD_TRAP (concat notess) = [301]"
proof -
  have "\<forall>v \<in> set (temperatures (readings sample_config (found sample_polls) monitor_start)). clear_below sample_config \<le> sint v"
    by (simp add: sample_temperatures sample_config_def)
  from monitor_temperature_hysteresis [OF sample_config_ok sample_polls_ok this] show ?thesis
    by (simp add: sample_temperatures first_crossing_def sample_config_def)
qed

end
