(* ===== verification/Agent_Properties.thy ===== *)
theory Agent_Properties
  imports Agent_Samples
begin

text \<open>
  The properties of the firmware as a whole: boot, definedness of every run, access control, and what
  the agent answers.
\<close>

section \<open>Boot\<close>

lemma transport_env [simp]:
  "net_env (net_tick tr) = net_env tr"
  "net_env (snd (snmp_transport_set_trap_destination ip tr)) = net_env tr"
  "net_env (snd (snmp_transport_send_trap packet tr)) = net_env tr"
  "net_env (snd (task_create_call tr)) = net_env tr"
  by (auto simp: net_tick_def snmp_transport_set_trap_destination_def snmp_transport_send_trap_def task_create_call_def
      socket_call_def sendto_call_def Let_def split: option.split prod.split)

lemma app_main_start_runs:
  assumes "config_ok cfg" and "length packet = 128" and "dev_ok d" and create: "\<And>k. n_task_create (net_env tr) k"
  shows "\<exists>s. app_main_start cfg packet sec reg d tr = Some (Boot_Running sec reg s) \<and> sys_monitor s = Some monitor_start"
proof -
  from app_main_start_total [OF assms(1-3), of sec reg tr] obtain b where b: "app_main_start cfg packet sec reg d tr = Some b"
    "case b of Boot_Halted \<Rightarrow> True | Boot_Running sec' reg' s \<Rightarrow> sec' = sec \<and> reg' = reg" by (fastforce split: boot.splits)
  have ok: "task_create_call tr' = (True, net_tick tr')" if "net_env tr' = net_env tr" for tr'
    using create that by (simp add: task_create_call_def)
  obtain n where n: "c_strlen (CONFIG_WESPE_TRAP_DEST_IP cfg) = Some n"
    using assms(1) by (simp add: config_ok_def c_strlen_Some)
  have "b \<noteq> Boot_Halted \<and> (\<forall>sec' reg' s. b = Boot_Running sec' reg' s \<longrightarrow> sys_monitor s = Some monitor_start)"
    using b(1) n ok
    by (auto simp: app_main_start_def Let_def snmp_transport_start_def trap_monitor_start_def bind_eq_Some_conv
        split: prod.splits if_splits)
  with b show ?thesis by (cases b) auto
qed

text \<open>
  C18. When WiFi comes up and the tasks can be created, \<open>app_main\<close> runs to its end: a security model
  for each of the three versions and the four MIB modules are registered, the relay is off, both tasks are in their initial state,
  and the invariant of the running system holds.
\<close>

theorem app_main_boots_agent:
  assumes "config_ok cfg" and "init_answers env" and "length packet = 128"
    and "snd (wifi_provisioning_connect_blocking (CONFIG_WESPE_WIFI_SSID cfg) (CONFIG_WESPE_WIFI_PASSWORD cfg) wifi) = Wifi_Returns 0"
    and "\<And>k. n_task_create net k"
  shows "\<exists>s. app_main cfg wifi packet security_start registry_empty (power_on env level) (transport_start net) =
      Some (Boot_Running (agent_security cfg) agent_registry s) \<and> system_ok s \<and> \<not> s_relay_on (sys_dev s) \<and>
      sys_udp s = Udp_Created \<and> sys_monitor s = Some monitor_start"
proof -
  from app_main_register_security [OF assms(1)] obtain d where
    reg: "app_main_register (CONFIG_WESPE_SNMP_RO_COMMUNITY cfg) (CONFIG_WESPE_SNMP_RW_COMMUNITY cfg)
      security_start registry_empty (power_on env level) = Some (agent_security cfg, agent_registry, d)" by blast
  have "n_task_create (net_env (transport_start net)) k" for k using assms(5) by (simp add: transport_start_def)
  from app_main_start_runs [OF assms(1,3) conjunct1 [OF app_main_device [OF assms(2) reg]] this] obtain s where
    s: "app_main_start cfg packet (agent_security cfg) agent_registry d (transport_start net) =
      Some (Boot_Running (agent_security cfg) agent_registry s)" "sys_monitor s = Some monitor_start" by blast
  from app_main_boots [OF assms(1-3), of wifi level "transport_start net"] s assms(4) show ?thesis
    by (auto simp: app_main_def reg)
qed

theorem app_main_boots_agent_witness:
  "\<exists>s. app_main sample_config sample_wifi (replicate 128 0) security_start registry_empty (power_on sample_env False)
      (transport_start sample_net) = Some (Boot_Running (agent_security sample_config) agent_registry s) \<and>
    system_ok s \<and> \<not> s_relay_on (sys_dev s) \<and> sys_udp s = Udp_Created \<and> sys_monitor s = Some monitor_start"
proof (rule app_main_boots_agent)
  show "snd (wifi_provisioning_connect_blocking (CONFIG_WESPE_WIFI_SSID sample_config)
      (CONFIG_WESPE_WIFI_PASSWORD sample_config) sample_wifi) = Wifi_Returns 0"
    unfolding sample_config_def sample_wifi_def by code_simp
qed (simp_all add: sample_config_ok sample_env_ok sample_net_def)

section \<open>Every run is defined\<close>

text \<open>
  C8. Type safety of the running firmware: whatever datagrams arrive, in whatever order the two tasks take
  their turns, and whatever ESP-IDF answers, no turn runs into undefined behaviour or fails to return, and
  the invariant of the system is kept.
\<close>

theorem agent_never_undefined:
  assumes "config_ok cfg" and "security_ok sec" and "system_ok s0"
    and "agent_reaches cfg sec agent_registry s0 es s" and "turn_ok e s"
  shows "\<exists>s'. agent_turn cfg sec agent_registry e s = Some s' \<and> system_ok s'"
  by (rule agent_turn_total [OF assms(1,2) system_ok_reach [OF assms(1-4)] assms(5)])

theorem agent_never_undefined_witness:
  "\<exists>s'. agent_turn sample_config (agent_security sample_config) agent_registry (Monitor_Poll (replicate 256 0)) sample_system
     = Some s' \<and> system_ok s'"
  by (rule agent_never_undefined [OF sample_config_ok agent_security_ok sample_system_ok reach_start]) simp

section \<open>Access control\<close>

text \<open>
  C7. Access control of the running firmware: as long as no datagram contains the configured read-write
  community, no sequence of datagrams and monitor polls changes a setting: the relay and its pin, the
  three strings of the system group and the sensor labels stay as they are, except that an empty label may
  be given its default text.
\<close>

theorem agent_settings_need_community:
  assumes "config_ok cfg" and "system_ok s0" and "agent_reaches cfg (agent_security cfg) agent_registry s0 es s"
    and "\<forall>e \<in> set es. turn_quiet cfg e"
  shows "same_settings (sys_dev s0) (sys_dev s)"
  by (rule reach_keeps_settings [OF assms])

theorem agent_settings_need_community_witness:
  "\<exists>s. agent_reaches sample_config (agent_security sample_config) agent_registry sample_system [sample_turn] s \<and>
     same_settings (sys_dev sample_system) (sys_dev s)"
proof -
  obtain s where "agent_reaches sample_config (agent_security sample_config) agent_registry sample_system [sample_turn] s"
    by (rule sample_reaches)
  moreover from this have "same_settings (sys_dev sample_system) (sys_dev s)"
    by (rule agent_settings_need_community [OF sample_config_ok sample_system_ok]) (simp add: sample_turn_ok)
  ultimately show ?thesis by blast
qed

text \<open>
  C17. A well-formed v1 or v2c request with a community that is neither of the two configured ones is
  dropped: no byte is sent and the device is not even read.
\<close>

theorem agent_drops_unknown_community:
  assumes "\<forall>vb \<in> set vbs. wire_ok vb" and "length vbs \<le> SNMP_MAX_VARBINDS" and "tag \<in> request_tags"
    and "pdu_bytes tag rid es ei vbs = Some pdu" and "holds_at msg 0 (message_bytes version community pdu)"
    and "length msg < 2 ^ 32" and "version \<noteq> SNMP_VERSION_V3" and "length community < SNMP_MAX_PRINCIPAL_LEN"
    and "access_of (s_communities (agent_security cfg)) community = SNMP_ACCESS_NONE"
  shows "snmp_message_process agent_registry (agent_security cfg) msg (length (message_bytes version community pdu))
    out out_cap d = Some ([], d)"
proof (rule message_dropped)
  have "snmp_security_lookup (agent_security cfg) (version_code version) = Some s_community_model"
    using assms(7) by (cases version) (simp_all add: security_lookup_map agent_security_def)
  from message_accept_bytes [OF assms(1-8) _ this] assms(9) agent_security_ok
  show "message_accept (agent_security cfg) msg (length (message_bytes version community pdu)) = Some (Inl BER_ERR_BAD_ARGS)"
    by (simp add: security_ok_def)
qed

theorem agent_drops_unknown_community_witness:
  "snmp_message_process agent_registry (agent_security sample_config) (message_bytes SNMP_VERSION_V1 (c_lit ''guess'') sample_pdu)
     (length (message_bytes SNMP_VERSION_V1 (c_lit ''guess'') sample_pdu)) [0] 1 sample_device = Some ([], sample_device)"
proof (rule agent_drops_unknown_community [OF sample_varbinds_ok(1) _ _ sample_pdu_bytes])
  have "length (message_bytes SNMP_VERSION_V1 (c_lit ''guess'') sample_pdu) = 38"
    unfolding sample_pdu_def by code_simp
  then show "length (message_bytes SNMP_VERSION_V1 (c_lit ''guess'') sample_pdu) < 2 ^ 32" by simp
  show "access_of (s_communities (agent_security sample_config)) (c_lit ''guess'') = SNMP_ACCESS_NONE"
    unfolding sample_config_def by code_simp
qed (simp_all add: sample_varbinds_ok holds_at_whole c_lit_def)

end
