(* ===== verification/Trap_Properties.thy ===== *)
theory Trap_Properties
  imports Agent_Properties
begin

text \<open>
  The properties of the notifications on the wire: their format, which of them fit into the buffers they
  are built in, and the coldStart notification of the boot.
\<close>

section \<open>The size of the coldStart notification\<close>

lemma length_short_tlv: "length c \<le> 127 \<Longrightarrow> length (ber_tlv_bytes tag c) = 2 + length c"
  by (simp add: ber_tlv_bytes_def ber_len_def)

lemma length_tlv_ge: "2 + length c \<le> length (ber_tlv_bytes tag c)"
  by (simp add: ber_tlv_bytes_def ber_len_def)

lemma cold_start_oids:
  "oid_bytes OID_SYS_UPTIME = Some [6, 8, 43, 6, 1, 2, 1, 1, 3, 0]"
  "oid_bytes OID_SNMP_TRAP_OID = Some [6, 10, 43, 6, 1, 6, 3, 1, 1, 4, 1, 0]"
  "oid_bytes OID_COLD_START = Some [6, 9, 43, 6, 1, 6, 3, 1, 1, 5, 1]"
  by code_simp+

lemma int_content_0: "length (int_content 0) = 1" "length (int_content 1) = 1"
  by code_simp+

lemma cold_start_packet:
  obtains pdu where
    "v2c_trap_packet community uptime OID_COLD_START [] = Some (message_bytes SNMP_VERSION_V2C (c_string community) pdu)"
    "length pdu = 52 + length (uns_content 4 uptime)"
proof -
  let ?k = "length (uns_content 4 uptime)"
  have k: "?k \<le> 5" using length_uns_content(2) [of 4 uptime] by simp
  let ?stamp = "ber_tlv_bytes SNMP_TAG_TIMETICKS (uns_content 4 uptime)"
  let ?v1 = "ber_tlv_bytes BER_TAG_SEQUENCE ([6, 8, 43, 6, 1, 2, 1, 1, 3, 0] @ ?stamp)"
  let ?v2 = "ber_tlv_bytes BER_TAG_SEQUENCE ([6, 10, 43, 6, 1, 6, 3, 1, 1, 4, 1, 0] @ [6, 9, 43, 6, 1, 6, 3, 1, 1, 5, 1])"
  let ?pdu = "ber_tlv_bytes SNMP_PDU_TRAP_V2 (int_bytes 0 @ int_bytes 0 @ int_bytes 0 @
      ber_tlv_bytes BER_TAG_SEQUENCE (?v1 @ ?v2))"
  have p: "pdu_bytes SNMP_PDU_TRAP_V2 0 0 0 (v2c_trap_varbinds uptime OID_COLD_START @ []) = Some ?pdu"
    by (simp add: pdu_bytes_def varbind_list_bytes_def varbind_bytes_def v2c_trap_varbinds_def value_bytes_def
        cold_start_oids in_front_def)
  have "length ?stamp = 2 + ?k" using k by (simp add: length_short_tlv)
  moreover from this have "length ?v1 = 14 + ?k" using k by (simp add: length_short_tlv)
  moreover have "length ?v2 = 25" by (simp add: length_short_tlv)
  moreover have "length (int_bytes 0) = 3" using int_content_0 by (simp add: length_short_tlv)
  ultimately have "length ?pdu = 52 + ?k" using k by (simp add: length_short_tlv)
  with p show thesis by (intro that [of ?pdu]) (simp_all add: v2c_trap_packet_def)
qed

text \<open>It fits into the 128 bytes of its buffer exactly when community and time stamp leave room.\<close>

lemma cold_start_fitting:
  "fitting 128 (v2c_trap_packet community uptime OID_COLD_START []) =
     (if length (c_string community) + length (uns_content 4 uptime) \<le> 69
      then the (v2c_trap_packet community uptime OID_COLD_START []) else [])"
proof -
  let ?c = "c_string community" and ?k = "length (uns_content 4 uptime)"
  obtain pdu where p: "v2c_trap_packet community uptime OID_COLD_START [] = Some (message_bytes SNMP_VERSION_V2C ?c pdu)"
    "length pdu = 52 + ?k" by (rule cold_start_packet)
  let ?content = "int_bytes (version_code SNMP_VERSION_V2C) @ ber_tlv_bytes BER_TAG_OCTET_STRING ?c @ pdu"
  have vsn: "length (int_bytes (version_code SNMP_VERSION_V2C)) = 3" using int_content_0 by (simp add: length_short_tlv)
  have m: "message_bytes SNMP_VERSION_V2C ?c pdu = ber_tlv_bytes BER_TAG_SEQUENCE ?content" by (simp add: message_bytes_def)
  show ?thesis
  proof (cases "length ?c + ?k \<le> 69")
    case True
    then have "length ?content = 57 + length ?c + ?k" using p(2) vsn by (simp add: length_short_tlv)
    with True show ?thesis by (simp add: p(1) m fitting_def length_short_tlv)
  next
    case False
    have "57 + length ?c + ?k \<le> length ?content" using p(2) vsn length_tlv_ge [of ?c] by simp
    with False length_tlv_ge [of ?content BER_TAG_SEQUENCE] show ?thesis by (simp add: p(1) m fitting_def)
  qed
qed

section \<open>The packets\<close>

text \<open>
  C24. What \<open>snmp_trap_build\<close> returns is, for both versions, exactly the notification message of the
  grammar, or nothing when that does not fit into the buffer or has no encoding.
\<close>

theorem snmp_trap_build_packet:
  assumes "0 \<in> set community" and "cap \<le> length out" and "length out < 2 ^ 32" and "length trap_oid \<le> BER_MAX_OID_LEN"
    and "length extra \<le> 48" and "\<forall>vb \<in> set extra. vb_ok vb" and "length addr = 4"
  shows "snmp_trap_build version community uptime trap_oid (Some addr) extra out cap = Some (fitting cap
    (if version = SNMP_VERSION_V2C then v2c_trap_packet community uptime trap_oid extra
     else v1_trap_packet community uptime trap_oid addr extra))"
  using assms by (simp add: snmp_trap_build_def build_v2c_trap_packet build_v1_trap_packet)

theorem snmp_trap_build_packet_witness:
  "snmp_trap_build SNMP_VERSION_V1 (c_lit ''public'' @ [0]) 700 OID_COLD_START (Some [10, 0, 0, 7])
     [trap_varbind OID_WESPE_TEMPERATURE 305] (replicate 128 0) 128 =
   Some (fitting 128 (v1_trap_packet (c_lit ''public'' @ [0]) 700 OID_COLD_START [10, 0, 0, 7]
     [trap_varbind OID_WESPE_TEMPERATURE 305]))"
  using snmp_trap_build_packet [of "c_lit ''public'' @ [0]" 128 "replicate 128 0" OID_COLD_START
      "[trap_varbind OID_WESPE_TEMPERATURE 305]" "[10, 0, 0, 7]" SNMP_VERSION_V1 700]
  by (simp add: OID_COLD_START_def trap_varbind_def vb_ok_def value_ok_def vb_zero_def OID_WESPE_TEMPERATURE_def)

section \<open>The boot announces itself\<close>

lemma send_trap_sends:
  assumes "s_trap_dest_valid tr" and "\<And>k. 0 \<le> n_socket (net_env tr) k"
  shows "\<exists>sock. net_sent (snd (snmp_transport_send_trap packet tr)) =
    net_sent tr @ [\<lparr>dg_socket = sock, dg_peer = s_trap_dest tr, dg_bytes = packet\<rparr>]"
  using assms(1) leD [OF assms(2)]
  by (auto simp: snmp_transport_send_trap_def Let_def socket_call_def sendto_call_def net_tick_def)

lemma length_cold_start: "length OID_COLD_START = 10"
  by (simp add: OID_COLD_START_def)

text \<open>
  C19. With a valid trap destination the boot sends one coldStart notification, to port 162 of it, if the
  configured community and the time stamp leave room in the buffer of 128 bytes: together at most 69 octets.
  With a longer community it boots without it.
\<close>

theorem app_main_announces_cold_start:
  assumes "config_ok cfg" and "length packet = 128" and "dev_ok d" and "\<And>k. n_task_create net k"
    and "\<And>k. 0 \<le> n_socket net k" and "c_string (CONFIG_WESPE_TRAP_DEST_IP cfg) \<noteq> []"
    and "n_inet_pton net (c_string (CONFIG_WESPE_TRAP_DEST_IP cfg)) = Some addr"
    and "uptime = ucast (fst (sysinfo_uptime_ms d) div 10)"
  shows "\<exists>s sock bytes. app_main_start cfg packet sec reg d (transport_start net) = Some (Boot_Running sec reg s) \<and>
    v2c_trap_packet (CONFIG_WESPE_SNMP_RO_COMMUNITY cfg) uptime OID_COLD_START [] = Some bytes \<and>
    net_sent (sys_tr s) =
      (if length (c_string (CONFIG_WESPE_SNMP_RO_COMMUNITY cfg)) + length (uns_content 4 uptime) \<le> 69
       then [\<lparr>dg_socket = sock, dg_peer = \<lparr>sin_addr = addr, sin_port = SNMP_TRAP_PORT\<rparr>, dg_bytes = bytes\<rparr>] else [])"
proof -
  let ?ro = "CONFIG_WESPE_SNMP_RO_COMMUNITY cfg" and ?dest = "CONFIG_WESPE_TRAP_DEST_IP cfg"
  let ?tr1 = "snd (snmp_transport_set_trap_destination ?dest (transport_start net))"
  let ?tr2 = "net_tick ?tr1"
  obtain ms0 d1 where ms: "sysinfo_uptime_ms d = (ms0, d1)" by fastforce
  then have up: "uptime = ucast (ms0 div 10)" using assms(8) by simp
  obtain pdu where p: "v2c_trap_packet ?ro uptime OID_COLD_START [] = Some (message_bytes SNMP_VERSION_V2C (c_string ?ro) pdu)"
    by (rule cold_start_packet)
  let ?bytes = "message_bytes SNMP_VERSION_V2C (c_string ?ro) pdu"
  let ?fits = "length (c_string ?ro) + length (uns_content 4 uptime) \<le> 69"
  have built: "snmp_trap_build SNMP_VERSION_V2C ?ro uptime OID_COLD_START None [] packet 128 =
      Some (if ?fits then ?bytes else [])"
    using assms(1,2) cold_start_fitting [of ?ro uptime]
    by (simp add: snmp_trap_build_def build_v2c_trap_packet config_ok_def length_cold_start p)
  have dest: "s_trap_dest_valid ?tr2" "s_trap_dest ?tr2 = \<lparr>sin_addr = addr, sin_port = SNMP_TRAP_PORT\<rparr>"
    "net_sent ?tr2 = []" "net_env ?tr2 = net"
    using assms(7) by (simp_all add: snmp_transport_set_trap_destination_def Let_def transport_start_def net_tick_def)
  have started: "snmp_transport_start ?tr1 = (0, ?tr2)"
    using assms(4) dest(4) by (simp add: snmp_transport_start_def task_create_call_def)
  let ?tr3 = "if ?fits then snd (snmp_transport_send_trap ?bytes ?tr2) else ?tr2"
  have mon: "trap_monitor_start tr = (Some monitor_start, net_tick tr)" if "net_env tr = net" for tr
    using assms(4) that by (simp add: trap_monitor_start_def task_create_call_def)
  obtain n where n: "c_strlen ?dest = Some n" "0 < n"
    using assms(1,6) by (auto simp: config_ok_def c_strlen_Some)
  have boot: "app_main_start cfg packet sec reg d (transport_start net) = Some (Boot_Running sec reg
      \<lparr>sys_dev = d1, sys_tr = net_tick ?tr3, sys_udp = Udp_Created, sys_monitor = Some monitor_start\<rparr>)"
    using ms dest(4) message_bytes_nonempty [of SNMP_VERSION_V2C "c_string ?ro" pdu]
    by (cases ?fits) (simp_all add: app_main_start_def Let_def n started built [unfolded up] mon up)
  obtain sock where sent: "net_sent (snd (snmp_transport_send_trap ?bytes ?tr2)) =
      [\<lparr>dg_socket = sock, dg_peer = \<lparr>sin_addr = addr, sin_port = SNMP_TRAP_PORT\<rparr>, dg_bytes = ?bytes\<rparr>]"
    using send_trap_sends [OF dest(1), of ?bytes] assms(5) dest by auto
  have "net_sent (net_tick ?tr3) =
      (if ?fits then [\<lparr>dg_socket = sock, dg_peer = \<lparr>sin_addr = addr, sin_port = SNMP_TRAP_PORT\<rparr>, dg_bytes = ?bytes\<rparr>] else [])"
    using sent dest(3) by (simp add: net_tick_def)
  with boot p show ?thesis by auto
qed

lemma sample_boot_network: "\<And>k. n_task_create sample_net k" "\<And>k. 0 \<le> n_socket sample_net k"
  "n_inet_pton sample_net x = Some [192, 168, 1, 10]"
  by (simp_all add: sample_net_def)

lemma sample_destination: "c_string (CONFIG_WESPE_TRAP_DEST_IP sample_config) \<noteq> []"
  unfolding sample_config_def by code_simp

theorem app_main_announces_cold_start_witness:
  "\<exists>s sock bytes. app_main_start sample_config (replicate 128 0) security_start registry_empty sample_device
      (transport_start sample_net) = Some (Boot_Running security_start registry_empty s) \<and>
    v2c_trap_packet (CONFIG_WESPE_SNMP_RO_COMMUNITY sample_config)
      (ucast (fst (sysinfo_uptime_ms sample_device) div 10)) OID_COLD_START [] = Some bytes \<and>
    net_sent (sys_tr s) =
      (if length (c_string (CONFIG_WESPE_SNMP_RO_COMMUNITY sample_config)) +
          length (uns_content 4 (ucast (fst (sysinfo_uptime_ms sample_device) div 10) :: u32)) \<le> 69
       then [\<lparr>dg_socket = sock, dg_peer = \<lparr>sin_addr = [192, 168, 1, 10], sin_port = SNMP_TRAP_PORT\<rparr>, dg_bytes = bytes\<rparr>]
       else [])"
  by (rule app_main_announces_cold_start [OF sample_config_ok _ sample_device_ok sample_boot_network(1,2)
      sample_destination sample_boot_network(3)]) simp_all

end
