(* ===== verification/Agent_Protocol.thy ===== *)
theory Agent_Protocol
  imports Agent_Samples
begin

text \<open>
  What the agent answers, from the datagram that arrives to the datagram that is sent.
\<close>

section \<open>Datagram to datagram\<close>

lemma agent_lookup_model:
  "version \<noteq> SNMP_VERSION_V3 \<Longrightarrow> snmp_security_lookup (agent_security cfg) (version_code version) = Some s_community_model"
  by (cases version) (simp_all add: security_lookup_map agent_security_def)

lemma agent_communities_ok: "communities_ok (s_communities (agent_security cfg))"
  using agent_security_ok by (simp add: security_ok_def)

text \<open>A well-formed request with a known community: dispatched, and answered as far as the answer fits.\<close>

lemma agent_processes_request:
  assumes vbs: "\<forall>vb \<in> set vbs. wire_ok vb" "length vbs \<le> SNMP_MAX_VARBINDS"
    and "tag \<in> request_tags" and "pdu_bytes tag rid es ei vbs = Some pdu"
    and "holds_at msg 0 (message_bytes version community pdu)" and "length msg < 2 ^ 32"
    and "version \<noteq> SNMP_VERSION_V3" and community: "length community < SNMP_MAX_PRINCIPAL_LEN"
    and known: "access_of (s_communities (agent_security cfg)) community = mode" "mode \<noteq> SNMP_ACCESS_NONE"
    and cap: "0 < out_cap" "out_cap \<le> length out" "length out < 2 ^ 32"
    and disp: "snmp_dispatch_pdu agent_registry (request_ctx version community mode tag rid es ei vbs) d =
      Some ((BER_OK, ctx'), d')" and ok: "ctx_ok ctx'"
  shows "snmp_message_process agent_registry (agent_security cfg) msg (length (message_bytes version community pdu))
    out out_cap d = Some (fitting out_cap (response_bytes ctx'), d')"
proof -
  have "message_accept (agent_security cfg) msg (length (message_bytes version community pdu)) =
      Some (Inr (s_community_model, request_ctx version community mode tag rid es ei vbs))"
    using message_accept_bytes [OF assms(1-8) agent_communities_ok agent_lookup_model [OF assms(7)]] known by simp
  moreover have "0 < length (message_bytes version community pdu)" by (rule message_bytes_nonempty)
  ultimately show ?thesis
    using community_outgoing_fitting [OF ok cap(2,3)] disp cap(1)
    by (simp add: snmp_message_process_def s_community_model_def split: option.splits sum.splits)
qed

text \<open>
  C1. The agent end to end, for GetRequest and GetNextRequest over a settled set of sensors: a well-formed
  request with a known community is answered by the response grammar of exactly the context that the set of
  instances prescribes, errors included. For v2c every varbind is answered in order with what the getter of the
  instance asked for (of the successor of the name asked for) delivers, or with the exception that there is
  none, \<open>noSuchInstance\<close> under a column of a table and \<open>noSuchObject\<close> elsewhere, \<open>endOfMibView\<close> behind the last
  instance; an error is reported only for a getter that fails, as \<open>genErr\<close> with the position of its varbind.
  For v1 the same over the instances that are not Counter64, where the first varbind without an instance is
  reported as \<open>noSuchName\<close> with its position. A getter fails only for a temperature without a reading, the
  signal strength of a station that is not associated, or a MAC address that the driver does not have, at the
  very moment of the read. Only a response that does not fit stays unsent.
\<close>

theorem agent_answers_reads:
  assumes "\<forall>vb \<in> set vbs. wire_ok vb" and "length vbs \<le> SNMP_MAX_VARBINDS"
    and "tag = (case mode of LOOKUP_EXACT \<Rightarrow> SNMP_PDU_GET_REQUEST | LOOKUP_NEXT \<Rightarrow> SNMP_PDU_GET_NEXT_REQUEST)"
    and "pdu_bytes tag rid es ei vbs = Some pdu" and "holds_at msg 0 (message_bytes version community pdu)"
    and "length msg < 2 ^ 32" and "version \<noteq> SNMP_VERSION_V3" and "length community < SNMP_MAX_PRINCIPAL_LEN"
    and "access = access_of (s_communities (agent_security cfg)) community" and "access \<noteq> SNMP_ACCESS_NONE"
    and "0 < out_cap" and "out_cap \<le> length out" and "length out < 2 ^ 32" and "agent_settled d0 d"
  shows "\<exists>ctx d'. snmp_message_process agent_registry (agent_security cfg) msg
      (length (message_bytes version community pdu)) out out_cap d = Some (fitting out_cap (response_bytes ctx), d') \<and>
    agent_settled d0 d' \<and>
    read_response agent_registry (agent_view d0) instance_fails mode
      (request_ctx version community access tag rid es ei vbs) d ctx d'"
proof -
  let ?req = "request_ctx version community access tag rid es ei vbs"
  have req: "ctx_ok ?req" by (rule request_ctx_ok [OF assms(1,2,8)])
  from agent_fixed.process_read_settled [OF assms(14) req, of mode]
  obtain ctx d' where run: "process_read_pdu agent_registry ?req mode d = Some ((BER_OK, ctx), d')" "agent_settled d0 d'"
    "read_response agent_registry (agent_view d0) instance_fails mode ?req d ctx d'" by blast
  have disp: "snmp_dispatch_pdu agent_registry ?req d = Some ((BER_OK, ctx), d')"
    using run(1) assms(3)
    by (cases mode) (simp_all add: snmp_dispatch_pdu_def snmp_pdu_handle_get_def snmp_pdu_handle_getnext_def)
  have tag: "tag \<in> request_tags" using assms(3) by (cases mode) simp_all
  from agent_fixed.dispatch_reads [OF assms(14) req] tag disp assms(3) have "ctx_ok ctx" by (cases mode; fastforce)+
  from agent_processes_request [OF assms(1,2) tag assms(4-8) assms(9) [symmetric] assms(10-13) disp this] run(2,3)
  show ?thesis by blast
qed

lemma next_least_extension:
  fixes q :: oid
  shows "q < x \<Longrightarrow> x \<le> q @ [0] \<Longrightarrow> x = q @ [0]"
proof (induction q arbitrary: x)
  case Nil
  then show ?case by (cases x) auto
next
  case (Cons a q)
  then show ?case by (cases x) auto
qed

text \<open>
  At the sample request, the successor of the name of the column \<open>sysName\<close>: the name the device has, without an
  error.
\<close>

lemma sample_response:
  assumes "read_response agent_registry (agent_view sample_device) instance_fails LOOKUP_NEXT
    (request_ctx SNMP_VERSION_V2C community access SNMP_PDU_GET_NEXT_REQUEST 1 0 0 sample_varbinds) sample_device ctx d'"
  shows "ctx_error_status ctx = 0 \<and> vb_oid (ctx_varbinds ctx ! 0) = OID_SYS_NAME"
proof -
  let ?q = "[1, 3, 6, 1, 2, 1, 1, 5] :: oid"
  let ?req = "request_ctx SNMP_VERSION_V2C community access SNMP_PDU_GET_NEXT_REQUEST 1 0 0 sample_varbinds"
  have live: "live_varbinds ?req = [null_varbind ?q]" "ctx_version ?req = SNMP_VERSION_V2C"
    by (simp_all add: live_varbinds_def request_ctx_def sample_varbinds_def)
  from assms obtain as where as:
    "reads agent_registry (agent_view sample_device) instance_fails LOOKUP_NEXT is_failed (\<lambda>q. vb_zero) [null_varbind ?q] sample_device as d'"
    "ctx = (let vbs = map2 (v2c_varbind agent_registry LOOKUP_NEXT) [null_varbind ?q] as in
      case v2c_error 0 as of None \<Rightarrow> respond ?req vbs 0 0 | Some (status, index) \<Rightarrow> respond ?req vbs status index)"
    unfolding read_response_def v2c_response_def live by auto
  from as(1) obtain a where one: "as = [a]"
    and a: "reads_one agent_registry (agent_view sample_device) instance_fails LOOKUP_NEXT ?q vb_zero sample_device a d'"
    by (rule reads_single) (auto simp: null_varbind_def)
  have mem: "OID_SYS_NAME \<in> agent_view sample_device"
    by (simp add: agent_view_def mib_view_def agent_registry_def s_mib_ii_objects_def)
  have next_name: "x = OID_SYS_NAME" if "is_next ?q (agent_view sample_device) (Some x)" for x
    using that mem next_least_extension [of ?q x] by (auto simp: is_next_def dest!: bspec [OF _ mem])
  from a show ?thesis
  proof cases
    case read_missing
    with mem show ?thesis by (auto simp: is_next_def)
  next
    case (read_fetched out vb)
    with next_name as(2) one show ?thesis by (simp add: v2c_error_def v2c_varbind_def respond_def)
  next
    case (read_failed out)
    then have "instance_fails sample_device (rs_oid out)" by simp
    with healthy_reads [OF sample_env_ok(2)] show ?thesis by simp
  qed
qed

theorem agent_answers_reads_witness:
  "\<exists>ctx d'. snmp_message_process agent_registry (agent_security sample_config) sample_request (length sample_request)
      (replicate 1472 0) 1472 sample_device = Some (fitting 1472 (response_bytes ctx), d') \<and>
    agent_settled sample_device d' \<and>
    read_response agent_registry (agent_view sample_device) instance_fails LOOKUP_NEXT
      (request_ctx SNMP_VERSION_V2C (c_lit ''public'') SNMP_ACCESS_READ SNMP_PDU_GET_NEXT_REQUEST 1 0 0 sample_varbinds)
      sample_device ctx d' \<and>
    ctx_error_status ctx = 0 \<and> vb_oid (ctx_varbinds ctx ! 0) = OID_SYS_NAME"
proof -
  have "\<exists>ctx d'. snmp_message_process agent_registry (agent_security sample_config) sample_request
      (length (message_bytes SNMP_VERSION_V2C (c_lit ''public'') sample_pdu)) (replicate 1472 0) 1472 sample_device =
        Some (fitting 1472 (response_bytes ctx), d') \<and> agent_settled sample_device d' \<and>
      read_response agent_registry (agent_view sample_device) instance_fails LOOKUP_NEXT
        (request_ctx SNMP_VERSION_V2C (c_lit ''public'') SNMP_ACCESS_READ SNMP_PDU_GET_NEXT_REQUEST 1 0 0 sample_varbinds)
        sample_device ctx d'"
    by (rule agent_answers_reads [OF sample_varbinds_ok(1) _ _ sample_pdu_bytes])
      (simp_all add: sample_varbinds_ok sample_request_length sample_access sample_settled,
       simp_all add: sample_request_def holds_at_whole c_lit_def)
  then show ?thesis using sample_response unfolding sample_request_def by blast
qed

section \<open>Walking\<close>

text \<open>
  C2. A walk ends and misses nothing: in an agent whose getters succeed, GetNextRequests that each continue
  from the name just received return every instance behind the starting point exactly once, in ascending
  order, and then the end of the view; one request more than there are instances is enough.
\<close>

theorem agent_walk_complete:
  assumes "agent_healthy d0 d" and "length q \<le> BER_MAX_OID_LEN" and "card {x \<in> agent_view d0. q < x} < n"
  shows "\<exists>d'. snmpwalk agent_registry n q d = Some (sorted_list_of_set {x \<in> agent_view d0. q < x}, d') \<and> agent_healthy d0 d'"
  using assms snmpwalk_later [of d0 d q n] by simp

theorem agent_walk_complete_witness:
  "\<exists>d'. snmpwalk agent_registry 43 [1, 3] sample_device = Some (sorted_list_of_set {x \<in> agent_view sample_device. [1, 3] < x}, d') \<and>
     agent_healthy sample_device d'"
proof (rule agent_walk_complete [OF sample_healthy])
  have "card {x \<in> agent_view sample_device. [1, 3] < x} \<le> card (agent_view sample_device)"
    by (rule card_mono [OF finite_agent_view]) auto
  with agent_view_small [of sample_device] show "card {x \<in> agent_view sample_device. [1, 3] < x} < 43" by simp
qed simp

text \<open>
  C13. One GetBulkRequest for a column returns the next instances: as many as the view has behind the name
  asked for, but at most max-repetitions and at most 50, and if that is fewer than both, a last varbind that
  says so.
\<close>

theorem agent_getbulk_next_instances:
  assumes "agent_healthy d0 d" and "length q \<le> BER_MAX_OID_LEN" and "0 \<le>s m"
  shows "\<exists>ctx d'. snmp_pdu_handle_getbulk agent_registry (walk_request SNMP_PDU_GET_BULK_REQUEST 0 m q) d =
      Some ((BER_OK, ctx), d') \<and> agent_healthy d0 d' \<and> ctx_error_status ctx = 0 \<and>
      bulk_column (agent_view d0) (min (unat m) SNMP_MAX_VARBINDS) q (live_varbinds ctx)"
  by (rule getbulk_column [OF assms])

theorem agent_getbulk_next_instances_witness:
  "\<exists>ctx d'. snmp_pdu_handle_getbulk agent_registry (walk_request SNMP_PDU_GET_BULK_REQUEST 0 10 [1, 3]) sample_device =
      Some ((BER_OK, ctx), d') \<and> agent_healthy sample_device d' \<and> ctx_error_status ctx = 0 \<and>
      bulk_column (agent_view sample_device) (min (unat (10 :: i32)) SNMP_MAX_VARBINDS) [1, 3] (live_varbinds ctx)"
  by (rule agent_getbulk_next_instances [OF sample_healthy]) (simp_all add: word_sle_eq)

text \<open>
  Every datagram is processed, well-formed or not: the call is defined, returns, keeps the device in
  its invariant, and never produces more bytes than the output buffer has.
\<close>

lemma agent_processes_every_datagram:
  assumes "security_ok sec" and "in_len \<le> length msg" and "out_cap \<le> length out" and "length out < 2 ^ 32" and "dev_ok d"
  shows "\<exists>r d'. snmp_message_process agent_registry sec msg in_len out out_cap d = Some (r, d') \<and> dev_ok d' \<and> length r \<le> out_cap"
  by (rule agent.message_total [OF assms])

lemma agent_processes_every_datagram_witness:
  "\<exists>r d'. snmp_message_process agent_registry (agent_security sample_config) [0x30, 0x84, 0xFF, 0xFF, 0xFF, 0xFF] 6 [0, 0] 2
     sample_device = Some (r, d') \<and> dev_ok d' \<and> length r \<le> 2"
  by (rule agent_processes_every_datagram [OF agent_security_ok]) (simp_all add: sample_device_ok)

end
