(* ===== verification/Protocol_Properties.thy ===== *)
theory Protocol_Properties
  imports Agent_Protocol
begin

text \<open>
  The properties of the message layer: who may do what, the table of the security models, and the codec of
  the PDUs.
\<close>

section \<open>Access\<close>

text \<open>
  C14. The access a message gets is decided by the C string that its community starts with: read-write for
  the first 31 characters of the configured read-write community, otherwise read for those of the read-only
  one, otherwise the message is refused. So a NUL in the message ends the comparison, and of a longer
  configured community only a prefix counts.
\<close>

theorem agent_community_access:
  assumes "\<forall>vb \<in> set vbs. wire_ok vb" and "length vbs \<le> SNMP_MAX_VARBINDS" and "tag \<in> request_tags"
    and "pdu_bytes tag rid es ei vbs = Some pdu" and "holds_at msg 0 (message_bytes version community pdu)"
    and "length msg < 2 ^ 32" and "version \<noteq> SNMP_VERSION_V3" and "length community < SNMP_MAX_PRINCIPAL_LEN"
    and "given = c_string (community @ [0])"
  shows "message_accept (agent_security cfg) msg (length (message_bytes version community pdu)) = Some
    (if given = take 31 (c_string (CONFIG_WESPE_SNMP_RW_COMMUNITY cfg)) then
       Inr (s_community_model, request_ctx version community SNMP_ACCESS_READWRITE tag rid es ei vbs)
     else if given = take 31 (c_string (CONFIG_WESPE_SNMP_RO_COMMUNITY cfg)) then
       Inr (s_community_model, request_ctx version community SNMP_ACCESS_READ tag rid es ei vbs)
     else Inl BER_ERR_BAD_ARGS)"
proof -
  have "access_of (s_communities (agent_security cfg)) community =
      (if given = take 31 (c_string (CONFIG_WESPE_SNMP_RW_COMMUNITY cfg)) then SNMP_ACCESS_READWRITE
       else if given = take 31 (c_string (CONFIG_WESPE_SNMP_RO_COMMUNITY cfg)) then SNMP_ACCESS_READ
       else SNMP_ACCESS_NONE)"
    by (simp add: access_of_def assms(9) agent_security_def c_string_stored)
  with message_accept_bytes [OF assms(1-8) agent_communities_ok agent_lookup_model [OF assms(7)]] show ?thesis by simp
qed

text \<open>The community of the sample configuration with a NUL and more behind it.\<close>

theorem agent_community_access_witness:
  "message_accept (agent_security sample_config) (message_bytes SNMP_VERSION_V2C (c_lit ''private'' @ [0, 120]) sample_pdu)
     (length (message_bytes SNMP_VERSION_V2C (c_lit ''private'' @ [0, 120]) sample_pdu)) =
   Some (Inr (s_community_model, request_ctx SNMP_VERSION_V2C (c_lit ''private'' @ [0, 120]) SNMP_ACCESS_READWRITE
     SNMP_PDU_GET_NEXT_REQUEST 1 0 0 sample_varbinds))"
proof -
  have len: "length (message_bytes SNMP_VERSION_V2C (c_lit ''private'' @ [0, 120]) sample_pdu) = 42"
    unfolding sample_pdu_def by code_simp
  have given: "c_string ((c_lit ''private'' @ [0, 120]) @ [0]) = take 31 (c_string (CONFIG_WESPE_SNMP_RW_COMMUNITY sample_config))"
    unfolding sample_config_def by code_simp
  show ?thesis
    using agent_community_access [OF sample_varbinds_ok(1) _ _ sample_pdu_bytes holds_at_whole _ _ _ refl,
        of SNMP_VERSION_V2C "c_lit ''private'' @ [0, 120]" sample_config] len given
    by (simp add: sample_varbinds_ok c_lit_def)
qed

text \<open>
  The table of the security models is a map of at most four versions: a registration updates it at its
  version, and only that, or is refused for lack of a slot and changes nothing; a lookup reads it.
\<close>

lemma snmp_security_register_updates:
  assumes "snmp_security_register v m sec = (st, sec')"
  shows "(if st = BER_OK then snmp_security_lookup sec' = (snmp_security_lookup sec)(v \<mapsto> m)
      else st = BER_ERR_OVERFLOW \<and> sec' = sec \<and> snmp_security_lookup sec v = None \<and>
        SNMP_SECURITY_MAX_MODELS \<le> length (s_slots sec)) \<and>
    s_communities sec' = s_communities sec"
  by (rule security_register_lookup [OF assms])

lemma snmp_security_register_updates_witness:
  "snmp_security_lookup (snd (snmp_security_register 7 s_usm_stub_model security_start)) =
     (snmp_security_lookup security_start)(7 \<mapsto> s_usm_stub_model)"
  using snmp_security_register_updates [of 7 s_usm_stub_model security_start BER_OK
      "snd (snmp_security_register 7 s_usm_stub_model security_start)"]
  by (simp add: snmp_security_register_def security_start_def)

section \<open>The codec\<close>

text \<open>
  C22. A PDU that was encoded decodes to what it was: for every list of at most 50 varbinds with valid
  names and values, the encoder succeeds when there is room, and the decoder recovers tag, request id, both
  error fields and every varbind from the bytes it wrote.
\<close>

theorem snmp_pdu_roundtrip:
  assumes "\<forall>vb \<in> set vbs. wire_ok vb" and "length vbs \<le> SNMP_MAX_VARBINDS" and "tag \<in> request_tags"
    and "pdu_bytes tag rid es ei vbs = Some bs" and "enc_ok s" and "length bs \<le> ecursor s"
    and "length (ctx_varbinds ctx) = SNMP_MAX_VARBINDS" and "\<forall>vb \<in> set (ctx_varbinds ctx). vb_value vb = UZero"
    and "depth + 3 \<le> BER_MAX_NEST_DEPTH"
  shows "\<exists>s'. snmp_encode_response_shaped_pdu tag rid es ei vbs (length vbs) s = Some (BER_OK, s') \<and>
    snmp_decode_request_pdu (ebuf s') (ecursor s') (ecursor s - ecursor s') depth ctx =
      Some (Inr (ctx\<lparr>ctx_pdu_tag := tag, ctx_request_id := rid, ctx_error_status := es, ctx_error_index := ei,
        ctx_varbinds := vbs @ drop (length vbs) (ctx_varbinds ctx), ctx_varbind_count := length vbs\<rparr>))"
proof -
  have "emits (snmp_encode_response_shaped_pdu tag rid es ei vbs (length vbs)) (Some bs)"
    using emits_response_pdu [of "length vbs" vbs tag rid es ei] assms(1,4) wire_ok_vb_ok by simp
  from emits_put [OF this assms(5,6)]
  have run: "snmp_encode_response_shaped_pdu tag rid es ei vbs (length vbs) s = Some (BER_OK, put bs s)" .
  have tag: "tag \<in> {SNMP_PDU_GET_REQUEST, SNMP_PDU_GET_NEXT_REQUEST, SNMP_PDU_SET_REQUEST, SNMP_PDU_GET_BULK_REQUEST}"
    using assms(3) by auto
  have "length bs \<le> ecursor s - ecursor (put bs s)" "length (ebuf (put bs s)) < 2 ^ 32"
    using assms(5,6) by (auto simp: put_def enc_ok_def)
  from snmp_decode_request_pdu_bytes [OF assms(1,2) tag assms(4) put_holds_at [OF assms(5,6)] this assms(7-9)] run
  show ?thesis by blast
qed

theorem snmp_pdu_roundtrip_witness:
  "\<exists>s'. snmp_encode_response_shaped_pdu SNMP_PDU_GET_NEXT_REQUEST 1 0 0 sample_varbinds (length sample_varbinds)
      \<lparr>ebuf = replicate 64 0, ecursor = 64\<rparr> = Some (BER_OK, s') \<and>
    snmp_decode_request_pdu (ebuf s') (ecursor s') (64 - ecursor s') 0 ctx_zero =
      Some (Inr (ctx_zero\<lparr>ctx_pdu_tag := SNMP_PDU_GET_NEXT_REQUEST, ctx_request_id := 1, ctx_error_status := 0,
        ctx_error_index := 0, ctx_varbinds := sample_varbinds @ drop (length sample_varbinds) (ctx_varbinds ctx_zero),
        ctx_varbind_count := length sample_varbinds\<rparr>))"
  using snmp_pdu_roundtrip [OF sample_varbinds_ok(1) _ _ sample_pdu_bytes, of "\<lparr>ebuf = replicate 64 0, ecursor = 64\<rparr>" ctx_zero 0]
  by (simp add: sample_varbinds_ok enc_ok_def sample_pdu_def ctx_zero_def vb_zero_def)

end
