(* ===== verification/Agent_Set.thy ===== *)
theory Agent_Set
  imports Agent_Samples
begin

text \<open>
  SetRequest on the registry of the agent: what it refuses, what it changes, and that a later GetRequest
  reads back what was set.
\<close>

section \<open>Which instances may be set\<close>

text \<open>The type of a settable instance, by its name.\<close>

definition settable :: "oid \<Rightarrow> u8 option" where
  "settable x =
     (if x \<in> {OID_SYS_CONTACT, OID_SYS_NAME, OID_SYS_LOCATION}
      then Some BER_TAG_OCTET_STRING
      else if x = OID_WESPE_RELAY_STATE then Some BER_TAG_INTEGER
      else if length x = 12 \<and> take 11 x = [1, 3, 6, 1, 4, 1, 99999, 2, 6, 1, COL_LABEL] then Some BER_TAG_OCTET_STRING
      else None)"

text \<open>The error status with which a varbind is refused before anything is set, 0 for none.\<close>

definition set_fault :: "device \<Rightarrow> snmp_varbind \<Rightarrow> i32" where
  "set_fault d vb =
     (if vb_oid vb \<notin> agent_view d then SNMP_V1_ERR_NO_SUCH_NAME
      else case settable (vb_oid vb) of
          None \<Rightarrow> SNMP_V1_ERR_READ_ONLY
        | Some tag \<Rightarrow> if vb_tag vb \<noteq> tag then SNMP_V1_ERR_BAD_VALUE else SNMP_V1_ERR_NO_ERROR)"

lemma scalar_settable:
  assumes "obj \<in> scalars agent_registry"
  shows "settable (mo_oid obj) = (if mo_access obj = MIB_ACCESS_RW then Some (mo_value_tag obj) else None)"
  using assms unfolding agent_scalars
  by (auto simp: s_mib_ii_objects_def s_mib_wespe_objects_def s_iftable_scalars_def settable_def OID_WESPE_RELAY_STATE_def)

lemma settable_cell:
  assumes "9 \<le> length e"
  shows "settable (e @ [c, i]) =
    (if e = [1, 3, 6, 1, 4, 1, 99999, 2, 6, 1] \<and> c = COL_LABEL then Some BER_TAG_OCTET_STRING else None)"
proof -
  have "e @ [c, i] \<noteq> xs" if "length xs \<le> 10" for xs
  proof
    assume "e @ [c, i] = xs"
    then have "length xs = length e + 2" by auto
    with that assms show False by simp
  qed
  then have no: "e @ [c, i] \<notin> {OID_SYS_CONTACT, OID_SYS_NAME, OID_SYS_LOCATION}"
    "e @ [c, i] \<noteq> OID_WESPE_RELAY_STATE" by (simp_all add: OID_WESPE_RELAY_STATE_def)
  have "length (e @ [c, i]) = 12 \<and> take 11 (e @ [c, i]) = [1, 3, 6, 1, 4, 1, 99999, 2, 6, 1, COL_LABEL] \<longleftrightarrow>
      e = [1, 3, 6, 1, 4, 1, 99999, 2, 6, 1] \<and> c = COL_LABEL"
  proof
    assume l: "length (e @ [c, i]) = 12 \<and> take 11 (e @ [c, i]) = [1, 3, 6, 1, 4, 1, 99999, 2, 6, 1, COL_LABEL]"
    then have "length e = 10" by simp
    then have "take 11 (e @ [c, i]) = e @ [c]" by simp
    with l have "e @ [c] = [1, 3, 6, 1, 4, 1, 99999, 2, 6, 1] @ [COL_LABEL]" by (metis append_Cons append_Nil)
    then show "e = [1, 3, 6, 1, 4, 1, 99999, 2, 6, 1] \<and> c = COL_LABEL" by (simp only: append1_eq_conv)
  qed simp
  with no show ?thesis unfolding settable_def by (simp only: if_False simp_thms)
qed

lemma cell_settable:
  assumes "t \<in> {s_iftable, s_ifxtable, s_sensor_table}" and "col \<in> set (mt_columns t)"
  shows "settable (cell_oid t (col_number col) i) = (if col_access col = MIB_ACCESS_RW then Some (col_value_tag col) else None)"
proof -
  note cell = settable_cell [of "mt_entry_oid t" "col_number col" i, folded cell_oid_def]
  from assms(1) consider "t = s_iftable" | "t = s_ifxtable" | "t = s_sensor_table" by blast
  then show ?thesis
  proof cases
    case 1
    then have "mt_entry_oid t = [1, 3, 6, 1, 2, 1, 2, 2, 1]" "col_access col = MIB_ACCESS_RO"
      using assms(2) by (auto simp: s_iftable_def)
    with cell show ?thesis by simp
  next
    case 2
    then have "mt_entry_oid t = [1, 3, 6, 1, 2, 1, 31, 1, 1, 1]" "col_access col = MIB_ACCESS_RO"
      using assms(2) by (auto simp: s_ifxtable_def)
    with cell show ?thesis by simp
  next
    case 3
    then have "mt_entry_oid t = [1, 3, 6, 1, 4, 1, 99999, 2, 6, 1]"
      "col_access col = MIB_ACCESS_RW \<longleftrightarrow> col_number col = COL_LABEL"
      "col_access col = MIB_ACCESS_RW \<longrightarrow> col_value_tag col = BER_TAG_OCTET_STRING"
      using assms(2) by (auto simp: s_sensor_table_def)
    with cell show ?thesis by simp
  qed
qed

lemma resolved_settable:
  assumes "resolved_from agent_registry out"
  shows "settable (rs_oid out) = (if rs_access out = MIB_ACCESS_RW then Some (rs_value_tag out) else None)"
  using assms
proof (cases rule: agent_resolved_cases)
  case (object obj)
  with scalar_settable [OF object(1)] show ?thesis by (simp add: scalar_at_def)
next
  case (cell t col i)
  with cell_settable [OF cell(1,2), of i] show ?thesis by (simp add: cell_at_def)
qed

section \<open>The refusal\<close>

lemma agent_resolve:
  assumes "agent_settled d0 d"
  obtains (none) e where "mib_registry_resolve agent_registry x d = Some (Inl e, d)" "x \<notin> agent_view d0"
      "e = MIB_NO_SUCH_INSTANCE \<or> e = MIB_NO_SUCH_OBJECT"
    | (some) out where "mib_registry_resolve agent_registry x d = Some (Inr out, d)" "x \<in> agent_view d0"
      "rs_oid out = x" "resolved_from agent_registry out"
proof -
  have view: "agent_view d = agent_view d0" by (rule agent_view_settled [OF assms])
  have "registry_rows (agent_settled d0) agent_rows agent_registry" by (rule agent_fixed.settled)
  from resolve_rows [OF this assms, of x] obtain r where
    r: "mib_registry_resolve agent_registry x d = Some (r, d)"
      "case r of Inl e \<Rightarrow> x \<notin> agent_view d \<and> (e = MIB_NO_SUCH_INSTANCE \<or> e = MIB_NO_SUCH_OBJECT)
       | Inr out \<Rightarrow> rs_oid out = x \<and> x \<in> agent_view d"
    unfolding agent_view_def [symmetric] by (fastforce split: sum.splits if_splits)
  show thesis
  proof (cases r)
    case (Inl e)
    with r show ?thesis by (intro none [of e]) (auto simp: view)
  next
    case (Inr out)
    from resolve_total [OF agent.walks, of d x] r(1) assms Inr
    have "resolved_from agent_registry out" by (auto simp: agent_settled_def)
    with r Inr show ?thesis by (intro some) (simp_all add: view)
  qed
qed

lemma set_resolve:
  assumes "agent_settled d0 d"
  shows "\<exists>r. mib_registry_resolve agent_registry (vb_oid vb) d = Some (r, d) \<and>
    v1_error_status (snmp_error_translate SNMP_VERSION_V1 (case r of
       Inl e \<Rightarrow> e
     | Inr out \<Rightarrow> if rs_access out \<noteq> MIB_ACCESS_RW then MIB_NOT_WRITABLE
         else if vb_tag vb \<noteq> rs_value_tag out then MIB_WRONG_TYPE else MIB_OK)) = set_fault d0 vb"
  using assms
proof (cases rule: agent_resolve [where x = "vb_oid vb"])
  case (none e)
  then show ?thesis by (auto simp: set_fault_def snmp_error_translate_def Let_def)
next
  case (some out)
  with resolved_settable [OF some(4)] show ?thesis by (auto simp: set_fault_def snmp_error_translate_def Let_def)
qed

text \<open>The first varbind with a fault: its error status and its index, counted from \<open>i\<close>.\<close>

fun first_fault :: "(snmp_varbind \<Rightarrow> i32) \<Rightarrow> nat \<Rightarrow> snmp_varbind list \<Rightarrow> (i32 \<times> nat) option" where
  "first_fault fault i [] = None"
| "first_fault fault i (vb # vbs) =
     (if fault vb \<noteq> SNMP_V1_ERR_NO_ERROR then Some (fault vb, i) else first_fault fault (i + 1) vbs)"

lemma first_fault_none:
  "first_fault fault i vbs = None \<longleftrightarrow> (\<forall>vb \<in> set vbs. fault vb = SNMP_V1_ERR_NO_ERROR)"
  by (induction vbs arbitrary: i) auto

lemma first_fault_at:
  "k < length vbs \<Longrightarrow> fault (vbs ! k) \<noteq> SNMP_V1_ERR_NO_ERROR \<Longrightarrow> \<forall>j < k. fault (vbs ! j) = SNMP_V1_ERR_NO_ERROR \<Longrightarrow>
   first_fault fault i vbs = Some (fault (vbs ! k), i + k)"
proof (induction vbs arbitrary: i k)
  case (Cons vb vbs)
  show ?case
  proof (cases k)
    case 0
    with Cons.prems show ?thesis by simp
  next
    case (Suc j)
    have "fault ((vb # vbs) ! m) = SNMP_V1_ERR_NO_ERROR" if "m < Suc j" for m using Cons.prems(3) Suc that by blast
    from this [of 0] this [of "Suc m" for m] Cons.prems(1,2) Cons.IH [of j "i + 1"] Suc show ?thesis by simp
  qed
qed simp

text \<open>The validation pass finds the first fault and leaves the device alone.\<close>

lemma set_validate_faults:
  assumes "agent_settled d0 d" and "i + n \<le> length vbs"
  shows "\<exists>f. set_validate agent_registry vbs n i d = Some (f, d) \<and>
    map_option (\<lambda>(res, k). (v1_error_status (snmp_error_translate SNMP_VERSION_V1 res), k)) f =
      first_fault (set_fault d0) i (take n (drop i vbs))"
  using assms(2)
proof (induction n arbitrary: i)
  case (Suc n)
  then have i: "i < length vbs" by simp
  have list: "take (Suc n) (drop i vbs) = vbs ! i # take n (drop (i + 1) vbs)"
    using i by (simp add: Cons_nth_drop_Suc [symmetric])
  from set_resolve [OF assms(1), of "vbs ! i"] obtain r where
    r: "mib_registry_resolve agent_registry (vb_oid (vbs ! i)) d = Some (r, d)" and
    st: "v1_error_status (snmp_error_translate SNMP_VERSION_V1 (case r of
       Inl e \<Rightarrow> e
     | Inr out \<Rightarrow> if rs_access out \<noteq> MIB_ACCESS_RW then MIB_NOT_WRITABLE
         else if vb_tag (vbs ! i) \<noteq> rs_value_tag out then MIB_WRONG_TYPE else MIB_OK)) = set_fault d0 (vbs ! i)"
      (is "v1_error_status (snmp_error_translate SNMP_VERSION_V1 ?res) = _") by blast
  show ?case
  proof (cases "?res = MIB_OK")
    case False
    then have "set_fault d0 (vbs ! i) \<noteq> SNMP_V1_ERR_NO_ERROR"
      using translate_abort_status translate_v1_abort unfolding st [symmetric] by blast
    moreover have "set_validate agent_registry vbs (Suc n) i d = Some (Some (?res, i), d)"
      using r i False by simp
    ultimately show ?thesis using st by (simp add: list)
  next
    case True
    with st have "set_fault d0 (vbs ! i) = SNMP_V1_ERR_NO_ERROR" by simp
    with Suc.IH [of "i + 1"] Suc.prems r i True show ?thesis by (simp add: list)
  qed
qed simp

text \<open>
  C12. A SetRequest that the agent cannot carry out is refused as a whole: with the settled device, the
  first varbind whose instance does not exist, may not be set, or has another type decides the error status
  and the error index of the response, the varbinds are echoed, and the device is untouched: not even the
  varbinds before it take effect.
\<close>

theorem agent_set_refused_unchanged:
  assumes "agent_settled d d" and "ctx_ok ctx" and "ctx_access_mode ctx = SNMP_ACCESS_READWRITE"
    and "k < ctx_varbind_count ctx" and "set_fault d (ctx_varbinds ctx ! k) \<noteq> SNMP_V1_ERR_NO_ERROR"
    and "\<forall>j < k. set_fault d (ctx_varbinds ctx ! j) = SNMP_V1_ERR_NO_ERROR"
  shows "snmp_pdu_handle_set agent_registry ctx d =
    Some ((BER_OK, ctx\<lparr>ctx_pdu_tag := SNMP_PDU_GET_RESPONSE,
      ctx_error_status := set_fault d (ctx_varbinds ctx ! k), ctx_error_index := word_of_nat (k + 1)\<rparr>), d)"
proof -
  have n: "ctx_varbind_count ctx \<le> length (ctx_varbinds ctx)" using ctx_ok_vbs [OF assms(2)] by simp
  with assms(4-6) have "first_fault (set_fault d) 0 (live_varbinds ctx) = Some (set_fault d (ctx_varbinds ctx ! k), k)"
    using first_fault_at [of k "live_varbinds ctx" "set_fault d" 0] by (simp add: live_varbinds_def)
  with set_validate_faults [OF assms(1), of 0 "ctx_varbind_count ctx" "ctx_varbinds ctx"] n obtain res where
    "set_validate agent_registry (ctx_varbinds ctx) (ctx_varbind_count ctx) 0 d = Some (Some (res, k), d)"
    "v1_error_status (snmp_error_translate SNMP_VERSION_V1 res) = set_fault d (ctx_varbinds ctx ! k)"
    by (auto simp: live_varbinds_def)
  with assms(3) show ?thesis by (simp add: snmp_pdu_handle_set_def Let_def)
qed

text \<open>A good value for \<open>sysName\<close> followed by one for the read-only \<open>sysDescr\<close>.\<close>

definition sample_set :: snmp_pdu_ctx where
  "sample_set = request_ctx SNMP_VERSION_V2C (c_lit ''private'') SNMP_ACCESS_READWRITE SNMP_PDU_SET_REQUEST 9 0 0
     [\<lparr>vb_oid = OID_SYS_NAME, vb_tag = BER_TAG_OCTET_STRING, vb_value = UOctets [65]\<rparr>,
      \<lparr>vb_oid = OID_SYS_DESCR, vb_tag = BER_TAG_OCTET_STRING, vb_value = UOctets [65]\<rparr>]"

lemma sample_set_facts:
  "ctx_ok sample_set" "ctx_access_mode sample_set = SNMP_ACCESS_READWRITE" "ctx_varbind_count sample_set = 2"
  "set_fault sample_device (ctx_varbinds sample_set ! 0) = SNMP_V1_ERR_NO_ERROR"
  "set_fault sample_device (ctx_varbinds sample_set ! 1) = SNMP_V1_ERR_READ_ONLY"
proof -
  show "ctx_ok sample_set"
    unfolding sample_set_def by (rule request_ctx_ok) (simp_all add: wire_ok_def oid_ok_def c_lit_def)
  show "ctx_access_mode sample_set = SNMP_ACCESS_READWRITE" "ctx_varbind_count sample_set = 2"
    by (simp_all add: sample_set_def)
  have "mo_oid ` scalars agent_registry \<subseteq> agent_view sample_device"
    by (auto simp: agent_view_def mib_view_def)
  moreover have "{OID_SYS_NAME, OID_SYS_DESCR} \<subseteq> mo_oid ` scalars agent_registry"
    by (auto simp: agent_scalars s_mib_ii_objects_def simp del: set_concat)
  ultimately have "{OID_SYS_NAME, OID_SYS_DESCR} \<subseteq> agent_view sample_device" by (rule order_trans [rotated])
  then show "set_fault sample_device (ctx_varbinds sample_set ! 0) = SNMP_V1_ERR_NO_ERROR"
    "set_fault sample_device (ctx_varbinds sample_set ! 1) = SNMP_V1_ERR_READ_ONLY"
    by (simp_all add: set_fault_def sample_set_def settable_def OID_WESPE_RELAY_STATE_def)
qed

theorem agent_set_refused_unchanged_witness:
  "snmp_pdu_handle_set agent_registry sample_set sample_device =
    Some ((BER_OK, sample_set\<lparr>ctx_pdu_tag := SNMP_PDU_GET_RESPONSE,
      ctx_error_status := SNMP_V1_ERR_READ_ONLY, ctx_error_index := 2\<rparr>), sample_device)"
  using agent_set_refused_unchanged [OF sample_settled sample_set_facts(1,2), of 1] sample_set_facts(3-5)
  by (simp add: less_Suc_eq)

section \<open>Reading back\<close>

lemma resolve_scalar:
  assumes "obj \<in> scalars agent_registry"
  shows "mib_registry_resolve agent_registry (mo_oid obj) d = Some (Inr (scalar_at obj), d)"
proof -
  let ?objs = "concat (s_modules agent_registry)"
  have sorted: "\<forall>m \<in> set (s_modules agent_registry). module_sorted m"
    using agent_registry_rows by (simp add: registry_rows_def)
  have "List.find (\<lambda>x. mo_oid x = mo_oid obj) ?objs = Some obj"
  proof (cases "List.find (\<lambda>x. mo_oid x = mo_oid obj) ?objs")
    case None
    with assms show ?thesis by (auto simp: find_None_iff)
  next
    case (Some y)
    then have "y \<in> set ?objs" "mo_oid y = mo_oid obj" by (auto dest: find_member)
    with assms agent_scalars_distinct have "y = obj" by (auto simp: distinct_map dest: inj_onD)
    with Some show ?thesis by simp
  qed
  then have "mib_registry_find agent_registry (mo_oid obj) = Some obj" by (simp only: mib_registry_find_is_find [OF sorted])
  moreover have "length (mo_oid obj) \<le> BER_MAX_OID_LEN" using agent_scalar_short [OF assms] by simp
  ultimately show ?thesis by (simp add: mib_registry_resolve_def populate_scalar_fits)
qed

lemma lookup_exact:
  "lookup_and_fetch reg version LOOKUP_EXACT request vb s = do {
     (r, s1) \<leftarrow> mib_registry_resolve reg (vb_oid request) s;
     case r of
       Inl e \<Rightarrow> Some ((e, vb), s1)
     | Inr out \<Rightarrow>
         if version = SNMP_VERSION_V1 \<and> rs_value_tag out = SNMP_TAG_COUNTER64 then Some ((MIB_NO_SUCH_OBJECT, vb), s1)
         else mib_resolved_get out (vb\<lparr>vb_oid := rs_oid out\<rparr>) s1
   }"
proof -
  have "lookup_loop (Suc n) reg version LOOKUP_EXACT x vb s = do {
      (r, s1) \<leftarrow> mib_registry_resolve reg x s;
      case r of
        Inl e \<Rightarrow> Some ((e, vb), s1)
      | Inr out \<Rightarrow>
          if version = SNMP_VERSION_V1 \<and> rs_value_tag out = SNMP_TAG_COUNTER64 then Some ((MIB_NO_SUCH_OBJECT, vb), s1)
          else mib_resolved_get out (vb\<lparr>vb_oid := rs_oid out\<rparr>) s1
    }" for n x by (auto split: Option.bind_split sum.split)
  from this [of 63] show ?thesis by (simp add: lookup_and_fetch_def)
qed

lemma get_scalar:
  assumes obj: "obj \<in> scalars agent_registry" and tag: "mo_value_tag obj \<noteq> SNMP_TAG_COUNTER64"
    and get: "\<And>vb. mo_getter obj vb d = Some ((MIB_OK, vb\<lparr>vb_tag := t, vb_value := u\<rparr>), d)"
  shows "snmp_pdu_handle_get agent_registry
      (request_ctx version community mode SNMP_PDU_GET_REQUEST rid es ei [null_varbind (mo_oid obj)]) d =
    Some ((BER_OK, request_ctx version community mode SNMP_PDU_GET_RESPONSE rid 0 0
      [\<lparr>vb_oid = mo_oid obj, vb_tag = t, vb_value = u\<rparr>]), d)"
proof -
  have look: "lookup_and_fetch agent_registry v LOOKUP_EXACT (null_varbind (mo_oid obj)) vb d =
      Some ((MIB_OK, vb\<lparr>vb_oid := mo_oid obj, vb_tag := t, vb_value := u\<rparr>), d)" for v vb
    using tag by (simp add: lookup_exact null_varbind_def resolve_scalar [OF obj] mib_resolved_get_def scalar_at_def get)
  have full: "vb\<lparr>vb_oid := x, vb_tag := t, vb_value := u\<rparr> = \<lparr>vb_oid = x, vb_tag = t, vb_value = u\<rparr>" for vb x
    by (cases vb) simp
  show ?thesis
    by (cases "version = SNMP_VERSION_V1")
      (simp_all add: snmp_pdu_handle_get_def process_read_pdu_def request_ctx_def look full)
qed

lemma set_scalar:
  assumes obj: "obj \<in> scalars agent_registry" and rw: "mo_access obj = MIB_ACCESS_RW" "mo_setter obj = Some f"
    and vb: "vb_oid vb = mo_oid obj" "vb_tag vb = mo_value_tag obj" and set: "f vb d = Some (r, d')"
  shows "snmp_pdu_handle_set agent_registry
      (request_ctx version community SNMP_ACCESS_READWRITE SNMP_PDU_SET_REQUEST rid es ei [vb]) d =
    Some ((BER_OK, request_ctx version community SNMP_ACCESS_READWRITE SNMP_PDU_GET_RESPONSE rid
      (if r = MIB_OK then SNMP_V1_ERR_NO_ERROR else SNMP_V1_ERR_GEN_ERR) (if r = MIB_OK then 0 else 1) [vb]), d')"
  using rw vb set
  by (simp add: snmp_pdu_handle_set_def request_ctx_def resolve_scalar [OF obj] scalar_at_def mib_resolved_set_def)

end
