(* ===== verification/Agent_Settings.thy ===== *)
theory Agent_Settings
  imports Agent_Set
begin

text \<open>
  The relay and the cells of the sensor table under SetRequest and GetRequest: what is switched, what is read
  back, and how often reading a temperature counts.
\<close>

section \<open>The relay\<close>

abbreviation relay_object :: "device mib_object" where
  "relay_object \<equiv> scalar OID_WESPE_RELAY_STATE BER_TAG_INTEGER MIB_ACCESS_RW get_relay_state (Some set_relay_state)"

abbreviation relay_value :: "i32 \<Rightarrow> snmp_varbind" where
  "relay_value v \<equiv> \<lparr>vb_oid = OID_WESPE_RELAY_STATE, vb_tag = BER_TAG_INTEGER, vb_value = UInt v\<rparr>"

lemma relay_object: "relay_object \<in> scalars agent_registry"
  by (simp add: agent_registry_def s_mib_wespe_objects_def OID_WESPE_RELAY_STATE_def)

lemma relay_set_get:
  "fst (relay_set_state on d) = 0" "s_relay_on (snd (relay_set_state on d)) = on"
  "\<not> hal_mock d \<Longrightarrow> gpio_relay (snd (relay_set_state on d)) = on"
  by (simp_all add: relay_set_state_def mock_relay_set_state_def gpio_relay_set_state_def)

text \<open>
  C20. The relay follows a SetRequest: the values 0 and 1 switch it, and the pin when there is one, and are
  read back; any other value leaves the device as it was and is answered with \<open>genErr\<close>, although the setter
  reports a wrong value.
\<close>

theorem agent_relay_set_then_get:
  shows "\<exists>d'. snmp_pdu_handle_set agent_registry
      (request_ctx version community SNMP_ACCESS_READWRITE SNMP_PDU_SET_REQUEST rid es ei [relay_value v]) d =
      Some ((BER_OK, request_ctx version community SNMP_ACCESS_READWRITE SNMP_PDU_GET_RESPONSE rid
        (if v \<in> {0, 1} then SNMP_V1_ERR_NO_ERROR else SNMP_V1_ERR_GEN_ERR) (if v \<in> {0, 1} then 0 else 1) [relay_value v]), d') \<and>
    (if v \<in> {0, 1} then s_relay_on d' = (v = 1) \<and> (\<not> hal_mock d \<longrightarrow> gpio_relay d' = (v = 1)) else d' = d) \<and>
    snmp_pdu_handle_get agent_registry
      (request_ctx version' community' mode SNMP_PDU_GET_REQUEST rid' es' ei' [null_varbind OID_WESPE_RELAY_STATE]) d' =
      Some ((BER_OK, request_ctx version' community' mode SNMP_PDU_GET_RESPONSE rid' 0 0
        [relay_value (if s_relay_on d' then 1 else 0)]), d')"
proof -
  have "mo_getter relay_object vb d' =
      Some ((MIB_OK, vb\<lparr>vb_tag := BER_TAG_INTEGER, vb_value := UInt (if s_relay_on d' then 1 else 0)\<rparr>), d')" for vb d'
    by (simp add: get_relay_state_def relay_get_state_def mock_relay_get_state_def gpio_relay_get_state_def put_int_def)
  from get_scalar [OF relay_object _ this] have get: "snmp_pdu_handle_get agent_registry
      (request_ctx version' community' mode SNMP_PDU_GET_REQUEST rid' es' ei' [null_varbind OID_WESPE_RELAY_STATE]) d' =
      Some ((BER_OK, request_ctx version' community' mode SNMP_PDU_GET_RESPONSE rid' 0 0
        [relay_value (if s_relay_on d' then 1 else 0)]), d')" for d' by simp
  have set: "set_relay_state (relay_value v) d =
      Some (if v \<in> {0, 1} then MIB_OK else MIB_WRONG_VALUE, if v \<in> {0, 1} then snd (relay_set_state (v = 1) d) else d)"
    using relay_set_get(1) [of "v = 1" d] by (auto simp: set_relay_state_def split: prod.split)
  have "snmp_pdu_handle_set agent_registry
      (request_ctx version community SNMP_ACCESS_READWRITE SNMP_PDU_SET_REQUEST rid es ei [relay_value v]) d =
      Some ((BER_OK, request_ctx version community SNMP_ACCESS_READWRITE SNMP_PDU_GET_RESPONSE rid
        (if v \<in> {0, 1} then SNMP_V1_ERR_NO_ERROR else SNMP_V1_ERR_GEN_ERR) (if v \<in> {0, 1} then 0 else 1) [relay_value v]),
        if v \<in> {0, 1} then snd (relay_set_state (v = 1) d) else d)"
    using set_scalar [OF relay_object, where f = set_relay_state and vb = "relay_value v" and d = d, OF _ _ _ _ set] by simp
  with get relay_set_get(2,3) [where on = "v = 1" and d = d] show ?thesis by auto
qed

theorem agent_relay_set_then_get_witness:
  "\<exists>d'. snmp_pdu_handle_set agent_registry
      (request_ctx SNMP_VERSION_V2C [] SNMP_ACCESS_READWRITE SNMP_PDU_SET_REQUEST 1 0 0 [relay_value 1]) sample_device =
      Some ((BER_OK, request_ctx SNMP_VERSION_V2C [] SNMP_ACCESS_READWRITE SNMP_PDU_GET_RESPONSE 1 0 0 [relay_value 1]), d') \<and>
    s_relay_on d' \<and> snmp_pdu_handle_get agent_registry
      (request_ctx SNMP_VERSION_V2C [] SNMP_ACCESS_READ SNMP_PDU_GET_REQUEST 2 0 0 [null_varbind OID_WESPE_RELAY_STATE]) d' =
      Some ((BER_OK, request_ctx SNMP_VERSION_V2C [] SNMP_ACCESS_READ SNMP_PDU_GET_RESPONSE 2 0 0 [relay_value 1]), d')"
proof -
  from agent_relay_set_then_get [of SNMP_VERSION_V2C "[]" 1 0 0 1 sample_device SNMP_VERSION_V2C "[]" SNMP_ACCESS_READ 2 0 0]
  show ?thesis by auto
qed

section \<open>The cells of the sensor table\<close>

abbreviation sensor_cell :: "u32 \<Rightarrow> u32 \<Rightarrow> oid" where
  "sensor_cell c i \<equiv> cell_oid s_sensor_table c i"

lemma sensor_cell_resolved:
  assumes "resolved_from agent_registry out" and "rs_oid out = sensor_cell (col_number col) i"
    and "col \<in> set (mt_columns s_sensor_table)"
  shows "out = cell_at s_sensor_table col i"
  using assms(1)
proof (cases rule: agent_resolved_cases)
  case (object obj)
  then have "mo_oid obj = sensor_cell (col_number col) i" using assms(2) by simp
  with agent_scalar_short [OF object(1)] agent_cell_long [of s_sensor_table "col_number col" i] show ?thesis by simp
next
  case (cell t col' j)
  then have "cell_oid t (col_number col') j = sensor_cell (col_number col) i" using assms(2) by simp
  from agent_cell_eq [OF cell(1) _ this] have "t = s_sensor_table" "col_number col' = col_number col" "j = i" by simp_all
  moreover from this cell(2) have "col' = col" using agent_column_inj [of s_sensor_table col' col] assms(3) by simp
  ultimately show ?thesis using cell(3) by simp
qed

lemma resolve_sensor_cell:
  assumes "agent_settled d0 d" and "col \<in> set (mt_columns s_sensor_table)" and "i \<in> set (sensor_rows d0)"
  shows "mib_registry_resolve agent_registry (sensor_cell (col_number col) i) d = Some (Inr (cell_at s_sensor_table col i), d)"
proof -
  have "sensor_cell (col_number col) i \<in> table_cells s_sensor_table (agent_rows s_sensor_table d0)"
    using assms(2,3) by (auto simp: table_cells_def)
  then have "sensor_cell (col_number col) i \<in> agent_view d0"
    unfolding agent_view_def mib_view_def agent_tables by blast
  with assms(1) show ?thesis
    by (cases rule: agent_resolve [where x = "sensor_cell (col_number col) i"])
      (use sensor_cell_resolved assms(2) in simp_all)
qed

text \<open>A column by its number.\<close>

lemma sensor_columns:
  "column COL_LABEL BER_TAG_OCTET_STRING MIB_ACCESS_RW \<in> set (mt_columns s_sensor_table)"
  "column COL_TEMP BER_TAG_INTEGER MIB_ACCESS_RO \<in> set (mt_columns s_sensor_table)"
  by (simp_all add: s_sensor_table_def)

lemma sensor_row_cases: "i \<in> set (sensor_rows d) \<Longrightarrow> i = 1 \<or> i = 2 \<or> i = 3"
  by (auto simp: sensor_rows_def split: if_splits)

lemma default_labels: "i = 1 \<or> i = 2 \<or> i = 3 \<Longrightarrow> length (default_label i) = 7 \<and> 0 \<notin> set (default_label i)"
proof -
  have "length (default_label 1) = 7 \<and> 0 \<notin> set (default_label 1)" "length (default_label 2) = 7 \<and> 0 \<notin> set (default_label 2)"
    "length (default_label 3) = 7 \<and> 0 \<notin> set (default_label 3)" by code_simp+
  then show "i = 1 \<or> i = 2 \<or> i = 3 \<Longrightarrow> length (default_label i) = 7 \<and> 0 \<notin> set (default_label i)" by blast
qed

text \<open>The device after the label of row \<open>i\<close> was set.\<close>

definition with_label :: "u32 \<Rightarrow> u8 list \<Rightarrow> device \<Rightarrow> device" where
  "with_label i bs d =
     d\<lparr>s_labels := (s_labels d)[unat i - 1 := bs @ 0 # drop (Suc (length bs)) (s_labels d ! (unat i - 1))]\<rparr>"

lemma with_label_settled:
  assumes "agent_settled d d" and "i \<in> set (sensor_rows d)" and "length bs < WESPE_SENSOR_LABEL_MAX"
  shows "agent_settled (with_label i bs d) (with_label i bs d)" and "sensor_rows (with_label i bs d) = sensor_rows d"
    and "unat i - 1 < length (s_labels d)"
proof -
  have d: "dev_ok d" "sensor_fixed d" using assms(1) by (simp_all add: agent_settled_def)
  have "fst (row_exists i d)" using row_exists_fixed [OF d(2) assms(2)] by simp
  note l = dev_ok_labels [OF d(1) this]
  from dev_ok_label_upd [OF d(1) label_slot_c_array [OF l(2) assms(3)]]
  have "dev_ok (with_label i bs d)" by (simp add: with_label_def)
  with d(2) show "agent_settled (with_label i bs d) (with_label i bs d)"
    by (simp add: agent_settled_def sensor_fixed_def with_label_def)
  show "sensor_rows (with_label i bs d) = sensor_rows d" by (simp add: sensor_rows_def with_label_def)
  show "unat i - 1 < length (s_labels d)" by (rule l(1))
qed

section \<open>The read counter\<close>

text \<open>
  C30. The counter of served readings: a GetRequest for the temperature of a sensor counts once when it is
  v2c, but twice when it is v1, whose two passes both read the sensor.
\<close>

theorem agent_temperature_read_counts:
  assumes "agent_settled d d" and "healthy d" and "i \<in> {1, 2, 3}" and "x = cell_oid s_sensor_table COL_TEMP i"
  shows "\<exists>ctx. snmp_pdu_handle_get agent_registry
      (request_ctx version community mode SNMP_PDU_GET_REQUEST rid es ei [null_varbind x]) d =
      Some ((BER_OK, ctx), d\<lparr>s_read_count := (s_read_count d)[unat i - 1 := s_read_count d ! (unat i - 1) +
        (if version = SNMP_VERSION_V1 then 2 else 1)]\<rparr>) \<and> ctx_error_status ctx = 0"
proof -
  define k where "k = unat i - 1"
  then have ki: "unat i - Suc 0 = k" by simp
  let ?count = "\<lambda>n. d\<lparr>s_read_count := (s_read_count d)[k := s_read_count d ! k + n]\<rparr>"
  have k: "k < length (s_read_count d)" using assms(1,3) by (auto simp: agent_settled_def dev_ok_def k_def)
  have rows: "sensor_rows d = [1, 2, 3]" using assms(2) by (simp add: sensor_rows_def healthy_def)
  have i: "1 \<le> i" "i \<le> 3" "i \<in> set (sensor_rows d)" using assms(3) by (auto simp: rows)
  obtain v where v: "sensor_read_decidegrees_indexed i d = Some (Some v, d)" using healthy_hal(5) [OF assms(2) i(1,2)] by blast
  have counted: "agent_settled d (?count n)" "sensor_read_decidegrees_indexed i (?count n) = Some (Some v, ?count n)"
    "row_exists i (?count n) = (True, ?count n)" for n
  proof -
    show s: "agent_settled d (?count n)" using assms(1) by (simp add: agent_settled_def dev_ok_def hal_mock_def)
    show "sensor_read_decidegrees_indexed i (?count n) = Some (Some v, ?count n)"
      using v assms(2,3) by (auto simp: sensor_read_decidegrees_indexed_def hal_mock_def healthy_def mock_read_indexed_def)
    show "row_exists i (?count n) = (True, ?count n)"
      using settled_sensor_fixed [OF s] i(3) by (intro row_exists_fixed) (simp_all add: sensor_rows_def)
  qed
  have get: "sensor_get_cell COL_TEMP i vb (?count n) = Some ((MIB_OK, put_int BER_TAG_INTEGER v vb), ?count (n + 1))" for vb n
    using k by (simp add: sensor_get_cell_def counted(2,3) ki add.assoc)
  have cell: "mt_get_cell s_sensor_table = sensor_get_cell" by (simp add: s_sensor_table_def)
  have look: "lookup_and_fetch agent_registry version LOOKUP_EXACT (null_varbind x) vb (?count n) =
      Some ((MIB_OK, put_int BER_TAG_INTEGER v (vb\<lparr>vb_oid := x\<rparr>)), ?count (n + 1))" for vb n
    using resolve_sensor_cell [OF counted(1) sensor_columns(2) i(3), unfolded column_simps, folded assms(4)]
    by (simp add: lookup_exact null_varbind_def mib_resolved_get_def cell_at_def cell get assms(4) [symmetric])
  have d: "d = ?count 0" by simp
  show ?thesis
  proof (cases "version = SNMP_VERSION_V1")
    case True
    have "snmp_pdu_handle_get agent_registry
        (request_ctx version community mode SNMP_PDU_GET_REQUEST rid es ei [null_varbind x]) (?count 0) =
        Some ((BER_OK, request_ctx version community mode SNMP_PDU_GET_RESPONSE rid 0 0
          [put_int BER_TAG_INTEGER v ((null_varbind x)\<lparr>vb_oid := x\<rparr>)]), ?count 2)"
      using True look [of _ 0] look [of _ 1] by (simp add: snmp_pdu_handle_get_def process_read_pdu_def request_ctx_def)
    with True d show ?thesis by (auto simp: ki request_ctx_def)
  next
    case False
    have "snmp_pdu_handle_get agent_registry
        (request_ctx version community mode SNMP_PDU_GET_REQUEST rid es ei [null_varbind x]) (?count 0) =
        Some ((BER_OK, request_ctx version community mode SNMP_PDU_GET_RESPONSE rid 0 0
          [put_int BER_TAG_INTEGER v (vb_zero\<lparr>vb_oid := x\<rparr>)]), ?count 1)"
      using False look [of _ 0] by (simp add: snmp_pdu_handle_get_def process_read_pdu_def request_ctx_def)
    with False d show ?thesis by (auto simp: ki request_ctx_def)
  qed
qed

theorem agent_temperature_read_counts_witness:
  "\<exists>ctx. snmp_pdu_handle_get agent_registry
      (request_ctx SNMP_VERSION_V1 [] SNMP_ACCESS_READ SNMP_PDU_GET_REQUEST 1 0 0
        [null_varbind (cell_oid s_sensor_table COL_TEMP 2)]) sample_device =
      Some ((BER_OK, ctx), sample_device\<lparr>s_read_count := (s_read_count sample_device)[1 := s_read_count sample_device ! 1 + 2]\<rparr>) \<and>
      ctx_error_status ctx = 0"
  using agent_temperature_read_counts [OF sample_settled sample_env_ok(2), of 2 _ SNMP_VERSION_V1 "[]" SNMP_ACCESS_READ 1 0 0]
  by simp

section \<open>A getter that fails in the second pass\<close>

abbreviation rssi_object :: "device mib_object" where
  "rssi_object \<equiv> scalar OID_WESPE_WIFI_RSSI BER_TAG_INTEGER MIB_ACCESS_RO get_wifi_rssi None"

lemma rssi_object: "rssi_object \<in> scalars agent_registry"
  by (simp add: agent_registry_def s_mib_wespe_objects_def)

text \<open>
  C31. The two passes of a v1 request are not one: if the station is associated in the first and no longer
  in the second, the response to a GetRequest for the signal strength reports no error, and its varbind is
  the NULL of the request.
\<close>

theorem agent_v1_second_pass_failure:
  assumes "e_ap_info (dev_env d) (dev_calls d) = Some rssi" and "e_ap_info (dev_env d) (Suc (dev_calls d)) = None"
    and "x = OID_WESPE_WIFI_RSSI"
  shows "snmp_pdu_handle_get agent_registry
      (request_ctx SNMP_VERSION_V1 community mode SNMP_PDU_GET_REQUEST rid es ei [null_varbind x]) d =
    Some ((BER_OK, request_ctx SNMP_VERSION_V1 community mode SNMP_PDU_GET_RESPONSE rid SNMP_V1_ERR_NO_ERROR 0
      [null_varbind x]), tick (tick d))"
proof -
  have res: "mib_registry_resolve agent_registry x s = Some (Inr (scalar_at rssi_object), s)" for s
    using resolve_scalar [OF rssi_object, of s] by (simp add: assms(3))
  have first: "lookup_and_fetch agent_registry SNMP_VERSION_V1 LOOKUP_EXACT (null_varbind x) vb d =
      Some ((MIB_OK, put_int BER_TAG_INTEGER (scast rssi) (vb\<lparr>vb_oid := x\<rparr>)), tick d)" for vb
    using assms(1) by (simp add: lookup_exact res mib_resolved_get_def scalar_at_def get_wifi_rssi_def
        sysinfo_wifi_rssi_dbm_def assms(3) [symmetric])
  have second: "lookup_and_fetch agent_registry SNMP_VERSION_V1 LOOKUP_EXACT (null_varbind x) vb (tick d) =
      Some ((MIB_GEN_ERR, vb\<lparr>vb_oid := x\<rparr>), tick (tick d))" for vb
    using assms(2) by (simp add: lookup_exact res mib_resolved_get_def scalar_at_def get_wifi_rssi_def
        sysinfo_wifi_rssi_dbm_def tick_def assms(3) [symmetric])
  show ?thesis
    by (simp add: snmp_pdu_handle_get_def process_read_pdu_def request_ctx_def first second)
qed

definition fading_device :: device where
  "fading_device = sample_device\<lparr>dev_env := sample_env\<lparr>e_ap_info := \<lambda>n. if n = 0 then Some 0xC4 else None\<rparr>, dev_calls := 0\<rparr>"

theorem agent_v1_second_pass_failure_witness:
  "snmp_pdu_handle_get agent_registry (request_ctx SNMP_VERSION_V1 [] SNMP_ACCESS_READ SNMP_PDU_GET_REQUEST 1 0 0
      [null_varbind OID_WESPE_WIFI_RSSI]) fading_device =
    Some ((BER_OK, request_ctx SNMP_VERSION_V1 [] SNMP_ACCESS_READ SNMP_PDU_GET_RESPONSE 1 SNMP_V1_ERR_NO_ERROR 0
      [null_varbind OID_WESPE_WIFI_RSSI]), tick (tick fading_device))"
  by (rule agent_v1_second_pass_failure [where rssi = "0xC4", OF _ _ refl]) (simp_all add: fading_device_def)

end
