(* ===== verification/Agent_Store.thy ===== *)
theory Agent_Store
  imports Agent_Settings Agent_Properties
begin

text \<open>
  The settings of the agent as an abstract store: what a manager writes and reads without knowing the
  buffers, tables and passes behind it. The handlers of SetRequest and GetRequest implement its
  operations.
\<close>

section \<open>The abstract store\<close>

record agent_settings =
  set_relay :: bool
  set_contact :: "u8 list"
  set_name :: "u8 list"
  set_location :: "u8 list"
  set_labels :: "u8 list list"

definition label_text :: "u32 \<Rightarrow> u8 list \<Rightarrow> u8 list" where
  "label_text i bs = (if c_string bs = [] then default_label i else c_string bs)"

text \<open>Writing a value under its name, \<open>None\<close> if it is refused.\<close>

definition write_setting :: "snmp_varbind \<Rightarrow> agent_settings \<Rightarrow> agent_settings option" where
  "write_setting vb st =
     (let x = vb_oid vb in
      if x = OID_WESPE_RELAY_STATE then do {
        v \<leftarrow> read_int (vb_value vb);
        if v = 0 \<or> v = 1 then Some (st\<lparr>set_relay := (v = 1)\<rparr>) else None
      }
      else do {
        bs \<leftarrow> read_octets (vb_value vb);
        if x = OID_SYS_CONTACT then (if length bs < WESPE_STR_MAX then Some (st\<lparr>set_contact := c_string bs\<rparr>) else None)
        else if x = OID_SYS_NAME then (if length bs < WESPE_STR_MAX then Some (st\<lparr>set_name := c_string bs\<rparr>) else None)
        else if x = OID_SYS_LOCATION then (if length bs < WESPE_STR_MAX then Some (st\<lparr>set_location := c_string bs\<rparr>) else None)
        else if length bs < WESPE_SENSOR_LABEL_MAX
          then Some (st\<lparr>set_labels := (set_labels st)[unat (last x) - 1 := label_text (last x) bs]\<rparr>)
        else None
      })"

text \<open>Reading a name: the type and the value.\<close>

definition read_setting :: "oid \<Rightarrow> agent_settings \<Rightarrow> u8 \<times> vunion" where
  "read_setting x st =
     (if x = OID_WESPE_RELAY_STATE then (BER_TAG_INTEGER, UInt (if set_relay st then 1 else 0))
      else (BER_TAG_OCTET_STRING, UOctets
        (if x = OID_SYS_CONTACT then set_contact st
         else if x = OID_SYS_NAME then set_name st
         else if x = OID_SYS_LOCATION then set_location st
         else set_labels st ! (unat (last x) - 1))))"

text \<open>The writes of a SetRequest in order, up to the first that is refused.\<close>

fun write_all :: "nat \<Rightarrow> snmp_varbind list \<Rightarrow> agent_settings \<Rightarrow> nat option \<times> agent_settings" where
  "write_all i [] st = (None, st)"
| "write_all i (vb # vbs) st =
     (case write_setting vb st of None \<Rightarrow> (Some i, st) | Some st' \<Rightarrow> write_all (i + 1) vbs st')"

text \<open>
  A SetRequest on the store: error status, error index and the store afterwards. \<open>fault\<close> is the error
  for which a varbind is refused before anything is written.
\<close>

definition set_spec :: "(snmp_varbind \<Rightarrow> i32) \<Rightarrow> snmp_varbind list \<Rightarrow> agent_settings \<Rightarrow> i32 \<times> nat \<times> agent_settings" where
  "set_spec fault vbs st =
     (case first_fault fault 0 vbs of
        Some (status, k) \<Rightarrow> (status, k + 1, st)
      | None \<Rightarrow>
          (case write_all 0 vbs st of
             (Some k, st') \<Rightarrow> (SNMP_V1_ERR_GEN_ERR, k + 1, st')
           | (None, st') \<Rightarrow> (SNMP_V1_ERR_NO_ERROR, 0, st')))"

section \<open>The store of a device\<close>

definition settings_of :: "device \<Rightarrow> agent_settings" where
  "settings_of d =
     \<lparr>set_relay = s_relay_on d, set_contact = c_string (s_sys_contact d), set_name = c_string (s_sys_name d),
      set_location = c_string (s_sys_location d),
      set_labels = map (\<lambda>k. c_string (label_slot (word_of_nat (Suc k)) (s_labels d ! k))) [0..<length (s_labels d)]\<rparr>"

lemma settings_of_simps [simp]:
  "set_relay (settings_of d) = s_relay_on d" "set_contact (settings_of d) = c_string (s_sys_contact d)"
  "set_name (settings_of d) = c_string (s_sys_name d)" "set_location (settings_of d) = c_string (s_sys_location d)"
  "length (set_labels (settings_of d)) = length (s_labels d)"
  "k < length (s_labels d) \<Longrightarrow> set_labels (settings_of d) ! k = c_string (label_slot (word_of_nat (Suc k)) (s_labels d ! k))"
  by (simp_all add: settings_of_def)

text \<open>Reading keeps the store, although it fills in the labels that are empty.\<close>

lemma same_settings_of: "same_settings d d' \<Longrightarrow> settings_of d' = settings_of d"
  by (auto simp: settings_of_def same_settings_def labels_kept_def)

lemma set_fault_env: "dev_env d' = dev_env d \<Longrightarrow> set_fault d' = set_fault d"
  by (simp add: fun_eq_iff set_fault_def agent_view_def mib_view_def agent_registry_def sensor_rows_def)

section \<open>Writing\<close>

text \<open>A setter implements the write of the store.\<close>

definition implements_write :: "device mib_set_fn \<Rightarrow> snmp_varbind \<Rightarrow> device \<Rightarrow> bool" where
  "implements_write f vb d \<longleftrightarrow>
     (\<exists>r d'. f vb d = Some (r, d') \<and> dev_ok d' \<and> dev_env d' = dev_env d \<and>
        write_setting vb (settings_of d) = (if r = MIB_OK then Some (settings_of d') else None) \<and>
        (r \<noteq> MIB_OK \<longrightarrow> d' = d))"

lemma octets_vb: "vb_ok vb \<Longrightarrow> vb_tag vb = BER_TAG_OCTET_STRING \<Longrightarrow> \<exists>bs. vb_value vb = UOctets bs"
  by (auto simp: vb_ok_def value_ok_def)

lemma string_setters:
  assumes "dev_ok d" and "vb_ok vb" and "vb_tag vb = BER_TAG_OCTET_STRING"
  shows "vb_oid vb = OID_SYS_CONTACT \<Longrightarrow> implements_write set_sys_contact vb d"
    and "vb_oid vb = OID_SYS_NAME \<Longrightarrow> implements_write set_sys_name vb d"
    and "vb_oid vb = OID_SYS_LOCATION \<Longrightarrow> implements_write set_sys_location vb d"
proof -
  obtain bs where bs: "vb_value vb = UOctets bs" using octets_vb [OF assms(2,3)] by blast
  have d: "length (s_sys_contact d) = WESPE_STR_MAX" "length (s_sys_name d) = WESPE_STR_MAX"
    "length (s_sys_location d) = WESPE_STR_MAX" using assms(1) by (simp_all add: dev_ok_def c_array_def)
  have ok: "\<exists>r d'. set_sys_contact vb d = Some (r, d') \<and> dev_ok d'" "\<exists>r d'. set_sys_name vb d = Some (r, d') \<and> dev_ok d'"
    "\<exists>r d'. set_sys_location vb d = Some (r, d') \<and> dev_ok d'"
    using set_sys_string_ok assms(1,2) by (simp_all add: setter_ok_def)
  note eval = implements_write_def write_setting_def set_string_field_def assms(3) bs d OID_WESPE_RELAY_STATE_def settings_of_def
  show "vb_oid vb = OID_SYS_CONTACT \<Longrightarrow> implements_write set_sys_contact vb d"
    using ok(1) by (auto simp: eval set_sys_contact_def split: if_splits)
  show "vb_oid vb = OID_SYS_NAME \<Longrightarrow> implements_write set_sys_name vb d"
    using ok(2) by (auto simp: eval set_sys_name_def split: if_splits)
  show "vb_oid vb = OID_SYS_LOCATION \<Longrightarrow> implements_write set_sys_location vb d"
    using ok(3) by (auto simp: eval set_sys_location_def split: if_splits)
qed

lemma relay_setter:
  assumes "dev_ok d" and "vb_ok vb" and "vb_tag vb = BER_TAG_INTEGER" and "vb_oid vb = OID_WESPE_RELAY_STATE"
  shows "implements_write set_relay_state vb d"
proof -
  obtain v where v: "vb_value vb = UInt v" using assms(2,3) by (auto simp: vb_ok_def value_ok_def)
  obtain r d' where ok: "set_relay_state vb d = Some (r, d')" "dev_ok d'"
    using set_relay_state_ok assms(1,2) unfolding setter_ok_def by blast
  show ?thesis
    using ok v assms(3,4)
    by (auto simp: implements_write_def write_setting_def set_relay_state_def relay_set_state_def mock_relay_set_state_def
        gpio_relay_set_state_def settings_of_def split: if_splits)
qed

lemma label_slot_text:
  assumes "i = 1 \<or> i = 2 \<or> i = 3"
  shows "c_string (label_slot i (bs @ 0 # rest)) = label_text i bs"
proof -
  note def_ok = default_labels [OF assms]
  have "hd (bs @ 0 # rest) = 0 \<longleftrightarrow> c_string bs = []" by (cases bs) (auto simp: c_string_def)
  then show ?thesis
    using def_ok c_string_no_nul [of "default_label i"] by (simp add: label_slot_def label_text_def Let_def)
qed

lemma row_slot:
  assumes "i \<in> set (sensor_rows d)"
  shows "word_of_nat (Suc (unat i - 1)) = i" and "i = 1 \<or> i = 2 \<or> i = 3"
  using sensor_row_cases [OF assms] by auto

lemma with_label_store:
  assumes "agent_settled d d" and "i \<in> set (sensor_rows d)" and "length bs < WESPE_SENSOR_LABEL_MAX"
  shows "settings_of (with_label i bs d) =
    (settings_of d)\<lparr>set_labels := (set_labels (settings_of d))[unat i - 1 := label_text i bs]\<rparr>"
proof -
  note slot = label_slot_text [OF row_slot(2) [OF assms(2)], of bs] row_slot(1) [OF assms(2)]
  have "set_labels (settings_of (with_label i bs d)) = (set_labels (settings_of d))[unat i - 1 := label_text i bs]"
    using with_label_settled(3) [OF assms] slot
    by (intro nth_equalityI) (auto simp: with_label_def nth_list_update)
  then show ?thesis by (simp add: settings_of_def with_label_def)
qed

lemma label_setter:
  assumes "agent_settled d d" and "i \<in> set (sensor_rows d)" and "vb_ok vb" and "vb_tag vb = BER_TAG_OCTET_STRING"
    and "vb_oid vb = sensor_cell COL_LABEL i"
  shows "implements_write (sensor_set_cell COL_LABEL i) vb d"
proof -
  obtain bs where bs: "vb_value vb = UOctets bs" using octets_vb [OF assms(3,4)] by blast
  have d: "dev_ok d" "sensor_fixed d" using assms(1) by (simp_all add: agent_settled_def)
  have row: "row_exists i d = (True, d)" by (rule row_exists_fixed [OF d(2) assms(2)])
  have x: "vb_oid vb \<notin> {OID_SYS_CONTACT, OID_SYS_NAME, OID_SYS_LOCATION}" "vb_oid vb \<noteq> OID_WESPE_RELAY_STATE"
    "last (vb_oid vb) = i"
    using assms(5) by (auto simp: s_sensor_table_def cell_oid_def OID_WESPE_RELAY_STATE_def)
  show ?thesis
  proof (cases "length bs < WESPE_SENSOR_LABEL_MAX")
    case False
    with x d bs row assms(4) show ?thesis by (simp add: implements_write_def sensor_set_cell_def write_setting_def Let_def)
  next
    case True
    note wl = with_label_settled [OF assms(1,2) True]
    have "sensor_set_cell COL_LABEL i vb d = Some (MIB_OK, with_label i bs d)"
      using True bs row wl(3) assms(4) by (simp add: sensor_set_cell_def with_label_def Let_def)
    moreover have "settings_of (with_label i bs d) =
        (settings_of d)\<lparr>set_labels := (set_labels (settings_of d))[unat i - 1 := label_text i bs]\<rparr>"
      by (rule with_label_store [OF assms(1,2) True])
    moreover have "dev_env (with_label i bs d) = dev_env d" by (simp add: with_label_def)
    ultimately show ?thesis
      using True x bs wl(1) by (simp add: implements_write_def write_setting_def agent_settled_def)
  qed
qed

lemma label_in_view: "sensor_cell COL_LABEL i \<in> agent_view d \<longleftrightarrow> i \<in> set (sensor_rows d)"
proof
  assume "sensor_cell COL_LABEL i \<in> agent_view d"
  then consider "sensor_cell COL_LABEL i \<in> mo_oid ` scalars agent_registry"
    | t where "t \<in> {s_iftable, s_ifxtable, s_sensor_table}" "sensor_cell COL_LABEL i \<in> table_cells t (agent_rows t d)"
    unfolding agent_view_def mib_view_def agent_tables by blast
  then show "i \<in> set (sensor_rows d)"
  proof cases
    case 1
    then obtain obj where "obj \<in> scalars agent_registry" "mo_oid obj = sensor_cell COL_LABEL i" by (metis imageE)
    with agent_scalar_short [of obj] agent_cell_long [of s_sensor_table COL_LABEL i] show ?thesis by simp
  next
    case (2 t)
    then obtain col :: mib_column and j where "sensor_cell COL_LABEL i = cell_oid t (col_number col) j" "j \<in> set (agent_rows t d)"
      unfolding table_cells_def by blast
    with agent_cell_eq [OF _ 2(1), of s_sensor_table COL_LABEL i "col_number col" j] show ?thesis by auto
  qed
next
  assume "i \<in> set (sensor_rows d)"
  then have "sensor_cell COL_LABEL i \<in> table_cells s_sensor_table (agent_rows s_sensor_table d)"
    using sensor_columns(1) by (force simp: table_cells_def)
  then show "sensor_cell COL_LABEL i \<in> agent_view d"
    unfolding agent_view_def mib_view_def agent_tables by blast
qed

text \<open>What a resolved instance does when it is set.\<close>

lemma resolved_write:
  assumes "agent_settled d d" and "vb_ok vb" and "vb_oid vb \<in> agent_view d"
    and "resolved_from agent_registry out" and "rs_oid out = vb_oid vb" and "rs_access out = MIB_ACCESS_RW"
    and "rs_value_tag out = vb_tag vb"
  shows "implements_write (mib_resolved_set out) vb d"
  using assms(4)
proof (cases rule: agent_resolved_cases)
  case (object obj)
  have d: "dev_ok d" using assms(1) by (simp add: agent_settled_def)
  have "implements_write f vb d" if "mo_setter obj = Some f" for f
    using object assms(5-7) that string_setters [OF d assms(2)] relay_setter [OF d assms(2)]
    unfolding agent_scalars by (auto simp: s_mib_ii_objects_def s_mib_wespe_objects_def s_iftable_scalars_def scalar_at_def OID_WESPE_RELAY_STATE_def)
  moreover have "mo_setter obj \<noteq> None"
    using object assms(6) unfolding agent_scalars
    by (auto simp: s_mib_ii_objects_def s_mib_wespe_objects_def s_iftable_scalars_def scalar_at_def)
  ultimately obtain f where f: "mo_setter obj = Some f" "implements_write f vb d" by blast
  then have "mib_resolved_set out vb d = f vb d" by (simp add: object(2) mib_resolved_set_def scalar_at_def)
  with f(2) show ?thesis by (simp add: implements_write_def)
next
  case (cell t col i)
  have col: "t = s_sensor_table" "col = column COL_LABEL BER_TAG_OCTET_STRING MIB_ACCESS_RW"
    using cell assms(6) by (auto simp: cell_at_def s_iftable_def s_ifxtable_def s_sensor_table_def)
  have x: "vb_oid vb = sensor_cell COL_LABEL i" using cell(3) assms(5) by (simp add: cell_at_def col)
  have "i \<in> set (sensor_rows d)" using label_in_view assms(3) unfolding x by simp
  with label_setter [OF assms(1) _ assms(2) _ x] cell(3) assms(7)
  have "implements_write (sensor_set_cell COL_LABEL i) vb d" by (simp add: cell_at_def col)
  moreover have "mib_resolved_set out vb d = sensor_set_cell COL_LABEL i vb d"
    by (simp add: cell(3) col(2) mib_resolved_set_def cell_at_def) (simp add: col(1) s_sensor_table_def)
  ultimately show ?thesis by (simp add: implements_write_def)
qed

section \<open>SetRequest\<close>

lemma good_write:
  assumes "agent_settled d d" and "vb_ok vb" and "set_fault d vb = SNMP_V1_ERR_NO_ERROR"
  obtains out where "mib_registry_resolve agent_registry (vb_oid vb) d = Some (Inr out, d)"
    "implements_write (mib_resolved_set out) vb d"
  using assms(1)
proof (cases rule: agent_resolve [where x = "vb_oid vb"])
  case (none e)
  with assms(3) show ?thesis by (simp add: set_fault_def)
next
  case (some out)
  with assms(3) resolved_settable [OF some(4)] have "rs_access out = MIB_ACCESS_RW" "rs_value_tag out = vb_tag vb"
    by (auto simp: set_fault_def split: if_splits)
  with resolved_write [OF assms(1,2) some(2,4,3)] some(1) show ?thesis by (blast intro: that)
qed

text \<open>The second pass carries out the writes of the store.\<close>

lemma set_commit_writes:
  assumes "agent_settled d d" and "i + n \<le> length vbs"
    and "\<forall>k. i \<le> k \<and> k < i + n \<longrightarrow> vb_ok (vbs ! k) \<and> set_fault d (vbs ! k) = SNMP_V1_ERR_NO_ERROR"
  shows "\<exists>f d'. set_commit agent_registry vbs n i d = Some (f, d') \<and> agent_settled d' d' \<and> dev_env d' = dev_env d \<and>
    write_all i (take n (drop i vbs)) (settings_of d) = (f, settings_of d')"
  using assms
proof (induction n arbitrary: i d)
  case 0
  then show ?case by simp
next
  case (Suc n)
  let ?vb = "vbs ! i"
  have vb: "vb_ok ?vb" "set_fault d ?vb = SNMP_V1_ERR_NO_ERROR" and i: "i < length vbs" using Suc.prems(2,3) by auto
  have list: "take (Suc n) (drop i vbs) = ?vb # take n (drop (i + 1) vbs)" using i by (simp add: Cons_nth_drop_Suc [symmetric])
  obtain out where out: "mib_registry_resolve agent_registry (vb_oid ?vb) d = Some (Inr out, d)"
    "implements_write (mib_resolved_set out) ?vb d"
    using good_write [OF Suc.prems(1) vb] by blast
  from out(2) obtain r d1 where w: "mib_resolved_set out ?vb d = Some (r, d1)" "dev_ok d1" "dev_env d1 = dev_env d"
    "write_setting ?vb (settings_of d) = (if r = MIB_OK then Some (settings_of d1) else None)" "r \<noteq> MIB_OK \<longrightarrow> d1 = d"
    by (auto simp: implements_write_def)
  have d1: "agent_settled d1 d1" using Suc.prems(1) w(2,3) by (simp add: agent_settled_def sensor_fixed_def)
  show ?case
  proof (cases "r = MIB_OK")
    case False
    with out(1) w d1 i show ?thesis by (simp add: list)
  next
    case True
    have "\<forall>k. i + 1 \<le> k \<and> k < i + 1 + n \<longrightarrow> vb_ok (vbs ! k) \<and> set_fault d1 (vbs ! k) = SNMP_V1_ERR_NO_ERROR"
      using Suc.prems(3) set_fault_env [OF w(3)] by simp
    from Suc.IH [OF d1 _ this] Suc.prems(2) True out(1) w i show ?thesis by (auto simp: list)
  qed
qed

lemma handle_set_store:
  assumes "agent_settled d d" and "ctx_ok ctx" and "ctx_access_mode ctx = SNMP_ACCESS_READWRITE"
    and "set_spec (set_fault d) (live_varbinds ctx) (settings_of d) = (status, index, st)"
  shows "\<exists>d'. snmp_pdu_handle_set agent_registry ctx d =
      Some ((BER_OK, ctx\<lparr>ctx_pdu_tag := SNMP_PDU_GET_RESPONSE,
        ctx_error_status := status, ctx_error_index := word_of_nat index\<rparr>), d') \<and>
    settings_of d' = st \<and> agent_settled d' d' \<and> dev_env d' = dev_env d"
proof -
  let ?vbs = "ctx_varbinds ctx" and ?n = "ctx_varbind_count ctx"
  have n: "?n \<le> length ?vbs" "\<forall>vb \<in> set ?vbs. vb_ok vb" using ctx_ok_vbs [OF assms(2)] assms(2) by (simp_all add: ctx_ok_def)
  from set_validate_faults [OF assms(1), of 0 ?n ?vbs] n obtain f where
    f: "set_validate agent_registry ?vbs ?n 0 d = Some (f, d)"
      "map_option (\<lambda>(res, k). (v1_error_status (snmp_error_translate SNMP_VERSION_V1 res), k)) f =
        first_fault (set_fault d) 0 (live_varbinds ctx)" by (auto simp: live_varbinds_def)
  show ?thesis
  proof (cases f)
    case (Some e)
    obtain res k where e: "e = (res, k)" by (cases e)
    with f(2) [symmetric] Some assms(4) show ?thesis
      using assms(1,3) f(1) by (auto simp: snmp_pdu_handle_set_def set_spec_def Let_def)
  next
    case None
    with f(2) have none: "first_fault (set_fault d) 0 (live_varbinds ctx) = None" by simp
    then have "\<forall>k < ?n. vb_ok (?vbs ! k) \<and> set_fault d (?vbs ! k) = SNMP_V1_ERR_NO_ERROR"
      using n nth_mem [of _ ?vbs] by (fastforce simp: first_fault_none live_varbinds_def in_set_conv_nth)
    with set_commit_writes [OF assms(1), of 0 ?n ?vbs] n(1) obtain g d' where
      g: "set_commit agent_registry ?vbs ?n 0 d = Some (g, d')" "agent_settled d' d'" "dev_env d' = dev_env d"
      "write_all 0 (live_varbinds ctx) (settings_of d) = (g, settings_of d')" by (auto simp: live_varbinds_def)
    with None none f(1) assms(3,4) show ?thesis
      by (cases g) (auto simp: snmp_pdu_handle_set_def set_spec_def)
  qed
qed

text \<open>
  C4. SetRequest implements the writes of the store: on any varbinds, with the read-write community and a
  settled device, the response carries the error status and index of the specification, and the settings
  of the device afterwards are its store. So either the first fault refuses the request and nothing changes,
  or the varbinds take effect in order; a value that only its setter refuses (an integer other than 0 and 1
  for the relay, a string that does not fit) ends the request with \<open>genErr\<close> and keeps what was written
  before it.
\<close>

theorem agent_set_refines_settings:
  assumes "agent_settled d d" and "ctx_ok ctx" and "ctx_access_mode ctx = SNMP_ACCESS_READWRITE"
    and "set_spec (set_fault d) (live_varbinds ctx) (settings_of d) = (status, index, st)"
  shows "\<exists>d'. snmp_pdu_handle_set agent_registry ctx d =
      Some ((BER_OK, ctx\<lparr>ctx_pdu_tag := SNMP_PDU_GET_RESPONSE,
        ctx_error_status := status, ctx_error_index := word_of_nat index\<rparr>), d') \<and>
    settings_of d' = st \<and> agent_settled d' d' \<and> dev_env d' = dev_env d"
  by (rule handle_set_store [OF assms])

text \<open>A good value for \<open>sysName\<close> followed by a value that the relay does not take.\<close>

definition sample_writes :: "snmp_varbind list" where
  "sample_writes =
     [\<lparr>vb_oid = OID_SYS_NAME, vb_tag = BER_TAG_OCTET_STRING, vb_value = UOctets [65]\<rparr>,
      \<lparr>vb_oid = OID_WESPE_RELAY_STATE, vb_tag = BER_TAG_INTEGER, vb_value = UInt 2\<rparr>]"

definition sample_write_request :: snmp_pdu_ctx where
  "sample_write_request =
     request_ctx SNMP_VERSION_V2C (c_lit ''private'') SNMP_ACCESS_READWRITE SNMP_PDU_SET_REQUEST 9 0 0 sample_writes"

lemma scalar_in_view: "obj \<in> scalars agent_registry \<Longrightarrow> mo_oid obj \<in> agent_view d"
  by (auto simp: agent_view_def mib_view_def)

lemma setting_scalars_in_view:
  "OID_SYS_CONTACT \<in> agent_view d" "OID_SYS_NAME \<in> agent_view d" "OID_SYS_LOCATION \<in> agent_view d"
  "OID_WESPE_RELAY_STATE \<in> agent_view d"
proof -
  have "{OID_SYS_CONTACT, OID_SYS_NAME, OID_SYS_LOCATION, OID_WESPE_RELAY_STATE} \<subseteq> mo_oid ` scalars agent_registry"
    by (auto simp: agent_scalars s_mib_ii_objects_def s_mib_wespe_objects_def OID_WESPE_RELAY_STATE_def simp del: set_concat)
  moreover have "mo_oid ` scalars agent_registry \<subseteq> agent_view d" using scalar_in_view by (rule image_subsetI)
  ultimately have "{OID_SYS_CONTACT, OID_SYS_NAME, OID_SYS_LOCATION, OID_WESPE_RELAY_STATE} \<subseteq> agent_view d" by (rule order_trans)
  then show "OID_SYS_CONTACT \<in> agent_view d" "OID_SYS_NAME \<in> agent_view d"
    "OID_SYS_LOCATION \<in> agent_view d" "OID_WESPE_RELAY_STATE \<in> agent_view d" by simp_all
qed

lemma live_varbinds_request [simp]: "live_varbinds (request_ctx version community mode tag rid es ei vbs) = vbs"
  by (simp add: live_varbinds_def request_ctx_def)

lemma sample_writes: "write_all 0 sample_writes st = (Some 1, st\<lparr>set_name := [65]\<rparr>)"
  by (simp add: sample_writes_def write_setting_def OID_WESPE_RELAY_STATE_def c_string_def)

lemma sample_write_facts:
  "ctx_ok sample_write_request" "ctx_access_mode sample_write_request = SNMP_ACCESS_READWRITE"
  "set_spec (set_fault sample_device) (live_varbinds sample_write_request) (settings_of sample_device) =
     (SNMP_V1_ERR_GEN_ERR, 2, (settings_of sample_device)\<lparr>set_name := [65]\<rparr>)"
proof -
  show "ctx_ok sample_write_request"
    unfolding sample_write_request_def by (rule request_ctx_ok) (simp_all add: sample_writes_def wire_ok_def oid_ok_def c_lit_def OID_WESPE_RELAY_STATE_def)
  show "ctx_access_mode sample_write_request = SNMP_ACCESS_READWRITE" by (simp add: sample_write_request_def)
  have "set_fault sample_device vb = SNMP_V1_ERR_NO_ERROR" if "vb \<in> set sample_writes" for vb
    using that setting_scalars_in_view [of sample_device]
    by (auto simp: sample_writes_def set_fault_def settable_def OID_WESPE_RELAY_STATE_def)
  then have "first_fault (set_fault sample_device) 0 sample_writes = None" by (simp add: first_fault_none)
  then show "set_spec (set_fault sample_device) (live_varbinds sample_write_request) (settings_of sample_device) =
     (SNMP_V1_ERR_GEN_ERR, 2, (settings_of sample_device)\<lparr>set_name := [65]\<rparr>)"
    unfolding sample_write_request_def live_varbinds_request by (simp add: set_spec_def sample_writes)
qed

theorem agent_set_refines_settings_witness:
  "\<exists>d'. snmp_pdu_handle_set agent_registry sample_write_request sample_device =
      Some ((BER_OK, sample_write_request\<lparr>ctx_pdu_tag := SNMP_PDU_GET_RESPONSE,
        ctx_error_status := SNMP_V1_ERR_GEN_ERR, ctx_error_index := word_of_nat 2\<rparr>), d') \<and>
    settings_of d' = (settings_of sample_device)\<lparr>set_name := [65]\<rparr> \<and> agent_settled d' d' \<and> dev_env d' = dev_env sample_device"
  by (rule agent_set_refines_settings [OF sample_settled sample_write_facts])

end
