(* ===== verification/Agent_Store_Reads.thy ===== *)
theory Agent_Store_Reads
  imports Agent_Store
begin

text \<open>
  GetRequest as the read of the store of settings, and what is read after a SetRequest.
\<close>

section \<open>GetRequest\<close>

definition setting_varbind :: "agent_settings \<Rightarrow> snmp_varbind \<Rightarrow> snmp_varbind" where
  "setting_varbind st vb =
     \<lparr>vb_oid = vb_oid vb, vb_tag = fst (read_setting (vb_oid vb) st), vb_value = snd (read_setting (vb_oid vb) st)\<rparr>"

text \<open>A getter implements the read of the store.\<close>

lemma get_string_slot:
  "0 \<in> set field \<Longrightarrow> length field \<le> WESPE_STR_MAX \<Longrightarrow>
   get_string_field field vb = Some (vb\<lparr>vb_tag := BER_TAG_OCTET_STRING, vb_value := UOctets (c_string field)\<rparr>)"
  using length_c_string [of field] by (simp add: get_string_field_eq put_octets_def)

lemma scalar_read:
  assumes "dev_ok d" and "obj \<in> scalars agent_registry" and "mo_access obj = MIB_ACCESS_RW"
  shows "mo_getter obj vb d = Some ((MIB_OK, vb\<lparr>vb_tag := fst (read_setting (mo_oid obj) (settings_of d)),
    vb_value := snd (read_setting (mo_oid obj) (settings_of d))\<rparr>), d)"
proof -
  have "0 \<in> set (s_sys_contact d)" "0 \<in> set (s_sys_name d)" "0 \<in> set (s_sys_location d)"
    "length (s_sys_contact d) \<le> WESPE_STR_MAX" "length (s_sys_name d) \<le> WESPE_STR_MAX"
    "length (s_sys_location d) \<le> WESPE_STR_MAX"
    using assms(1) by (simp_all add: dev_ok_def c_array_def)
  with assms(2,3) show ?thesis
    unfolding agent_scalars
    by (auto simp: s_mib_ii_objects_def s_mib_wespe_objects_def s_iftable_scalars_def read_setting_def OID_WESPE_RELAY_STATE_def
        get_sys_contact_def get_sys_name_def get_sys_location_def get_string_slot get_relay_state_def relay_get_state_def
        mock_relay_get_state_def gpio_relay_get_state_def put_int_def)
qed

lemma label_read:
  assumes "agent_settled d d" and "i \<in> set (sensor_rows d)"
  shows "\<exists>d'. sensor_get_cell COL_LABEL i vb d = Some ((MIB_OK,
    vb\<lparr>vb_tag := fst (read_setting (sensor_cell COL_LABEL i) (settings_of d)),
       vb_value := snd (read_setting (sensor_cell COL_LABEL i) (settings_of d))\<rparr>), d')"
proof -
  have d: "dev_ok d" "sensor_fixed d" using assms(1) by (simp_all add: agent_settled_def)
  have row: "row_exists i d = (True, d)" by (rule row_exists_fixed [OF d(2) assms(2)])
  note l = dev_ok_labels [OF d(1), of i d, unfolded row, simplified]
  let ?slot = "label_slot i (s_labels d ! (unat i - 1))"
  have "i \<noteq> 0" using row_slot(2) [OF assms(2)] by auto
  moreover have "s_labels d ! (unat i - 1) \<noteq> []" using l(2) by (auto simp: c_array_def)
  ultimately have "\<exists>d'. label_for i d = Some (?slot, d')" using label_for_eq [of i d] l(1) by simp
  moreover have "0 \<in> set ?slot" "length ?slot \<le> WESPE_STR_MAX"
    using label_slot_ok [OF l(2), of i] by (simp_all add: c_array_def)
  moreover have "read_setting (sensor_cell COL_LABEL i) (settings_of d) = (BER_TAG_OCTET_STRING, UOctets (c_string ?slot))"
    using l(1) row_slot(1) [OF assms(2)]
    by (simp add: read_setting_def s_sensor_table_def cell_oid_def OID_WESPE_RELAY_STATE_def)
  ultimately show ?thesis by (auto simp: sensor_get_cell_def row get_string_slot)
qed

text \<open>A varbind that names an existing setting.\<close>

definition names_setting :: "device \<Rightarrow> snmp_varbind \<Rightarrow> bool" where
  "names_setting d vb \<longleftrightarrow> vb_oid vb \<in> agent_view d \<and> settable (vb_oid vb) \<noteq> None"

lemma resolved_read:
  assumes "agent_settled d0 d" and "resolved_from agent_registry out" and "rs_oid out \<in> agent_view d0"
    and "rs_access out = MIB_ACCESS_RW" and "vb_ok vb"
  shows "\<exists>d'. mib_resolved_get out vb d = Some ((MIB_OK,
      vb\<lparr>vb_tag := fst (read_setting (rs_oid out) (settings_of d0)), vb_value := snd (read_setting (rs_oid out) (settings_of d0))\<rparr>), d') \<and>
    agent_settled d0 d'"
proof -
  have same: "settings_of d = settings_of d0" using assms(1) by (simp add: agent_settled_def same_settings_of)
  have "\<exists>d'. mib_resolved_get out vb d = Some ((MIB_OK,
      vb\<lparr>vb_tag := fst (read_setting (rs_oid out) (settings_of d)), vb_value := snd (read_setting (rs_oid out) (settings_of d))\<rparr>), d')"
    using assms(2)
  proof (cases rule: agent_resolved_cases)
    case (object obj)
    with scalar_read [of d obj] assms(1,4) show ?thesis by (simp add: mib_resolved_get_def scalar_at_def agent_settled_def)
  next
    case (cell t col i)
    have col: "t = s_sensor_table" "col = column COL_LABEL BER_TAG_OCTET_STRING MIB_ACCESS_RW"
      using cell assms(4) by (auto simp: cell_at_def s_iftable_def s_ifxtable_def s_sensor_table_def)
    have x: "rs_oid out = sensor_cell COL_LABEL i" by (simp add: cell(3) cell_at_def col)
    have "i \<in> set (sensor_rows d)"
      using label_in_view [of i d] assms(3) agent_view_settled [OF assms(1)] unfolding x by simp
    moreover have "agent_settled d d" using settled_sensor_fixed [OF assms(1)] by (simp add: agent_settled_def)
    moreover have "mib_resolved_get out vb d = sensor_get_cell COL_LABEL i vb d"
      by (simp add: cell(3) col(2) mib_resolved_get_def cell_at_def) (simp add: col(1) s_sensor_table_def)
    ultimately show ?thesis using label_read unfolding x by simp
  qed
  moreover from agent_settled_reads [of d0] obtain r vb' d'
    where "mib_resolved_get out vb d = Some ((r, vb'), d')" "agent_settled d0 d'"
    by (rule mib_reads.get_total [where I = "agent_settled d0" and s = d, OF _ assms(2,1,5)])
  ultimately show ?thesis unfolding same by auto
qed

lemma setting_lookup:
  assumes "agent_settled d0 d" and "names_setting d0 req" and "vb_ok vb" and "vb_ok req"
  shows "\<exists>d'. lookup_and_fetch agent_registry version LOOKUP_EXACT req vb d =
    Some ((MIB_OK, setting_varbind (settings_of d0) req), d') \<and> agent_settled d0 d'"
  using assms(1)
proof (cases rule: agent_resolve [where x = "vb_oid req"])
  case (none e)
  with assms(2) show ?thesis by (simp add: names_setting_def)
next
  case (some out)
  have rw: "rs_access out = MIB_ACCESS_RW" and tag: "settable (vb_oid req) = Some (rs_value_tag out)"
    using assms(2) resolved_settable [OF some(4)] by (auto simp: names_setting_def some(3) split: if_splits)
  have "rs_value_tag out \<noteq> SNMP_TAG_COUNTER64" using tag by (auto simp: settable_def split: if_splits)
  moreover have "vb_ok (vb\<lparr>vb_oid := rs_oid out\<rparr>)" using assms(3,4) some(3) by (simp add: vb_ok_def)
  from resolved_read [OF assms(1) some(4) _ rw this] some(2,3) obtain d' where
    "mib_resolved_get out (vb\<lparr>vb_oid := rs_oid out\<rparr>) d = Some ((MIB_OK, setting_varbind (settings_of d0) req), d')"
    "agent_settled d0 d'" by (cases vb) (auto simp: setting_varbind_def)
  ultimately show ?thesis using some(1) by (auto simp: lookup_exact)
qed

lemma first_of_slice: "i + Suc n \<le> length xs \<Longrightarrow> take (Suc n) (drop i xs) = xs ! i # take n (drop (i + 1) xs)"
  by (simp add: Cons_nth_drop_Suc [symmetric])

lemma read_slice:
  "i + Suc n \<le> length vbs \<Longrightarrow>
   take (i + 1) (vbs[i := v]) @ map f (take n (drop (i + 1) (vbs[i := v]))) @ drop (i + 1 + n) (vbs[i := v]) =
   take i vbs @ (v # map f (take n (drop (i + 1) vbs))) @ drop (i + Suc n) vbs"
  by (simp add: take_Suc_conv_app_nth drop_update_cancel)

lemma probe_reads:
  assumes "agent_settled d0 d" and "i + n \<le> length vbs" and "\<forall>vb \<in> set (take n (drop i vbs)). vb_ok vb \<and> names_setting d0 vb"
  shows "\<exists>d'. v1_probe agent_registry LOOKUP_EXACT vbs n i d = Some (None, d') \<and> agent_settled d0 d'"
  using assms
proof (induction n arbitrary: i d)
  case (Suc n)
  note list = first_of_slice [OF Suc.prems(2)]
  from Suc.prems(3) have vb: "vb_ok (vbs ! i)" "names_setting d0 (vbs ! i)" unfolding list by simp_all
  from setting_lookup [OF Suc.prems(1) vb(2) vb_ok_zero vb(1)] obtain d1 where
    1: "lookup_and_fetch agent_registry SNMP_VERSION_V1 LOOKUP_EXACT (vbs ! i) vb_zero d =
      Some ((MIB_OK, setting_varbind (settings_of d0) (vbs ! i)), d1)" "agent_settled d0 d1" by blast
  with Suc.IH [OF 1(2), of "i + 1"] Suc.prems show ?case unfolding list by simp
qed simp

lemma commit_reads:
  assumes "agent_settled d0 d" and "i + n \<le> length vbs" and "\<forall>vb \<in> set (take n (drop i vbs)). vb_ok vb \<and> names_setting d0 vb"
  shows "\<exists>d'. v1_commit agent_registry LOOKUP_EXACT vbs n i d =
    Some (take i vbs @ map (setting_varbind (settings_of d0)) (take n (drop i vbs)) @ drop (i + n) vbs, d') \<and> agent_settled d0 d'"
  using assms
proof (induction n arbitrary: i d vbs)
  case (Suc n)
  note list = first_of_slice [OF Suc.prems(2)]
  from Suc.prems(3) have vb: "vb_ok (vbs ! i)" "names_setting d0 (vbs ! i)" unfolding list by simp_all
  from setting_lookup [OF Suc.prems(1) vb(2,1,1)] obtain d1 where
    1: "lookup_and_fetch agent_registry SNMP_VERSION_V1 LOOKUP_EXACT (vbs ! i) (vbs ! i) d =
      Some ((MIB_OK, setting_varbind (settings_of d0) (vbs ! i)), d1)" "agent_settled d0 d1" by blast
  let ?vbs = "vbs[i := setting_varbind (settings_of d0) (vbs ! i)]"
  have "i + 1 + n \<le> length ?vbs" "\<forall>vb \<in> set (take n (drop (i + 1) ?vbs)). vb_ok vb \<and> names_setting d0 vb"
    using Suc.prems(2,3) unfolding list by simp_all
  from Suc.IH [OF 1(2) this] 1(1) Suc.prems(2) show ?case
    unfolding read_slice [OF Suc.prems(2)] list by simp
qed simp

lemma v2c_reads:
  assumes "agent_settled d0 d" and "i + n \<le> length vbs" and "\<forall>vb \<in> set (take n (drop i vbs)). vb_ok vb \<and> names_setting d0 vb"
  shows "\<exists>d'. v2c_read agent_registry version LOOKUP_EXACT vbs n i d =
    Some ((take i vbs @ map (setting_varbind (settings_of d0)) (take n (drop i vbs)) @ drop (i + n) vbs, None), d') \<and>
    agent_settled d0 d'"
  using assms
proof (induction n arbitrary: i d vbs)
  case (Suc n)
  note list = first_of_slice [OF Suc.prems(2)]
  from Suc.prems(3) have vb: "vb_ok (vbs ! i)" "names_setting d0 (vbs ! i)" unfolding list by simp_all
  from setting_lookup [OF Suc.prems(1) vb(2) vb_ok_zero vb(1)] obtain d1 where
    1: "lookup_and_fetch agent_registry version LOOKUP_EXACT (vbs ! i) vb_zero d =
      Some ((MIB_OK, setting_varbind (settings_of d0) (vbs ! i)), d1)" "agent_settled d0 d1" by blast
  let ?vbs = "vbs[i := setting_varbind (settings_of d0) (vbs ! i)]"
  have "i + 1 + n \<le> length ?vbs" "\<forall>vb \<in> set (take n (drop (i + 1) ?vbs)). vb_ok vb \<and> names_setting d0 vb"
    using Suc.prems(2,3) unfolding list by simp_all
  from Suc.IH [OF 1(2) this] 1(1) Suc.prems(2) show ?case
    unfolding read_slice [OF Suc.prems(2)] list by simp
qed simp

text \<open>
  GetRequest implements the read of the store: any number of varbinds that name existing settings, in
  either version, is answered with their values in the store, in order and without an error, and the store
  stays as it is, although reading an empty label stores its default text.
\<close>

lemma handle_get_store:
  assumes "agent_settled d d" and "ctx_ok ctx" and "\<forall>vb \<in> set (live_varbinds ctx). names_setting d vb"
  shows "\<exists>d'. snmp_pdu_handle_get agent_registry ctx d =
      Some ((BER_OK, ctx\<lparr>ctx_varbinds := map (setting_varbind (settings_of d)) (live_varbinds ctx) @
          drop (ctx_varbind_count ctx) (ctx_varbinds ctx),
        ctx_pdu_tag := SNMP_PDU_GET_RESPONSE, ctx_error_status := SNMP_V1_ERR_NO_ERROR, ctx_error_index := 0\<rparr>), d') \<and>
    settings_of d' = settings_of d \<and> agent_settled d d'"
proof -
  let ?vbs = "ctx_varbinds ctx" and ?n = "ctx_varbind_count ctx"
  have n: "0 + ?n \<le> length ?vbs" "\<forall>vb \<in> set (take ?n (drop 0 ?vbs)). vb_ok vb \<and> names_setting d vb"
    using ctx_ok_vbs [OF assms(2)] assms(2,3) by (auto simp: ctx_ok_def live_varbinds_def dest: in_set_takeD)
  show ?thesis
  proof (cases "ctx_version ctx = SNMP_VERSION_V1")
    case True
    obtain d1 where d1: "v1_probe agent_registry LOOKUP_EXACT ?vbs ?n 0 d = Some (None, d1)" "agent_settled d d1"
      using probe_reads [OF assms(1) n] by blast
    with commit_reads [OF d1(2) n] True show ?thesis
      by (auto simp: snmp_pdu_handle_get_def process_read_pdu_def live_varbinds_def agent_settled_def same_settings_of)
  next
    case False
    with v2c_reads [OF assms(1) n, of "ctx_version ctx"] show ?thesis
      by (auto simp: snmp_pdu_handle_get_def process_read_pdu_def live_varbinds_def agent_settled_def same_settings_of)
  qed
qed

text \<open>A v1 request for the name and for the label of the second sensor.\<close>

definition sample_reads :: "snmp_varbind list" where
  "sample_reads = [null_varbind OID_SYS_NAME, null_varbind (sensor_cell COL_LABEL 2)]"

definition sample_read_request :: snmp_pdu_ctx where
  "sample_read_request =
     request_ctx SNMP_VERSION_V1 (c_lit ''public'') SNMP_ACCESS_READ SNMP_PDU_GET_REQUEST 9 0 0 sample_reads"

lemma sample_read_facts:
  "ctx_ok sample_read_request" "\<forall>vb \<in> set (live_varbinds sample_read_request). names_setting sample_device vb"
proof -
  show "ctx_ok sample_read_request"
    unfolding sample_read_request_def
    by (rule request_ctx_ok) (simp_all add: sample_reads_def wire_ok_def oid_ok_def c_lit_def null_varbind_def vb_zero_def cell_oid_def s_sensor_table_def)
  have "2 \<in> set (sensor_rows sample_device)" by (simp add: sample_device_def sample_env_def power_on_def sensor_rows_def)
  then have "names_setting sample_device (null_varbind (sensor_cell COL_LABEL 2))"
    using label_in_view [of 2 sample_device]
    by (simp add: names_setting_def null_varbind_def settable_def cell_oid_def s_sensor_table_def)
  moreover have "names_setting sample_device (null_varbind OID_SYS_NAME)"
    using setting_scalars_in_view(2) [of sample_device] by (simp add: names_setting_def null_varbind_def settable_def)
  ultimately show "\<forall>vb \<in> set (live_varbinds sample_read_request). names_setting sample_device vb"
    by (simp add: sample_read_request_def sample_reads_def)
qed

section \<open>What was written is read\<close>

text \<open>What the store holds of a written value: a string ends at its first NUL, an empty label is the default one.\<close>

definition written :: "snmp_varbind \<Rightarrow> snmp_varbind" where
  "written vb =
     (case vb_value vb of
        UOctets bs \<Rightarrow> vb\<lparr>vb_value := UOctets
          (if vb_oid vb \<in> {OID_SYS_CONTACT, OID_SYS_NAME, OID_SYS_LOCATION} then c_string bs
           else label_text (last (vb_oid vb)) bs)\<rparr>
      | _ \<Rightarrow> vb)"

text \<open>The names of the settings of a store: its labels are numbered from 1.\<close>

definition setting_name :: "oid \<Rightarrow> agent_settings \<Rightarrow> bool" where
  "setting_name x st \<longleftrightarrow> settable x \<noteq> None \<and>
     (x \<notin> {OID_SYS_CONTACT, OID_SYS_NAME, OID_SYS_LOCATION, OID_WESPE_RELAY_STATE} \<longrightarrow>
        last x \<noteq> 0 \<and> unat (last x) \<le> length (set_labels st))"

lemma label_name_shape:
  assumes "settable x \<noteq> None" and "x \<notin> {OID_SYS_CONTACT, OID_SYS_NAME, OID_SYS_LOCATION, OID_WESPE_RELAY_STATE}"
  shows "x = sensor_cell COL_LABEL (last x)"
proof -
  have x: "length x = 12" "take 11 x = [1, 3, 6, 1, 4, 1, 99999, 2, 6, 1, COL_LABEL]"
    using assms by (auto simp: settable_def split: if_splits)
  then have "x \<noteq> []" by auto
  then have "x = take 11 x @ [last x]" using append_butlast_last_id [of x] x(1) by (simp add: butlast_conv_take)
  with x(2) show ?thesis by (simp add: cell_oid_def s_sensor_table_def)
qed

lemma label_name_eq:
  assumes "setting_name x st" and "setting_name y st"
    and "x \<notin> {OID_SYS_CONTACT, OID_SYS_NAME, OID_SYS_LOCATION, OID_WESPE_RELAY_STATE}"
    and "y \<notin> {OID_SYS_CONTACT, OID_SYS_NAME, OID_SYS_LOCATION, OID_WESPE_RELAY_STATE}"
    and "unat (last x) - 1 = unat (last y) - 1"
  shows "x = y"
proof -
  have "0 < unat (last x)" "0 < unat (last y)" using assms(1-4) by (simp_all add: setting_name_def unat_gt_0)
  then have "unat (last x) = unat (last y)" using assms(5) by linarith
  then have "last x = last y" by (rule unsigned_word_eqI)
  with label_name_shape [of x] label_name_shape [of y] assms(1-4) show ?thesis unfolding setting_name_def by metis
qed

lemma setting_name_settled:
  assumes "agent_settled d d" and "names_setting d vb"
  shows "setting_name (vb_oid vb) (settings_of d)"
proof -
  have "length (s_labels d) = SENSOR_MAX_COUNT" using assms(1) by (simp add: agent_settled_def dev_ok_def)
  moreover have "last (vb_oid vb) = 1 \<or> last (vb_oid vb) = 2 \<or> last (vb_oid vb) = 3"
    if "vb_oid vb \<notin> {OID_SYS_CONTACT, OID_SYS_NAME, OID_SYS_LOCATION, OID_WESPE_RELAY_STATE}"
    using label_name_shape [OF _ that] label_in_view [of "last (vb_oid vb)" d] assms(2) sensor_row_cases
    unfolding names_setting_def by metis
  ultimately show ?thesis using assms(2) unfolding setting_name_def names_setting_def by fastforce
qed

lemma write_setting_labels: "write_setting vb st = Some st' \<Longrightarrow> length (set_labels st') = length (set_labels st)"
  by (auto simp: write_setting_def Let_def bind_eq_Some_conv split: if_splits)

text \<open>The effect of a write by the kind of its name.\<close>

lemma write_setting_cases:
  assumes "write_setting vb st = Some st'"
  obtains (relay) v where "vb_oid vb = OID_WESPE_RELAY_STATE" "read_int (vb_value vb) = Some v" "v = 0 \<or> v = 1"
      "st' = st\<lparr>set_relay := (v = 1)\<rparr>"
    | (contact) bs where "vb_oid vb = OID_SYS_CONTACT" "read_octets (vb_value vb) = Some bs" "st' = st\<lparr>set_contact := c_string bs\<rparr>"
    | (name) bs where "vb_oid vb = OID_SYS_NAME" "read_octets (vb_value vb) = Some bs" "st' = st\<lparr>set_name := c_string bs\<rparr>"
    | (location) bs where "vb_oid vb = OID_SYS_LOCATION" "read_octets (vb_value vb) = Some bs"
      "st' = st\<lparr>set_location := c_string bs\<rparr>"
    | (label) bs where "vb_oid vb \<notin> {OID_SYS_CONTACT, OID_SYS_NAME, OID_SYS_LOCATION, OID_WESPE_RELAY_STATE}"
      "read_octets (vb_value vb) = Some bs"
      "st' = st\<lparr>set_labels := (set_labels st)[unat (last (vb_oid vb)) - 1 := label_text (last (vb_oid vb)) bs]\<rparr>"
proof (cases "vb_oid vb = OID_WESPE_RELAY_STATE")
  case True
  with assms obtain v where v: "read_int (vb_value vb) = Some v" "(if v = 0 \<or> v = 1 then Some (st\<lparr>set_relay := (v = 1)\<rparr>) else None) = Some st'"
    by (auto simp: write_setting_def bind_eq_Some_conv)
  from v(2) have "v = 0 \<or> v = 1" "st' = st\<lparr>set_relay := (v = 1)\<rparr>" by (simp_all split: if_splits)
  with True v(1) show ?thesis by (rule relay)
next
  case False
  with assms obtain bs where bs: "read_octets (vb_value vb) = Some bs"
    by (auto simp: write_setting_def Let_def bind_eq_Some_conv)
  note eval = assms [unfolded write_setting_def Let_def] False bs
  consider "vb_oid vb = OID_SYS_CONTACT" | "vb_oid vb = OID_SYS_NAME" | "vb_oid vb = OID_SYS_LOCATION"
    | "vb_oid vb \<notin> {OID_SYS_CONTACT, OID_SYS_NAME, OID_SYS_LOCATION, OID_WESPE_RELAY_STATE}" using False by blast
  then show ?thesis
  proof cases
    case 1
    with eval show ?thesis by (intro contact [OF 1 bs]) (simp split: if_splits)
  next
    case 2
    with eval show ?thesis by (intro name [OF 2 bs]) (simp split: if_splits)
  next
    case 3
    with eval show ?thesis by (intro location [OF 3 bs]) (simp split: if_splits)
  next
    case 4
    with eval show ?thesis by (intro label [OF 4 bs]) (simp split: if_splits)
  qed
qed

lemma read_written:
  assumes "write_setting vb st = Some st'" and "setting_name (vb_oid vb) st" and "vb_ok vb" and "settable (vb_oid vb) = Some (vb_tag vb)"
  shows "setting_varbind st' vb = written vb"
  using assms(1)
proof (cases rule: write_setting_cases)
  case (relay v)
  then have tag: "vb_tag vb = BER_TAG_INTEGER" using assms(4) by (simp add: settable_def OID_WESPE_RELAY_STATE_def)
  then obtain u where "vb_value vb = UInt u" using assms(3) by (auto simp: vb_ok_def value_ok_def)
  with relay tag show ?thesis by (cases vb) (auto simp: setting_varbind_def read_setting_def written_def)
next
  case (label bs)
  then have tag: "vb_tag vb = BER_TAG_OCTET_STRING" using assms(4) by (auto simp: settable_def split: if_splits)
  then have "vb_value vb = UOctets bs" using label(2) octets_vb [OF assms(3)] by auto
  moreover have "unat (last (vb_oid vb)) - 1 < length (set_labels st)"
    using assms(2) label(1) unat_gt_0 [of "last (vb_oid vb)"] by (simp add: setting_name_def) linarith
  ultimately show ?thesis using tag label(1,3) by (cases vb) (simp add: setting_varbind_def read_setting_def written_def)
qed (use octets_vb [OF assms(3)] assms(4) in
  \<open>cases vb; force simp: setting_varbind_def read_setting_def written_def settable_def OID_WESPE_RELAY_STATE_def\<close>)+

lemma read_other:
  assumes "write_setting vb st = Some st'" and "setting_name (vb_oid vb) st" and "setting_name x st" and "x \<noteq> vb_oid vb"
  shows "read_setting x st' = read_setting x st"
  using assms(1)
proof (cases rule: write_setting_cases)
  case (label bs)
  have "unat (last x) - 1 \<noteq> unat (last (vb_oid vb)) - 1"
    if "x \<notin> {OID_SYS_CONTACT, OID_SYS_NAME, OID_SYS_LOCATION, OID_WESPE_RELAY_STATE}"
    using label_name_eq [OF assms(3,2) that label(1)] assms(4) by blast
  with label(3) show ?thesis unfolding read_setting_def by (auto simp: nth_list_update_neq)
qed (use assms(4) in \<open>simp_all add: read_setting_def\<close>)

lemma setting_name_write: "write_setting vb st = Some st' \<Longrightarrow> setting_name x st' = setting_name x st"
  by (simp add: setting_name_def write_setting_labels)

lemma write_all_frame:
  assumes "write_all i vbs st = (None, st')" and "\<forall>vb \<in> set vbs. setting_name (vb_oid vb) st" and "setting_name x st"
    and "x \<notin> vb_oid ` set vbs"
  shows "read_setting x st' = read_setting x st"
  using assms
proof (induction vbs arbitrary: i st)
  case (Cons vb vbs)
  then obtain st1 where st1: "write_setting vb st = Some st1" "write_all (i + 1) vbs st1 = (None, st')"
    by (auto split: option.splits)
  have "read_setting x st' = read_setting x st1"
    using Cons.prems by (intro Cons.IH [OF st1(2)]) (simp_all add: setting_name_write [OF st1(1)])
  also have "\<dots> = read_setting x st"
    using Cons.prems by (intro read_other [OF st1(1)]) auto
  finally show ?case .
qed simp

lemma write_all_read:
  assumes "write_all i vbs st = (None, st')" and "distinct (map vb_oid vbs)"
    and "\<forall>vb \<in> set vbs. setting_name (vb_oid vb) st \<and> vb_ok vb \<and> settable (vb_oid vb) = Some (vb_tag vb)"
  shows "map (setting_varbind st') vbs = map written vbs"
  using assms
proof (induction vbs arbitrary: i st)
  case (Cons vb vbs)
  then obtain st1 where st1: "write_setting vb st = Some st1" "write_all (i + 1) vbs st1 = (None, st')"
    by (auto split: option.splits)
  have "map (setting_varbind st') vbs = map written vbs"
    using Cons.prems by (intro Cons.IH [OF st1(2)]) (simp_all add: setting_name_write [OF st1(1)])
  moreover have "read_setting (vb_oid vb) st' = read_setting (vb_oid vb) st1"
    using Cons.prems by (intro write_all_frame [OF st1(2)]) (auto simp: setting_name_write [OF st1(1)])
  moreover have "setting_varbind st1 vb = written vb" using Cons.prems by (intro read_written [OF st1(1)]) simp_all
  ultimately show ?case by (simp add: setting_varbind_def)
qed simp

lemma good_names:
  "set_fault d vb = SNMP_V1_ERR_NO_ERROR \<Longrightarrow> names_setting d vb \<and> settable (vb_oid vb) = Some (vb_tag vb)"
  by (auto simp: set_fault_def names_setting_def split: if_splits option.splits)

lemma set_spec_accepted:
  assumes "set_spec fault vbs st = (SNMP_V1_ERR_NO_ERROR, index, st')"
  shows "\<forall>vb \<in> set vbs. fault vb = SNMP_V1_ERR_NO_ERROR" and "write_all 0 vbs st = (None, st')"
proof -
  have "first_fault fault i vbs = Some (status, k) \<Longrightarrow> status \<noteq> SNMP_V1_ERR_NO_ERROR" for i status k
    by (induction vbs arbitrary: i) (auto split: if_splits)
  with assms have none: "first_fault fault 0 vbs = None" by (auto simp: set_spec_def split: option.splits prod.splits)
  then show "\<forall>vb \<in> set vbs. fault vb = SNMP_V1_ERR_NO_ERROR" by (simp add: first_fault_none)
  from none assms show "write_all 0 vbs st = (None, st')" by (auto simp: set_spec_def split: option.splits prod.splits)
qed

lemma setting_varbind_names:
  "map vb_oid xs = map vb_oid ys \<Longrightarrow> map (setting_varbind st) xs = map (setting_varbind st) ys"
proof -
  assume eq: "map vb_oid xs = map vb_oid ys"
  have "map (setting_varbind st) zs = map (\<lambda>x. \<lparr>vb_oid = x, vb_tag = fst (read_setting x st), vb_value = snd (read_setting x st)\<rparr>)
      (map vb_oid zs)" for zs by (simp add: setting_varbind_def)
  from this [of xs] this [of ys] show ?thesis unfolding eq by simp
qed

text \<open>
  C5. What a manager sets is what it reads: after a SetRequest for any number of different names that was
  answered without an error, a GetRequest for these names, of either version and under either community,
  is answered without an error and with the values that were set, except that a string ends at its first
  NUL and that an empty label reads as the generated one.
\<close>

theorem agent_set_then_get:
  assumes "agent_settled d d" and "ctx_ok ctx" and "distinct (map vb_oid (live_varbinds ctx))"
    and "snmp_pdu_handle_set agent_registry ctx d = Some ((BER_OK, response), d')"
    and "ctx_error_status response = SNMP_V1_ERR_NO_ERROR"
    and "ctx_ok ctx'" and "map vb_oid (live_varbinds ctx') = map vb_oid (live_varbinds ctx)"
  shows "\<exists>d''. snmp_pdu_handle_get agent_registry ctx' d' =
    Some ((BER_OK, ctx'\<lparr>ctx_varbinds := map written (live_varbinds ctx) @ drop (ctx_varbind_count ctx') (ctx_varbinds ctx'),
      ctx_pdu_tag := SNMP_PDU_GET_RESPONSE, ctx_error_status := SNMP_V1_ERR_NO_ERROR, ctx_error_index := 0\<rparr>), d'')"
proof -
  let ?vbs = "live_varbinds ctx"
  have rw: "ctx_access_mode ctx = SNMP_ACCESS_READWRITE" using assms(4) by (auto simp: snmp_pdu_handle_set_def split: if_splits)
  obtain status index st where spec: "set_spec (set_fault d) ?vbs (settings_of d) = (status, index, st)"
    by (cases "set_spec (set_fault d) ?vbs (settings_of d)") auto
  from handle_set_store [OF assms(1,2) rw spec] assms(4,5) have
    d': "settings_of d' = st" "agent_settled d' d'" "dev_env d' = dev_env d" and "status = SNMP_V1_ERR_NO_ERROR" by auto
  note ok = set_spec_accepted [OF spec [unfolded \<open>status = _\<close>]]
  have vbs: "\<forall>vb \<in> set ?vbs. vb_ok vb" using assms(2) by (auto simp: ctx_ok_def live_varbinds_def dest: in_set_takeD)
  have "setting_name (vb_oid vb) (settings_of d) \<and> vb_ok vb \<and> settable (vb_oid vb) = Some (vb_tag vb)" if "vb \<in> set ?vbs" for vb
  proof -
    from ok(1) that have "set_fault d vb = SNMP_V1_ERR_NO_ERROR" by blast
    from good_names [OF this] setting_name_settled [OF assms(1)] vbs that show ?thesis by blast
  qed
  then have "map (setting_varbind st) ?vbs = map written ?vbs" by (intro write_all_read [OF ok(2) assms(3)]) blast
  then have "map (setting_varbind (settings_of d')) (live_varbinds ctx') = map written ?vbs"
    unfolding d'(1) setting_varbind_names [OF assms(7)] .
  moreover have "names_setting d' vb" if "vb \<in> set (live_varbinds ctx')" for vb
  proof -
    have "vb_oid vb \<in> set (map vb_oid ?vbs)" unfolding assms(7) [symmetric] using that by simp
    then obtain v where v: "v \<in> set ?vbs" "vb_oid v = vb_oid vb" by auto
    then have "set_fault d' v = SNMP_V1_ERR_NO_ERROR" using ok(1) set_fault_env [OF d'(3)] by simp
    from good_names [OF this] v(2) show ?thesis by (simp add: names_setting_def)
  qed
  ultimately show ?thesis using handle_get_store [OF d'(2) assms(6)] by auto
qed

text \<open>A name with a NUL in it and an empty label: what is read are ``A'' and the default label.\<close>

definition sample_name_and_label :: "snmp_varbind list" where
  "sample_name_and_label =
     [\<lparr>vb_oid = OID_SYS_NAME, vb_tag = BER_TAG_OCTET_STRING, vb_value = UOctets [65, 0, 66]\<rparr>,
      \<lparr>vb_oid = sensor_cell COL_LABEL 2, vb_tag = BER_TAG_OCTET_STRING, vb_value = UOctets []\<rparr>]"

definition sample_set_request :: snmp_pdu_ctx where
  "sample_set_request =
     request_ctx SNMP_VERSION_V2C (c_lit ''private'') SNMP_ACCESS_READWRITE SNMP_PDU_SET_REQUEST 9 0 0 sample_name_and_label"

lemma sample_set_request_ok: "ctx_ok sample_set_request"
  unfolding sample_set_request_def
  by (rule request_ctx_ok)
    (simp_all add: sample_name_and_label_def wire_ok_def oid_ok_def c_lit_def cell_oid_def s_sensor_table_def)

lemma sample_name_and_label_names:
  "map vb_oid (live_varbinds sample_set_request) = [OID_SYS_NAME, sensor_cell COL_LABEL 2]"
  "map vb_oid (live_varbinds sample_read_request) = [OID_SYS_NAME, sensor_cell COL_LABEL 2]"
  unfolding sample_set_request_def sample_read_request_def live_varbinds_request
  by (simp_all add: sample_name_and_label_def sample_reads_def null_varbind_def)

lemma sample_name_and_label_written:
  "map written (live_varbinds sample_set_request) =
     [\<lparr>vb_oid = OID_SYS_NAME, vb_tag = BER_TAG_OCTET_STRING, vb_value = UOctets [65]\<rparr>,
      \<lparr>vb_oid = sensor_cell COL_LABEL 2, vb_tag = BER_TAG_OCTET_STRING, vb_value = UOctets (c_lit ''sensor2'')\<rparr>]"
proof -
  have "label_text 2 [] = c_lit ''sensor2''" by code_simp
  then show ?thesis
    unfolding sample_set_request_def live_varbinds_request
    by (simp add: sample_name_and_label_def written_def c_string_def cell_oid_def s_sensor_table_def)
qed

lemma sample_set_answered:
  obtains response d' where "snmp_pdu_handle_set agent_registry sample_set_request sample_device = Some ((BER_OK, response), d')"
    "ctx_error_status response = SNMP_V1_ERR_NO_ERROR"
proof -
  have rw: "ctx_access_mode sample_set_request = SNMP_ACCESS_READWRITE" by (simp add: sample_set_request_def)
  have "set_fault sample_device vb = SNMP_V1_ERR_NO_ERROR" if "vb \<in> set sample_name_and_label" for vb
    using that sample_read_facts(2)
    by (auto simp: sample_name_and_label_def set_fault_def sample_read_request_def sample_reads_def names_setting_def
        null_varbind_def settable_def cell_oid_def s_sensor_table_def OID_WESPE_RELAY_STATE_def)
  then have "first_fault (set_fault sample_device) 0 sample_name_and_label = None" by (simp add: first_fault_none)
  moreover have "\<exists>st'. write_all 0 sample_name_and_label st = (None, st')" for st
    by (simp add: sample_name_and_label_def write_setting_def OID_WESPE_RELAY_STATE_def cell_oid_def s_sensor_table_def)
  then obtain st where "write_all 0 sample_name_and_label (settings_of sample_device) = (None, st)" by blast
  ultimately have "set_spec (set_fault sample_device) (live_varbinds sample_set_request) (settings_of sample_device) =
      (SNMP_V1_ERR_NO_ERROR, 0, st)"
    unfolding sample_set_request_def live_varbinds_request by (simp add: set_spec_def)
  from handle_set_store [OF sample_settled sample_set_request_ok rw this] obtain d' where
    "snmp_pdu_handle_set agent_registry sample_set_request sample_device = Some ((BER_OK, sample_set_request\<lparr>
      ctx_pdu_tag := SNMP_PDU_GET_RESPONSE, ctx_error_status := SNMP_V1_ERR_NO_ERROR, ctx_error_index := word_of_nat 0\<rparr>), d')"
    by blast
  then show thesis by (rule that) simp
qed

theorem agent_set_then_get_witness:
  "\<exists>response d' d''. snmp_pdu_handle_set agent_registry sample_set_request sample_device = Some ((BER_OK, response), d') \<and>
    snmp_pdu_handle_get agent_registry sample_read_request d' = Some ((BER_OK, sample_read_request\<lparr>
      ctx_varbinds := [\<lparr>vb_oid = OID_SYS_NAME, vb_tag = BER_TAG_OCTET_STRING, vb_value = UOctets [65]\<rparr>,
          \<lparr>vb_oid = sensor_cell COL_LABEL 2, vb_tag = BER_TAG_OCTET_STRING, vb_value = UOctets (c_lit ''sensor2'')\<rparr>] @
        drop 2 (ctx_varbinds sample_read_request),
      ctx_pdu_tag := SNMP_PDU_GET_RESPONSE, ctx_error_status := SNMP_V1_ERR_NO_ERROR, ctx_error_index := 0\<rparr>), d'')"
proof -
  obtain response d' where set: "snmp_pdu_handle_set agent_registry sample_set_request sample_device = Some ((BER_OK, response), d')"
    "ctx_error_status response = SNMP_V1_ERR_NO_ERROR" by (rule sample_set_answered)
  have "distinct (map vb_oid (live_varbinds sample_set_request))"
    unfolding sample_name_and_label_names by (simp add: cell_oid_def s_sensor_table_def)
  from agent_set_then_get [OF sample_settled sample_set_request_ok this set sample_read_facts(1)]
  have "\<exists>d''. snmp_pdu_handle_get agent_registry sample_read_request d' = Some ((BER_OK, sample_read_request\<lparr>
      ctx_varbinds := map written (live_varbinds sample_set_request) @
        drop (ctx_varbind_count sample_read_request) (ctx_varbinds sample_read_request),
      ctx_pdu_tag := SNMP_PDU_GET_RESPONSE, ctx_error_status := SNMP_V1_ERR_NO_ERROR, ctx_error_index := 0\<rparr>), d'')"
    by (simp only: sample_name_and_label_names)
  moreover have "ctx_varbind_count sample_read_request = 2" by (simp add: sample_read_request_def sample_reads_def)
  ultimately show ?thesis using set(1) unfolding sample_name_and_label_written by auto
qed

end
