(* ===== verification/Buffer_Properties.thy ===== *)
theory Buffer_Properties
  imports Agent_Samples
begin

text \<open>
  Nothing that the buffers of the SNMP task hold besides the datagram being served has any influence on
  the running firmware.
\<close>

lemma agent_security_local: "security_local (agent_security cfg)"
  by (simp add: security_local_def agent_security_def community_model_local usm_model_local)

text \<open>Two systems that differ at most in what the receive buffer holds.\<close>

definition same_but_buffer :: "system \<Rightarrow> system \<Rightarrow> bool" where
  "same_but_buffer s s' \<longleftrightarrow> sys_dev s' = sys_dev s \<and> sys_tr s' = sys_tr s \<and> sys_monitor s' = sys_monitor s \<and>
     (case sys_udp s of
        Udp_Running task \<Rightarrow> (\<exists>task'. sys_udp s' = Udp_Running task' \<and> udp_sock task' = udp_sock task \<and>
          length (in_buf task') = SNMP_MAX_PACKET_LEN)
      | st \<Rightarrow> sys_udp s' = st)"

text \<open>The same turn, with other contents in the output buffer.\<close>

fun same_turn :: "turn \<Rightarrow> turn \<Rightarrow> bool" where
  "same_turn (Udp_Receive received out) (Udp_Receive received' out') \<longleftrightarrow>
     received' = received \<and> length out' = SNMP_MAX_PACKET_LEN"
| "same_turn e e' \<longleftrightarrow> e' = e"

lemma same_but_buffer_refl: "system_ok s \<Longrightarrow> same_but_buffer s s"
  by (auto simp: same_but_buffer_def system_ok_def split: udp_state.split)

lemma agent_turn_same:
  assumes "system_ok s" and "same_but_buffer s s'" and "same_turn e e'" and "turn_ok e s"
    and "agent_turn cfg (agent_security cfg) agent_registry e s = Some s1"
  shows "\<exists>s1'. agent_turn cfg (agent_security cfg) agent_registry e' s' = Some s1' \<and> same_but_buffer s1 s1' \<and> turn_ok e' s'"
proof (cases e)
  case Udp_Open
  then have "e' = Udp_Open" using assms(3) by (cases e') simp_all
  obtain task tr where open_eq: "snmp_udp_open (sys_tr s) = (task, tr)" by fastforce
  have "sys_udp s = Udp_Created" using assms(4) Udp_Open by simp
  with open_eq Udp_Open \<open>e' = Udp_Open\<close> assms(2,5) snmp_udp_open_ok show ?thesis
    by (cases task) (fastforce simp: agent_turn_def same_but_buffer_def)+
next
  case (Udp_Receive received out)
  then obtain out' where e': "e' = Udp_Receive received out'" "length out' = SNMP_MAX_PACKET_LEN"
    using assms(3) by (cases e') simp_all
  have out: "length out = SNMP_MAX_PACKET_LEN" using assms(4) Udp_Receive by simp
  show ?thesis
  proof (cases "sys_udp s")
    case (Udp_Running task)
    then obtain task' where task': "sys_udp s' = Udp_Running task'" "udp_sock task' = udp_sock task"
      "length (in_buf task') = SNMP_MAX_PACKET_LEN" and same: "sys_dev s' = sys_dev s" "sys_tr s' = sys_tr s" "sys_monitor s' = sys_monitor s"
      using assms(2) by (auto simp: same_but_buffer_def)
    have ok: "dev_ok (sys_dev s)" "length (in_buf task) = SNMP_MAX_PACKET_LEN"
      using assms(1) Udp_Running by (simp_all add: system_ok_def)
    obtain t1 d1 tr1 where turn: "snmp_udp_turn agent_registry (agent_security cfg) received out task (sys_dev s) (sys_tr s) = Some (t1, d1, tr1)"
      "s1 = s\<lparr>sys_dev := d1, sys_tr := tr1, sys_udp := Udp_Running t1\<rparr>"
      using assms(5) Udp_Receive Udp_Running by (auto simp: agent_turn_def bind_eq_Some_conv)
    from agent.udp_turn_local [OF agent_security_ok agent_security_local ok(1) ok(2) task'(3) out e'(2) task'(2) turn(1)]
    obtain t1' where "snmp_udp_turn agent_registry (agent_security cfg) received out' task' (sys_dev s) (sys_tr s) = Some (t1', d1, tr1)"
      "udp_sock t1' = udp_sock t1" "length (in_buf t1') = SNMP_MAX_PACKET_LEN" by blast
    with turn(2) e' task'(1) same show ?thesis by (simp add: agent_turn_def same_but_buffer_def)
  qed (use Udp_Receive e' assms(2,5) in \<open>auto simp: agent_turn_def same_but_buffer_def\<close>)
next
  case (Monitor_Poll packet)
  then have "e' = Monitor_Poll packet" using assms(3) by (cases e') simp_all
  with Monitor_Poll assms(2,4,5) show ?thesis
    by (cases "sys_monitor s") (auto simp: agent_turn_def same_but_buffer_def bind_eq_Some_conv split: udp_state.splits)
qed

text \<open>
  C9. No stale byte of a buffer ever matters: two runs of the firmware over the same receptions and monitor
  polls, which start with different contents of the receive buffer and find different contents in the output
  buffer at every turn, send the same datagrams and leave the same device. In particular no byte of an
  earlier datagram, or of whatever was in memory before, leaks into an answer.
\<close>

theorem agent_ignores_stale_buffers:
  assumes "config_ok cfg" and "system_ok s0" and "same_but_buffer s0 s0'"
    and "agent_reaches cfg (agent_security cfg) agent_registry s0 es s" and "list_all2 same_turn es es'"
  shows "\<exists>s'. agent_reaches cfg (agent_security cfg) agent_registry s0' es' s' \<and> same_but_buffer s s'"
  using assms(4,5)
proof (induction arbitrary: es' rule: agent_reaches.induct)
  case reach_start
  with assms(3) show ?case by (auto intro: agent_reaches.reach_start)
next
  case (reach_turn es s e s1)
  from reach_turn.prems obtain fs f where es': "es' = fs @ [f]" "list_all2 same_turn es fs" "same_turn e f"
    by (auto simp: list_all2_append1 list_all2_Cons1)
  from reach_turn.IH [OF es'(2)] obtain s' where
    s': "agent_reaches cfg (agent_security cfg) agent_registry s0' fs s'" "same_but_buffer s s'" by blast
  have "system_ok s" by (rule system_ok_reach [OF assms(1) agent_security_ok assms(2) reach_turn.hyps(1)])
  from agent_turn_same [OF this s'(2) es'(3) reach_turn.hyps(2,3)] s'(1) show ?case
    unfolding es'(1) by (blast intro: agent_reaches.reach_turn)
qed

text \<open>The sample request, with zeros in the buffers and with sevens and nines in them.\<close>

theorem agent_ignores_stale_buffers_witness:
  "\<exists>s s'. agent_reaches sample_config (agent_security sample_config) agent_registry sample_system [sample_turn] s \<and>
     agent_reaches sample_config (agent_security sample_config) agent_registry
       (sample_system\<lparr>sys_udp := Udp_Running \<lparr>udp_sock = 54, in_buf = replicate SNMP_MAX_PACKET_LEN 7\<rparr>\<rparr>)
       [Udp_Receive (Some (\<lparr>sin_addr = [192, 168, 1, 2], sin_port = 50000\<rparr>, sample_request)) (replicate SNMP_MAX_PACKET_LEN 9)] s' \<and>
     same_but_buffer s s'"
proof -
  obtain s where s: "agent_reaches sample_config (agent_security sample_config) agent_registry sample_system [sample_turn] s"
    by (rule sample_reaches)
  have "same_but_buffer sample_system
    (sample_system\<lparr>sys_udp := Udp_Running \<lparr>udp_sock = 54, in_buf = replicate SNMP_MAX_PACKET_LEN 7\<rparr>\<rparr>)"
    by (simp add: same_but_buffer_def sample_system_def)
  from agent_ignores_stale_buffers [OF sample_config_ok sample_system_ok this s] s show ?thesis
    by (fastforce simp: sample_turn_def)
qed

end
