(* ===== verification/Agent_Runs.thy ===== *)
theory Agent_Runs
  imports Agent_Store_Reads Buffer_Properties Agent_Protocol Trap_Monitor_Correct
begin

text \<open>
  The running firmware against the store of settings: what any sequence of datagrams and monitor polls does
  to the settings is what the SetRequests among them do to the store.
\<close>

section \<open>One datagram\<close>

text \<open>The effect of a datagram on the store: that of the SetRequest in it, if it is one and may write.\<close>

definition request_settings :: "(snmp_varbind \<Rightarrow> i32) \<Rightarrow> snmp_pdu_ctx \<Rightarrow> agent_settings \<Rightarrow> agent_settings" where
  "request_settings fault ctx st =
     (if ctx_pdu_tag ctx = SNMP_PDU_SET_REQUEST \<and> ctx_access_mode ctx = SNMP_ACCESS_READWRITE
      then snd (snd (set_spec fault (live_varbinds ctx) st)) else st)"

definition datagram_settings :: "config \<Rightarrow> (snmp_varbind \<Rightarrow> i32) \<Rightarrow> u8 list \<Rightarrow> agent_settings \<Rightarrow> agent_settings" where
  "datagram_settings cfg fault bytes st =
     (case message_accept (agent_security cfg) bytes (length bytes) of
        Some (Inr (model, ctx)) \<Rightarrow> request_settings fault ctx st
      | _ \<Rightarrow> st)"

lemma dispatch_store:
  assumes "agent_settled d d" and "ctx_ok ctx"
  shows "\<exists>x d'. snmp_dispatch_pdu agent_registry ctx d = Some (x, d') \<and> agent_settled d' d' \<and> dev_env d' = dev_env d \<and>
    settings_of d' = request_settings (set_fault d) ctx (settings_of d)"
proof (cases "ctx_pdu_tag ctx = SNMP_PDU_SET_REQUEST \<and> ctx_access_mode ctx = SNMP_ACCESS_READWRITE")
  case True
  obtain status index st where spec: "set_spec (set_fault d) (live_varbinds ctx) (settings_of d) = (status, index, st)"
    by (cases "set_spec (set_fault d) (live_varbinds ctx) (settings_of d)") auto
  from handle_set_store [OF assms _ this] True show ?thesis
    by (auto simp: snmp_dispatch_pdu_def request_settings_def spec)
next
  case False
  have "mib_reads agent_registry (agent_settled d)" by (rule agent_settled_reads)
  from mib_reads.dispatch_reads [OF this assms] False obtain x d' where
    d': "snmp_dispatch_pdu agent_registry ctx d = Some (x, d')" "agent_settled d d'" by blast
  from d'(2) have same: "same_settings d d'" by (simp add: agent_settled_def)
  then have "dev_env d' = dev_env d" by (simp add: same_settings_def)
  moreover have "settings_of d' = request_settings (set_fault d) ctx (settings_of d)"
    unfolding request_settings_def if_not_P [OF False] by (rule same_settings_of [OF same])
  moreover have "agent_settled d' d'" using settled_sensor_fixed [OF d'(2)] by (simp add: agent_settled_def)
  ultimately show ?thesis using d'(1) by (intro exI [of _ x] exI [of _ d'] conjI) assumption+
qed

lemma message_store:
  assumes "agent_settled d d" and "n \<le> length msg" and "0 < n" and "0 < cap"
    and run: "snmp_message_process agent_registry (agent_security cfg) msg n out cap d = Some (r, d')"
  shows "agent_settled d' d' \<and> dev_env d' = dev_env d \<and>
    settings_of d' = datagram_settings cfg (set_fault d) (take n msg) (settings_of d)"
proof -
  have local: "message_accept (agent_security cfg) (take n msg) (length (take n msg)) = message_accept (agent_security cfg) msg n"
    unfolding length_take min_absorb2 [OF assms(2)]
    by (rule message_accept_local [OF agent_security_ok agent_security_local assms(2)]) simp
  from message_accept_safe [OF agent_security_ok [of cfg] assms(2)] show ?thesis
  proof (cases rule: returns_cases)
    case (1 e)
    with run assms(1,3,4) show ?thesis
      unfolding datagram_settings_def local by (simp add: snmp_message_process_def)
  next
    case (2 x)
    then obtain model ctx where acc: "message_accept (agent_security cfg) msg n = Some (Inr (model, ctx))" "ctx_ok ctx"
      by (cases x) auto
    from dispatch_store [OF assms(1) acc(2)] obtain y s1 where
      disp: "snmp_dispatch_pdu agent_registry ctx d = Some (y, s1)" "agent_settled s1 s1 \<and> dev_env s1 = dev_env d"
        "settings_of s1 = request_settings (set_fault d) ctx (settings_of d)" by blast
    then have "d' = s1"
      using run assms(3,4) acc
      by (cases y) (auto simp: snmp_message_process_def bind_eq_Some_conv split: if_splits, auto split: sum.splits)
    with disp show ?thesis unfolding datagram_settings_def local acc(1) by simp
  qed
qed

lemma datagram_settings_empty: "datagram_settings cfg fault [] st = st"
  by (simp add: datagram_settings_def message_accept_def ber_decode_tlv_def)

section \<open>Runs\<close>

text \<open>The effect of a turn of one of the tasks.\<close>

definition turn_settings :: "config \<Rightarrow> (snmp_varbind \<Rightarrow> i32) \<Rightarrow> turn \<Rightarrow> agent_settings \<Rightarrow> agent_settings" where
  "turn_settings cfg fault e st =
     (case e of
        Udp_Receive (Some (peer, payload)) out \<Rightarrow> datagram_settings cfg fault (take SNMP_MAX_PACKET_LEN payload) st
      | _ \<Rightarrow> st)"

text \<open>A system that serves, with sensors that stay.\<close>

definition serving :: "system \<Rightarrow> bool" where
  "serving s \<longleftrightarrow> system_ok s \<and> sensor_fixed (sys_dev s) \<and> (\<exists>task. sys_udp s = Udp_Running task)"

lemma serving_settled: "serving s \<Longrightarrow> agent_settled (sys_dev s) (sys_dev s)"
  by (simp add: serving_def system_ok_def agent_settled_def)

lemma udp_turn_store:
  assumes "agent_settled d d"
    and turn: "snmp_udp_turn agent_registry (agent_security cfg) received out task d tr = Some (task', d', tr')"
  shows "dev_env d' = dev_env d \<and> settings_of d' = turn_settings cfg (set_fault d) (Udp_Receive received out) (settings_of d)"
proof (cases received)
  case None
  with turn show ?thesis by (simp add: snmp_udp_turn_def turn_settings_def)
next
  case (Some r)
  obtain peer payload where r: "r = (peer, payload)" by fastforce
  define bytes where "bytes = take SNMP_MAX_PACKET_LEN payload"
  have eff: "turn_settings cfg (set_fault d) (Udp_Receive received out) (settings_of d) =
      datagram_settings cfg (set_fault d) bytes (settings_of d)" by (simp add: turn_settings_def Some r bytes_def)
  note run = turn [unfolded snmp_udp_turn_def Some r option.case prod.case Let_def, folded bytes_def]
  show ?thesis
  proof (cases "bytes = []")
    case True
    with run eff show ?thesis by (auto simp: datagram_settings_empty)
  next
    case False
    let ?msg = "bytes @ drop (length bytes) (in_buf task)"
    from run False obtain resp where
      "snmp_message_process agent_registry (agent_security cfg) ?msg (length bytes) out SNMP_MAX_PACKET_LEN d = Some (resp, d')"
      by (auto simp: bind_eq_Some_conv split: if_splits prod.splits)
    from message_store [OF assms(1) _ _ _ this] False show ?thesis by (simp add: eff)
  qed
qed

lemma turn_store:
  assumes "config_ok cfg" and "serving s" and "turn_ok e s"
    and run: "agent_turn cfg (agent_security cfg) agent_registry e s = Some s'"
  shows "serving s' \<and> dev_env (sys_dev s') = dev_env (sys_dev s) \<and>
    settings_of (sys_dev s') = turn_settings cfg (set_fault (sys_dev s)) e (settings_of (sys_dev s))"
proof -
  have ok: "system_ok s'" using agent_turn_total [OF assms(1) agent_security_ok [of cfg] _ assms(3)] assms(2) run by (auto simp: serving_def)
  obtain task where task: "sys_udp s = Udp_Running task" using assms(2) by (auto simp: serving_def)
  have "dev_env (sys_dev s') = dev_env (sys_dev s) \<and> (\<exists>task. sys_udp s' = Udp_Running task) \<and>
    settings_of (sys_dev s') = turn_settings cfg (set_fault (sys_dev s)) e (settings_of (sys_dev s))"
  proof (cases e)
    case Udp_Open
    with assms(3) task show ?thesis by simp
  next
    case (Udp_Receive received out)
    with run task udp_turn_store [OF serving_settled [OF assms(2)]] show ?thesis
      by (auto simp: agent_turn_def bind_eq_Some_conv)
  next
    case (Monitor_Poll packet)
    then have eff: "turn_settings cfg (set_fault (sys_dev s)) e (settings_of (sys_dev s)) = settings_of (sys_dev s)"
      by (simp add: turn_settings_def)
    show ?thesis
    proof (cases "sys_monitor s")
      case None
      with run Monitor_Poll task eff show ?thesis by (auto simp: agent_turn_def)
    next
      case (Some m)
      with run Monitor_Poll obtain m' d' tr' where
        turn: "monitor_turn cfg packet m (sys_dev s) (sys_tr s) = Some (m', d', tr')"
        "s' = s\<lparr>sys_dev := d', sys_tr := tr', sys_monitor := Some m'\<rparr>" by (auto simp: agent_turn_def bind_eq_Some_conv)
      have "dev_ok (sys_dev s)" "length packet = 256"
        using assms(2,3) Monitor_Poll by (simp_all add: serving_def system_ok_def)
      from monitor_turn_keeps_settings [OF assms(1) this(2,1) same_settings_refl turn(1)]
      have "same_settings (sys_dev s) d'" .
      with turn(2) task same_settings_of show ?thesis unfolding eff by (simp add: same_settings_def)
    qed
  qed
  with ok assms(2) show ?thesis by (simp add: serving_def sensor_fixed_def)
qed

lemma reach_store:
  assumes "config_ok cfg" and "serving s0" and "agent_reaches cfg (agent_security cfg) agent_registry s0 es s"
  shows "serving s \<and> dev_env (sys_dev s) = dev_env (sys_dev s0) \<and>
    settings_of (sys_dev s) = fold (turn_settings cfg (set_fault (sys_dev s0))) es (settings_of (sys_dev s0))"
  using assms(3)
proof (induction rule: agent_reaches.induct)
  case reach_start
  with assms(2) show ?case by simp
next
  case (reach_turn es s e s')
  then have "serving s" "set_fault (sys_dev s) = set_fault (sys_dev s0)" using set_fault_env by blast+
  with turn_store [OF assms(1) _ reach_turn.hyps(2,3)] reach_turn.IH show ?case by simp
qed

section \<open>The notifications of a run\<close>

text \<open>A run together with the notifications that its polls send.\<close>

inductive agent_notes ::
  "config \<Rightarrow> security \<Rightarrow> device registry \<Rightarrow> system \<Rightarrow> turn list \<Rightarrow> system \<Rightarrow> notification list \<Rightarrow> bool"
  for cfg sec reg s0 where
  notes_start: "agent_notes cfg sec reg s0 [] s0 []"
| notes_turn: "agent_notes cfg sec reg s0 es s ns \<Longrightarrow> turn_ok e s \<Longrightarrow> agent_turn cfg sec reg e s = Some s' \<Longrightarrow>
    case e of Monitor_Poll packet \<Rightarrow> False | _ \<Rightarrow> True \<Longrightarrow> agent_notes cfg sec reg s0 (es @ [e]) s' ns"
| notes_poll: "agent_notes cfg sec reg s0 es s ns \<Longrightarrow> turn_ok (Monitor_Poll packet) s \<Longrightarrow>
    agent_turn cfg sec reg (Monitor_Poll packet) s = Some s' \<Longrightarrow> notes_sent cfg new (sys_tr s) (sys_tr s') \<Longrightarrow>
    agent_notes cfg sec reg s0 (es @ [Monitor_Poll packet]) s' (ns @ new)"

text \<open>What the polls of a run find the relay to be, by the store alone.\<close>

fun polled_relay :: "config \<Rightarrow> (snmp_varbind \<Rightarrow> i32) \<Rightarrow> turn list \<Rightarrow> agent_settings \<Rightarrow> bool list" where
  "polled_relay cfg fault [] st = []"
| "polled_relay cfg fault (Monitor_Poll packet # es) st = set_relay st # polled_relay cfg fault es st"
| "polled_relay cfg fault (e # es) st = polled_relay cfg fault es (turn_settings cfg fault e st)"

lemma turn_settings_poll [simp]: "turn_settings cfg fault (Monitor_Poll packet) st = st"
  by (simp add: turn_settings_def)

lemma polled_relay_snoc:
  "polled_relay cfg fault (es @ [e]) st = polled_relay cfg fault es st @
     (case e of Monitor_Poll packet \<Rightarrow> [set_relay (fold (turn_settings cfg fault) es st)] | _ \<Rightarrow> [])"
  by (induction cfg fault es st rule: polled_relay.induct) (cases e; simp)+

lemma monitor_run_snoc:
  "monitor_run cfg (rs @ [r]) m = (let (m1, a) = monitor_run cfg rs m; (m2, b) = monitor_spec cfg r m1 in (m2, a @ b))"
  by (induction rs arbitrary: m) (simp_all add: Let_def split_beta)

text \<open>The invariant of a run: the monitor has gone through its specification on what the polls found.\<close>

definition notes_agree :: "config \<Rightarrow> bool list \<Rightarrow> system \<Rightarrow> notification list \<Rightarrow> bool" where
  "notes_agree cfg relays s ns \<longleftrightarrow>
     (\<exists>m rs. sys_monitor s = Some m \<and> monitor_run cfg rs monitor_start = (m, ns) \<and> map fst rs = relays)"

lemma poll_notes:
  assumes "config_ok cfg" and "serving s" and "turn_ok (Monitor_Poll packet) s" and "notes_agree cfg relays s ns"
    and run: "agent_turn cfg sec reg (Monitor_Poll packet) s = Some s'"
  shows "\<exists>new. notes_sent cfg new (sys_tr s) (sys_tr s') \<and> notes_agree cfg (relays @ [s_relay_on (sys_dev s)]) s' (ns @ new)"
proof -
  obtain m rs where m: "sys_monitor s = Some m" "monitor_run cfg rs monitor_start = (m, ns)" "map fst rs = relays"
    using assms(4) by (auto simp: notes_agree_def)
  have "dev_ok (sys_dev s)" "length packet = 256" using assms(2,3) by (simp_all add: serving_def system_ok_def)
  from monitor_turn_refines [OF assms(1) this(2,1), of m "sys_tr s"] obtain m' d' tr' new where
    t: "monitor_turn cfg packet m (sys_dev s) (sys_tr s) = Some (m', d', tr')" "notes_sent cfg new (sys_tr s) tr'"
      "monitor_spec cfg (polled m (sys_dev s)) m = (m', new)" by blast
  from run m(1) t(1) have s': "sys_tr s' = tr'" "sys_monitor s' = Some m'" by (auto simp: agent_turn_def)
  have "monitor_run cfg (rs @ [polled m (sys_dev s)]) monitor_start = (m', ns @ new)"
    by (simp add: monitor_run_snoc m(2) t(3))
  moreover have "map fst (rs @ [polled m (sys_dev s)]) = relays @ [s_relay_on (sys_dev s)]" by (simp add: m(3))
  ultimately have "notes_agree cfg (relays @ [s_relay_on (sys_dev s)]) s' (ns @ new)"
    unfolding notes_agree_def using s'(2) by blast
  with s'(1) t(2) show ?thesis by auto
qed

lemma reach_notes:
  assumes "config_ok cfg" and "serving s0" and "sys_monitor s0 = Some monitor_start"
    and "agent_reaches cfg (agent_security cfg) agent_registry s0 es s"
  shows "\<exists>ns. agent_notes cfg (agent_security cfg) agent_registry s0 es s ns \<and>
    notes_agree cfg (polled_relay cfg (set_fault (sys_dev s0)) es (settings_of (sys_dev s0))) s ns"
  using assms(4)
proof (induction rule: agent_reaches.induct)
  case reach_start
  have "notes_agree cfg [] s0 []" unfolding notes_agree_def using assms(3) by (intro exI [of _ "[]"] exI) auto
  then show ?case using notes_start by fastforce
next
  case (reach_turn es s e s')
  then obtain ns where n: "agent_notes cfg (agent_security cfg) agent_registry s0 es s ns"
    "notes_agree cfg (polled_relay cfg (set_fault (sys_dev s0)) es (settings_of (sys_dev s0))) s ns" by blast
  note st = reach_store [OF assms(1,2) reach_turn.hyps(1)]
  show ?case
  proof (cases "\<exists>packet. e = Monitor_Poll packet")
    case True
    then obtain packet where e: "e = Monitor_Poll packet" by blast
    have relay: "set_relay (fold (turn_settings cfg (set_fault (sys_dev s0))) es (settings_of (sys_dev s0))) = s_relay_on (sys_dev s)"
      using st settings_of_simps(1) [of "sys_dev s"] by simp
    from poll_notes [OF assms(1) _ reach_turn.hyps(2) [unfolded e] n(2) reach_turn.hyps(3) [unfolded e]] st obtain new where
      "notes_sent cfg new (sys_tr s) (sys_tr s')"
      "notes_agree cfg (polled_relay cfg (set_fault (sys_dev s0)) (es @ [e]) (settings_of (sys_dev s0))) s' (ns @ new)"
      by (auto simp: polled_relay_snoc e relay)
    with notes_poll [OF n(1) reach_turn.hyps(2,3) [unfolded e]] show ?thesis unfolding e by blast
  next
    case False
    have "sys_monitor s' = sys_monitor s"
      using reach_turn.hyps(3) False
      by (cases e) (auto simp: agent_turn_def bind_eq_Some_conv split: prod.splits option.splits udp_state.splits)
    with n(2) have "notes_agree cfg (polled_relay cfg (set_fault (sys_dev s0)) (es @ [e]) (settings_of (sys_dev s0))) s' ns"
      using False by (cases e) (simp_all add: notes_agree_def polled_relay_snoc)
    with notes_turn [OF n(1) reach_turn.hyps(2,3)] False show ?thesis by (cases e) auto
  qed
qed

section \<open>The properties\<close>

text \<open>A datagram by the grammar: a SetRequest with the read-write community.\<close>

lemma datagram_settings_bytes:
  assumes "\<forall>vb \<in> set vbs. wire_ok vb" and "length vbs \<le> SNMP_MAX_VARBINDS"
    and "pdu_bytes SNMP_PDU_SET_REQUEST rid es ei vbs = Some pdu" and "length (message_bytes version community pdu) < 2 ^ 32"
    and "version \<noteq> SNMP_VERSION_V3" and "length community < SNMP_MAX_PRINCIPAL_LEN"
    and "access_of (s_communities (agent_security cfg)) community = SNMP_ACCESS_READWRITE"
  shows "datagram_settings cfg fault (message_bytes version community pdu) st = snd (snd (set_spec fault vbs st))"
  using message_accept_bytes [OF assms(1,2) _ assms(3) holds_at_whole assms(4-6) agent_communities_ok agent_lookup_model [OF assms(5)]]
    assms(7)
  unfolding datagram_settings_def request_settings_def by simp

text \<open>A SetRequest that switches the relay on, between two polls.\<close>

definition switch_pdu :: "u8 list" where
  "switch_pdu = [0xA3, 29, 2, 1, 1, 2, 1, 0, 2, 1, 0, 0x30, 18, 0x30, 16, 6, 11, 43, 6, 1, 4, 1, 0x86, 0x8D, 0x1F, 2, 2, 0, 2, 1, 1]"

definition switch_turn :: turn where
  "switch_turn = Udp_Receive (Some (\<lparr>sin_addr = [192, 168, 1, 2], sin_port = 50000\<rparr>,
     message_bytes SNMP_VERSION_V2C (c_lit ''private'') switch_pdu)) (replicate SNMP_MAX_PACKET_LEN 0)"

definition switch_run :: "turn list" where
  "switch_run = [Monitor_Poll (replicate 256 0), switch_turn, Monitor_Poll (replicate 256 0)]"

lemma switch_pdu_bytes: "pdu_bytes SNMP_PDU_SET_REQUEST 1 0 0 [relay_value 1] = Some switch_pdu"
  unfolding switch_pdu_def OID_WESPE_RELAY_STATE_def by code_simp

lemma switch_message_length: "length (message_bytes SNMP_VERSION_V2C (c_lit ''private'') switch_pdu) = 45"
  unfolding switch_pdu_def by code_simp

lemma sample_rw_access: "access_of (s_communities (agent_security sample_config)) (c_lit ''private'') = SNMP_ACCESS_READWRITE"
  unfolding sample_config_def by code_simp

lemma switch_turn_settings:
  "turn_settings sample_config (set_fault sample_device) switch_turn st = st\<lparr>set_relay := True\<rparr>"
proof -
  have wire: "\<forall>vb \<in> set [relay_value 1]. wire_ok vb" by (simp add: wire_ok_def oid_ok_def OID_WESPE_RELAY_STATE_def)
  have "set_fault sample_device (relay_value 1) = SNMP_V1_ERR_NO_ERROR"
    using setting_scalars_in_view(4) [of sample_device] by (simp add: set_fault_def settable_def OID_WESPE_RELAY_STATE_def)
  then have "snd (snd (set_spec (set_fault sample_device) [relay_value 1] st)) = st\<lparr>set_relay := True\<rparr>"
    by (simp add: set_spec_def write_setting_def)
  moreover have "datagram_settings sample_config fault (message_bytes SNMP_VERSION_V2C (c_lit ''private'') switch_pdu) st =
      snd (snd (set_spec fault [relay_value 1] st))" for fault
    by (rule datagram_settings_bytes [OF wire _ switch_pdu_bytes _ _ _ sample_rw_access])
      (simp, simp only: switch_message_length, simp_all add: c_lit_def)
  moreover have "take SNMP_MAX_PACKET_LEN (message_bytes SNMP_VERSION_V2C (c_lit ''private'') switch_pdu) =
      message_bytes SNMP_VERSION_V2C (c_lit ''private'') switch_pdu" by (rule take_all, unfold switch_message_length) simp
  ultimately show ?thesis unfolding turn_settings_def switch_turn_def turn.case option.case prod.case by (simp only:)
qed

lemma sample_serving: "serving sample_system"
  using sample_system_ok sample_env_ok(3) by (simp add: serving_def sample_system_def)

lemma switch_run_reaches:
  obtains s where "agent_reaches sample_config (agent_security sample_config) agent_registry sample_system switch_run s"
proof -
  note total = agent_turn_total [OF sample_config_ok agent_security_ok]
  let ?poll = "Monitor_Poll (replicate 256 0)" and ?reach = "agent_reaches sample_config (agent_security sample_config) agent_registry sample_system"
  obtain s1 where s1: "agent_turn sample_config (agent_security sample_config) agent_registry ?poll sample_system = Some s1" "system_ok s1"
    using total [OF sample_system_ok, of ?poll] by auto
  obtain s2 where s2: "agent_turn sample_config (agent_security sample_config) agent_registry switch_turn s1 = Some s2" "system_ok s2"
    using total [OF s1(2), of switch_turn] by (auto simp: switch_turn_def)
  obtain s3 where s3: "agent_turn sample_config (agent_security sample_config) agent_registry ?poll s2 = Some s3"
    using total [OF s2(2), of ?poll] by auto
  have "?reach [?poll] s1" using reach_turn [OF reach_start _ s1(1)] by simp
  from reach_turn [OF this _ s2(1)] have "?reach [?poll, switch_turn] s2" by (simp add: switch_turn_def)
  from reach_turn [OF this _ s3] have "?reach switch_run s3" by (simp add: switch_run_def)
  then show thesis by (rule that)
qed

text \<open>
  C3. The settings of the running firmware are those of the store: from a system that serves, after any
  sequence of datagrams and monitor polls, the relay, the three strings and the labels are what the
  SetRequests among the datagrams made of them, in the order in which they arrived. A datagram counts when
  the security models accept it as a SetRequest that may write; the polls, every other datagram, what the
  network and the environment answer, and what the buffers hold, make no difference.
\<close>

theorem agent_runs_follow_settings:
  assumes "config_ok cfg" and "serving s0" and "agent_reaches cfg (agent_security cfg) agent_registry s0 es s"
  shows "settings_of (sys_dev s) = fold (turn_settings cfg (set_fault (sys_dev s0))) es (settings_of (sys_dev s0))"
  using reach_store [OF assms] by blast

theorem agent_runs_follow_settings_witness:
  "\<exists>s. agent_reaches sample_config (agent_security sample_config) agent_registry sample_system switch_run s \<and>
     settings_of (sys_dev s) = (settings_of sample_device)\<lparr>set_relay := True\<rparr>"
proof -
  obtain s where s: "agent_reaches sample_config (agent_security sample_config) agent_registry sample_system switch_run s"
    by (rule switch_run_reaches)
  from agent_runs_follow_settings [OF sample_config_ok sample_serving s]
  have "settings_of (sys_dev s) = (settings_of sample_device)\<lparr>set_relay := True\<rparr>"
    by (simp add: switch_run_def switch_turn_settings sample_system_def)
  with s show ?thesis by blast
qed

text \<open>
  C6. A manager that switches the relay is noticed: over any run of a system that serves, the relay
  notifications that the polls send are exactly the changes of the relay of the store from poll to poll, so of
  what the SetRequests in between made of it.
\<close>

theorem agent_notifies_relay_settings:
  assumes "config_ok cfg" and "serving s0" and "sys_monitor s0 = Some monitor_start"
    and "agent_reaches cfg (agent_security cfg) agent_registry s0 es s"
  shows "\<exists>ns. agent_notes cfg (agent_security cfg) agent_registry s0 es s ns \<and>
    notes_of OID_RELAY_CHANGE_TRAP ns =
      map as_int (tl (remdups_adj (polled_relay cfg (set_fault (sys_dev s0)) es (settings_of (sys_dev s0)))))"
proof -
  from reach_notes [OF assms] obtain ns m rs where
    ns: "agent_notes cfg (agent_security cfg) agent_registry s0 es s ns" and
    run: "monitor_run cfg rs monitor_start = (m, ns)"
      "map fst rs = polled_relay cfg (set_fault (sys_dev s0)) es (settings_of (sys_dev s0))"
    unfolding notes_agree_def by blast
  from relay_run [of cfg rs] have "notes_of OID_RELAY_CHANGE_TRAP ns = map as_int (tl (remdups_adj (map fst rs)))"
    by (simp add: run(1))
  with ns show ?thesis unfolding run(2) by blast
qed

theorem agent_notifies_relay_settings_witness:
  "\<exists>s ns. agent_reaches sample_config (agent_security sample_config) agent_registry sample_system switch_run s \<and>
     agent_notes sample_config (agent_security sample_config) agent_registry sample_system switch_run s ns \<and>
     notes_of OID_RELAY_CHANGE_TRAP ns = [1]"
proof -
  obtain s where s: "agent_reaches sample_config (agent_security sample_config) agent_registry sample_system switch_run s"
    by (rule switch_run_reaches)
  have off: "\<not> s_relay_on sample_device" by (simp add: sample_device_def power_on_def)
  have "polled_relay sample_config (set_fault sample_device) (es @ [switch_turn]) st =
      polled_relay sample_config (set_fault sample_device) es st" for es st
    by (simp add: polled_relay_snoc switch_turn_def)
  from this [of "[Monitor_Poll (replicate 256 0)]"]
  have "polled_relay sample_config (set_fault sample_device) switch_run (settings_of sample_device) = [False, True]"
    using polled_relay_snoc [of sample_config "set_fault sample_device" "[Monitor_Poll (replicate 256 0), switch_turn]"
        "Monitor_Poll (replicate 256 0)" "settings_of sample_device"]
    by (simp add: switch_run_def switch_turn_settings off)
  with agent_notifies_relay_settings [OF sample_config_ok sample_serving _ s] s show ?thesis
    by (auto simp: sample_system_def as_int_def)
qed

end
