(* ===== verification/Dev_Agent.thy ===== *)
theory Dev_Agent
  imports Mib_Sensor_Table Snmp_Udp "HOL-Library.Signed_Division"
begin

text \<open>
  \<open>tools/dev_agent/dev_agent.c\<close>: the agent built for a Linux host. It serves a MIB of its own, kept in
  memory, through the registry and the protocol engine of the firmware. Its routines carry the suffix
  \<open>_host\<close> where the firmware has one of the same name; the object and column numbers are the same.

  The answers of \<open>time(NULL)\<close> are a function of the number of calls made so far. The C computes with a
  \<open>time_t\<close> of 64 bits; the model computes with integers, and \<open>time_in_range\<close> shows that no value leaves
  the 64 bits, so that both are the same. Casts to 32 bits wrap as they do in the C.
\<close>

section \<open>State\<close>

abbreviation WSENSOR_LABEL_MAX :: nat where "WSENSOR_LABEL_MAX \<equiv> 32"
abbreviation WSENSOR_ROW_COUNT :: nat where "WSENSOR_ROW_COUNT \<equiv> 2"

record mock_if_row =
  row_index :: u32
  row_descr :: "u8 list"
  row_name :: "u8 list"
  row_if_type :: i32
  row_mac :: "u8 list"
  row_in_octets :: u32
  row_out_octets :: u32

record mock_sensor_row =
  srow_index :: u32
  srow_label :: "u8 list"
  srow_decidegrees :: i32
  srow_read_count :: u64

record host =
  h_time :: "nat \<Rightarrow> int"
  h_calls :: nat
  s_boot_time :: int
  s_relay_on_host :: i32
  s_temperature_decidegrees :: i32
  s_if_rows :: "mock_if_row list"
  s_sensor_rows :: "mock_sensor_row list"

text \<open>The static initialisers.\<close>

definition s_if_rows_start :: "mock_if_row list" where
  "s_if_rows_start =
     [\<lparr>row_index = 1, row_descr = c_lit ''wlan0'' @ [0], row_name = c_lit ''wlan0'' @ [0], row_if_type = 71,
       row_mac = [0xAA, 0xBB, 0xCC, 0xDD, 0xEE, 0x01], row_in_octets = 0, row_out_octets = 0\<rparr>,
      \<lparr>row_index = 2, row_descr = c_lit ''lo0'' @ [0], row_name = c_lit ''lo0'' @ [0], row_if_type = 24,
       row_mac = [0, 0, 0, 0, 0, 0], row_in_octets = 100, row_out_octets = 100\<rparr>]"

definition s_sensor_rows_start :: "mock_sensor_row list" where
  "s_sensor_rows_start =
     [\<lparr>srow_index = 1, srow_label = c_lit ''sensor1'' @ replicate 25 0, srow_decidegrees = 235, srow_read_count = 0\<rparr>,
      \<lparr>srow_index = 2, srow_label = c_lit ''sensor2'' @ replicate 25 0, srow_decidegrees = 198, srow_read_count = 0\<rparr>]"

definition host_start :: "(nat \<Rightarrow> int) \<Rightarrow> host" where
  "host_start time =
     \<lparr>h_time = time, h_calls = 0, s_boot_time = 0, s_relay_on_host = 0, s_temperature_decidegrees = 235,
      s_if_rows = s_if_rows_start, s_sensor_rows = s_sensor_rows_start\<rparr>"

section \<open>The clock\<close>

definition time_call :: "host \<Rightarrow> int \<times> host" where
  "time_call h = (h_time h (h_calls h), h\<lparr>h_calls := Suc (h_calls h)\<rparr>)"

text \<open>\<open>time(NULL) - s_boot_time\<close>\<close>

definition time_since_boot :: "host \<Rightarrow> int \<times> host" where
  "time_since_boot h = (let (t, h1) = time_call h in (t - s_boot_time h1, h1))"

section \<open>The scalars\<close>

abbreviation OID_SYS_DESCR_host :: oid where "OID_SYS_DESCR_host \<equiv> [1, 3, 6, 1, 2, 1, 1, 1, 0]"
abbreviation OID_SYS_OBJECT_ID_host :: oid where "OID_SYS_OBJECT_ID_host \<equiv> [1, 3, 6, 1, 2, 1, 1, 2, 0]"
abbreviation OID_SYS_UPTIME_host :: oid where "OID_SYS_UPTIME_host \<equiv> [1, 3, 6, 1, 2, 1, 1, 3, 0]"
abbreviation OID_SYS_NAME_host :: oid where "OID_SYS_NAME_host \<equiv> [1, 3, 6, 1, 2, 1, 1, 5, 0]"
abbreviation OID_WESPE_TEMPERATURE_host :: oid where "OID_WESPE_TEMPERATURE_host \<equiv> [1, 3, 6, 1, 4, 1, 99999, 2, 1, 0]"
abbreviation OID_WESPE_RELAY_STATE_host :: oid where "OID_WESPE_RELAY_STATE_host \<equiv> [1, 3, 6, 1, 4, 1, 99999, 2, 2, 0]"
abbreviation OID_WESPE_UPTIME_SECONDS_host :: oid where "OID_WESPE_UPTIME_SECONDS_host \<equiv> [1, 3, 6, 1, 4, 1, 99999, 2, 3, 0]"
abbreviation OID_IF_NUMBER_host :: oid where "OID_IF_NUMBER_host \<equiv> [1, 3, 6, 1, 2, 1, 2, 1, 0]"

definition get_sys_descr_host :: "host mib_get_fn" where
  "get_sys_descr_host vb h = do {
     vb' \<leftarrow> put_octets (c_lit ''Wespe dev-agent (host build -- not real ESP32-S3 hardware)'') vb;
     Some ((MIB_OK, vb'), h)
   }"

definition get_sys_object_id_host :: "host mib_get_fn" where
  "get_sys_object_id_host vb h =
     Some ((MIB_OK, vb\<lparr>vb_tag := BER_TAG_OID, vb_value := UOid [1, 3, 6, 1, 4, 1, 99999, 1, 1]\<rparr>), h)"

definition get_sys_uptime_host :: "host mib_get_fn" where
  "get_sys_uptime_host vb h =
     (let (t, h1) = time_since_boot h
      in Some ((MIB_OK, put_int SNMP_TAG_TIMETICKS (word_of_int (t * 100)) vb), h1))"

definition get_sys_name_host :: "host mib_get_fn" where
  "get_sys_name_host vb h = do {
     vb' \<leftarrow> put_octets (c_lit ''wespe-dev-agent'') vb;
     Some ((MIB_OK, vb'), h)
   }"

definition get_temperature_host :: "host mib_get_fn" where
  "get_temperature_host vb h = Some ((MIB_OK, put_int BER_TAG_INTEGER (s_temperature_decidegrees h) vb), h)"

definition get_relay_state_host :: "host mib_get_fn" where
  "get_relay_state_host vb h = Some ((MIB_OK, put_int BER_TAG_INTEGER (s_relay_on_host h) vb), h)"

definition set_relay_state_host :: "host mib_set_fn" where
  "set_relay_state_host vb h =
     (if vb_tag vb \<noteq> BER_TAG_INTEGER then Some (MIB_WRONG_TYPE, h)
      else do {
        v \<leftarrow> read_int (vb_value vb);
        if v \<noteq> 0 \<and> v \<noteq> 1 then Some (MIB_WRONG_VALUE, h)
        else Some (MIB_OK, h\<lparr>s_relay_on_host := v\<rparr>)
      })"

definition get_wespe_uptime :: "host mib_get_fn" where
  "get_wespe_uptime vb h =
     (let (t, h1) = time_since_boot h
      in Some ((MIB_OK, put_int SNMP_TAG_GAUGE32 (word_of_int t) vb), h1))"

definition s_mib_ii_host :: "host mib_object list" where
  "s_mib_ii_host =
     [scalar OID_SYS_DESCR_host BER_TAG_OCTET_STRING MIB_ACCESS_RO get_sys_descr_host None,
      scalar OID_SYS_OBJECT_ID_host BER_TAG_OID MIB_ACCESS_RO get_sys_object_id_host None,
      scalar OID_SYS_UPTIME_host SNMP_TAG_TIMETICKS MIB_ACCESS_RO get_sys_uptime_host None,
      scalar OID_SYS_NAME_host BER_TAG_OCTET_STRING MIB_ACCESS_RO get_sys_name_host None]"

definition s_mib_wespe_host :: "host mib_object list" where
  "s_mib_wespe_host =
     [scalar OID_WESPE_TEMPERATURE_host BER_TAG_INTEGER MIB_ACCESS_RO get_temperature_host None,
      scalar OID_WESPE_RELAY_STATE_host BER_TAG_INTEGER MIB_ACCESS_RW get_relay_state_host (Some set_relay_state_host),
      scalar OID_WESPE_UPTIME_SECONDS_host SNMP_TAG_GAUGE32 MIB_ACCESS_RO get_wespe_uptime None]"

section \<open>The interfaces\<close>

definition get_if_number_host :: "host mib_get_fn" where
  "get_if_number_host vb h =
     Some ((MIB_OK, put_int BER_TAG_INTEGER (word_of_nat (length (s_if_rows h))) vb), h)"

definition s_mib_iftable_scalars :: "host mib_object list" where
  "s_mib_iftable_scalars =
     [scalar OID_IF_NUMBER_host BER_TAG_INTEGER MIB_ACCESS_RO get_if_number_host None]"

text \<open>The loop over the rows; a pointer to a row is its position, \<open>NULL\<close> is \<open>None\<close>.\<close>

fun find_if_row_loop :: "mock_if_row list \<Rightarrow> nat \<Rightarrow> u32 \<Rightarrow> nat option" where
  "find_if_row_loop [] i index = None"
| "find_if_row_loop (row # rows) i index =
     (if row_index row = index then Some i else find_if_row_loop rows (i + 1) index)"

definition find_if_row :: "u32 \<Rightarrow> host \<Rightarrow> nat option" where
  "find_if_row index h = find_if_row_loop (s_if_rows h) 0 index"

definition if_first_index_host :: "host row_first" where
  "if_first_index_host h = (Inr (row_index (s_if_rows h ! 0)), h)"

fun if_next_index_loop :: "mock_if_row list \<Rightarrow> u32 \<Rightarrow> mib_result + u32" where
  "if_next_index_loop [] current = Inl MIB_END_OF_VIEW"
| "if_next_index_loop (row # rows) current =
     (if current < row_index row then Inr (row_index row) else if_next_index_loop rows current)"

definition if_next_index_host :: "host row_next" where
  "if_next_index_host current h = (if_next_index_loop (s_if_rows h) current, h)"

definition refresh_climbing_counters :: "nat \<Rightarrow> host \<Rightarrow> host" where
  "refresh_climbing_counters k h =
     (let row = s_if_rows h ! k in
      if row_index row \<noteq> 1 then h
      else
        let (since, h1) = time_since_boot h; t = word_of_int since :: u32 in
        h1\<lparr>s_if_rows := (s_if_rows h1)
          [k := row\<lparr>row_in_octets := t * 1500 + 2000, row_out_octets := t * 900 + 500\<rparr>]\<rparr>)"

text \<open>The \<open>switch\<close> of \<open>iftable_get_cell\<close> on the row that was found, and the routine.\<close>

definition iftable_row_cell :: "u32 \<Rightarrow> mock_if_row \<Rightarrow> host mib_get_fn" where
  "iftable_row_cell col row vb h =
     (if col = IF_COL_INDEX then Some ((MIB_OK, put_int BER_TAG_INTEGER (row_index row) vb), h)
      else if col = IF_COL_DESCR then do {
        vb' \<leftarrow> get_string_field (row_descr row) vb;
        Some ((MIB_OK, vb'), h)
      }
      else if col = IF_COL_TYPE then Some ((MIB_OK, put_int BER_TAG_INTEGER (row_if_type row) vb), h)
      else if col = IF_COL_MTU then
        Some ((MIB_OK, put_int BER_TAG_INTEGER (if row_index row = 2 then 65536 else 1500) vb), h)
      else if col = IF_COL_SPEED then
        Some ((MIB_OK, put_int SNMP_TAG_GAUGE32 (if row_index row = 2 then 10000000 else 72200000) vb), h)
      else if col = IF_COL_PHYS_ADDRESS then do {
        vb' \<leftarrow> put_octets (row_mac row) vb;
        Some ((MIB_OK, vb'), h)
      }
      else if col = IF_COL_ADMIN_STATUS \<or> col = IF_COL_OPER_STATUS then
        Some ((MIB_OK, put_int BER_TAG_INTEGER 1 vb), h)
      else if col = IF_COL_LAST_CHANGE then Some ((MIB_OK, put_int SNMP_TAG_TIMETICKS 0 vb), h)
      else if col = IF_COL_IN_OCTETS then Some ((MIB_OK, put_int SNMP_TAG_COUNTER32 (row_in_octets row) vb), h)
      else if col = IF_COL_OUT_OCTETS then Some ((MIB_OK, put_int SNMP_TAG_COUNTER32 (row_out_octets row) vb), h)
      else Some ((MIB_GEN_ERR, vb), h))"

definition iftable_get_cell_host :: "u32 \<Rightarrow> u32 \<Rightarrow> host mib_get_fn" where
  "iftable_get_cell_host col index vb h =
     (case find_if_row index h of
        None \<Rightarrow> Some ((MIB_NO_SUCH_INSTANCE, vb), h)
      | Some k \<Rightarrow>
          let h1 = refresh_climbing_counters k h in iftable_row_cell col (s_if_rows h1 ! k) vb h1)"

definition s_iftable_host :: "host mib_table" where
  "s_iftable_host =
     \<lparr>mt_entry_oid = [1, 3, 6, 1, 2, 1, 2, 2, 1],
      mt_columns =
        [column IF_COL_INDEX BER_TAG_INTEGER MIB_ACCESS_RO,
         column IF_COL_DESCR BER_TAG_OCTET_STRING MIB_ACCESS_RO,
         column IF_COL_TYPE BER_TAG_INTEGER MIB_ACCESS_RO,
         column IF_COL_MTU BER_TAG_INTEGER MIB_ACCESS_RO,
         column IF_COL_SPEED SNMP_TAG_GAUGE32 MIB_ACCESS_RO,
         column IF_COL_PHYS_ADDRESS BER_TAG_OCTET_STRING MIB_ACCESS_RO,
         column IF_COL_ADMIN_STATUS BER_TAG_INTEGER MIB_ACCESS_RO,
         column IF_COL_OPER_STATUS BER_TAG_INTEGER MIB_ACCESS_RO,
         column IF_COL_LAST_CHANGE SNMP_TAG_TIMETICKS MIB_ACCESS_RO,
         column IF_COL_IN_OCTETS SNMP_TAG_COUNTER32 MIB_ACCESS_RO,
         column IF_COL_OUT_OCTETS SNMP_TAG_COUNTER32 MIB_ACCESS_RO],
      mt_first_index = if_first_index_host, mt_next_index = if_next_index_host,
      mt_get_cell = iftable_get_cell_host, mt_set_cell = None\<rparr>"

definition ifxtable_row_cell :: "u32 \<Rightarrow> mock_if_row \<Rightarrow> host mib_get_fn" where
  "ifxtable_row_cell col row vb h =
     (if col = IFX_COL_NAME then do {
        vb' \<leftarrow> get_string_field (row_name row) vb;
        Some ((MIB_OK, vb'), h)
      }
      else if col = IFX_COL_HC_IN_OCTETS then
        Some ((MIB_OK, vb\<lparr>vb_tag := SNMP_TAG_COUNTER64, vb_value := UCounter64 (ucast (row_in_octets row))\<rparr>), h)
      else if col = IFX_COL_HC_OUT_OCTETS then
        Some ((MIB_OK, vb\<lparr>vb_tag := SNMP_TAG_COUNTER64, vb_value := UCounter64 (ucast (row_out_octets row))\<rparr>), h)
      else Some ((MIB_GEN_ERR, vb), h))"

definition ifxtable_get_cell_host :: "u32 \<Rightarrow> u32 \<Rightarrow> host mib_get_fn" where
  "ifxtable_get_cell_host col index vb h =
     (case find_if_row index h of
        None \<Rightarrow> Some ((MIB_NO_SUCH_INSTANCE, vb), h)
      | Some k \<Rightarrow>
          let h1 = refresh_climbing_counters k h in ifxtable_row_cell col (s_if_rows h1 ! k) vb h1)"

definition s_ifxtable_host :: "host mib_table" where
  "s_ifxtable_host =
     \<lparr>mt_entry_oid = [1, 3, 6, 1, 2, 1, 31, 1, 1, 1],
      mt_columns =
        [column IFX_COL_NAME BER_TAG_OCTET_STRING MIB_ACCESS_RO,
         column IFX_COL_HC_IN_OCTETS SNMP_TAG_COUNTER64 MIB_ACCESS_RO,
         column IFX_COL_HC_OUT_OCTETS SNMP_TAG_COUNTER64 MIB_ACCESS_RO],
      mt_first_index = if_first_index_host, mt_next_index = if_next_index_host,
      mt_get_cell = ifxtable_get_cell_host, mt_set_cell = None\<rparr>"

section \<open>The sensors\<close>

abbreviation WSENSOR_COL_INDEX :: u32 where "WSENSOR_COL_INDEX \<equiv> 1"
abbreviation WSENSOR_COL_LABEL :: u32 where "WSENSOR_COL_LABEL \<equiv> 2"
abbreviation WSENSOR_COL_TEMP :: u32 where "WSENSOR_COL_TEMP \<equiv> 3"
abbreviation WSENSOR_COL_READ_COUNT :: u32 where "WSENSOR_COL_READ_COUNT \<equiv> 4"
abbreviation WSENSOR_COL_STATUS :: u32 where "WSENSOR_COL_STATUS \<equiv> 5"

definition wsensor_row_count :: "host \<Rightarrow> nat \<times> host" where
  "wsensor_row_count h =
     (let (t, h1) = time_since_boot h in (if (t sdiv 4) smod 2 = 0 then 1 else 2, h1))"

fun find_sensor_row_loop :: "mock_sensor_row list \<Rightarrow> nat \<Rightarrow> u32 \<Rightarrow> nat option" where
  "find_sensor_row_loop [] i index = None"
| "find_sensor_row_loop (row # rows) i index =
     (if srow_index row = index then Some i else find_sensor_row_loop rows (i + 1) index)"

text \<open>The clock is only read when the first test does not decide.\<close>

definition find_sensor_row :: "u32 \<Rightarrow> host \<Rightarrow> nat option \<times> host" where
  "find_sensor_row index h =
     (if index < 1 then (None, h)
      else let (count, h1) = wsensor_row_count h in
        if word_of_nat count < index then (None, h1)
        else (find_sensor_row_loop (s_sensor_rows h1) 0 index, h1))"

definition wsensor_first_index :: "host row_first" where
  "wsensor_first_index h = (Inr 1, h)"

definition wsensor_next_index :: "host row_next" where
  "wsensor_next_index current h =
     (let (count, h1) = wsensor_row_count h in
      if current < word_of_nat count then (Inr (current + 1), h1) else (Inl MIB_END_OF_VIEW, h1))"

definition wsensor_get_cell :: "u32 \<Rightarrow> u32 \<Rightarrow> host mib_get_fn" where
  "wsensor_get_cell col index vb h0 =
     (case find_sensor_row index h0 of
        (None, h) \<Rightarrow> Some ((MIB_NO_SUCH_INSTANCE, vb), h)
      | (Some k, h) \<Rightarrow>
          let row = s_sensor_rows h ! k in
          if col = WSENSOR_COL_INDEX then Some ((MIB_OK, put_int BER_TAG_INTEGER (srow_index row) vb), h)
          else if col = WSENSOR_COL_LABEL then do {
            vb' \<leftarrow> get_string_field (srow_label row) vb;
            Some ((MIB_OK, vb'), h)
          }
          else if col = WSENSOR_COL_TEMP then
            Some ((MIB_OK, put_int BER_TAG_INTEGER (srow_decidegrees row) vb),
              h\<lparr>s_sensor_rows := (s_sensor_rows h)[k := row\<lparr>srow_read_count := srow_read_count row + 1\<rparr>]\<rparr>)
          else if col = WSENSOR_COL_READ_COUNT then
            Some ((MIB_OK, vb\<lparr>vb_tag := SNMP_TAG_COUNTER64, vb_value := UCounter64 (srow_read_count row)\<rparr>), h)
          else if col = WSENSOR_COL_STATUS then Some ((MIB_OK, put_int BER_TAG_INTEGER 1 vb), h)
          else Some ((MIB_GEN_ERR, vb), h))"

definition wsensor_set_cell :: "u32 \<Rightarrow> u32 \<Rightarrow> host mib_set_fn" where
  "wsensor_set_cell col index vb h0 =
     (case find_sensor_row index h0 of
        (None, h) \<Rightarrow> Some (MIB_NO_SUCH_INSTANCE, h)
      | (Some k, h) \<Rightarrow>
          if col \<noteq> WSENSOR_COL_LABEL then Some (MIB_NOT_WRITABLE, h)
          else if vb_tag vb \<noteq> BER_TAG_OCTET_STRING then Some (MIB_WRONG_VALUE, h)
          else do {
            octets \<leftarrow> read_octets (vb_value vb);
            if WSENSOR_LABEL_MAX \<le> length octets then Some (MIB_WRONG_VALUE, h)
            else
              let row = s_sensor_rows h ! k in
              Some (MIB_OK, h\<lparr>s_sensor_rows := (s_sensor_rows h)
                [k := row\<lparr>srow_label := octets @ [0] @ drop (length octets + 1) (srow_label row)\<rparr>]\<rparr>)
          })"

definition s_wsensor_table :: "host mib_table" where
  "s_wsensor_table =
     \<lparr>mt_entry_oid = [1, 3, 6, 1, 4, 1, 99999, 2, 6, 1],
      mt_columns =
        [column WSENSOR_COL_INDEX BER_TAG_INTEGER MIB_ACCESS_RO,
         column WSENSOR_COL_LABEL BER_TAG_OCTET_STRING MIB_ACCESS_RW,
         column WSENSOR_COL_TEMP BER_TAG_INTEGER MIB_ACCESS_RO,
         column WSENSOR_COL_READ_COUNT SNMP_TAG_COUNTER64 MIB_ACCESS_RO,
         column WSENSOR_COL_STATUS BER_TAG_INTEGER MIB_ACCESS_RO],
      mt_first_index = wsensor_first_index, mt_next_index = wsensor_next_index,
      mt_get_cell = wsensor_get_cell, mt_set_cell = Some wsensor_set_cell\<rparr>"

end
