(* ===== verification/Dev_Agent_Correct.thy ===== *)
theory Dev_Agent_Correct
  imports Dev_Agent
begin

text \<open>
  The invariant of the host agent and the contracts of its getters, setters and tables: the interfaces
  tables have two settled rows, the rows of the sensor table come and go with the clock.
\<close>

section \<open>The invariant\<close>

text \<open>Seconds since the epoch, as far as any clock will count.\<close>

definition clock_ok :: "host \<Rightarrow> bool" where
  "clock_ok h \<longleftrightarrow> (\<forall>n. 0 \<le> h_time h n \<and> h_time h n < 2 ^ 56) \<and> 0 \<le> s_boot_time h \<and> s_boot_time h < 2 ^ 56"

definition if_row_ok :: "mock_if_row \<Rightarrow> bool" where
  "if_row_ok row \<longleftrightarrow>
     c_array (length (row_descr row)) (row_descr row) \<and> length (row_descr row) \<le> SNMP_MAX_OCTETS_LEN \<and>
     c_array (length (row_name row)) (row_name row) \<and> length (row_name row) \<le> SNMP_MAX_OCTETS_LEN \<and>
     length (row_mac row) = 6"

definition host_ok :: "host \<Rightarrow> bool" where
  "host_ok h \<longleftrightarrow> clock_ok h \<and>
     map row_index (s_if_rows h) = [1, 2] \<and> (\<forall>row \<in> set (s_if_rows h). if_row_ok row) \<and>
     map srow_index (s_sensor_rows h) = [1, 2] \<and>
     (\<forall>row \<in> set (s_sensor_rows h). c_array WSENSOR_LABEL_MAX (srow_label row))"

lemma host_start_ok:
  "(\<And>n. 0 \<le> time n \<and> time n < 2 ^ 56) \<Longrightarrow> 0 \<le> boot \<Longrightarrow> boot < 2 ^ 56 \<Longrightarrow>
   host_ok ((host_start time)\<lparr>s_boot_time := boot, h_calls := n\<rparr>)"
  by (auto simp: host_ok_def host_start_def clock_ok_def if_row_ok_def s_if_rows_start_def
      s_sensor_rows_start_def c_array_def)

text \<open>The arithmetic on \<open>time_t\<close> stays inside 64 bits.\<close>

lemma time_in_range:
  assumes "host_ok h" and "time_since_boot h = (t, h')"
  shows "\<bar>t\<bar> < 2 ^ 63 \<and> \<bar>t * 100\<bar> < 2 ^ 63"
proof -
  have "0 \<le> h_time h (h_calls h)" "h_time h (h_calls h) < 2 ^ 56" "0 \<le> s_boot_time h" "s_boot_time h < 2 ^ 56"
    using assms(1) by (auto simp: host_ok_def clock_ok_def)
  moreover have "t = h_time h (h_calls h) - s_boot_time h"
    using assms(2) by (auto simp: time_since_boot_def time_call_def Let_def)
  ultimately have "\<bar>t\<bar> < 2 ^ 56" by linarith
  then show ?thesis by simp
qed

lemma host_ok_call [simp]: "host_ok (h\<lparr>h_calls := n\<rparr>) = host_ok h"
  by (simp add: host_ok_def clock_ok_def)

lemma time_since_boot_ok [simp]: "host_ok (snd (time_since_boot h)) = host_ok h"
  by (simp add: time_since_boot_def time_call_def Let_def)

lemma time_since_boot_rows [simp]:
  "s_if_rows (snd (time_since_boot h)) = s_if_rows h"
  "s_sensor_rows (snd (time_since_boot h)) = s_sensor_rows h"
  by (simp_all add: time_since_boot_def time_call_def Let_def)

lemma get_field_ok:
  assumes "c_array (length field) field" and "length field \<le> SNMP_MAX_OCTETS_LEN" and "vb_ok vb"
  shows "\<exists>vb'. get_string_field field vb = Some vb' \<and> vb_ok vb' \<and> vb_oid vb' = vb_oid vb \<and>
    vb_tag vb' = BER_TAG_OCTET_STRING"
  using get_string_field_ok [OF assms] .

section \<open>The scalars\<close>

lemma s_mib_ii_host_ok: "obj \<in> set s_mib_ii_host \<Longrightarrow> object_ok host_ok obj"
proof -
  have "getter_ok host_ok BER_TAG_OCTET_STRING get_sys_descr_host"
    "getter_ok host_ok BER_TAG_OCTET_STRING get_sys_name_host"
    unfolding get_sys_descr_host_def [abs_def] get_sys_name_host_def [abs_def]
    by (intro getter_ok_octets put_octets_ok; simp)+
  moreover have "getter_ok host_ok BER_TAG_OID get_sys_object_id_host"
    by (rule getter_okI) (simp add: get_sys_object_id_host_def vb_ok_def value_ok_def)
  moreover have "getter_ok host_ok SNMP_TAG_TIMETICKS get_sys_uptime_host"
    by (rule getter_okI) (simp add: get_sys_uptime_host_def split_beta)
  ultimately show "obj \<in> set s_mib_ii_host \<Longrightarrow> object_ok host_ok obj"
    by (auto simp: s_mib_ii_host_def object_ok_def object_reads_def)
qed

lemma set_relay_state_host_ok: "setter_ok host_ok set_relay_state_host"
  unfolding setter_ok_def
proof (intro allI impI)
  fix vb h assume h: "host_ok h" "vb_ok vb"
  have "host_ok (h\<lparr>s_relay_on_host := v\<rparr>)" for v using h(1) by (simp add: host_ok_def clock_ok_def)
  moreover have "\<exists>v. vb_value vb = UInt v" if "vb_tag vb = BER_TAG_INTEGER"
    using h(2) that by (auto simp: vb_ok_def value_ok_def)
  ultimately show "\<exists>r h'. set_relay_state_host vb h = Some (r, h') \<and> host_ok h'"
    using h(1) by (auto simp: set_relay_state_host_def)
qed

lemma s_mib_wespe_host_ok: "obj \<in> set s_mib_wespe_host \<Longrightarrow> object_ok host_ok obj"
  by (auto simp: s_mib_wespe_host_def object_ok_def object_reads_def set_relay_state_host_ok get_temperature_host_def
      get_relay_state_host_def get_wespe_uptime_def split_beta intro!: getter_okI)

lemma s_mib_iftable_scalars_ok: "obj \<in> set s_mib_iftable_scalars \<Longrightarrow> object_ok host_ok obj"
  by (auto simp: s_mib_iftable_scalars_def object_ok_def object_reads_def get_if_number_host_def intro!: getter_okI)

lemma host_modules_sorted:
  "module_sorted s_mib_ii_host" "module_sorted s_mib_wespe_host" "module_sorted s_mib_iftable_scalars"
  by (simp_all add: module_sorted_def s_mib_ii_host_def s_mib_wespe_host_def s_mib_iftable_scalars_def)

section \<open>The interfaces\<close>

text \<open>What the loop finds is a position of the array.\<close>

lemma find_if_row_loop_Some:
  "find_if_row_loop rows i index = Some k \<Longrightarrow> i \<le> k \<and> k < i + length rows \<and> row_index (rows ! (k - i)) = index"
proof (induction rows i index rule: find_if_row_loop.induct)
  case (2 row rows i index)
  then show ?case by (cases "row_index row = index") (auto simp: nth_Cons' split: if_splits)
qed simp

lemma find_if_row_Some:
  assumes "find_if_row index h = Some k"
  shows "k < length (s_if_rows h)" "row_index (s_if_rows h ! k) = index"
  using find_if_row_loop_Some [OF assms [unfolded find_if_row_def]] by simp_all

lemma host_ok_if_row_upd:
  assumes "host_ok h" and "if_row_ok row" and "k < length (s_if_rows h)" and "row_index row = row_index (s_if_rows h ! k)"
  shows "host_ok (h\<lparr>s_if_rows := (s_if_rows h)[k := row]\<rparr>)"
proof -
  have "map row_index ((s_if_rows h)[k := row]) = map row_index (s_if_rows h)"
    using assms(3,4) by (simp add: map_update list_update_same_conv)
  moreover have "\<forall>r \<in> set ((s_if_rows h)[k := row]). if_row_ok r"
    using assms(1,2) set_update_subset_insert [of "s_if_rows h" k row] by (auto simp: host_ok_def)
  ultimately show ?thesis using assms(1) by (simp add: host_ok_def clock_ok_def)
qed

lemma refresh_ok:
  assumes "host_ok h" and "k < length (s_if_rows h)"
  shows "host_ok (refresh_climbing_counters k h)" and "if_row_ok (s_if_rows (refresh_climbing_counters k h) ! k)"
proof -
  have row: "if_row_ok (s_if_rows h ! k)" using assms by (simp add: host_ok_def)
  show "host_ok (refresh_climbing_counters k h)"
    using assms row host_ok_if_row_upd [of "snd (time_since_boot h)"]
    by (simp add: refresh_climbing_counters_def Let_def split_beta if_row_ok_def)
  then show "if_row_ok (s_if_rows (refresh_climbing_counters k h) ! k)"
    using assms(2) row by (simp add: refresh_climbing_counters_def Let_def split_beta if_row_ok_def)
qed

lemma if_cell_getter_ok:
  assumes "\<And>row. if_row_ok row \<Longrightarrow> getter_ok host_ok tag (body row)"
  shows "getter_ok host_ok tag (\<lambda>vb h. case find_if_row i h of
      None \<Rightarrow> Some ((MIB_NO_SUCH_INSTANCE, vb), h)
    | Some k \<Rightarrow> let h1 = refresh_climbing_counters k h in body (s_if_rows h1 ! k) vb h1)"
proof (rule getter_okI, goal_cases)
  case (1 vb h)
  show ?case
  proof (cases "find_if_row i h")
    case None
    with 1 show ?thesis by simp
  next
    case (Some k)
    note ok = refresh_ok [OF 1(1) find_if_row_Some(1) [OF Some]]
    from assms [OF ok(2)] ok(1) 1(2) Some show ?thesis by (simp add: getter_ok_def Let_def)
  qed
qed

lemma getter_ok_field:
  "c_array (length field) field \<Longrightarrow> length field \<le> SNMP_MAX_OCTETS_LEN \<Longrightarrow>
   getter_ok I BER_TAG_OCTET_STRING (\<lambda>vb h. do { vb' \<leftarrow> get_string_field field vb; Some ((MIB_OK, vb'), h) })"
  by (intro getter_ok_octets get_field_ok)

lemma getter_ok_put_int:
  "tag \<in> {BER_TAG_INTEGER, SNMP_TAG_COUNTER32, SNMP_TAG_GAUGE32, SNMP_TAG_TIMETICKS} \<Longrightarrow>
   getter_ok I tag (\<lambda>vb h. Some ((MIB_OK, put_int tag v vb), h))"
  using getter_ok_int [of tag I "\<lambda>h. h" "\<lambda>h. v"] by simp

lemma iftable_row_cells:
  "iftable_row_cell IF_COL_INDEX row = (\<lambda>vb h. Some ((MIB_OK, put_int BER_TAG_INTEGER (row_index row) vb), h))"
  "iftable_row_cell IF_COL_DESCR row =
     (\<lambda>vb h. do { vb' \<leftarrow> get_string_field (row_descr row) vb; Some ((MIB_OK, vb'), h) })"
  "iftable_row_cell IF_COL_TYPE row = (\<lambda>vb h. Some ((MIB_OK, put_int BER_TAG_INTEGER (row_if_type row) vb), h))"
  "iftable_row_cell IF_COL_MTU row =
     (\<lambda>vb h. Some ((MIB_OK, put_int BER_TAG_INTEGER (if row_index row = 2 then 65536 else 1500) vb), h))"
  "iftable_row_cell IF_COL_SPEED row =
     (\<lambda>vb h. Some ((MIB_OK, put_int SNMP_TAG_GAUGE32 (if row_index row = 2 then 10000000 else 72200000) vb), h))"
  "iftable_row_cell IF_COL_PHYS_ADDRESS row =
     (\<lambda>vb h. do { vb' \<leftarrow> put_octets (row_mac row) vb; Some ((MIB_OK, vb'), h) })"
  "iftable_row_cell IF_COL_ADMIN_STATUS row = (\<lambda>vb h. Some ((MIB_OK, put_int BER_TAG_INTEGER 1 vb), h))"
  "iftable_row_cell IF_COL_OPER_STATUS row = (\<lambda>vb h. Some ((MIB_OK, put_int BER_TAG_INTEGER 1 vb), h))"
  "iftable_row_cell IF_COL_LAST_CHANGE row = (\<lambda>vb h. Some ((MIB_OK, put_int SNMP_TAG_TIMETICKS 0 vb), h))"
  "iftable_row_cell IF_COL_IN_OCTETS row = (\<lambda>vb h. Some ((MIB_OK, put_int SNMP_TAG_COUNTER32 (row_in_octets row) vb), h))"
  "iftable_row_cell IF_COL_OUT_OCTETS row = (\<lambda>vb h. Some ((MIB_OK, put_int SNMP_TAG_COUNTER32 (row_out_octets row) vb), h))"
  by (simp_all add: iftable_row_cell_def fun_eq_iff)

lemma iftable_host_columns_ok:
  assumes "col \<in> set (mt_columns s_iftable_host)"
  shows "getter_ok host_ok (col_value_tag col) (iftable_get_cell_host (col_number col) i)"
  unfolding iftable_get_cell_host_def [abs_def]
proof (rule if_cell_getter_ok)
  fix row assume "if_row_ok row"
  then have row: "c_array (length (row_descr row)) (row_descr row)" "length (row_descr row) \<le> SNMP_MAX_OCTETS_LEN"
    "length (row_mac row) \<le> SNMP_MAX_OCTETS_LEN" by (simp_all add: if_row_ok_def)
  have mac: "getter_ok host_ok BER_TAG_OCTET_STRING (\<lambda>vb h. do { vb' \<leftarrow> put_octets (row_mac row) vb; Some ((MIB_OK, vb'), h) })"
    by (intro getter_ok_octets put_octets_ok row(3))
  from assms show "getter_ok host_ok (col_value_tag col) (iftable_row_cell (col_number col) row)"
    by (simp add: s_iftable_host_def, elim disjE)
      (simp_all only: column_simps iftable_row_cells getter_ok_put_int getter_ok_field [OF row(1,2)] mac insert_iff simp_thms)
qed

lemma ifxtable_host_columns_ok:
  assumes "col \<in> set (mt_columns s_ifxtable_host)"
  shows "getter_ok host_ok (col_value_tag col) (ifxtable_get_cell_host (col_number col) i)"
  unfolding ifxtable_get_cell_host_def [abs_def]
proof (rule if_cell_getter_ok)
  fix row assume "if_row_ok row"
  then have row: "c_array (length (row_name row)) (row_name row)" "length (row_name row) \<le> SNMP_MAX_OCTETS_LEN"
    by (simp_all add: if_row_ok_def)
  from assms getter_ok_field [OF row, of host_ok]
  show "getter_ok host_ok (col_value_tag col) (ifxtable_row_cell (col_number col) row)"
    by (auto simp: s_ifxtable_host_def ifxtable_row_cell_def [abs_def] getter_ok_counter64)
qed

text \<open>Their rows are 1 and 2, whatever the clock says.\<close>

lemma if_next_index_loop_rows:
  "sorted_wrt (<) (map row_index rows) \<Longrightarrow>
   if_next_index_loop rows c = row_ptr (filter (\<lambda>i. c < i) (map row_index rows))"
proof (induction rows)
  case (Cons row rows)
  then show ?case by (auto simp: filter_id_conv)
qed simp

lemma if_rows_walk:
  assumes "length (mt_entry_oid t) + 2 \<le> BER_MAX_OID_LEN" and "sorted_wrt (<) (map col_number (mt_columns t))"
    and "mt_first_index t = if_first_index_host" and "mt_next_index t = if_next_index_host"
  shows "mib_table_rows t host_ok (\<lambda>_. [1, 2])"
proof -
  have rows: "if_next_index_host c h = (row_ptr (filter (\<lambda>i. c < i) [1, 2]), h)" if "host_ok h" for c h
    using that if_next_index_loop_rows [of "s_if_rows h" c] by (simp add: if_next_index_host_def host_ok_def)
  have hd: "row_index (s_if_rows h ! 0) = 1" if "host_ok h" for h
    using that by (auto simp: host_ok_def)
  show ?thesis
    by unfold_locales
      (use assms rows hd in \<open>auto simp: if_first_index_host_def split: if_splits\<close>)
qed

interpretation iftable_host: mib_table_rows s_iftable_host host_ok "\<lambda>_. [1, 2]"
  by (rule if_rows_walk) (simp_all add: s_iftable_host_def)

interpretation ifxtable_host: mib_table_rows s_ifxtable_host host_ok "\<lambda>_. [1, 2]"
  by (rule if_rows_walk) (simp_all add: s_ifxtable_host_def)

lemma iftable_host_ok: "table_ok host_ok s_iftable_host"
  using iftable_host.mib_table_walk_axioms iftable_host_columns_ok
  by (simp add: table_ok_def table_reads_def s_iftable_host_def)

lemma ifxtable_host_ok: "table_ok host_ok s_ifxtable_host"
  using ifxtable_host.mib_table_walk_axioms ifxtable_host_columns_ok
  by (simp add: table_ok_def table_reads_def s_ifxtable_host_def)

section \<open>The sensors\<close>

lemma wsensor_row_count_ok [simp]:
  "host_ok (snd (wsensor_row_count h)) = host_ok h"
  "s_sensor_rows (snd (wsensor_row_count h)) = s_sensor_rows h"
  by (simp_all add: wsensor_row_count_def split_beta)

lemma wsensor_row_count_cases: "fst (wsensor_row_count h) = 1 \<or> fst (wsensor_row_count h) = 2"
  by (simp add: wsensor_row_count_def split_beta)

lemma find_sensor_row_loop_Some:
  "find_sensor_row_loop rows i index = Some k \<Longrightarrow> i \<le> k \<and> k < i + length rows"
  by (induction rows i index rule: find_sensor_row_loop.induct) (auto split: if_splits)

lemma find_sensor_row_ok [simp]:
  "host_ok (snd (find_sensor_row i h)) = host_ok h"
  "s_sensor_rows (snd (find_sensor_row i h)) = s_sensor_rows h"
  by (simp_all add: find_sensor_row_def split_beta)

lemma find_sensor_row_Some:
  "find_sensor_row i h = (Some k, h') \<Longrightarrow> k < length (s_sensor_rows h')"
  using find_sensor_row_loop_Some [of "s_sensor_rows h'" 0 i k]
  by (auto simp: find_sensor_row_def split_beta split: if_splits)

lemma host_ok_sensor_row_upd:
  assumes "host_ok h" and "c_array WSENSOR_LABEL_MAX (srow_label row)" and "k < length (s_sensor_rows h)"
    and "srow_index row = srow_index (s_sensor_rows h ! k)"
  shows "host_ok (h\<lparr>s_sensor_rows := (s_sensor_rows h)[k := row]\<rparr>)"
proof -
  have "map srow_index ((s_sensor_rows h)[k := row]) = map srow_index (s_sensor_rows h)"
    using assms(3,4) by (simp add: map_update list_update_same_conv)
  moreover have "\<forall>r \<in> set ((s_sensor_rows h)[k := row]). c_array WSENSOR_LABEL_MAX (srow_label r)"
    using assms(1,2) set_update_subset_insert [of "s_sensor_rows h" k row] by (auto simp: host_ok_def)
  ultimately show ?thesis using assms(1) by (simp add: host_ok_def clock_ok_def)
qed

text \<open>What a callback finds when the row is there.\<close>

lemma find_sensor_row_cases:
  assumes "host_ok h"
  obtains (none) h1 where "find_sensor_row i h = (None, h1)" "host_ok h1"
    | (row) k h1 where "find_sensor_row i h = (Some k, h1)" "host_ok h1" "k < length (s_sensor_rows h1)"
        "c_array WSENSOR_LABEL_MAX (srow_label (s_sensor_rows h1 ! k))"
proof -
  obtain r h1 where f: "find_sensor_row i h = (r, h1)" by fastforce
  with assms have ok: "host_ok h1" using find_sensor_row_ok(1) [of i h] by simp
  show ?thesis
  proof (cases r)
    case None
    with f ok show ?thesis by (intro none) simp_all
  next
    case (Some k)
    with f have k: "k < length (s_sensor_rows h1)" using find_sensor_row_Some by simp
    with ok have "c_array WSENSOR_LABEL_MAX (srow_label (s_sensor_rows h1 ! k))" by (simp add: host_ok_def)
    with f Some ok k show ?thesis by (intro row) simp_all
  qed
qed

lemma wsensor_columns_ok:
  assumes "col \<in> set (mt_columns s_wsensor_table)"
  shows "getter_ok host_ok (col_value_tag col) (wsensor_get_cell (col_number col) i)"
proof (rule getter_okI, goal_cases)
  case (1 vb h)
  from 1(1) show ?case
  proof (cases rule: find_sensor_row_cases [where i = i])
    case (none h1)
    with 1(2) show ?thesis by (simp add: wsensor_get_cell_def)
  next
    case (row k h1)
    let ?row = "s_sensor_rows h1 ! k"
    have len: "length (srow_label ?row) = 32" using row(4) by (simp add: c_array_def)
    then obtain vb' where label: "get_string_field (srow_label ?row) vb = Some vb'" "vb_ok vb'" "vb_oid vb' = vb_oid vb"
      "vb_tag vb' = BER_TAG_OCTET_STRING"
      using get_field_ok [of "srow_label ?row" vb] row(4) 1(2) by auto
    have count: "host_ok (h1\<lparr>s_sensor_rows := (s_sensor_rows h1)[k := ?row\<lparr>srow_read_count := srow_read_count ?row + 1\<rparr>]\<rparr>)"
      using row by (intro host_ok_sensor_row_upd) simp_all
    from assms row(1,2) label count 1(2) show ?thesis
      by (auto simp: s_wsensor_table_def wsensor_get_cell_def Let_def vb_ok_def [of "vb\<lparr>vb_tag := _, vb_value := _\<rparr>"] value_ok_def)
        (simp_all add: vb_ok_def)
  qed
qed

lemma wsensor_set_cell_ok: "setter_ok host_ok (wsensor_set_cell c i)"
  unfolding setter_ok_def
proof (intro allI impI)
  fix vb h assume h: "host_ok h" "vb_ok vb"
  from h(1) show "\<exists>r h'. wsensor_set_cell c i vb h = Some (r, h') \<and> host_ok h'"
  proof (cases rule: find_sensor_row_cases [where i = i])
    case (none h1)
    then show ?thesis by (simp add: wsensor_set_cell_def)
  next
    case (row k h1)
    let ?row = "s_sensor_rows h1 ! k"
    have octets: "\<exists>bs. vb_value vb = UOctets bs" if "vb_tag vb = BER_TAG_OCTET_STRING"
      using h(2) that by (auto simp: vb_ok_def value_ok_def)
    have "host_ok (h1\<lparr>s_sensor_rows := (s_sensor_rows h1)
        [k := ?row\<lparr>srow_label := bs @ [0] @ drop (length bs + 1) (srow_label ?row)\<rparr>]\<rparr>)"
      if "length bs < WSENSOR_LABEL_MAX" for bs
    proof (rule host_ok_sensor_row_upd [OF row(2) _ row(3)])
      from label_slot_c_array [OF row(4) that] show "c_array WSENSOR_LABEL_MAX
        (srow_label (?row\<lparr>srow_label := bs @ [0] @ drop (length bs + 1) (srow_label ?row)\<rparr>))" by simp
    qed simp
    with row(1,2) octets show ?thesis by (auto simp: wsensor_set_cell_def Let_def)
  qed
qed

text \<open>A step goes to a larger index, although the number of rows may have changed since the last one.\<close>

interpretation wsensor_walk: mib_table_walk s_wsensor_table host_ok
proof unfold_locales
  fix h c i assume n: "fst (mt_next_index s_wsensor_table c h) = Inr i"
  then have "i = c + 1" and "c < word_of_nat (fst (wsensor_row_count h))"
    by (auto simp: s_wsensor_table_def wsensor_next_index_def split_beta split: if_splits)
  with wsensor_row_count_cases [of h] show "c < i"
    by (auto intro!: plus_one_ascends simp: word_le_nat_alt word_less_nat_alt unat_word_ariths)
qed (auto simp: s_wsensor_table_def wsensor_first_index_def wsensor_next_index_def split_beta)

lemma wsensor_table_ok: "table_ok host_ok s_wsensor_table"
  using wsensor_walk.mib_table_walk_axioms wsensor_columns_ok wsensor_set_cell_ok
  by (simp add: table_ok_def table_reads_def s_wsensor_table_def)

section \<open>The interface of the protocol engine\<close>

definition host_registry :: "host registry" where
  "host_registry =
     \<lparr>s_modules = [s_mib_ii_host, s_mib_wespe_host, s_mib_iftable_scalars],
      s_tables = [s_iftable_host, s_ifxtable_host, s_wsensor_table]\<rparr>"

lemma host_object_ok: "obj \<in> scalars host_registry \<Longrightarrow> object_ok host_ok obj"
  using s_mib_ii_host_ok s_mib_wespe_host_ok s_mib_iftable_scalars_ok by (auto simp: host_registry_def)

lemma host_table_ok: "t \<in> set (s_tables host_registry) \<Longrightarrow> table_ok host_ok t"
  using iftable_host_ok ifxtable_host_ok wsensor_table_ok by (auto simp: host_registry_def)

end
