(* ===== verification/Dev_Agent_Main.thy ===== *)
theory Dev_Agent_Main
  imports Dev_Agent_Correct App_Security Agent_Walk
begin

text \<open>
  \<open>main\<close> of \<open>dev_agent.c\<close>: the argument, the registrations, the socket and the serving loop. What the
  sockets API answers is the record \<open>net_env\<close> of \<open>Snmp_Udp\<close>; the messages on \<open>stderr\<close> are dropped.
\<close>

section \<open>Start\<close>

abbreviation DEV_AGENT_DEFAULT_PORT :: int where "DEV_AGENT_DEFAULT_PORT \<equiv> 1161"
abbreviation MAX_PACKET_LEN :: nat where "MAX_PACKET_LEN \<equiv> 1472"

text \<open>\<open>atoi\<close> of the C library: white space, a sign, digits; undefined when the value is no \<open>int\<close>.\<close>

fun atoi_digits :: "u8 list \<Rightarrow> nat \<Rightarrow> nat" where
  "atoi_digits [] n = n"
| "atoi_digits (c # cs) n = (if 48 \<le> c \<and> c \<le> 57 then atoi_digits cs (10 * n + (unat c - 48)) else n)"

definition atoi :: "u8 list \<Rightarrow> int option" where
  "atoi s =
     (let cs = dropWhile (\<lambda>c. c = 32 \<or> 9 \<le> c \<and> c \<le> 13) (c_string s);
          v = (case cs of
                 [] \<Rightarrow> 0
               | c # ds \<Rightarrow> if c = 45 then - int (atoi_digits ds 0)
                          else if c = 43 then int (atoi_digits ds 0)
                          else int (atoi_digits cs 0))
      in if - (2 ^ 31) \<le> v \<and> v < 2 ^ 31 then Some v else None)"

definition dev_agent_register :: "security \<Rightarrow> host registry \<Rightarrow> (security \<times> host registry) option" where
  "dev_agent_register sec reg = do {
     let reg1 = snd (mib_registry_register_module s_mib_ii_host reg);
     let reg2 = snd (mib_registry_register_module s_mib_wespe_host reg1);
     let reg3 = snd (mib_registry_register_module s_mib_iftable_scalars reg2);
     let reg4 = snd (mib_registry_register_table s_iftable_host reg3);
     let reg5 = snd (mib_registry_register_table s_ifxtable_host reg4);
     let reg6 = snd (mib_registry_register_table s_wsensor_table reg5);
     sec1 \<leftarrow> snmp_security_community_init (c_lit ''public'' @ [0]) (c_lit ''private'' @ [0]) sec;
     Some (snmp_security_usm_stub_init sec1, reg6)
   }"

text \<open>Where \<open>main\<close> gets: its return value, or the loop, listening on a socket bound to an address.\<close>

datatype dev_run =
    Dev_Exit int
  | Dev_Listening int sockaddr_in security "host registry" host transport

definition dev_agent_main ::
  "u8 list option \<Rightarrow> security \<Rightarrow> host registry \<Rightarrow> host \<Rightarrow> transport \<Rightarrow> dev_run option" where
  "dev_agent_main arg sec reg h tr = do {
     port \<leftarrow> (case arg of None \<Rightarrow> Some DEV_AGENT_DEFAULT_PORT | Some s \<Rightarrow> atoi s);
     let (now, h1) = time_call h;
     let h2 = h1\<lparr>s_boot_time := now\<rparr>;
     (sec1, reg1) \<leftarrow> dev_agent_register sec reg;
     let (sock, tr1) = socket_call tr;
     if sock < 0 then Some (Dev_Exit 1)
     else
       let addr = \<lparr>sin_addr = [127, 0, 0, 1], sin_port = nat (port mod 2 ^ 16)\<rparr>;
           (st, tr2) = bind_call sock (sin_port addr) tr1
       in if st \<noteq> 0 then Some (Dev_Exit 1)
          else Some (Dev_Listening sock addr sec1 reg1 h2 tr2)
   }"

section \<open>The serving loop\<close>

text \<open>
  One turn. \<open>recvfrom\<close> failed (\<open>None\<close>) or delivered the start of a datagram; \<open>buf\<close> and \<open>out_buf\<close> are
  what the two arrays on the stack hold.
\<close>

definition dev_agent_turn ::
  "host registry \<Rightarrow> security \<Rightarrow> int \<Rightarrow> (sockaddr_in \<times> u8 list) option \<Rightarrow> u8 list \<Rightarrow> u8 list \<Rightarrow> host \<Rightarrow> transport \<Rightarrow>
   (u8 list \<times> host \<times> transport) option" where
  "dev_agent_turn reg sec sock received out_buf buf h tr =
     (case received of
        None \<Rightarrow> Some (buf, h, tr)
      | Some (from, payload) \<Rightarrow>
          let bytes = take MAX_PACKET_LEN payload; n = length bytes; buf1 = bytes @ drop n buf in
          if n = 0 then Some (buf1, h, tr)
          else do {
            (response, h1) \<leftarrow> snmp_message_process reg sec buf1 n out_buf MAX_PACKET_LEN h;
            if length response = 0 then Some (buf1, h1, tr)
            else let (sent, tr1) = sendto_call sock response from tr in Some (buf1, h1, tr1)
          })"

text \<open>The turns for a sequence of receptions, each with what the output buffer holds then.\<close>

fun dev_agent_loop ::
  "host registry \<Rightarrow> security \<Rightarrow> int \<Rightarrow> ((sockaddr_in \<times> u8 list) option \<times> u8 list) list \<Rightarrow> u8 list \<Rightarrow> host \<Rightarrow> transport \<Rightarrow>
   (u8 list \<times> host \<times> transport) option" where
  "dev_agent_loop reg sec sock [] buf h tr = Some (buf, h, tr)"
| "dev_agent_loop reg sec sock ((received, out_buf) # es) buf h tr = do {
     (buf1, h1, tr1) \<leftarrow> dev_agent_turn reg sec sock received out_buf buf h tr;
     dev_agent_loop reg sec sock es buf1 h1 tr1
   }"

section \<open>The interface of the protocol engine\<close>

interpretation host: mib_backend host_registry host_ok
  by unfold_locales
    (use host_object_ok host_table_ok in \<open>auto simp: object_ok_def table_ok_def\<close>)

text \<open>A turn is a turn of the agent task of the firmware, over another device.\<close>

lemma dev_agent_turn_udp:
  "dev_agent_turn reg sec sock received out_buf ib h tr =
   map_option (\<lambda>(task, h', tr'). (in_buf task, h', tr'))
     (snmp_udp_turn reg sec received out_buf \<lparr>udp_sock = sock, in_buf = ib\<rparr> h tr)"
  by (cases received)
    (auto simp: dev_agent_turn_def snmp_udp_turn_def Let_def split_beta map_option_bind intro!: Option.bind_cong)

lemma dev_agent_loop_total:
  assumes "security_ok sec" and "\<forall>(received, out) \<in> set es. length out = MAX_PACKET_LEN"
    and "length buf = MAX_PACKET_LEN" and "host_ok h"
  shows "\<exists>buf' h' tr'. dev_agent_loop host_registry sec sock es buf h tr = Some (buf', h', tr') \<and>
    length buf' = MAX_PACKET_LEN \<and> host_ok h'"
  using assms(2-4)
proof (induction es arbitrary: buf h tr)
  case (Cons e es)
  obtain received out where e: "e = (received, out)" by fastforce
  with Cons.prems have "length out = SNMP_MAX_PACKET_LEN" by simp
  from host.udp_turn_total [OF assms(1) _ this, of "\<lparr>udp_sock = sock, in_buf = buf\<rparr>" h received tr] Cons.prems
  obtain task' h' tr' where
    turn: "snmp_udp_turn host_registry sec received out \<lparr>udp_sock = sock, in_buf = buf\<rparr> h tr = Some (task', h', tr')"
      "host_ok h'" "length (in_buf task') = SNMP_MAX_PACKET_LEN" by auto
  then have "dev_agent_turn host_registry sec sock received out buf h tr = Some (in_buf task', h', tr')"
    by (simp add: dev_agent_turn_udp)
  with Cons.IH [OF _ turn(3,2), of tr'] Cons.prems(1) e show ?case by simp
qed simp

end
