(* ===== verification/Dev_Agent_Properties.thy ===== *)
theory Dev_Agent_Properties
  imports Dev_Agent_Main Agent_Samples
begin

text \<open>
  The host agent as a whole: it serves any sequence of datagrams, a walk of it ends although rows come and
  go, and what a manager sees when a row goes at the wrong moment.
\<close>

section \<open>Start and service\<close>

definition host_registry_empty :: "host registry" where
  "host_registry_empty = \<lparr>s_modules = [], s_tables = []\<rparr>"

definition host_security :: security where
  "host_security =
     \<lparr>s_slots = [(0, s_community_model), (1, s_community_model), (3, s_usm_stub_model)],
      s_communities = \<lparr>s_ro_community = stored_community (c_lit ''public'' @ [0]),
                       s_rw_community = stored_community (c_lit ''private'' @ [0])\<rparr>\<rparr>"

lemma dev_agent_register_start:
  "dev_agent_register security_start host_registry_empty = Some (host_security, host_registry)"
proof -
  obtain sec1 where sec1: "snmp_security_community_init (c_lit ''public'' @ [0]) (c_lit ''private'' @ [0]) security_start = Some sec1"
    "snmp_security_usm_stub_init sec1 = host_security"
    using community_init_agent [of "c_lit ''public'' @ [0]" "c_lit ''private'' @ [0]"]
    by (auto simp: host_security_def)
  then show ?thesis
    by (simp add: dev_agent_register_def host_registry_empty_def host_registry_def mib_registry_register_module_def
        mib_registry_register_table_def Let_def)
qed

lemma host_security_ok: "security_ok host_security"
proof -
  have "0 \<in> set (stored_community src)" for src by (auto simp: stored_community_def)
  then show ?thesis
    using community.security_model_axioms usm_stub.security_model_axioms
    by (simp add: security_ok_def communities_ok_def host_security_def)
qed

lemma host_security_local: "security_local host_security"
  by (simp add: security_local_def host_security_def community_model_local usm_model_local)

text \<open>
  What a sequence of receptions is answered with, by the protocol engine alone and without any buffer: a
  reception that failed or is empty is not answered; a datagram, as far as the packet length, is answered by
  the response of the engine to exactly these bytes in the state the earlier ones left, to its own sender, if
  there is a response.
\<close>

inductive host_serves ::
  "host registry \<Rightarrow> security \<Rightarrow> int \<Rightarrow> (sockaddr_in \<times> u8 list) option list \<Rightarrow> host \<Rightarrow> datagram list \<Rightarrow> host \<Rightarrow> bool"
  for reg sec sock where
  serves_end: "host_serves reg sec sock [] h [] h"
| serves_failed: "host_serves reg sec sock rs h dgs h' \<Longrightarrow> host_serves reg sec sock (None # rs) h dgs h'"
| serves_empty: "host_serves reg sec sock rs h dgs h' \<Longrightarrow> host_serves reg sec sock (Some (from, []) # rs) h dgs h'"
| serves_request: "payload \<noteq> [] \<Longrightarrow> request = take MAX_PACKET_LEN payload \<Longrightarrow>
    snmp_message_process reg sec request (length request) (replicate MAX_PACKET_LEN 0) MAX_PACKET_LEN h = Some (response, h1) \<Longrightarrow>
    host_serves reg sec sock rs h1 dgs h' \<Longrightarrow>
    host_serves reg sec sock (Some (from, payload) # rs) h
      ((if response = [] then [] else [\<lparr>dg_socket = sock, dg_peer = from, dg_bytes = response\<rparr>]) @ dgs) h'"

inductive_simps host_serves_Nil [simp]: "host_serves reg sec sock [] h dgs h'"

lemma dev_agent_turn_serves:
  assumes "dev_agent_turn host_registry host_security sock received out_buf buf h tr = Some (buf1, h1, tr1)"
    and "host_ok h" and "length out_buf = MAX_PACKET_LEN" and "length buf = MAX_PACKET_LEN"
    and rest: "host_serves host_registry host_security sock rs h1 dgs h'"
  shows "\<exists>sent. net_sent tr1 = net_sent tr @ sent \<and>
    host_serves host_registry host_security sock (received # rs) h (sent @ dgs) h'"
proof (cases received)
  case None
  with assms(1) rest show ?thesis by (auto simp: dev_agent_turn_def intro: serves_failed)
next
  case (Some r)
  obtain peer payload where r: "r = (peer, payload)" by fastforce
  show ?thesis
  proof (cases "payload = []")
    case True
    with assms(1) rest Some r show ?thesis by (auto simp: dev_agent_turn_def intro: serves_empty)
  next
    case False
    define request where "request = take MAX_PACKET_LEN payload"
    let ?buf = "request @ drop (length request) buf"
    from assms(1) Some r False obtain response where
      run: "snmp_message_process host_registry host_security ?buf (length request) out_buf MAX_PACKET_LEN h = Some (response, h1)" and
      tr1: "tr1 = (if response = [] then tr else snd (sendto_call sock response peer tr))"
      by (auto simp: dev_agent_turn_def Let_def request_def [symmetric] bind_eq_Some_conv split_beta split: if_splits)
    have "snmp_message_process host_registry host_security request (length request) (replicate MAX_PACKET_LEN 0) MAX_PACKET_LEN h =
        snmp_message_process host_registry host_security ?buf (length request) out_buf MAX_PACKET_LEN h"
      by (rule host.message_local [OF host_security_ok host_security_local])
        (use assms(2,3) in simp_all)
    with run have "snmp_message_process host_registry host_security request (length request) (replicate MAX_PACKET_LEN 0)
        MAX_PACKET_LEN h = Some (response, h1)" by simp
    from serves_request [OF False request_def this rest, of peer] tr1 Some r show ?thesis
      by (auto simp: sendto_call_def net_tick_def)
  qed
qed

lemma dev_agent_loop_serves:
  assumes "\<forall>(received, out_buf) \<in> set es. length out_buf = MAX_PACKET_LEN" and "length buf = MAX_PACKET_LEN" and "host_ok h"
  shows "\<exists>buf' h' tr' dgs. dev_agent_loop host_registry host_security sock es buf h tr = Some (buf', h', tr') \<and> host_ok h' \<and>
    net_sent tr' = net_sent tr @ dgs \<and> host_serves host_registry host_security sock (map fst es) h dgs h'"
  using assms
proof (induction es arbitrary: buf h tr)
  case (Cons e es)
  obtain received out where e: "e = (received, out)" by fastforce
  with Cons.prems have out: "length out = MAX_PACKET_LEN" by simp
  with dev_agent_loop_total [OF host_security_ok _ Cons.prems(2,3), of "[(received, out)]" sock tr] obtain buf1 h1 tr1 where
    turn: "dev_agent_turn host_registry host_security sock received out buf h tr = Some (buf1, h1, tr1)"
      "length buf1 = MAX_PACKET_LEN" "host_ok h1"
    by (auto simp: bind_eq_Some_conv)
  from Cons.IH [OF _ turn(2,3), of tr1] Cons.prems(1) obtain buf' h' tr' dgs where
    rest: "dev_agent_loop host_registry host_security sock es buf1 h1 tr1 = Some (buf', h', tr')" "host_ok h'"
      "net_sent tr' = net_sent tr1 @ dgs" "host_serves host_registry host_security sock (map fst es) h1 dgs h'" by auto
  from dev_agent_turn_serves [OF turn(1) Cons.prems(3) out Cons.prems(2) rest(4)] turn(1) rest e show ?case by auto
qed simp

text \<open>
  C10. The host agent serves: whatever the clock, the port argument and the sockets API answer, it either
  gives up with the return value 1 before it has touched a datagram, or it listens on the loopback address
  with its modules registered, and then every sequence of receptions is served without undefined behaviour and
  with the invariant kept. What it sends is exactly what the protocol engine answers: one response at most for
  each reception, in their order, each to the sender of its own request and a function of that request and of
  the state alone.
\<close>

theorem dev_agent_serves:
  assumes "\<And>n. 0 \<le> time n \<and> time n < 2 ^ 56" and "\<And>s. arg = Some s \<Longrightarrow> atoi s \<noteq> None"
    and "\<forall>(received, out_buf) \<in> set es. length out_buf = MAX_PACKET_LEN" and "length buf = MAX_PACKET_LEN"
  shows "\<exists>run. dev_agent_main arg security_start host_registry_empty (host_start time) (transport_start net) = Some run \<and>
    (case run of
       Dev_Exit st \<Rightarrow> st = 1
     | Dev_Listening sock addr sec reg h tr \<Rightarrow> 0 \<le> sock \<and> sin_addr addr = [127, 0, 0, 1] \<and>
         sec = host_security \<and> reg = host_registry \<and>
         (\<exists>buf' h' tr'. dev_agent_loop reg sec sock es buf h tr = Some (buf', h', tr') \<and> host_ok h' \<and>
            host_serves reg sec sock (map fst es) h (net_sent tr') h'))"
proof -
  let ?h = "(snd (time_call (host_start time)))\<lparr>s_boot_time := time 0\<rparr>"
  let ?tr = "net_tick (net_tick (transport_start net))"
  have h: "host_ok ?h"
    using host_start_ok [of time "time 0" 1] assms(1) by (simp add: time_call_def host_start_def)
  have "net_sent ?tr = []" by (simp add: transport_start_def net_tick_def)
  with dev_agent_loop_serves [OF assms(3,4) h, of "n_socket net 0" ?tr] obtain buf' h' tr' where
    "dev_agent_loop host_registry host_security (n_socket net 0) es buf ?h ?tr = Some (buf', h', tr')" "host_ok h'"
    "host_serves host_registry host_security (n_socket net 0) (map fst es) ?h (net_sent tr') h'" by auto
  with assms(2) show ?thesis
    by (cases arg)
      (auto simp: dev_agent_main_def dev_agent_register_start time_call_def host_start_def socket_call_def bind_call_def
        transport_start_def Let_def)
qed

text \<open>A dead clock, a socket that works, and two receptions: nothing, and a datagram that is no message.\<close>

theorem dev_agent_serves_witness:
  "\<exists>run. dev_agent_main (Some (c_lit ''2161'' @ [0])) security_start host_registry_empty (host_start (\<lambda>_. 1700000000))
       (transport_start sample_net) = Some run \<and>
    (case run of
       Dev_Exit st \<Rightarrow> st = 1
     | Dev_Listening sock addr sec reg h tr \<Rightarrow> 0 \<le> sock \<and> sin_addr addr = [127, 0, 0, 1] \<and>
         sec = host_security \<and> reg = host_registry \<and>
         (\<exists>buf' h' tr'. dev_agent_loop reg sec sock
              [(None, replicate 1472 0), (Some (\<lparr>sin_addr = [127, 0, 0, 1], sin_port = 40000\<rparr>, [0x30, 0]), replicate 1472 7)]
              (replicate 1472 9) h tr = Some (buf', h', tr') \<and> host_ok h' \<and>
            host_serves reg sec sock (map fst [(None, replicate 1472 0),
              (Some (\<lparr>sin_addr = [127, 0, 0, 1], sin_port = 40000\<rparr>, [0x30, 0]), replicate 1472 (7 :: u8))]) h (net_sent tr') h'))"
proof (rule dev_agent_serves)
  have "atoi (c_lit ''2161'' @ [0]) = Some 2161" by code_simp
  then show "atoi s \<noteq> None" if "Some (c_lit ''2161'' @ [0]) = Some s" for s using that by simp
qed simp_all

section \<open>Walking while rows come and go\<close>

lemma if_ids: "mib_table_rows t host_ok (\<lambda>_. [1, 2]) \<Longrightarrow> mt_next_index t = if_next_index_host \<Longrightarrow>
  mib_table_ids t host_ok {1, 2}"
proof (unfold mib_table_ids_def mib_table_ids_axioms_def, intro conjI allI impI)
  assume t: "mib_table_rows t host_ok (\<lambda>_. [1, 2])" and nx: "mt_next_index t = if_next_index_host"
  show "mib_table_walk t host_ok" using t by (simp add: mib_table_rows_def)
  fix h i
  assume "host_ok h"
  with mib_table_rows.first_row [OF t] show "i \<in> {1, 2}" if "fst (mt_first_index t h) = Inr i"
    using that by simp
  fix c
  from \<open>host_ok h\<close> have "if_next_index_loop (s_if_rows h) c = row_ptr (filter (\<lambda>i. c < i) [1, 2])"
    using if_next_index_loop_rows [of "s_if_rows h" c] by (simp add: host_ok_def)
  then show "i \<in> {1, 2}" if "fst (mt_next_index t c h) = Inr i"
    using that nx by (auto simp: if_next_index_host_def split: if_splits)
qed

interpretation wsensor_ids: mib_table_ids s_wsensor_table host_ok "{1, 2}"
proof unfold_locales
  show "i \<in> {1, 2}" if "fst (mt_first_index s_wsensor_table h) = Inr i" for h i
    using that by (simp add: s_wsensor_table_def wsensor_first_index_def)
  show "i \<in> {1, 2}" if n: "fst (mt_next_index s_wsensor_table c h) = Inr i" for c h i
  proof -
    from n have i: "i = c + 1" "c < word_of_nat (fst (wsensor_row_count h))"
      by (auto simp: s_wsensor_table_def wsensor_next_index_def split_beta split: if_splits)
    with wsensor_row_count_cases [of h] have "unat c < 2" by (auto simp: word_less_nat_alt)
    then have "unat c = 0 \<or> unat c = 1" by linarith
    then have "c = 0 \<or> c = 1" by (auto simp: word_unat_eq_iff)
    with i show ?thesis by auto
  qed
qed

lemma host_registry_ids: "registry_ids host_ok (\<lambda>_. {1, 2}) host_registry"
proof -
  have "mib_table_ids s_iftable_host host_ok {1, 2}" "mib_table_ids s_ifxtable_host host_ok {1, 2}"
    using if_ids [OF iftable_host.mib_table_rows_axioms] if_ids [OF ifxtable_host.mib_table_rows_axioms]
    by (simp_all add: s_iftable_host_def s_ifxtable_host_def)
  moreover have "length (mo_oid obj) \<le> BER_MAX_OID_LEN" if "obj \<in> scalars host_registry" for obj
    using host_object_ok [OF that] by (simp add: object_ok_def object_reads_def)
  ultimately show ?thesis
    using wsensor_ids.mib_table_ids_axioms by (auto simp: registry_ids_def host_registry_def)
qed

text \<open>The names the host agent may ever use: its scalars, and two rows in each table.\<close>

definition host_names :: "oid set" where
  "host_names = mo_oid ` scalars host_registry \<union> (\<Union>t \<in> set (s_tables host_registry). table_cells t [1, 2])"

lemma resolved_in_host_names: "resolved_in (\<lambda>_. {1, 2}) host_registry out \<Longrightarrow> rs_oid out \<in> host_names"
  by (fastforce simp: resolved_in_def host_names_def table_cells_def)

lemma finite_host_names [simp]: "finite host_names"
  by (simp add: host_names_def)

lemma card_host_names: "card host_names \<le> 46"
proof -
  let ?S = "mo_oid ` scalars host_registry"
  have tables: "(\<Union>t \<in> set (s_tables host_registry). table_cells t [1, 2]) =
      table_cells s_iftable_host [1, 2] \<union> (table_cells s_ifxtable_host [1, 2] \<union> table_cells s_wsensor_table [1, 2])"
    by (simp add: host_registry_def)
  have "card ?S \<le> length (concat (s_modules host_registry))"
    using card_image_le [of "scalars host_registry" mo_oid] card_length [of "concat (s_modules host_registry)"] by simp
  then have "card ?S \<le> 8"
    by (simp add: host_registry_def s_mib_ii_host_def s_mib_wespe_host_def s_mib_iftable_scalars_def)
  moreover have "card (table_cells s_iftable_host [1, 2]) \<le> 22" "card (table_cells s_ifxtable_host [1, 2]) \<le> 6"
    "card (table_cells s_wsensor_table [1, 2]) \<le> 10"
    using card_table_cells [of s_iftable_host "[1, 2]"] card_table_cells [of s_ifxtable_host "[1, 2]"]
      card_table_cells [of s_wsensor_table "[1, 2]"]
    by (simp_all add: s_iftable_host_def s_ifxtable_host_def s_wsensor_table_def)
  ultimately show ?thesis
    unfolding host_names_def tables
    using card_Un_le [of ?S "table_cells s_iftable_host [1, 2] \<union> (table_cells s_ifxtable_host [1, 2] \<union> table_cells s_wsensor_table [1, 2])"]
      card_Un_le [of "table_cells s_iftable_host [1, 2]" "table_cells s_ifxtable_host [1, 2] \<union> table_cells s_wsensor_table [1, 2]"]
      card_Un_le [of "table_cells s_ifxtable_host [1, 2]" "table_cells s_wsensor_table [1, 2]"]
    by linarith
qed

lemma host_names_short: "x \<in> host_names \<Longrightarrow> length x \<le> BER_MAX_OID_LEN"
  unfolding host_names_def table_cells_def
  by (auto simp: host_registry_def s_mib_ii_host_def s_mib_wespe_host_def s_mib_iftable_scalars_def
      s_iftable_host_def s_ifxtable_host_def s_wsensor_table_def)

text \<open>One request of a walk, by what the successor lookup and the getter do.\<close>

lemma getnext_request:
  assumes "mib_registry_resolve_next reg q s = Some (r, s1)"
    and "(case r of Inl e \<Rightarrow> Some ((e, vb_zero), s1)
      | Inr out \<Rightarrow> mib_resolved_get out (vb_zero\<lparr>vb_oid := rs_oid out\<rparr>) s1) = Some ((res, scratch), s2)"
  shows "\<exists>ctx. snmp_pdu_handle_getnext reg (walk_request SNMP_PDU_GET_NEXT_REQUEST 0 0 q) s = Some ((BER_OK, ctx), s2) \<and>
    (if res = MIB_OK then ctx_error_status ctx = 0 \<and> ctx_varbinds ctx ! 0 = scratch
     else if res \<in> {MIB_NO_SUCH_OBJECT, MIB_NO_SUCH_INSTANCE, MIB_END_OF_VIEW} then
       ctx_error_status ctx = 0 \<and> vb_oid (ctx_varbinds ctx ! 0) = q \<and>
       vb_tag (ctx_varbinds ctx ! 0) =
         (case res of MIB_NO_SUCH_OBJECT \<Rightarrow> SNMP_TAG_NO_SUCH_OBJECT | MIB_NO_SUCH_INSTANCE \<Rightarrow> SNMP_TAG_NO_SUCH_INSTANCE
          | _ \<Rightarrow> SNMP_TAG_END_OF_MIB_VIEW)
     else ctx_error_status ctx = SNMP_V1_ERR_GEN_ERR)"
proof -
  let ?req = "walk_request SNMP_PDU_GET_NEXT_REQUEST 0 0 q"
  have len: "0 < length (ctx_varbinds ?req)" by (simp add: walk_request_def request_ctx_def)
  have "lookup_and_fetch reg SNMP_VERSION_V2C LOOKUP_NEXT (null_varbind q) vb_zero s = Some ((res, scratch), s2)"
    using assms lookup_loop.simps(2) [of 63 reg SNMP_VERSION_V2C LOOKUP_NEXT q vb_zero s]
    by (cases r) (simp_all add: lookup_and_fetch_def)
  with len show ?thesis
    by (cases res) (simp_all add: snmp_pdu_handle_getnext_def process_read_pdu_def snmp_error_translate_def Let_def)
qed

lemma host_walk_step:
  assumes "host_ok h" and "length q \<le> BER_MAX_OID_LEN"
  shows "\<exists>ctx h'. snmp_pdu_handle_getnext host_registry (walk_request SNMP_PDU_GET_NEXT_REQUEST 0 0 q) h =
      Some ((BER_OK, ctx), h') \<and> host_ok h' \<and>
      (ctx_error_status ctx = 0 \<longrightarrow> vb_tag (ctx_varbinds ctx ! 0) \<notin> exception_tags \<longrightarrow>
        q < vb_oid (ctx_varbinds ctx ! 0) \<and> vb_oid (ctx_varbinds ctx ! 0) \<in> host_names)"
proof -
  obtain r h1 where r: "mib_registry_resolve_next host_registry q h = Some (r, h1)" "host_ok h1"
    "case r of Inl e \<Rightarrow> e = MIB_END_OF_VIEW | Inr out \<Rightarrow> q < rs_oid out \<and> resolved_in (\<lambda>_. {1, 2}) host_registry out"
    using resolve_next_ids [OF host_registry_ids assms(1), of q] by blast
  show ?thesis
  proof (cases r)
    case (Inl e)
    with r(3) have e: "e = MIB_END_OF_VIEW" by simp
    from getnext_request [OF r(1), of e vb_zero h1] Inl e r(2) show ?thesis by auto
  next
    case (Inr out)
    with r(3) have out: "q < rs_oid out" "resolved_in (\<lambda>_. {1, 2}) host_registry out" by simp_all
    have len: "length (rs_oid out) \<le> BER_MAX_OID_LEN" using host_names_short resolved_in_host_names [OF out(2)] by blast
    then have vb: "vb_ok (vb_zero\<lparr>vb_oid := rs_oid out\<rparr>)" by (simp add: vb_ok_def vb_zero_def value_ok_def)
    obtain res vb' h' where
      get: "mib_resolved_get out (vb_zero\<lparr>vb_oid := rs_oid out\<rparr>) h1 = Some ((res, vb'), h')" "host_ok h'" "vb_oid vb' = rs_oid out"
      by (rule host.get_total [OF resolved_in_from [OF out(2)] r(2) vb]) simp
    from getnext_request [OF r(1), of res vb' h'] Inr get obtain ctx where
      ctx: "snmp_pdu_handle_getnext host_registry (walk_request SNMP_PDU_GET_NEXT_REQUEST 0 0 q) h = Some ((BER_OK, ctx), h')"
      "res = MIB_OK \<longrightarrow> ctx_varbinds ctx ! 0 = vb'"
      "res \<noteq> MIB_OK \<longrightarrow> ctx_error_status ctx = 0 \<longrightarrow> vb_tag (ctx_varbinds ctx ! 0) \<in> exception_tags"
      by (cases res) auto
    with get out resolved_in_host_names [OF out(2)] show ?thesis by (cases "res = MIB_OK") auto
  qed
qed

lemma card_above_less:
  assumes "finite V" and "x \<in> V" and "q < x"
  shows "card {y \<in> V. x < y} < card {y \<in> V. (q :: oid) < y}"
  by (rule psubset_card_mono) (use assms in auto)

lemma host_walk_ends:
  assumes "host_ok h" and "length q \<le> BER_MAX_OID_LEN" and "card {x \<in> host_names. q < x} \<le> k"
  shows "\<exists>names h'. (\<forall>n > k. snmpwalk host_registry n q h = Some (names, h')) \<and> host_ok h' \<and>
    sorted_wrt (<) (q # names) \<and> set names \<subseteq> host_names \<and> length names \<le> k"
  using assms
proof (induction k arbitrary: q h rule: less_induct)
  case (less k)
  from host_walk_step [OF less.prems(1,2)] obtain ctx h1 where
    run: "snmp_pdu_handle_getnext host_registry (walk_request SNMP_PDU_GET_NEXT_REQUEST 0 0 q) h = Some ((BER_OK, ctx), h1)"
    "host_ok h1" and
    step: "ctx_error_status ctx = 0 \<Longrightarrow> vb_tag (ctx_varbinds ctx ! 0) \<notin> exception_tags \<Longrightarrow>
        q < vb_oid (ctx_varbinds ctx ! 0) \<and> vb_oid (ctx_varbinds ctx ! 0) \<in> host_names" by blast
  let ?x = "vb_oid (ctx_varbinds ctx ! 0)"
  have unfold: "snmpwalk host_registry n q h =
      (if ctx_error_status ctx \<noteq> 0 \<or> vb_tag (ctx_varbinds ctx ! 0) \<in> exception_tags then Some ([], h1)
       else do { (names, h2) \<leftarrow> snmpwalk host_registry (n - 1) ?x h1; Some (?x # names, h2) })" if "k < n" for n
    using run that by (cases n) (simp_all add: Let_def)
  show ?case
  proof (cases "ctx_error_status ctx \<noteq> 0 \<or> vb_tag (ctx_varbinds ctx ! 0) \<in> exception_tags")
    case True
    with unfold run(2) show ?thesis by (intro exI [of _ "[]"] exI [of _ h1]) simp
  next
    case False
    with step have x: "q < ?x" "?x \<in> host_names" by simp_all
    have below: "card {y \<in> host_names. ?x < y} < card {y \<in> host_names. q < y}"
      using x by (intro card_above_less) simp_all
    with less.prems(3) have k: "card {y \<in> host_names. ?x < y} \<le> k - 1" "k - 1 < k" by simp_all
    from less.IH [OF k(2) run(2) host_names_short [OF x(2)] k(1)] obtain names h' where
      rest: "\<forall>n > k - 1. snmpwalk host_registry n ?x h1 = Some (names, h')" "host_ok h'" "sorted_wrt (<) (?x # names)"
        "set names \<subseteq> host_names" "length names \<le> k - 1" by blast
    have "\<forall>n > k. snmpwalk host_registry n q h = Some (?x # names, h')"
    proof (intro allI impI)
      fix n assume n: "k < n"
      with k(2) have "k - 1 < n - 1" by simp
      with rest(1) unfold [OF n] False show "snmpwalk host_registry n q h = Some (?x # names, h')" by simp
    qed
    moreover have "sorted_wrt (<) (q # ?x # names)" using rest(3) x(1) by (auto dest: less_trans)
    ultimately show ?thesis
      using rest(2,4,5) x(2) k(2) by (intro exI [of _ "?x # names"] exI [of _ h']) auto
  qed
qed

text \<open>
  C11. A walk of the host agent with GetNextRequests ends, from every name and whatever the clock does to the
  rows of the sensor table between and during the requests: after at most 46 names, each later than the one
  before and none of them outside the 46 names the agent can ever have. The number of requests the manager
  is willing to send plays no role.
\<close>

theorem dev_agent_walk_ends:
  assumes "host_ok h" and "length q \<le> BER_MAX_OID_LEN"
  shows "\<exists>names h'. (\<forall>n > 46. snmpwalk host_registry n q h = Some (names, h')) \<and> host_ok h' \<and>
    sorted_wrt (<) (q # names) \<and> set names \<subseteq> host_names \<and> length names \<le> 46"
proof -
  have "card {x \<in> host_names. q < x} \<le> card host_names" by (intro card_mono) auto
  with card_host_names have "card {x \<in> host_names. q < x} \<le> 46" by simp
  from host_walk_ends [OF assms this] show ?thesis .
qed

theorem dev_agent_walk_ends_witness:
  "\<exists>names h'. (\<forall>n > 46. snmpwalk host_registry n [1, 3] ((host_start (\<lambda>n. int n mod 9))\<lparr>s_boot_time := 0, h_calls := 0\<rparr>) =
      Some (names, h')) \<and> host_ok h' \<and> sorted_wrt (<) ([1, 3] # names) \<and> set names \<subseteq> host_names \<and> length names \<le> 46"
proof (rule dev_agent_walk_ends)
  have "int n mod 9 < 2 ^ 56" for n using pos_mod_bound [of 9 "int n"] by simp
  then show "host_ok ((host_start (\<lambda>n. int n mod 9))\<lparr>s_boot_time := 0, h_calls := 0\<rparr>)"
    by (intro host_start_ok) simp_all
qed simp

section \<open>A row that goes between lookup and read\<close>

abbreviation two_rows :: "nat \<Rightarrow> host \<Rightarrow> bool" where
  "two_rows n h \<equiv> (h_time h (h_calls h + n) - s_boot_time h) sdiv 4 smod 2 \<noteq> 0"

lemma host_no_scalar_above: "find_next_modules (s_modules host_registry) (cell_oid s_wsensor_table 1 1) None = None"
proof (rule ccontr)
  let ?q = "cell_oid s_wsensor_table 1 1"
  assume "find_next_modules (s_modules host_registry) ?q None \<noteq> None"
  then obtain obj where obj: "find_next_modules (s_modules host_registry) ?q None = Some obj" by blast
  from find_next_modules_member [OF obj] have "obj \<in> scalars host_registry" by simp
  moreover have "?q < mo_oid obj" using find_next_modules_above [OF obj] by simp
  ultimately show False
    by (auto simp: host_registry_def s_mib_ii_host_def s_mib_wespe_host_def s_mib_iftable_scalars_def
        s_wsensor_table_def cell_oid_def)
qed

lemma settled_table_below:
  assumes "mib_table_rows t I rows" and "I s" and "\<forall>c i. cell_oid t c i < oid"
  shows "table_find_next t oid s = Some (Inl MIB_END_OF_VIEW, s)"
proof -
  from mib_table_rows.find_next_rows [OF assms(1,2), of oid] obtain r where
    r: "table_find_next t oid s = Some (r, s)"
    "is_next oid (table_cells t (rows s)) (case r of Inl _ \<Rightarrow> None | Inr out \<Rightarrow> Some (rs_oid out))"
    "case r of Inl e \<Rightarrow> e = MIB_END_OF_VIEW | Inr out \<Rightarrow> \<exists>col \<in> set (mt_columns t). \<exists>i \<in> set (rows s). out = cell_at t col i"
    by blast
  have "\<not> oid < cell_oid t c i" for c i using assms(3) less_asym by blast
  with r(2) have "\<forall>out. r \<noteq> Inr out" by (auto simp: is_next_def table_cells_def)
  with r show ?thesis by (cases r) simp_all
qed

lemma wsensor_successor_of_1:
  assumes "two_rows 0 h"
  shows "table_find_next s_wsensor_table (cell_oid s_wsensor_table 1 1) h =
    Some (Inr (cell_at s_wsensor_table (column WSENSOR_COL_INDEX BER_TAG_INTEGER MIB_ACCESS_RO) 2), h\<lparr>h_calls := h_calls h + 1\<rparr>)"
proof -
  let ?q = "cell_oid s_wsensor_table 1 1" and ?col = "column WSENSOR_COL_INDEX BER_TAG_INTEGER MIB_ACCESS_RO"
  have len: "length (mt_entry_oid s_wsensor_table) = 10" by (simp add: s_wsensor_table_def)
  have nx: "mt_next_index s_wsensor_table 1 h = (Inr 2, h\<lparr>h_calls := h_calls h + 1\<rparr>)"
    using assms by (simp add: s_wsensor_table_def wsensor_next_index_def wsensor_row_count_def time_since_boot_def
      time_call_def Let_def)
  have "next_row_loop s_wsensor_table ?col ?q (Inr 2) h' = Some (Some (cell_at s_wsensor_table ?col 2), h')" for h'
    using len populate_cell_fits [of s_wsensor_table ?col 2]
    by (subst next_row_loop.simps) (simp add: cell_oid_def)
  then have "next_row_loop s_wsensor_table ?col ?q (Inr 1) h =
      Some (Some (cell_at s_wsensor_table ?col 2), h\<lparr>h_calls := h_calls h + 1\<rparr>)"
    using len nx by (subst next_row_loop.simps) (simp add: cell_oid_def)
  then show ?thesis
    by (simp add: table_find_next_def s_wsensor_table_def wsensor_first_index_def)
qed

lemma host_successor_of_sensor_1:
  assumes "host_ok h" and "two_rows 0 h"
  shows "mib_registry_resolve_next host_registry (cell_oid s_wsensor_table 1 1) h =
    Some (Inr (cell_at s_wsensor_table (column WSENSOR_COL_INDEX BER_TAG_INTEGER MIB_ACCESS_RO) 2), h\<lparr>h_calls := h_calls h + 1\<rparr>)"
proof -
  let ?q = "cell_oid s_wsensor_table 1 1"
  have "table_find_next s_iftable_host ?q h = Some (Inl MIB_END_OF_VIEW, h)"
    by (rule settled_table_below [OF iftable_host.mib_table_rows_axioms assms(1)])
      (simp add: s_iftable_host_def s_wsensor_table_def cell_oid_def)
  moreover have "table_find_next s_ifxtable_host ?q h = Some (Inl MIB_END_OF_VIEW, h)"
    by (rule settled_table_below [OF ifxtable_host.mib_table_rows_axioms assms(1)])
      (simp add: s_ifxtable_host_def s_wsensor_table_def cell_oid_def)
  ultimately show ?thesis
    using host_no_scalar_above wsensor_successor_of_1 [OF assms(2)]
    by (simp add: mib_registry_resolve_next_def mib_registry_find_next_def host_registry_def)
qed

text \<open>
  C26. A GetNextRequest can be answered with noSuchInstance, under the name it asked about: the row was there
  when the successor was looked up and gone when it was read. A manager ends its walk there, although later
  instances exist: the first sensor is still there in every other column.
\<close>

theorem dev_agent_row_vanishes:
  assumes "host_ok h" and "two_rows 0 h" and "\<not> two_rows 1 h" and "0 < n"
  shows "snmpwalk host_registry n (cell_oid s_wsensor_table WSENSOR_COL_INDEX 1) h = Some ([], h\<lparr>h_calls := h_calls h + 2\<rparr>) \<and>
    (\<exists>ctx. snmp_pdu_handle_getnext host_registry
         (walk_request SNMP_PDU_GET_NEXT_REQUEST 0 0 (cell_oid s_wsensor_table WSENSOR_COL_INDEX 1)) h =
         Some ((BER_OK, ctx), h\<lparr>h_calls := h_calls h + 2\<rparr>) \<and> ctx_error_status ctx = 0 \<and>
       vb_tag (ctx_varbinds ctx ! 0) = SNMP_TAG_NO_SUCH_INSTANCE \<and>
       vb_oid (ctx_varbinds ctx ! 0) = cell_oid s_wsensor_table WSENSOR_COL_INDEX 1) \<and>
    (\<forall>vb h'. host_ok h' \<longrightarrow> vb_ok vb \<longrightarrow> (\<exists>vb' h2. wsensor_get_cell WSENSOR_COL_LABEL 1 vb h' = Some ((MIB_OK, vb'), h2)))"
proof -
  let ?q = "cell_oid s_wsensor_table WSENSOR_COL_INDEX 1"
  let ?out = "cell_at s_wsensor_table (column WSENSOR_COL_INDEX BER_TAG_INTEGER MIB_ACCESS_RO) 2"
  have gone: "mib_resolved_get ?out vb (h\<lparr>h_calls := h_calls h + 1\<rparr>) = Some ((MIB_NO_SUCH_INSTANCE, vb), h\<lparr>h_calls := h_calls h + 2\<rparr>)" for vb
    using assms(3) by (simp add: mib_resolved_get_def cell_at_def s_wsensor_table_def wsensor_get_cell_def find_sensor_row_def
        wsensor_row_count_def time_since_boot_def time_call_def Let_def)
  have "(case Inr ?out of Inl e \<Rightarrow> Some ((e, vb_zero), h\<lparr>h_calls := h_calls h + 1\<rparr>)
      | Inr out \<Rightarrow> mib_resolved_get out (vb_zero\<lparr>vb_oid := rs_oid out\<rparr>) (h\<lparr>h_calls := h_calls h + 1\<rparr>)) =
    Some ((MIB_NO_SUCH_INSTANCE, vb_zero\<lparr>vb_oid := rs_oid ?out\<rparr>), h\<lparr>h_calls := h_calls h + 2\<rparr>)"
    using gone by (simp only: sum.case)
  from getnext_request [OF host_successor_of_sensor_1 [OF assms(1,2)] this] obtain ctx where
    ctx: "snmp_pdu_handle_getnext host_registry (walk_request SNMP_PDU_GET_NEXT_REQUEST 0 0 ?q) h =
        Some ((BER_OK, ctx), h\<lparr>h_calls := h_calls h + 2\<rparr>)" "ctx_error_status ctx = 0"
      "vb_tag (ctx_varbinds ctx ! 0) = SNMP_TAG_NO_SUCH_INSTANCE" "vb_oid (ctx_varbinds ctx ! 0) = ?q" by auto
  obtain k where "n = Suc k" using assms(4) by (cases n) auto
  with ctx have "snmpwalk host_registry n ?q h = Some ([], h\<lparr>h_calls := h_calls h + 2\<rparr>)" by (simp add: Let_def)
  moreover have "\<exists>vb' h2. wsensor_get_cell WSENSOR_COL_LABEL 1 vb h' = Some ((MIB_OK, vb'), h2)" if h': "host_ok h'" "vb_ok vb" for vb h'
  proof -
    obtain r1 r2 where rows: "s_sensor_rows h' = [r1, r2]" "srow_index r1 = 1" "c_array 32 (srow_label r1)"
      using h'(1) by (auto simp: host_ok_def)
    then have "find_sensor_row 1 h' = (Some 0, snd (wsensor_row_count h'))"
      using wsensor_row_count_cases [of h'] by (auto simp: find_sensor_row_def split_beta)
    moreover have "\<exists>vb'. get_string_field (srow_label r1) vb = Some vb'"
      using get_field_ok [of "srow_label r1" vb] rows(3) h'(2) by (auto simp: c_array_def)
    ultimately show ?thesis using rows(1) by (auto simp: wsensor_get_cell_def)
  qed
  ultimately show ?thesis using ctx by blast
qed

text \<open>The clock jumps from second 7 to second 8 between the two looks.\<close>

theorem dev_agent_row_vanishes_witness:
  "let h = (host_start (\<lambda>n. if n = 0 then 7 else 8))\<lparr>s_boot_time := 0, h_calls := 0\<rparr> in
   snmpwalk host_registry 1 (cell_oid s_wsensor_table WSENSOR_COL_INDEX 1) h = Some ([], h\<lparr>h_calls := h_calls h + 2\<rparr>) \<and>
    (\<exists>ctx. snmp_pdu_handle_getnext host_registry
         (walk_request SNMP_PDU_GET_NEXT_REQUEST 0 0 (cell_oid s_wsensor_table WSENSOR_COL_INDEX 1)) h =
         Some ((BER_OK, ctx), h\<lparr>h_calls := h_calls h + 2\<rparr>) \<and> ctx_error_status ctx = 0 \<and>
       vb_tag (ctx_varbinds ctx ! 0) = SNMP_TAG_NO_SUCH_INSTANCE \<and>
       vb_oid (ctx_varbinds ctx ! 0) = cell_oid s_wsensor_table WSENSOR_COL_INDEX 1) \<and>
    (\<forall>vb h'. host_ok h' \<longrightarrow> vb_ok vb \<longrightarrow> (\<exists>vb' h2. wsensor_get_cell WSENSOR_COL_LABEL 1 vb h' = Some ((MIB_OK, vb'), h2)))"
  unfolding Let_def
proof (rule dev_agent_row_vanishes)
  show "host_ok ((host_start (\<lambda>n. if n = 0 then 7 else 8))\<lparr>s_boot_time := 0, h_calls := 0\<rparr>)"
    by (intro host_start_ok) simp_all
  have "(7 :: int) sdiv 4 smod 2 = 1" "(8 :: int) sdiv 4 smod 2 = 0" by code_simp+
  then show "two_rows 0 ((host_start (\<lambda>n. if n = 0 then 7 else 8))\<lparr>s_boot_time := 0, h_calls := 0\<rparr>)"
    "\<not> two_rows 1 ((host_start (\<lambda>n. if n = 0 then 7 else 8))\<lparr>s_boot_time := 0, h_calls := 0\<rparr>)"
    by (simp_all add: host_start_def)
qed simp

end
