(* ===== verification/Host_Test_Ber.thy ===== *)
theory Host_Test_Ber
  imports Ber_Encode Ber_Decode
begin

text \<open>
  \<open>host_tests/test_ber_decode.c\<close> and \<open>test_ber_encode.c\<close> on the model: each test of the two files, under its
  name, with the bytes and the expected results that it has there. They tie the definitions of the codec to
  the golden vectors that the C code is tested against.
\<close>

section \<open>Running a routine as a test does\<close>

text \<open>\<open>ber_decode_tlv(buf, sizeof(buf), 0, &tlv)\<close> followed by a value decoder on the same buffer.\<close>

definition tlv_of :: "u8 list \<Rightarrow> (ber_status + ber_tlv) option" where
  "tlv_of buf = ber_decode_tlv buf 0 (length buf) 0"

definition value_of :: "(u8 list \<Rightarrow> ber_tlv \<Rightarrow> (ber_status + 'a) option) \<Rightarrow> u8 list \<Rightarrow> (ber_status + 'a) option" where
  "value_of dec buf = chk (tlv_of buf) (dec buf)"

text \<open>
  An encoder on a fresh buffer of \<open>cap\<close> bytes, whatever the stack left there: the status, and the bytes from
  the cursor on.
\<close>

definition encoded :: "nat \<Rightarrow> enc_op \<Rightarrow> (ber_status \<times> u8 list) option" where
  "encoded cap op = do {
     (st, e) \<leftarrow> op \<lparr>ebuf = replicate cap 0xAA, ecursor = cap\<rparr>;
     Some (st, drop (ecursor e) (ebuf e))
   }"

text \<open>Encode into 16 bytes, then decode what was written.\<close>

definition sent_and_read ::
  "enc_op \<Rightarrow> (u8 list \<Rightarrow> ber_tlv \<Rightarrow> (ber_status + 'a) option) \<Rightarrow> (ber_status + 'a) option" where
  "sent_and_read op dec = do {
     (st, bs) \<leftarrow> encoded 16 op;
     if st \<noteq> BER_OK then Some (Inl st) else value_of dec bs
   }"

section \<open>\<open>test_ber_decode.c\<close>\<close>

lemma test_decode_short_form_length:
  "tlv_of [0x02, 0x01, 0x05] = Some (Inr \<lparr>tlv_tag = BER_TAG_INTEGER, tlv_value = 2, tlv_length = 1, tlv_next = 3\<rparr>)"
  by code_simp

lemma test_decode_long_form_length:
  "tlv_of ([BER_TAG_OCTET_STRING, 0x81, 200] @ map word_of_nat [0..<200]) =
     Some (Inr \<lparr>tlv_tag = BER_TAG_OCTET_STRING, tlv_value = 3, tlv_length = 200, tlv_next = 203\<rparr>)"
  by code_simp

lemma test_decode_rejects_indefinite_length:
  "tlv_of [BER_TAG_SEQUENCE, 0x80, 0x00, 0x00] = Some (Inl BER_ERR_BAD_LENGTH)"
  by code_simp

lemma test_decode_rejects_truncated_buffer:
  "tlv_of [BER_TAG_OCTET_STRING, 10, 0x01, 0x02] = Some (Inl BER_ERR_TRUNCATED)"
  by code_simp

lemma test_decode_rejects_empty_buffer: "tlv_of [] = Some (Inl BER_ERR_TRUNCATED)"
  by code_simp

lemma test_decode_rejects_excess_nesting_depth:
  "ber_decode_tlv [BER_TAG_SEQUENCE, 0x00] 0 2 (BER_MAX_NEST_DEPTH + 1) = Some (Inl BER_ERR_DEPTH)"
  by code_simp

lemma test_decode_integer:
  "value_of ber_decode_integer [0x02, 0x02, 0x01, 0x00] = Some (Inr 256)"
  "value_of ber_decode_integer [0x02, 0x01, 0xFF] = Some (Inr (- 1))"
  "value_of ber_decode_integer [BER_TAG_NULL, 0x00] = Some (Inl BER_ERR_BAD_TAG)"
  by code_simp+

lemma test_decode_unsigned_gauge32:
  "value_of ber_decode_unsigned [SNMP_TAG_GAUGE32, 0x05, 0x00, 0xFF, 0xFF, 0xFF, 0xFF] = Some (Inr 0xFFFFFFFF)"
  by code_simp

lemma test_decode_counter64:
  "value_of ber_decode_unsigned64 ([SNMP_TAG_COUNTER64, 0x09, 0x00] @ replicate 8 0xFF) = Some (Inr 0xFFFFFFFFFFFFFFFF)"
  "value_of ber_decode_unsigned64 [SNMP_TAG_COUNTER32, 0x01, 0x05] = Some (Inl BER_ERR_BAD_TAG)"
  "value_of ber_decode_unsigned64 ([SNMP_TAG_COUNTER64, 0x0A] @ replicate 10 0) = Some (Inl BER_ERR_OVERFLOW)"
  by code_simp+

lemma test_decode_octet_string:
  "value_of (\<lambda>mem tlv. ber_decode_octet_string mem tlv 16) ([BER_TAG_OCTET_STRING, 5] @ [0x68, 0x65, 0x6C, 0x6C, 0x6F]) =
     Some (Inr [0x68, 0x65, 0x6C, 0x6C, 0x6F])"
  "value_of (\<lambda>mem tlv. ber_decode_octet_string mem tlv 2) ([BER_TAG_OCTET_STRING, 5] @ [0x68, 0x65, 0x6C, 0x6C, 0x6F]) =
     Some (Inl BER_ERR_OVERFLOW)"
  by code_simp+

lemma test_decode_null: "value_of (\<lambda>_. ber_decode_null) [BER_TAG_NULL, 0x00] = Some (Inr ())"
  by code_simp

lemma test_decode_oid:
  "value_of (\<lambda>mem tlv. ber_decode_oid mem tlv 16) [BER_TAG_OID, 0x08, 0x2B, 0x06, 0x01, 0x02, 0x01, 0x01, 0x01, 0x00] =
     Some (Inr [1, 3, 6, 1, 2, 1, 1, 1, 0])"
  "value_of (\<lambda>mem tlv. ber_decode_oid mem tlv 8) [BER_TAG_OID, 0x03, 0x2B, 0x82, 0x2C] = Some (Inr [1, 3, 300])"
  "value_of (\<lambda>mem tlv. ber_decode_oid mem tlv 8) [BER_TAG_OID, 0x02, 0x2B, 0x82] = Some (Inl BER_ERR_TRUNCATED)"
  by code_simp+

section \<open>\<open>test_ber_encode.c\<close>\<close>

lemma test_encode_integer:
  "encoded 16 (ber_encode_integer 0) = Some (BER_OK, [0x02, 0x01, 0x00])"
  "encoded 16 (ber_encode_integer (- 1)) = Some (BER_OK, [0x02, 0x01, 0xFF])"
  "encoded 16 (ber_encode_integer 256) = Some (BER_OK, [0x02, 0x02, 0x01, 0x00])"
  "encoded 16 (ber_encode_integer 127) = Some (BER_OK, [0x02, 0x01, 0x7F])"
  "encoded 16 (ber_encode_integer 128) = Some (BER_OK, [0x02, 0x02, 0x00, 0x80])"
  by code_simp+

lemma test_encode_unsigned:
  "encoded 16 (ber_encode_unsigned_tagged SNMP_TAG_GAUGE32 0xFFFFFFFF) =
     Some (BER_OK, [SNMP_TAG_GAUGE32, 0x05, 0x00, 0xFF, 0xFF, 0xFF, 0xFF])"
  "encoded 16 (ber_encode_unsigned_tagged SNMP_TAG_TIMETICKS 0) = Some (BER_OK, [SNMP_TAG_TIMETICKS, 0x01, 0x00])"
  by code_simp+

lemma test_encode_counter64:
  "encoded 16 (ber_encode_unsigned64_tagged SNMP_TAG_COUNTER64 0xFFFFFFFFFFFFFFFF) =
     Some (BER_OK, [SNMP_TAG_COUNTER64, 0x09, 0x00] @ replicate 8 0xFF)"
  "encoded 16 (ber_encode_unsigned64_tagged SNMP_TAG_COUNTER64 0) = Some (BER_OK, [SNMP_TAG_COUNTER64, 0x01, 0x00])"
  "encoded 16 (ber_encode_unsigned64_tagged SNMP_TAG_COUNTER64 0x100000000) =
     Some (BER_OK, [SNMP_TAG_COUNTER64, 0x05, 0x01, 0x00, 0x00, 0x00, 0x00])"
  by code_simp+

lemma test_encode_octet_string:
  "encoded 16 (ber_encode_octet_string (Some [0x68, 0x69]) 2) = Some (BER_OK, [BER_TAG_OCTET_STRING, 0x02] @ [0x68, 0x69])"
  "encoded 2 (ber_encode_octet_string (Some [0x74, 0x6F, 0x6F, 0x6C, 0x6F, 0x6E, 0x67]) 7) = Some (BER_ERR_OVERFLOW, [])"
  by code_simp+

lemma test_encode_null:
  "encoded 16 ber_encode_null = Some (BER_OK, [BER_TAG_NULL, 0x00])"
  "encoded 16 (ber_encode_null_tagged SNMP_TAG_NO_SUCH_OBJECT) = Some (BER_OK, [SNMP_TAG_NO_SUCH_OBJECT, 0x00])"
  by code_simp+

lemma test_encode_oid:
  "encoded 32 (ber_encode_oid [1, 3, 6, 1, 2, 1, 1, 1, 0]) =
     Some (BER_OK, [BER_TAG_OID, 0x08, 0x2B, 0x06, 0x01, 0x02, 0x01, 0x01, 0x01, 0x00])"
  "encoded 32 (ber_encode_oid [1, 3, 300]) = Some (BER_OK, [BER_TAG_OID, 0x03, 0x2B, 0x82, 0x2C])"
  "sent_and_read (ber_encode_oid [1, 3, 6, 1, 4, 1, 99999]) (\<lambda>mem tlv. ber_decode_oid mem tlv 16) =
     Some (Inr [1, 3, 6, 1, 4, 1, 99999])"
  by code_simp+

lemma test_encode_container_wraps_prior_content:
  "encoded 32 (andthen (ber_encode_integer 5) (\<lambda>e. ber_encode_container_header BER_TAG_SEQUENCE (32 - ecursor e) e)) =
     Some (BER_OK, [BER_TAG_SEQUENCE, 0x03, 0x02, 0x01, 0x05])"
  by code_simp

lemma test_integer_round_trip_sweep:
  "\<forall>v \<in> set [0, 1, - 1, 127, - 128, 128, - 129, 255, - 256, 32767, - 32768, 32768, 65535, - 65536, 1000000, - 1000000,
       2147483647, - 2147483648].
     sent_and_read (ber_encode_integer v) ber_decode_integer = Some (Inr v)"
  by code_simp

lemma test_unsigned_round_trip_sweep:
  "\<forall>v \<in> set [0, 1, 127, 128, 255, 256, 65535, 65536, 0x7FFFFFFF, 0x80000000, 0xFFFFFFFF].
     sent_and_read (ber_encode_unsigned_tagged SNMP_TAG_COUNTER32 v) ber_decode_unsigned = Some (Inr v)"
  by code_simp

lemma test_counter64_round_trip_sweep:
  "\<forall>v \<in> set [0, 1, 127, 128, 255, 256, 0xFFFFFFFF, 0x100000000, 0x7FFFFFFFFFFFFFFF, 0x8000000000000000, 0xFFFFFFFFFFFFFFFF].
     sent_and_read (ber_encode_unsigned64_tagged SNMP_TAG_COUNTER64 v) ber_decode_unsigned64 = Some (Inr v)"
  by code_simp

end
