(* ===== verification/Host_Test_Mib.thy ===== *)
theory Host_Test_Mib
  imports Mib_Backend
begin

text \<open>
  \<open>host_tests/test_mib_registry.c\<close> and \<open>test_mib_table.c\<close>: the mocked modules of the tests as registries of
  the model, and each test under its name. The mocked table has sparse rows that come and go.
\<close>

section \<open>\<open>test_mib_registry.c\<close>\<close>

definition noop_get :: "'s mib_get_fn" where
  "noop_get vb s = Some ((MIB_OK, put_int BER_TAG_INTEGER 42 vb), s)"

definition noop_object :: "oid \<Rightarrow> 's mib_object" where
  "noop_object oid = \<lparr>mo_oid = oid, mo_value_tag = BER_TAG_INTEGER, mo_access = MIB_ACCESS_RO,
     mo_getter = noop_get, mo_setter = None\<rparr>"

abbreviation OID_A1 :: oid where "OID_A1 \<equiv> [1, 3, 6, 1, 2, 1, 1, 1, 0]"
abbreviation OID_A3 :: oid where "OID_A3 \<equiv> [1, 3, 6, 1, 2, 1, 1, 3, 0]"
abbreviation OID_A5 :: oid where "OID_A5 \<equiv> [1, 3, 6, 1, 2, 1, 1, 5, 0]"
abbreviation OID_B1 :: oid where "OID_B1 \<equiv> [1, 3, 6, 1, 4, 1, 99999, 2, 1, 0]"
abbreviation OID_B2 :: oid where "OID_B2 \<equiv> [1, 3, 6, 1, 4, 1, 99999, 2, 2, 0]"

definition registry_setup :: "'s registry" where
  "registry_setup =
     snd (mib_registry_register_module (map noop_object [OID_B1, OID_B2])
       (snd (mib_registry_register_module (map noop_object [OID_A1, OID_A3, OID_A5])
         (mib_registry_reset \<lparr>s_modules = [], s_tables = []\<rparr>))))"

lemma test_oid_compare_basics:
  "mib_oid_compare [1, 3, 6] [1, 3, 7] < 0" "0 < mib_oid_compare [1, 3, 7] [1, 3, 6]"
  "mib_oid_compare [1, 3, 6] [1, 3, 6] = 0" "mib_oid_compare [1, 3] [1, 3, 6] < 0"
  by code_simp+

lemma test_registry_find:
  "map_option mo_oid (mib_registry_find registry_setup OID_A3) = Some OID_A3"
  "map_option mo_oid (mib_registry_find registry_setup [1, 3, 6, 1, 2, 1, 1, 9, 0]) = None"
  by code_simp+

lemma test_registry_find_next:
  "map_option mo_oid (mib_registry_find_next registry_setup OID_A1) = Some OID_A3"
  "map_option mo_oid (mib_registry_find_next registry_setup [1]) = Some OID_A1"
  "map_option mo_oid (mib_registry_find_next registry_setup OID_A5) = Some OID_B1"
  "map_option mo_oid (mib_registry_find_next registry_setup OID_B2) = None"
  by code_simp+

lemma test_registry_count:
  "mib_registry_count registry_setup = 5"
  "mib_registry_count (mib_registry_reset registry_setup) = 0"
  "map_option mo_oid (mib_registry_find (mib_registry_reset registry_setup) OID_A1) = None"
  by code_simp+

section \<open>The mocked table\<close>

record mock_row =
  mr_index :: u32
  mr_col1_value :: i32
  mr_col2_value :: "u8 list"
  mr_active :: bool

fun find_row :: "u32 \<Rightarrow> mock_row list \<Rightarrow> nat option" where
  "find_row index [] = None"
| "find_row index (r # rows) =
     (if mr_index r = index \<and> mr_active r then Some 0 else map_option Suc (find_row index rows))"

fun mock_first_index :: "mock_row list row_first" where
  "mock_first_index [] = (Inl MIB_END_OF_VIEW, [])"
| "mock_first_index (r # rows) =
     (if mr_active r then (Inr (mr_index r), r # rows)
      else case mock_first_index rows of (res, _) \<Rightarrow> (res, r # rows))"

definition mock_next_index :: "mock_row list row_next" where
  "mock_next_index current rows =
     (case List.find (\<lambda>r. mr_active r \<and> current < mr_index r) rows of
        None \<Rightarrow> (Inl MIB_END_OF_VIEW, rows)
      | Some r \<Rightarrow> (Inr (mr_index r), rows))"

definition mock_get_cell :: "u32 \<Rightarrow> u32 \<Rightarrow> mock_row list mib_get_fn" where
  "mock_get_cell column index vb rows =
     (case find_row index rows of
        None \<Rightarrow> Some ((MIB_NO_SUCH_INSTANCE, vb), rows)
      | Some k \<Rightarrow>
          if column = 1 then Some ((MIB_OK, put_int BER_TAG_INTEGER (mr_col1_value (rows ! k)) vb), rows)
          else if column = 2 then do {
            vb' \<leftarrow> get_string_field (mr_col2_value (rows ! k)) vb;
            Some ((MIB_OK, vb'), rows)
          }
          else Some ((MIB_NO_SUCH_OBJECT, vb), rows))"

definition mock_set_cell :: "u32 \<Rightarrow> u32 \<Rightarrow> mock_row list mib_set_fn" where
  "mock_set_cell column index vb rows =
     (case find_row index rows of
        None \<Rightarrow> Some (MIB_NO_SUCH_INSTANCE, rows)
      | Some k \<Rightarrow>
          if column \<noteq> 2 then Some (MIB_NOT_WRITABLE, rows)
          else if vb_tag vb \<noteq> BER_TAG_OCTET_STRING then Some (MIB_WRONG_VALUE, rows)
          else do {
            octets \<leftarrow> read_octets (vb_value vb);
            let field = mr_col2_value (rows ! k);
            if length field \<le> length octets then Some (MIB_WRONG_VALUE, rows)
            else Some (MIB_OK, rows[k := (rows ! k)\<lparr>mr_col2_value := octets @ [0] @ drop (length octets + 1) field\<rparr>])
          })"

definition mock_table :: "mock_row list mib_table" where
  "mock_table =
     \<lparr>mt_entry_oid = [1, 3, 6, 1, 4, 1, 22222, 2, 1],
      mt_columns = [\<lparr>col_number = 1, col_value_tag = BER_TAG_INTEGER, col_access = MIB_ACCESS_RO\<rparr>,
        \<lparr>col_number = 2, col_value_tag = BER_TAG_OCTET_STRING, col_access = MIB_ACCESS_RW\<rparr>],
      mt_first_index = mock_first_index, mt_next_index = mock_next_index,
      mt_get_cell = mock_get_cell, mt_set_cell = Some mock_set_cell\<rparr>"

definition ro_table :: "'s mib_table" where
  "ro_table =
     \<lparr>mt_entry_oid = [1, 3, 6, 1, 4, 1, 22222, 4, 1],
      mt_columns = [\<lparr>col_number = 1, col_value_tag = BER_TAG_INTEGER, col_access = MIB_ACCESS_RO\<rparr>],
      mt_first_index = (\<lambda>s. (Inr 1, s)), mt_next_index = (\<lambda>_ s. (Inl MIB_END_OF_VIEW, s)),
      mt_get_cell = (\<lambda>_ _ vb s. Some ((MIB_OK, put_int BER_TAG_INTEGER 42 vb), s)), mt_set_cell = None\<rparr>"

definition mock_scalar :: "oid \<Rightarrow> i32 \<Rightarrow> 's mib_object" where
  "mock_scalar oid v = \<lparr>mo_oid = oid, mo_value_tag = BER_TAG_INTEGER, mo_access = MIB_ACCESS_RO,
     mo_getter = (\<lambda>vb s. Some ((MIB_OK, put_int BER_TAG_INTEGER v vb), s)), mo_setter = None\<rparr>"

abbreviation OID_SCALAR_BEFORE :: oid where "OID_SCALAR_BEFORE \<equiv> [1, 3, 6, 1, 4, 1, 22222, 1, 1, 0]"
abbreviation OID_SCALAR_AFTER :: oid where "OID_SCALAR_AFTER \<equiv> [1, 3, 6, 1, 4, 1, 22222, 3, 1, 0]"

definition table_setup :: "mock_row list registry" where
  "table_setup =
     snd (mib_registry_register_table mock_table
       (snd (mib_registry_register_module [mock_scalar OID_SCALAR_BEFORE (- 1), mock_scalar OID_SCALAR_AFTER (- 2)]
         (mib_registry_reset \<lparr>s_modules = [], s_tables = []\<rparr>))))"

definition text_field :: "string \<Rightarrow> u8 list" where
  "text_field s = c_lit s @ replicate (16 - length s) 0"

definition mock_rows :: "mock_row list" where
  "mock_rows =
     [\<lparr>mr_index = 1, mr_col1_value = 100, mr_col2_value = text_field ''row-one'', mr_active = True\<rparr>,
      \<lparr>mr_index = 2, mr_col1_value = 200, mr_col2_value = text_field ''row-two'', mr_active = True\<rparr>,
      \<lparr>mr_index = 5, mr_col1_value = 500, mr_col2_value = text_field ''row-five'', mr_active = True\<rparr>]"

definition without_row_2 :: "mock_row list" where
  "without_row_2 = mock_rows[1 := (mock_rows ! 1)\<lparr>mr_active := False\<rparr>]"

section \<open>\<open>test_mib_table.c\<close>\<close>

text \<open>The name, the type and the access of what was resolved, and for a cell its column and its row.\<close>

definition found :: "((mib_result + 's mib_resolved) \<times> 's) option \<Rightarrow>
    (mib_result + oid \<times> u8 \<times> mib_access \<times> (u32 \<times> u32) option) option" where
  "found m = map_option (\<lambda>(r, _). case r of Inl e \<Rightarrow> Inl e
     | Inr out \<Rightarrow> Inr (rs_oid out, rs_value_tag out, rs_access out,
         case rs_kind out of MIB_RESOLVED_SCALAR _ \<Rightarrow> None | MIB_RESOLVED_CELL _ c i \<Rightarrow> Some (c, i))) m"

definition found_cell :: "u32 \<Rightarrow> u32 \<Rightarrow> (mib_result + oid \<times> u8 \<times> mib_access \<times> (u32 \<times> u32) option) option" where
  "found_cell c i =
     Some (Inr (cell_oid mock_table c i, if c = 1 then BER_TAG_INTEGER else BER_TAG_OCTET_STRING,
       if c = 1 then MIB_ACCESS_RO else MIB_ACCESS_RW, Some (c, i)))"

definition found_scalar :: "oid \<Rightarrow> (mib_result + oid \<times> u8 \<times> mib_access \<times> (u32 \<times> u32) option) option" where
  "found_scalar oid = Some (Inr (oid, BER_TAG_INTEGER, MIB_ACCESS_RO, None))"

text \<open>Resolve, then read or write what was resolved.\<close>

definition read_at :: "'s registry \<Rightarrow> oid \<Rightarrow> 's \<Rightarrow> (mib_result \<times> vunion) option" where
  "read_at reg oid s = do {
     (r, s1) \<leftarrow> mib_registry_resolve reg oid s;
     case r of Inl e \<Rightarrow> Some (e, UZero)
     | Inr out \<Rightarrow> map_option (\<lambda>((st, vb), _). (st, vb_value vb)) (mib_resolved_get out vb_zero s1)
   }"

definition write_at :: "'s registry \<Rightarrow> oid \<Rightarrow> snmp_varbind \<Rightarrow> 's \<Rightarrow> (mib_result \<times> 's) option" where
  "write_at reg oid vb s = do {
     (r, s1) \<leftarrow> mib_registry_resolve reg oid s;
     case r of Inl e \<Rightarrow> Some (e, s1) | Inr out \<Rightarrow> mib_resolved_set out vb s1
   }"

lemma test_resolve_exact:
  "found (mib_registry_resolve table_setup (cell_oid mock_table 1 2) mock_rows) = found_cell 1 2"
  "read_at table_setup (cell_oid mock_table 1 2) mock_rows = Some (MIB_OK, UInt 200)"
  "found (mib_registry_resolve table_setup (cell_oid mock_table 1 3) mock_rows) = Some (Inl MIB_NO_SUCH_INSTANCE)"
  "found (mib_registry_resolve table_setup (cell_oid mock_table 99 1) mock_rows) = Some (Inl MIB_NO_SUCH_OBJECT)"
  "found (mib_registry_resolve table_setup (mt_entry_oid mock_table) mock_rows) = Some (Inl MIB_NO_SUCH_OBJECT)"
  by code_simp+

lemma test_resolve_next_order:
  "found (mib_registry_resolve_next table_setup [1] mock_rows) = found_scalar OID_SCALAR_BEFORE"
  "found (mib_registry_resolve_next table_setup OID_SCALAR_BEFORE mock_rows) = found_cell 1 1"
  "found (mib_registry_resolve_next table_setup (cell_oid mock_table 1 1) mock_rows) = found_cell 1 2"
  "found (mib_registry_resolve_next table_setup (cell_oid mock_table 1 2) mock_rows) = found_cell 1 5"
  "found (mib_registry_resolve_next table_setup (cell_oid mock_table 1 5) mock_rows) = found_cell 2 1"
  "found (mib_registry_resolve_next table_setup (cell_oid mock_table 2 5) mock_rows) = found_scalar OID_SCALAR_AFTER"
  "found (mib_registry_resolve_next table_setup OID_SCALAR_AFTER mock_rows) = Some (Inl MIB_END_OF_VIEW)"
  "found (mib_registry_resolve_next table_setup (mt_entry_oid mock_table @ [2]) mock_rows) = found_cell 2 1"
  by code_simp+

lemma test_resolve_deactivated_row:
  "found (mib_registry_resolve_next table_setup (cell_oid mock_table 1 1) without_row_2) = found_cell 1 5"
  "found (mib_registry_resolve table_setup (cell_oid mock_table 1 2) without_row_2) = Some (Inl MIB_NO_SUCH_INSTANCE)"
  by code_simp+

lemma test_resolved_set_writes_through_to_the_table:
  "map_option (\<lambda>(r, rows). (r, take 8 (mr_col2_value (rows ! 0))))
     (write_at table_setup (cell_oid mock_table 2 1)
       \<lparr>vb_oid = [], vb_tag = BER_TAG_OCTET_STRING, vb_value = UOctets (c_lit ''rack-top'')\<rparr> mock_rows) =
   Some (MIB_OK, c_lit ''rack-top'')"
  by code_simp

section \<open>Two tables\<close>

definition two_tables :: "mock_row list registry" where
  "two_tables = snd (mib_registry_register_table ro_table table_setup)"

lemma test_two_tables:
  "found (mib_registry_resolve_next two_tables (cell_oid mock_table 2 5) mock_rows) = found_scalar OID_SCALAR_AFTER"
  "found (mib_registry_resolve_next two_tables OID_SCALAR_AFTER mock_rows) =
     Some (Inr (mt_entry_oid (ro_table :: mock_row list mib_table) @ [1, 1], BER_TAG_INTEGER, MIB_ACCESS_RO, Some (1, 1)))"
  "found (mib_registry_resolve_next two_tables (mt_entry_oid (ro_table :: mock_row list mib_table) @ [1, 1]) mock_rows) =
     Some (Inl MIB_END_OF_VIEW)"
  "read_at two_tables (mt_entry_oid (ro_table :: mock_row list mib_table) @ [1, 1]) mock_rows = Some (MIB_OK, UInt 42)"
  "map_option fst (write_at two_tables (mt_entry_oid (ro_table :: mock_row list mib_table) @ [1, 1])
     (put_int BER_TAG_INTEGER 1 vb_zero) mock_rows) = Some MIB_NOT_WRITABLE"
  by code_simp+

section \<open>Beyond the tested rows\<close>

text \<open>
  The mocked table meets the contract of a table with settled rows for every ascending array of rows,
  whatever rows are switched off: so both searches answer according to the set of the cells that are there.
\<close>

definition mock_ok :: "mock_row list \<Rightarrow> bool" where
  "mock_ok rows \<longleftrightarrow> sorted_wrt (<) (map mr_index rows) \<and>
     (\<forall>r \<in> set rows. length (mr_col2_value r) = 16 \<and> 0 \<in> set (mr_col2_value r))"

definition active_rows :: "mock_row list \<Rightarrow> u32 list" where
  "active_rows rows = map mr_index (filter mr_active rows)"

lemma active_rows_sorted: "mock_ok rows \<Longrightarrow> sorted_wrt (<) (active_rows rows)"
  by (auto simp: mock_ok_def active_rows_def sorted_wrt_map intro: sorted_wrt_filter)

lemma mock_first_index_rows: "mock_first_index rows = (row_ptr (active_rows rows), rows)"
  by (induction rows) (auto simp: active_rows_def)

lemma mock_next_index_rows: "mock_next_index cur rows = (row_ptr (filter (\<lambda>i. cur < i) (active_rows rows)), rows)"
proof -
  have "row_ptr (filter (\<lambda>i. cur < i) (active_rows rs)) =
      (case List.find (\<lambda>r. mr_active r \<and> cur < mr_index r) rs of
         None \<Rightarrow> Inl MIB_END_OF_VIEW | Some r \<Rightarrow> Inr (mr_index r))" for rs
    by (induction rs) (auto simp: active_rows_def)
  then show ?thesis by (simp add: mock_next_index_def split: option.split)
qed

interpretation mock_sparse: mib_table_rows mock_table mock_ok active_rows
proof unfold_locales
  show "cur < i" if "fst (mt_next_index mock_table cur rows) = Inr i" for cur i rows
  proof -
    from that obtain js where "filter (\<lambda>i. cur < i) (active_rows rows) = i # js"
      by (auto simp: mock_table_def mock_next_index_rows row_ptr_def split: list.splits)
    then have "i \<in> set (filter (\<lambda>i. cur < i) (active_rows rows))" by simp
    then show ?thesis by simp
  qed
qed (simp_all add: mock_table_def mock_first_index_rows mock_next_index_rows active_rows_sorted)

interpretation ro_settled: mib_table_rows ro_table mock_ok "\<lambda>_. [1]"
  by unfold_locales (simp_all add: ro_table_def)

lemma two_tables_regs:
  "s_modules two_tables = [[mock_scalar OID_SCALAR_BEFORE (- 1), mock_scalar OID_SCALAR_AFTER (- 2)]]"
  "s_tables two_tables = [mock_table, ro_table]"
  by (simp_all add: two_tables_def table_setup_def mib_registry_reset_def mib_registry_register_module_def
      mib_registry_register_table_def)

definition rows_of :: "mock_row list mib_table \<Rightarrow> mock_row list \<Rightarrow> u32 list" where
  "rows_of t rows = (if mt_entry_oid t = mt_entry_oid mock_table then active_rows rows else [1])"

lemma rows_of_tables: "rows_of mock_table = active_rows" "rows_of ro_table = (\<lambda>_. [1])"
  by (simp_all add: fun_eq_iff rows_of_def mock_table_def ro_table_def)

lemma two_tables_rows: "registry_rows mock_ok rows_of two_tables"
  unfolding registry_rows_def two_tables_regs
proof (intro conjI)
  show "\<forall>m \<in> set [[mock_scalar OID_SCALAR_BEFORE (- 1), mock_scalar OID_SCALAR_AFTER (- 2)]]. module_sorted m"
    by (simp add: module_sorted_def mock_scalar_def)
qed (simp_all add: two_tables_regs mock_scalar_def mock_table_def ro_table_def
    rows_of_tables [unfolded mock_table_def ro_table_def]
    mock_sparse.mib_table_rows_axioms [unfolded mock_table_def] ro_settled.mib_table_rows_axioms [unfolded ro_table_def])

lemma two_tables_resolve:
  assumes "mock_ok rows"
  shows "\<exists>r. mib_registry_resolve_next two_tables oid rows = Some (r, rows) \<and>
     is_next oid (mib_view rows_of two_tables rows) (case r of Inl _ \<Rightarrow> None | Inr out \<Rightarrow> Some (rs_oid out))"
  by (rule resolve_next_rows [OF two_tables_rows assms])

end
