(* ===== verification/Host_Test_Message.thy ===== *)
theory Host_Test_Message
  imports Snmp_Message_Correct Snmp_Trap
begin

text \<open>
  \<open>host_tests/test_snmp_message.c\<close>: requests built with the encoder, processed, and the responses decoded,
  against the mocked module and table of the test, each test under its name. The buffers are as
  large as the packets need, where the test has 512 bytes.
\<close>

section \<open>The mocked module and table\<close>

record mock =
  s_mock_b_value :: i32
  s_table_row1_value :: i32
  s_table_row2_value :: i32

abbreviation OID_A :: oid where "OID_A \<equiv> [1, 3, 6, 1, 4, 1, 11111, 1, 0]"
abbreviation OID_B :: oid where "OID_B \<equiv> [1, 3, 6, 1, 4, 1, 11111, 2, 0]"
abbreviation OID_C :: oid where "OID_C \<equiv> [1, 3, 6, 1, 4, 1, 11111, 3, 0]"
abbreviation OID_D :: oid where "OID_D \<equiv> [1, 3, 6, 1, 4, 1, 11111, 5, 0]"
abbreviation TABLE_ENTRY :: oid where "TABLE_ENTRY \<equiv> [1, 3, 6, 1, 4, 1, 11111, 4, 1]"

definition get_const :: "i32 \<Rightarrow> mock mib_get_fn" where
  "get_const v vb s = Some ((MIB_OK, put_int BER_TAG_INTEGER v vb), s)"

definition get_b :: "mock mib_get_fn" where
  "get_b vb s = Some ((MIB_OK, put_int BER_TAG_INTEGER (s_mock_b_value s) vb), s)"

definition set_b :: "mock mib_set_fn" where
  "set_b vb s = do { v \<leftarrow> read_int (vb_value vb); Some (MIB_OK, s\<lparr>s_mock_b_value := v\<rparr>) }"

definition get_d :: "mock mib_get_fn" where
  "get_d vb s = Some ((MIB_OK, vb\<lparr>vb_tag := SNMP_TAG_COUNTER64, vb_value := UCounter64 0x1FFFFFFFF\<rparr>), s)"

definition s_mock_objects :: "mock mib_object list" where
  "s_mock_objects =
     [\<lparr>mo_oid = OID_A, mo_value_tag = BER_TAG_INTEGER, mo_access = MIB_ACCESS_RO, mo_getter = get_const 100, mo_setter = None\<rparr>,
      \<lparr>mo_oid = OID_B, mo_value_tag = BER_TAG_INTEGER, mo_access = MIB_ACCESS_RW, mo_getter = get_b, mo_setter = Some set_b\<rparr>,
      \<lparr>mo_oid = OID_C, mo_value_tag = BER_TAG_INTEGER, mo_access = MIB_ACCESS_RO, mo_getter = get_const 300, mo_setter = None\<rparr>]"

definition s_mock_counter64_objects :: "mock mib_object list" where
  "s_mock_counter64_objects =
     [\<lparr>mo_oid = OID_D, mo_value_tag = SNMP_TAG_COUNTER64, mo_access = MIB_ACCESS_RO, mo_getter = get_d, mo_setter = None\<rparr>]"

definition table_first_index :: "mock row_first" where
  "table_first_index s = (Inr 1, s)"

definition table_next_index :: "mock row_next" where
  "table_next_index cur s = (if cur < 2 then Inr 2 else Inl MIB_END_OF_VIEW, s)"

definition table_get_cell :: "u32 \<Rightarrow> u32 \<Rightarrow> mock mib_get_fn" where
  "table_get_cell column index vb s =
     Some ((MIB_OK, put_int BER_TAG_INTEGER (if index = 1 then s_table_row1_value s else s_table_row2_value s) vb), s)"

definition table_set_cell :: "u32 \<Rightarrow> u32 \<Rightarrow> mock mib_set_fn" where
  "table_set_cell column index vb s =
     (if vb_tag vb \<noteq> BER_TAG_INTEGER then Some (MIB_WRONG_TYPE, s)
      else do {
        v \<leftarrow> read_int (vb_value vb);
        Some (MIB_OK, if index = 1 then s\<lparr>s_table_row1_value := v\<rparr> else s\<lparr>s_table_row2_value := v\<rparr>)
      })"

definition s_mock_table :: "mock mib_table" where
  "s_mock_table =
     \<lparr>mt_entry_oid = TABLE_ENTRY,
      mt_columns = [\<lparr>col_number = 1, col_value_tag = BER_TAG_INTEGER, col_access = MIB_ACCESS_RW\<rparr>],
      mt_first_index = table_first_index, mt_next_index = table_next_index,
      mt_get_cell = table_get_cell, mt_set_cell = Some table_set_cell\<rparr>"

section \<open>Setting up\<close>

definition setup_registry :: "mock registry" where
  "setup_registry = snd (mib_registry_register_module s_mock_objects (mib_registry_reset \<lparr>s_modules = [], s_tables = []\<rparr>))"

definition setup_with_table :: "mock registry" where
  "setup_with_table = snd (mib_registry_register_table s_mock_table setup_registry)"

definition setup_with_counter64 :: "mock registry" where
  "setup_with_counter64 = snd (mib_registry_register_module s_mock_counter64_objects setup_registry)"

definition setup_security :: "security option" where
  "setup_security = do {
     sec \<leftarrow> snmp_security_community_init (c_lit ''public'' @ [0]) (c_lit ''private'' @ [0])
       (snmp_security_reset \<lparr>s_slots = [], s_communities = \<lparr>s_ro_community = replicate 32 0, s_rw_community = replicate 32 0\<rparr>\<rparr>);
     Some (snmp_security_usm_stub_init sec)
   }"

definition setup_mock :: mock where
  "setup_mock = \<lparr>s_mock_b_value = 0, s_table_row1_value = 10, s_table_row2_value = 20\<rparr>"

definition make_null_varbind :: "oid \<Rightarrow> snmp_varbind" where
  "make_null_varbind oid = vb_zero\<lparr>vb_oid := oid, vb_tag := BER_TAG_NULL\<rparr>"

definition make_int_varbind :: "oid \<Rightarrow> i32 \<Rightarrow> snmp_varbind" where
  "make_int_varbind oid v = (make_null_varbind oid)\<lparr>vb_tag := BER_TAG_INTEGER, vb_value := UInt v\<rparr>"

text \<open>\<open>build_request\<close>; the empty list is its return value 0.\<close>

definition build_request ::
  "security \<Rightarrow> snmp_version \<Rightarrow> u8 \<Rightarrow> string \<Rightarrow> i32 \<Rightarrow> i32 \<Rightarrow> i32 \<Rightarrow> snmp_varbind list \<Rightarrow> u8 list \<Rightarrow> nat \<Rightarrow> u8 list option" where
  "build_request sec version pdu_tag community request_id field2 field3 varbinds out cap =
     (case snmp_security_lookup sec (version_code version) of
        None \<Rightarrow> Some []
      | Some model \<Rightarrow>
          let cs = take (SNMP_MAX_PRINCIPAL_LEN - 1) (c_lit community);
              req = ctx_zero\<lparr>ctx_version := version, ctx_pdu_tag := pdu_tag, ctx_request_id := request_id,
                ctx_error_status := field2, ctx_error_index := field3,
                ctx_principal := cs @ replicate (SNMP_MAX_PRINCIPAL_LEN - length cs) 0,
                ctx_varbind_count := length varbinds,
                ctx_varbinds := varbinds @ drop (length varbinds) (ctx_varbinds ctx_zero)\<rparr>
          in map_option (\<lambda>r. case r of Inl _ \<Rightarrow> [] | Inr packet \<Rightarrow> packet) (prepare_outgoing model req out cap))"

text \<open>
  \<open>decode_message_any_tag\<close>: the status of \<open>ber_decode_integer\<close> on the three fields is not looked at.
\<close>

definition or_zero :: "(ber_status + i32) option \<Rightarrow> i32 option" where
  "or_zero m = map_option (\<lambda>r. case r of Inl _ \<Rightarrow> 0 | Inr v \<Rightarrow> v) m"

definition decode_message_any_tag :: "u8 list \<Rightarrow> nat \<Rightarrow> (ber_status + snmp_pdu_ctx) option" where
  "decode_message_any_tag buf len =
     chk (ber_expect_tag buf 0 len 0 BER_TAG_SEQUENCE) (\<lambda>top.
     let p0 = tlv_value top; remaining0 = tlv_length top in
     chk (ber_expect_tag buf p0 remaining0 1 BER_TAG_INTEGER) (\<lambda>version_tlv.
     chk (ber_decode_integer buf version_tlv) (\<lambda>version_raw.
     let p1 = tlv_next version_tlv; remaining1 = remaining0 - (p1 - p0) in
     chk (ber_expect_tag buf p1 remaining1 1 BER_TAG_OCTET_STRING) (\<lambda>community_tlv.
     chk (ber_decode_octet_string buf community_tlv (SNMP_MAX_PRINCIPAL_LEN - 1)) (\<lambda>community.
     let p2 = tlv_next community_tlv; remaining2 = remaining1 - (p2 - p1) in
     chk (ber_decode_tlv buf p2 remaining2 1) (\<lambda>pdu.
     let q0 = tlv_value pdu; rem0 = tlv_length pdu in
     chk (ber_expect_tag buf q0 rem0 2 BER_TAG_INTEGER) (\<lambda>f1. do {
     request_id \<leftarrow> or_zero (ber_decode_integer buf f1);
     let q1 = tlv_next f1; let rem1 = rem0 - (q1 - q0);
     chk (ber_expect_tag buf q1 rem1 2 BER_TAG_INTEGER) (\<lambda>f2. do {
     error_status \<leftarrow> or_zero (ber_decode_integer buf f2);
     let q2 = tlv_next f2; let rem2 = rem1 - (q2 - q1);
     chk (ber_expect_tag buf q2 rem2 2 BER_TAG_INTEGER) (\<lambda>f3. do {
     error_index \<leftarrow> or_zero (ber_decode_integer buf f3);
     let q3 = tlv_next f3; let rem3 = rem2 - (q3 - q2);
     chk (snmp_decode_varbind_list buf q3 rem3 2 (ctx_varbinds ctx_zero) SNMP_MAX_VARBINDS) (\<lambda>(vbs, n).
       Some (Inr (ctx_zero\<lparr>
         ctx_version := (if version_raw = 0 then SNMP_VERSION_V1 else if version_raw = 1 then SNMP_VERSION_V2C else SNMP_VERSION_V3),
         ctx_principal := community @ [0] @ drop (length community + 1) (ctx_principal ctx_zero),
         ctx_pdu_tag := tlv_tag pdu, ctx_request_id := request_id, ctx_error_status := error_status,
         ctx_error_index := error_index, ctx_varbinds := vbs, ctx_varbind_count := n\<rparr>)))
     })})})))))))"

section \<open>One exchange\<close>

record response =
  resp_tag :: u8
  resp_id :: i32
  resp_status :: i32
  resp_index :: i32
  resp_varbinds :: "(oid \<times> u8 \<times> vunion) list"

text \<open>What a test sees: nothing, when the response has length 0, or the decoded response; and the mock afterwards.\<close>

definition exchange ::
  "nat \<Rightarrow> mock registry \<Rightarrow> snmp_version \<Rightarrow> u8 \<Rightarrow> string \<Rightarrow> i32 \<Rightarrow> i32 \<Rightarrow> i32 \<Rightarrow> snmp_varbind list \<Rightarrow> (response option \<times> mock) option" where
  "exchange cap reg version pdu_tag community request_id field2 field3 varbinds = do {
     sec \<leftarrow> setup_security;
     packet \<leftarrow> build_request sec version pdu_tag community request_id field2 field3 varbinds (replicate cap 0xAA) cap;
     (resp, s) \<leftarrow> snmp_message_process reg sec packet (length packet) (replicate cap 0xAA) cap setup_mock;
     if resp = [] then Some (None, s)
     else do {
       r \<leftarrow> decode_message_any_tag resp (length resp);
       case r of
         Inl _ \<Rightarrow> None
       | Inr ctx \<Rightarrow> Some (Some \<lparr>resp_tag = ctx_pdu_tag ctx, resp_id = ctx_request_id ctx, resp_status = ctx_error_status ctx,
           resp_index = ctx_error_index ctx,
           resp_varbinds = map (\<lambda>vb. (vb_oid vb, vb_tag vb, vb_value vb)) (live_varbinds ctx)\<rparr>, s)
     }
   }"

definition answered :: "i32 \<Rightarrow> i32 \<Rightarrow> i32 \<Rightarrow> (oid \<times> u8 \<times> vunion) list \<Rightarrow> mock \<Rightarrow> (response option \<times> mock) option" where
  "answered request_id status index vbs s = Some (Some \<lparr>resp_tag = SNMP_PDU_GET_RESPONSE, resp_id = request_id,
     resp_status = status, resp_index = index, resp_varbinds = vbs\<rparr>, s)"

lemma test_get_request_success:
  "exchange 48 setup_registry SNMP_VERSION_V2C SNMP_PDU_GET_REQUEST ''public'' 1 0 0 [make_null_varbind OID_A] =
     answered 1 0 0 [(OID_A, BER_TAG_INTEGER, UInt 100)] setup_mock"
  by code_simp

section \<open>The tests\<close>

lemma test_get_request_v1_no_such_name:
  "exchange 48 setup_registry SNMP_VERSION_V1 SNMP_PDU_GET_REQUEST ''public'' 7 0 0 [make_null_varbind [1, 3, 6, 1, 4, 1, 11111, 9, 0]] =
     answered 7 2 1 [([1, 3, 6, 1, 4, 1, 11111, 9, 0], BER_TAG_NULL, UZero)] setup_mock"
  by code_simp

lemma test_get_request_v2c_no_such_object:
  "exchange 48 setup_registry SNMP_VERSION_V2C SNMP_PDU_GET_REQUEST ''public'' 8 0 0 [make_null_varbind [1, 3, 6, 1, 4, 1, 11111, 9, 0]] =
     answered 8 0 0 [([1, 3, 6, 1, 4, 1, 11111, 9, 0], SNMP_TAG_NO_SUCH_OBJECT, UZero)] setup_mock"
  by code_simp

lemma test_get_next_request_walks_to_first_object:
  "exchange 48 setup_registry SNMP_VERSION_V2C SNMP_PDU_GET_NEXT_REQUEST ''public'' 2 0 0 [make_null_varbind [1, 3, 6, 1, 4, 1, 11111, 0]] =
     answered 2 0 0 [(OID_A, BER_TAG_INTEGER, UInt 100)] setup_mock"
  by code_simp

lemma test_get_counter64:
  "exchange 48 setup_with_counter64 SNMP_VERSION_V2C SNMP_PDU_GET_REQUEST ''public'' 30 0 0 [make_null_varbind OID_D] =
     answered 30 0 0 [(OID_D, SNMP_TAG_COUNTER64, UCounter64 0x1FFFFFFFF)] setup_mock"
  "exchange 48 setup_with_counter64 SNMP_VERSION_V1 SNMP_PDU_GET_REQUEST ''public'' 31 0 0 [make_null_varbind OID_D] =
     answered 31 2 1 [(OID_D, BER_TAG_NULL, UZero)] setup_mock"
  by code_simp+

lemma test_getnext_counter64:
  "exchange 48 setup_with_counter64 SNMP_VERSION_V2C SNMP_PDU_GET_NEXT_REQUEST ''public'' 32 0 0 [make_null_varbind OID_C] =
     answered 32 0 0 [(OID_D, SNMP_TAG_COUNTER64, UCounter64 0x1FFFFFFFF)] setup_mock"
  "exchange 48 setup_with_counter64 SNMP_VERSION_V1 SNMP_PDU_GET_NEXT_REQUEST ''public'' 33 0 0 [make_null_varbind OID_C] =
     answered 33 2 1 [(OID_C, BER_TAG_NULL, UZero)] setup_mock"
  by code_simp+

lemma test_getbulk_walks_through_counter64_v2c:
  "exchange 64 setup_with_counter64 SNMP_VERSION_V2C SNMP_PDU_GET_BULK_REQUEST ''public'' 34 0 2 [make_null_varbind OID_C] =
     answered 34 0 0 [(OID_D, SNMP_TAG_COUNTER64, UCounter64 0x1FFFFFFFF), (OID_D, SNMP_TAG_END_OF_MIB_VIEW, UZero)] setup_mock"
  by code_simp

lemma test_set_request_dropped_without_write_access:
  "exchange 48 setup_registry SNMP_VERSION_V2C SNMP_PDU_SET_REQUEST ''public'' 3 0 0 [make_int_varbind OID_B 42] = Some (None, setup_mock)"
  by code_simp

lemma test_set_request_success:
  "exchange 48 setup_registry SNMP_VERSION_V2C SNMP_PDU_SET_REQUEST ''private'' 4 0 0 [make_int_varbind OID_B 42] =
     answered 4 0 0 [(OID_B, BER_TAG_INTEGER, UInt 42)] (setup_mock\<lparr>s_mock_b_value := 42\<rparr>)"
  by code_simp

lemma test_set_request_on_read_only_object:
  "exchange 48 setup_registry SNMP_VERSION_V2C SNMP_PDU_SET_REQUEST ''private'' 5 0 0 [make_int_varbind OID_A 1] =
     answered 5 4 1 [(OID_A, BER_TAG_INTEGER, UInt 1)] setup_mock"
  by code_simp

lemma test_unknown_community_dropped:
  "exchange 48 setup_registry SNMP_VERSION_V2C SNMP_PDU_GET_REQUEST ''bogus'' 6 0 0 [make_null_varbind OID_A] = Some (None, setup_mock)"
  by code_simp

lemma test_unsupported_version_dropped:
  "map_option (\<lambda>sec. snmp_message_process setup_registry sec [0x30, 0x03, 0x02, 0x01, 99] 5 (replicate 64 0xAA) 64 setup_mock)
     setup_security = Some (Some ([], setup_mock))"
  by code_simp

lemma test_getbulk_walks_and_hits_end_of_view:
  "exchange 104 setup_registry SNMP_VERSION_V2C SNMP_PDU_GET_BULK_REQUEST ''public'' 9 0 5 [make_null_varbind [1, 3, 6, 1, 4, 1, 11111, 0]] =
     answered 9 0 0 [(OID_A, BER_TAG_INTEGER, UInt 100), (OID_B, BER_TAG_INTEGER, UInt 0), (OID_C, BER_TAG_INTEGER, UInt 300),
       (OID_C, SNMP_TAG_END_OF_MIB_VIEW, UZero)] setup_mock"
  by code_simp

lemma test_getbulk_non_repeaters:
  "exchange 64 setup_registry SNMP_VERSION_V2C SNMP_PDU_GET_BULK_REQUEST ''public'' 10 1 1
       [make_null_varbind [1, 3, 6, 1, 4, 1, 11111, 0], make_null_varbind OID_A] =
     answered 10 0 0 [(OID_A, BER_TAG_INTEGER, UInt 100), (OID_B, BER_TAG_INTEGER, UInt 0)] setup_mock"
  by code_simp

lemma test_get_table_cell_end_to_end:
  "exchange 48 setup_with_table SNMP_VERSION_V2C SNMP_PDU_GET_REQUEST ''public'' 20 0 0 [make_null_varbind (TABLE_ENTRY @ [1, 1])] =
     answered 20 0 0 [(TABLE_ENTRY @ [1, 1], BER_TAG_INTEGER, UInt 10)] setup_mock"
  by code_simp

lemma test_getnext_walks_from_scalar_into_table_end_to_end:
  "exchange 48 setup_with_table SNMP_VERSION_V2C SNMP_PDU_GET_NEXT_REQUEST ''public'' 21 0 0 [make_null_varbind OID_C] =
     answered 21 0 0 [(TABLE_ENTRY @ [1, 1], BER_TAG_INTEGER, UInt 10)] setup_mock"
  by code_simp

lemma test_getbulk_walks_full_table_end_to_end:
  "exchange 104 setup_with_table SNMP_VERSION_V2C SNMP_PDU_GET_BULK_REQUEST ''public'' 22 0 5 [make_null_varbind TABLE_ENTRY] =
     answered 22 0 0 [(TABLE_ENTRY @ [1, 1], BER_TAG_INTEGER, UInt 10), (TABLE_ENTRY @ [1, 2], BER_TAG_INTEGER, UInt 20),
       (TABLE_ENTRY @ [1, 2], SNMP_TAG_END_OF_MIB_VIEW, UZero)] setup_mock"
  by code_simp

lemma test_set_table_cell_end_to_end:
  "exchange 48 setup_with_table SNMP_VERSION_V2C SNMP_PDU_SET_REQUEST ''private'' 23 0 0 [make_int_varbind (TABLE_ENTRY @ [1, 2]) 99] =
     answered 23 0 0 [(TABLE_ENTRY @ [1, 2], BER_TAG_INTEGER, UInt 99)] (setup_mock\<lparr>s_table_row2_value := 99\<rparr>)"
  by code_simp

text \<open>
  \<open>test_getbulk_clamps_excess_repeating_columns\<close>, at the handler: of 20 repeating varbinds 16 count, and two
  rounds of them give 32 results.
\<close>

definition bulk_request :: "i32 \<Rightarrow> snmp_varbind list \<Rightarrow> snmp_pdu_ctx" where
  "bulk_request repetitions varbinds =
     ctx_zero\<lparr>ctx_version := SNMP_VERSION_V2C, ctx_pdu_tag := SNMP_PDU_GET_BULK_REQUEST, ctx_error_index := repetitions,
       ctx_varbind_count := length varbinds, ctx_varbinds := varbinds @ drop (length varbinds) (ctx_varbinds ctx_zero)\<rparr>"

lemma test_getbulk_clamps_excess_repeating_columns:
  "map_option (\<lambda>((st, ctx), _). (st, map vb_value (live_varbinds ctx)))
     (snmp_pdu_handle_getbulk setup_registry
       (bulk_request 2 (replicate 20 (make_null_varbind [1, 3, 6, 1, 4, 1, 11111, 0]))) setup_mock) =
   Some (BER_OK, replicate 16 (UInt 100) @ replicate 16 (UInt 0))"
  by code_simp

section \<open>Notifications\<close>

lemma test_v2c_trap_build_and_decode:
  "do {
     packet \<leftarrow> snmp_trap_build SNMP_VERSION_V2C (c_lit ''public'' @ [0]) 12345 [1, 3, 6, 1, 4, 1, 99999, 3, 0, 1] None
       [make_int_varbind OID_B 1] (replicate 104 0xAA) 104;
     r \<leftarrow> decode_message_any_tag packet (length packet);
     Some (map_sum id (\<lambda>ctx. (ctx_pdu_tag ctx, map (\<lambda>vb. (vb_tag vb, vb_value vb)) (live_varbinds ctx))) r)
   } = Some (Inr (SNMP_PDU_TRAP_V2, [(SNMP_TAG_TIMETICKS, UInt 12345),
     (BER_TAG_OID, UOid [1, 3, 6, 1, 4, 1, 99999, 3, 0, 1]), (BER_TAG_INTEGER, UInt 1)]))"
  by code_simp

lemma test_v1_trap_build_starts_with_correct_envelope:
  "do {
     packet \<leftarrow> snmp_trap_build SNMP_VERSION_V1 (c_lit ''public'' @ [0]) 999 [1, 3, 6, 1, 4, 1, 99999] (Some [192, 168, 1, 50])
       [make_int_varbind OID_B 1] (replicate 80 0xAA) 80;
     chk (ber_expect_tag packet 0 (length packet) 0 BER_TAG_SEQUENCE) (\<lambda>top.
     chk (ber_expect_tag packet (tlv_value top) (tlv_length top) 1 BER_TAG_INTEGER) (\<lambda>version_tlv.
     ber_decode_integer packet version_tlv))
   } = Some (Inr (version_code SNMP_VERSION_V1))"
  by code_simp

end
