(* ===== verification/Host_Test_Fuzz.thy ===== *)
theory Host_Test_Fuzz
  imports Host_Test_Message
begin

text \<open>
  \<open>host_tests/test_fuzz_corpus.c\<close>: malformed datagrams are handled safely. The test samples them; here the
  module and the table of the test are a backend of the model, and every datagram is handled.
\<close>

section \<open>The mocked module and table\<close>

definition fuzz_get :: "i32 \<Rightarrow> unit mib_get_fn" where
  "fuzz_get v vb s = Some ((MIB_OK, put_int BER_TAG_INTEGER v vb), s)"

definition fuzz_object :: "unit mib_object" where
  "fuzz_object = \<lparr>mo_oid = [1, 3, 6, 1, 4, 1, 99999, 1, 0], mo_value_tag = BER_TAG_INTEGER, mo_access = MIB_ACCESS_RO,
     mo_getter = fuzz_get 1, mo_setter = None\<rparr>"

definition fuzz_table :: "unit mib_table" where
  "fuzz_table =
     \<lparr>mt_entry_oid = [1, 3, 6, 1, 4, 1, 99999, 2, 1],
      mt_columns = [\<lparr>col_number = 1, col_value_tag = BER_TAG_INTEGER, col_access = MIB_ACCESS_RO\<rparr>],
      mt_first_index = (\<lambda>s. (Inr 1, s)), mt_next_index = (\<lambda>cur s. (if cur < 2 then Inr 2 else Inl MIB_END_OF_VIEW, s)),
      mt_get_cell = (\<lambda>_ _. fuzz_get 42), mt_set_cell = None\<rparr>"

definition fuzz_registry :: "unit registry" where
  "fuzz_registry =
     snd (mib_registry_register_table fuzz_table
       (snd (mib_registry_register_module [fuzz_object] (mib_registry_reset \<lparr>s_modules = [], s_tables = []\<rparr>))))"

lemma fuzz_registry_members: "s_modules fuzz_registry = [[fuzz_object]]" "s_tables fuzz_registry = [fuzz_table]"
  by (simp_all add: fuzz_registry_def mib_registry_reset_def mib_registry_register_module_def
      mib_registry_register_table_def)

lemma fuzz_get_ok: "getter_ok (\<lambda>_. True) BER_TAG_INTEGER (fuzz_get v)"
  by (auto simp: getter_ok_def fuzz_get_def)

interpretation fuzz_rows: mib_table_rows fuzz_table "\<lambda>_. True" "\<lambda>_. [1, 2]"
  by unfold_locales (auto simp: fuzz_table_def split: if_splits)

interpretation fuzz: mib_backend fuzz_registry "\<lambda>_. True"
proof unfold_locales
  show "object_reads (\<lambda>_. True) obj" if "obj \<in> scalars fuzz_registry" for obj
    using that fuzz_get_ok by (simp add: fuzz_registry_members object_reads_def fuzz_object_def)
  show "table_reads (\<lambda>_. True) t" if "t \<in> set (s_tables fuzz_registry)" for t
    using that fuzz_get_ok fuzz_rows.mib_table_walk_axioms
    by (simp add: fuzz_registry_members table_reads_def) (simp add: fuzz_table_def)
qed (simp_all add: fuzz_registry_members fuzz_object_def fuzz_table_def)

section \<open>The models of the test\<close>

lemma setup_security_eq:
  "setup_security = Some
     \<lparr>s_slots = [(0, s_community_model), (1, s_community_model), (3, s_usm_stub_model)],
      s_communities = \<lparr>s_ro_community = c_lit ''public'' @ replicate 26 0, s_rw_community = c_lit ''private'' @ replicate 25 0\<rparr>\<rparr>"
proof -
  have "copy_community (c_lit ''public'' @ [0]) = Some (c_lit ''public'' @ replicate 26 0)"
    "copy_community (c_lit ''private'' @ [0]) = Some (c_lit ''private'' @ replicate 25 0)"
    by code_simp+
  then show ?thesis
    by (simp add: setup_security_def snmp_security_community_init_def snmp_security_usm_stub_init_def
        snmp_security_reset_def snmp_security_register_def)
qed

lemma setup_security_ok: "setup_security = Some sec \<Longrightarrow> security_ok sec"
  using community.security_model_axioms usm_stub.security_model_axioms
  by (auto simp: setup_security_eq security_ok_def communities_ok_def)

text \<open>
  \<open>assert_handles_safely\<close>, for every content of the receive buffer: the datagram is processed, without
  undefined behaviour, and the response is not larger than its buffer.
\<close>

lemma corpus_handled_safely:
  assumes "setup_security = Some sec" and "len \<le> length packet" and "length out = 512"
  shows "\<exists>response. snmp_message_process fuzz_registry sec packet len out 512 () = Some (response, ()) \<and>
    length response \<le> 512"
  using fuzz.message_total [OF setup_security_ok [OF assms(1)] assms(2), of 512 out "()"] assms(3) by simp

section \<open>What happens to some of them\<close>

definition fuzzed :: "u8 list \<Rightarrow> u8 list option" where
  "fuzzed packet = do {
     sec \<leftarrow> setup_security;
     map_option fst (snmp_message_process fuzz_registry sec packet (length packet) (replicate 64 0xAA) 64 ())
   }"

text \<open>A header that is cut short, of indefinite length, or longer than the datagram, is dropped.\<close>

lemma test_malformed_headers:
  "fuzzed [] = Some []" "fuzzed [0x30] = Some []" "fuzzed [0x30, 0x81] = Some []" "fuzzed [0x30, 0x80, 0x00, 0x00] = Some []"
  "fuzzed [0x30, 0x7F, 0x02, 0x01, 0x00] = Some []"
  by code_simp+

lemma test_oid_arc_exceeding_uint32_is_rejected_cleanly:
  "fuzzed [0x30, 0x25, 0x02, 0x01, 0x01, 0x04, 0x06, 0x70, 0x75, 0x62, 0x6C, 0x69, 0x63, 0xA0, 0x18, 0x02, 0x01, 0x01,
     0x02, 0x01, 0x00, 0x02, 0x01, 0x00, 0x30, 0x0D, 0x30, 0x0B, 0x06, 0x07, 0x2B, 0xFF, 0xFF, 0xFF, 0xFF, 0xFF, 0x7F,
     0x05, 0x00] = Some []"
  by code_simp

text \<open>The request of the tests, and every datagram that is cut off it.\<close>

definition request_packet :: "oid \<Rightarrow> u8 list option" where
  "request_packet oid = do {
     sec \<leftarrow> setup_security;
     build_request sec SNMP_VERSION_V2C SNMP_PDU_GET_REQUEST ''public'' 1 0 0 [make_null_varbind oid] (replicate 64 0xAA) 64
   }"

lemma test_truncated_valid_request_at_every_prefix_length:
  "map_option (\<lambda>packet. list_all (\<lambda>n. fuzzed (take n packet) = Some []) [0..<length packet])
     (request_packet [1, 3, 6, 1, 4, 1, 99999, 1, 0]) = Some True"
  by code_simp

text \<open>The continuation bit on the last octet of the name makes it run off its end.\<close>

lemma test_oid_with_unterminated_continuation_in_varbind:
  "Option.bind (request_packet [1, 3, 6, 1, 4, 1, 99999, 1, 0])
     (\<lambda>packet. fuzzed (packet[length packet - 3 := (packet ! (length packet - 3)) OR 0x80])) = Some []"
  by code_simp

text \<open>Names that no row and no column has are answered with an exception.\<close>

definition exception_of :: "oid \<Rightarrow> u8 option" where
  "exception_of oid = do {
     packet \<leftarrow> request_packet oid;
     response \<leftarrow> fuzzed packet;
     r \<leftarrow> decode_message_any_tag response (length response);
     case r of Inl _ \<Rightarrow> None | Inr ctx \<Rightarrow> Some (vb_tag (ctx_varbinds ctx ! 0))
   }"

lemma test_hostile_table_names:
  "exception_of [1, 3, 6, 1, 4, 1, 99999, 2, 1, 1, 0xFFFFFFFF] = Some SNMP_TAG_NO_SUCH_INSTANCE"
  "exception_of [1, 3, 6, 1, 4, 1, 99999, 2, 1] = Some SNMP_TAG_NO_SUCH_OBJECT"
  "exception_of [1, 3, 6, 1, 4, 1, 99999, 2, 1, 1] = Some SNMP_TAG_NO_SUCH_OBJECT"
  "exception_of [1, 3, 6, 1, 4, 1, 99999, 2, 1, 1, 1, 1, 1] = Some SNMP_TAG_NO_SUCH_OBJECT"
  by code_simp+

end
