(* ===== verification/Spec2Isabelle.thy ===== *)
theory Spec2Isabelle
  imports Ber_Correct Registry_Properties Device_Properties One_Wire_Properties Wifi_Properties Monitor_Properties
    Trap_Properties Protocol_Properties Agent_Runs Dev_Agent_Properties
    Host_Test_Ber Host_Test_Mib Host_Test_Fuzz
begin

text \<open>
  A verification library for Wespe, an SNMP agent (v1, v2c, a stub for v3) for the ESP32-S3 written in C,
  and for the development agent that serves the same protocol engine on a Linux host.

  \<^bold>\<open>The program.\<close> A datagram goes from the socket (\<open>transport/snmp_udp.c\<close>) to \<open>snmp_message.c\<close>, which asks
  the security model registered for its version (\<open>snmp_security*.c\<close>) to authenticate and decode it
  (\<open>snmp_codec.c\<close> over \<open>ber_decode.c\<close>), hands the request to the handler of its PDU (\<open>snmp_dispatch.c\<close>,
  \<open>snmp_pdu_{get,set,getbulk}.c\<close>), and has the response encoded (\<open>snmp_codec.c\<close> over \<open>ber_encode.c\<close>). The
  handlers reach objects and table cells through \<open>mib_registry.c\<close>, whose modules (\<open>mib_ii.c\<close>,
  \<open>mib_wespe.c\<close>, \<open>mib_iftable.c\<close>, \<open>mib_sensor_table.c\<close>) call the drivers (\<open>device_hal\<close>). A second task
  (\<open>trap_monitor.c\<close>) polls relay and temperature and sends notifications (\<open>snmp_pdu_trap.c\<close>).
  \<open>app_main.c\<close> brings up WiFi (\<open>wifi_provisioning.c\<close>), registers everything and starts both tasks.

  \<^bold>\<open>How the C is read.\<close> A routine is a function of the state it reads and writes. The outer \<open>option\<close> is
  definedness: \<open>None\<close> is undefined behaviour or a loop that never ends, so \<open>\<exists>r. f x = Some r\<close> is memory
  safety and termination of \<open>f\<close>. Inside it a status code is \<open>Inl\<close>, a result \<open>Inr\<close>. Machine integers are
  words of their width; a count of bytes or slots is a \<open>nat\<close> under its bound. What is not in the repository
  (ESP-IDF, FreeRTOS, lwIP, the host's clock and sockets, the levels on a bus) is a parameter that answers
  by the number of calls made so far (\<open>env\<close>, \<open>net_env\<close>, \<open>wifi_env\<close>, \<open>h_time\<close>, \<open>ow_answers\<close>); how many ticks
  a time is and how long \<open>vTaskDelay\<close> sleeps are the parameters \<open>ow_ticks\<close> and \<open>ow_sleep\<close>, and what FreeRTOS
  documents of them is the hypothesis \<open>freertos_delays\<close>.

  \<^bold>\<open>Theories and sources\<close> (each group: definitions, then what is shown of them).
  \<^item> \<open>Wespe_Prelude\<close>: the status-checking bind \<open>chk\<close>, memory as bytes with offsets, big-endian folds.
  \<^item> \<open>components/ber\<close>: \<open>Ber_Types\<close>, \<open>Ber_Decode\<close>, \<open>Ber_Encode\<close>, one definition per routine. \<open>Ber_Emits\<close> is
    the contract calculus of the backward-building encoder (writes exactly its grammar, or fails, and
    touches nothing else); \<open>Ber_Roundtrip\<close> the locale \<open>ber_codec\<close>, interpreted for every value type in
    \<open>Ber_Values\<close> and \<open>Ber_Oid\<close>; \<open>Ber_Correct\<close> the properties.
  \<^item> \<open>components/mib\<close>: \<open>Mib_Types\<close> (varbinds, objects, tables), \<open>Mib_Registry\<close>; \<open>Mib_Registry_Correct\<close> (the
    searches), \<open>Mib_Tables\<close> (the locales \<open>mib_table_walk\<close>, \<open>mib_table_ids\<close>, \<open>mib_table_rows\<close>, what a table
    promises when its rows may change, change within a set, or stay), \<open>Mib_Resolve\<close> (lookup and successor
    over a registry), \<open>Registry_Properties\<close>. The modules are \<open>Mib_Ii\<close>, \<open>Mib_Wespe\<close>, \<open>Mib_Iftable\<close>,
    \<open>Mib_Sensor_Table\<close>, each with its contracts; \<open>Mib_Backend\<close> collects these contracts as the locales
    \<open>mib_reads\<close>, \<open>mib_backend\<close> and \<open>mib_settled\<close> that the protocol engine relies on.
  \<^item> \<open>components/device_hal\<close>: \<open>Device_Hal\<close> (relay, sensors, telemetry and their mocks, the device state),
    \<open>Sensor_Reading\<close> (what a read of the sensor answers, as a function of the device), \<open>One_Wire\<close> (the
    DS18B20 driver on the pin, with its delays), \<open>Device_Properties\<close>, \<open>One_Wire_Properties\<close> (the slots on the
    bus against the data sheet).
  \<^item> \<open>components/snmp_core\<close>: \<open>Snmp_Pdu\<close>, \<open>Snmp_Codec\<close> with \<open>Snmp_Codec_Safe\<close>, \<open>Snmp_Codec_Grammar\<close>,
    \<open>Snmp_Codec_Roundtrip\<close>; \<open>Snmp_Error\<close>; \<open>Snmp_Pdu_Get\<close>, \<open>Snmp_Pdu_Set\<close>, \<open>Snmp_Pdu_Getbulk\<close>, each with a
    \<open>_Correct\<close> theory over \<open>mib_reads\<close> or \<open>mib_backend\<close>, and \<open>Snmp_Pdu_Get_View\<close> over \<open>mib_settled\<close>: there
    \<open>read_response\<close> is the whole response to a GetRequest or GetNextRequest, its error status and index
    included, as a function of what the reads of the instances deliver;
    \<open>Snmp_Security\<close> with the locale \<open>security_model\<close> in \<open>Snmp_Security_Correct\<close>; \<open>Snmp_Message\<close> with
    \<open>Snmp_Message_Correct\<close> (total on every datagram), \<open>Snmp_Message_Local\<close> (a function of the datagram
    alone) and \<open>Snmp_Message_Roundtrip\<close> (a request is understood as it was written); \<open>Snmp_Trap\<close> with
    \<open>Trap_Properties\<close>; \<open>Protocol_Properties\<close>.
  \<^item> \<open>components/transport\<close>: \<open>Snmp_Udp\<close>, \<open>Snmp_Udp_Correct\<close>.
  \<^item> \<open>main\<close>: \<open>App_Main\<close> (registrations, and the interpretations of the interfaces on the registry of the
    firmware), \<open>App_System\<close> (boot, and the two tasks turn by turn in any order, as the relation
    \<open>agent_reaches\<close>), \<open>App_Security\<close> (access control), \<open>Trap_Monitor\<close> with \<open>Trap_Monitor_Correct\<close> (the
    abstract monitor on the readings of the devices it finds) and \<open>Monitor_Properties\<close>, \<open>Wifi_Provisioning\<close>
    with \<open>Wifi_Properties\<close>.
  \<^item> The agent end to end: \<open>Agent_Walk\<close>, \<open>Agent_Samples\<close> (the concrete build of the witnesses),
    \<open>Agent_Properties\<close>, \<open>Agent_Protocol\<close>, \<open>Agent_Set\<close>, \<open>Agent_Settings\<close>, \<open>Buffer_Properties\<close>.
  \<^item> The specification of the settings: \<open>Agent_Store\<close> (the record \<open>agent_settings\<close> with its write and read,
    the abstraction \<open>settings_of\<close> of the C arrays, and SetRequest as its refinement), \<open>Agent_Store_Reads\<close>
    (GetRequest, and what is read after a set), \<open>Agent_Runs\<close> (whole runs of both tasks: the settings follow
    the accepted SetRequests, the relay notifications follow the settings).
  \<^item> \<open>tools/dev_agent\<close>: \<open>Dev_Agent\<close> (its MIB in memory), \<open>Dev_Agent_Correct\<close> (invariant and contracts),
    \<open>Dev_Agent_Main\<close> (\<open>main\<close> and its loop, and the interpretation of \<open>mib_backend\<close>),
    \<open>Dev_Agent_Properties\<close> (among them \<open>host_serves\<close>, who is sent which response in which order).
  \<^item> \<open>host_tests\<close>: \<open>Host_Test_Ber\<close>, \<open>Host_Test_Mib\<close>, \<open>Host_Test_Message\<close>, \<open>Host_Test_Fuzz\<close>, the mocked modules of
    the tests and the tests themselves, evaluated on the model under their names: the model gives what the
    C code is tested to give. Where a test samples, a lemma says it for all: any pattern of switched-off
    rows (\<open>two_tables_resolve\<close>), any datagram (\<open>corpus_handled_safely\<close>).

  \<^bold>\<open>Bounds and loops.\<close> Loops whose end depends on callbacks (\<open>row_exists_loop\<close>, \<open>next_row_loop\<close>) are partial
  functions, proved total for every table whose steps go up; the guard of 64 turns of \<open>lookup_loop\<close> is the
  one of the code, and enough for a v1 walk because fewer than 64 instances are Counter64. \<open>snmpwalk\<close> has a
  number of requests as fuel: one more than there are later instances suffices for the firmware, 47 for the
  host agent. The tasks run forever; their loops are functions of a list of turns.

  \<^bold>\<open>Assumptions.\<close> A MAC address has six octets; the buffers have their declared sizes, which is below
  \<open>2 ^ 32\<close>; the clock of the host counts less than \<open>2 ^ 56\<close> seconds. The theorems that say exactly what a walk
  or a read answers are about a set of sensors that stays, and where they say so a device whose reads
  succeed; definedness, termination and access control are for all devices and all answers.

  \<^bold>\<open>Not modelled.\<close> Log output and the messages on \<open>stderr\<close>; \<open>errno\<close>; the delay between two polls of a task;
  preemption inside a turn, except where a task reads what another
  wrote under its lock (the polls of the sensor); the contents of an output buffer beyond the bytes that
  are sent; \<open>NULL\<close> arguments that no caller passes; the port a socket is bound to; the macros of
  \<open>unity_mini.h\<close>, and the tests of the fuzz corpus that only repeat the sampling of a lemma. \<open>mibs\<close> and
  \<open>docs\<close> hold no code.
\<close>

end
